(* ===== verification/Prelude.thy ===== *)
theory Prelude
  imports Main "HOL-Library.Sublist" "HOL-Library.AList"
begin

text \<open>
  Shared vocabulary of the development. Go strings and byte slices are byte sequences, so both
  are \<open>string\<close> (a \<open>char\<close> is one byte). A Go call that can panic returns \<open>'a go\<close>; an error
  return is a value of a sum or option type. The theory also holds the functions of package
  \<open>strings\<close> and the verb \<open>%c\<close> of \<open>fmt\<close> that the sources use, and the generic lemmas on lists,
  association lists and strings on which the component theories rest.
\<close>

named_theorems go_simps \<open>unfolding rules for the operations of the components\<close>
named_theorems wf_intros \<open>introduction rules for well-formedness invariants\<close>

section \<open>Outcomes of Go calls\<close>

text \<open>A call either returns or panics; the text of a panic is not modelled.\<close>

datatype 'a go = Ret 'a | Panic

text \<open>Sequencing of calls: a panic aborts what follows.\<close>

fun bind_go :: "'a go \<Rightarrow> ('a \<Rightarrow> 'b go) \<Rightarrow> 'b go" where
  "bind_go (Ret a) f = f a"
| "bind_go Panic f = Panic"

lemma bind_go_eq_Ret: "bind_go m f = Ret b \<longleftrightarrow> (\<exists>a. m = Ret a \<and> f a = Ret b)"
  by (cases m) auto

lemma bind_go_eq_Panic: "bind_go m f = Panic \<longleftrightarrow> m = Panic \<or> (\<exists>a. m = Ret a \<and> f a = Panic)"
  by (cases m) auto

text \<open>A loop whose body may panic.\<close>

primrec fold_go :: "('a \<Rightarrow> 's \<Rightarrow> 's go) \<Rightarrow> 'a list \<Rightarrow> 's \<Rightarrow> 's go" where
  "fold_go f [] s = Ret s"
| "fold_go f (x # xs) s = bind_go (f x s) (fold_go f xs)"

lemma bind_go_assoc: "bind_go (bind_go m f) g = bind_go m (\<lambda>a. bind_go (f a) g)"
  by (cases m) auto

lemma bind_go_Ret [simp]: "bind_go m Ret = m"
  by (cases m) auto

lemma fold_go_append: "fold_go f (xs @ ys) = (\<lambda>s. bind_go (fold_go f xs s) (fold_go f ys))"
proof (induction xs)
  case (Cons x xs)
  show ?case by (rule ext) (simp add: Cons bind_go_assoc)
qed (simp add: fun_eq_iff)

lemma fold_go_Cons: "fold_go f (x # xs) = (\<lambda>s. bind_go (f x s) (fold_go f xs))"
  by (rule ext) simp

lemma fold_go_Nil: "fold_go f [] = Ret"
  by (rule ext) simp

lemma bind_go_PanicI: "(\<And>a. f a = Panic) \<Longrightarrow> bind_go m f = Panic"
  by (cases m) auto

section \<open>Package strings and fmt\<close>

text \<open>\<open>strings.Split(s, sep)\<close> for a separator of one byte: never empty.\<close>

fun split_on :: "char \<Rightarrow> string \<Rightarrow> string list" where
  "split_on c [] = [[]]"
| "split_on c (x # xs) =
     (if x = c then [] # split_on c xs
      else (case split_on c xs of [] \<Rightarrow> [[x]] | y # ys \<Rightarrow> (x # y) # ys))"

text \<open>\<open>strings.HasPrefix\<close> and \<open>strings.TrimPrefix\<close>.\<close>

definition HasPrefix :: "string \<Rightarrow> string \<Rightarrow> bool" where
  "HasPrefix s p \<longleftrightarrow> prefix p s"

definition TrimPrefix :: "string \<Rightarrow> string \<Rightarrow> string" where
  "TrimPrefix s p = (if prefix p s then drop (length p) s else s)"

text \<open>\<open>strings.LastIndex\<close> for a one-byte needle; \<open>None\<close> stands for the result -1.\<close>

fun last_index :: "char \<Rightarrow> string \<Rightarrow> nat option" where
  "last_index c [] = None"
| "last_index c (x # xs) =
     (case last_index c xs of
        Some i \<Rightarrow> Some (Suc i)
      | None \<Rightarrow> (if x = c then Some 0 else None))"

text \<open>
  \<open>fmt.Sprintf("%c", b)\<close> for a byte \<open>b\<close>: the UTF-8 encoding of the code point \<open>b\<close>, so two
  bytes when \<open>b\<close> is 128 or more.
\<close>

definition sprintf_c :: "char \<Rightarrow> string" where
  "sprintf_c c =
     (let n = (of_char c :: nat) in
      if n < 128 then [c] else [char_of (192 + n div 64), char_of (128 + n mod 64)])"

text \<open>The verb \<open>%d\<close>: decimal digits, with a minus sign for a negative number.\<close>

fun sprintf_nat :: "nat \<Rightarrow> string" where
  "sprintf_nat n =
     (if n < 10 then [char_of (48 + n)] else sprintf_nat (n div 10) @ [char_of (48 + n mod 10)])"

definition sprintf_d :: "int \<Rightarrow> string" where
  "sprintf_d i = (if i < 0 then CHR ''-'' # sprintf_nat (nat (- i)) else sprintf_nat (nat i))"

text \<open>A conversion to \<open>int32\<close>: the low 32 bits, read as a signed number.\<close>

definition to_int32 :: "int \<Rightarrow> int" where
  "to_int32 i = (i + 2 ^ 31) mod 2 ^ 32 - 2 ^ 31"

definition to_int64 :: "int \<Rightarrow> int" where
  "to_int64 i = (i + 2 ^ 63) mod 2 ^ 64 - 2 ^ 63"

declare sprintf_nat.simps [simp del]

lemma to_int64_id: "- (2 ^ 63) \<le> i \<Longrightarrow> i < 2 ^ 63 \<Longrightarrow> to_int64 i = i"
  by (simp add: to_int64_def)

lemma to_int32_id: "- (2 ^ 31) \<le> i \<Longrightarrow> i < 2 ^ 31 \<Longrightarrow> to_int32 i = i"
  by (simp add: to_int32_def)

lemma to_int32_range: "- (2 ^ 31) \<le> to_int32 i \<and> to_int32 i < 2 ^ 31"
  using pos_mod_bound [of "2 ^ 32" "i + 2 ^ 31"] pos_mod_sign [of "2 ^ 32" "i + 2 ^ 31"]
  by (simp add: to_int32_def)

lemma split_on_not_Nil [simp]: "split_on c s \<noteq> []"
  by (induction s) (auto split: list.splits)

lemma split_on_absent [simp]: "c \<notin> set s \<Longrightarrow> split_on c s = [s]"
  by (induction s) auto

lemma split_on_append [simp]: "c \<notin> set a \<Longrightarrow> split_on c (a @ c # b) = a # split_on c b"
  by (induction a) auto

lemma last_index_None [simp]: "last_index c s = None \<longleftrightarrow> c \<notin> set s"
  by (induction s) (auto split: option.splits)

lemma last_index_append:
  assumes "c \<notin> set b"
  shows "last_index c (a @ c # b) = Some (length a)"
proof -
  have none: "last_index c b = None" using assms by simp
  show ?thesis by (induction a) (simp_all add: none del: last_index_None)
qed

lemma TrimPrefix_append [simp]: "TrimPrefix (p @ s) p = s"
  by (simp add: TrimPrefix_def)

lemma HasPrefix_append [simp]: "HasPrefix (p @ s) p"
  by (simp add: HasPrefix_def)

lemma sprintf_c_ascii [simp]: "of_char c < (128::nat) \<Longrightarrow> sprintf_c c = [c]"
  by (simp add: sprintf_c_def)

lemma sprintf_c_wide:
  "\<not> of_char c < (128::nat) \<Longrightarrow>
   sprintf_c c = [char_of (192 + of_char c div 64 :: nat), char_of (128 + of_char c mod 64 :: nat)]"
  by (simp add: sprintf_c_def Let_def)

lemma of_char_lt_256: "(of_char c :: nat) < 256"
  using nat_of_char_less_256 by simp

lemma wide_first_byte:
  fixes n :: nat
  assumes "n < 256"
  shows "(of_char (char_of (192 + n div 64) :: char) :: nat) = 192 + n div 64"
    and "(of_char (char_of (128 + n mod 64) :: char) :: nat) = 128 + n mod 64"
proof -
  have "192 + n div 64 < 256" using assms by (simp add: less_mult_imp_div_less)
  then show "(of_char (char_of (192 + n div 64) :: char) :: nat) = 192 + n div 64" by simp
  have "n mod 64 < 64" by simp
  then have "128 + n mod 64 < 256" by linarith
  then show "(of_char (char_of (128 + n mod 64) :: char) :: nat) = 128 + n mod 64" by simp
qed

text \<open>Prefixing a segment by its re-encoded first byte loses nothing.\<close>

lemma sprintf_c_inject: "sprintf_c c @ s = sprintf_c d @ t \<longleftrightarrow> c = d \<and> s = t"
proof
  assume eq: "sprintf_c c @ s = sprintf_c d @ t"
  let ?n = "of_char c :: nat" and ?m = "of_char d :: nat"
  have hd_wide: "hd (sprintf_c x) = x \<or> 192 \<le> (of_char (hd (sprintf_c x)) :: nat)" for x
    using wide_first_byte(1) [OF of_char_lt_256, of x]
    by (cases "(of_char x :: nat) < 128") (simp_all add: sprintf_c_wide)
  have same: "(?n < 128) = (?m < 128)"
  proof (rule ccontr)
    assume "(?n < 128) \<noteq> (?m < 128)"
    then show False
    proof (cases "?n < 128")
      case True
      then have "\<not> ?m < 128" using \<open>(?n < 128) \<noteq> (?m < 128)\<close> by simp
      then have "c = char_of (192 + ?m div 64)" using eq True by (simp add: sprintf_c_wide)
      then show False using True wide_first_byte(1) [OF of_char_lt_256, of d] by simp
    next
      case False
      then have m: "?m < 128" using \<open>(?n < 128) \<noteq> (?m < 128)\<close> by simp
      then have "d = char_of (192 + ?n div 64)" using eq False by (simp add: sprintf_c_wide)
      then show False using m wide_first_byte(1) [OF of_char_lt_256, of c] by simp
    qed
  qed
  show "c = d \<and> s = t"
  proof (cases "?n < 128")
    case True
    then show ?thesis using eq same by simp
  next
    case False
    then have bytes: "(char_of (192 + ?n div 64) :: char) = char_of (192 + ?m div 64)"
      "(char_of (128 + ?n mod 64) :: char) = char_of (128 + ?m mod 64)" and st: "s = t"
      using eq same by (simp_all add: sprintf_c_wide)
    have "192 + ?n div 64 = 192 + ?m div 64" and "128 + ?n mod 64 = 128 + ?m mod 64"
      using arg_cong [OF bytes(1), of "of_char :: char \<Rightarrow> nat"]
        arg_cong [OF bytes(2), of "of_char :: char \<Rightarrow> nat"]
        wide_first_byte [OF of_char_lt_256, of c] wide_first_byte [OF of_char_lt_256, of d]
      by simp_all
    then have "?n = ?m" by (metis add_left_cancel div_mult_mod_eq)
    then show ?thesis using st by simp
  qed
qed simp

section \<open>Association lists\<close>

text \<open>A Go map with iteration is an association list; stores go through \<open>AList.update\<close>.\<close>

lemma map_of_alist_update [simp]: "map_of (AList.update k v al) = (map_of al)(k \<mapsto> v)"
  by (rule AList.update_conv')

lemma distinct_fst_update [simp, wf_intros]:
  "distinct (map fst al) \<Longrightarrow> distinct (map fst (AList.update k v al))"
  by (rule AList.distinct_update)

lemma map_of_alist_delete [simp]: "map_of (AList.delete k al) = (map_of al)(k := None)"
  by (rule AList.delete_conv')

lemma distinct_fst_delete [simp, wf_intros]:
  "distinct (map fst al) \<Longrightarrow> distinct (map fst (AList.delete k al))"
  by (rule AList.distinct_delete)

lemma list_all_update: "list_all P xs \<Longrightarrow> P (k, v) \<Longrightarrow> list_all P (AList.update k v xs)"
  by (induction xs) auto

section \<open>strconv.Atoi\<close>

definition digit_value :: "char \<Rightarrow> nat option" where
  "digit_value c = (let n = of_char c in if 48 \<le> n \<and> n \<le> 57 then Some (n - 48) else None)"

fun digits_value :: "nat \<Rightarrow> string \<Rightarrow> nat option" where
  "digits_value acc [] = Some acc"
| "digits_value acc (c # cs) = (case digit_value c of None \<Rightarrow> None | Some d \<Rightarrow> digits_value (10 * acc + d) cs)"

definition Atoi :: "string \<Rightarrow> string + int" where
  "Atoi s =
     (let (neg, ds) = (case s of c # cs \<Rightarrow> if c = CHR ''-'' then (True, cs) else if c = CHR ''+'' then (False, cs) else (False, s)
                       | [] \<Rightarrow> (False, []))
      in if ds = [] then Inl ''invalid syntax''
         else (case digits_value 0 ds of
             None \<Rightarrow> Inl ''invalid syntax''
           | Some n \<Rightarrow>
               (let i = (if neg then - int n else int n) in
                if i < - (2 ^ 63) \<or> i \<ge> 2 ^ 63 then Inl ''value out of range'' else Inr i)))"

lemma digit_value_digit: "n < 10 \<Longrightarrow> digit_value (char_of (48 + n)) = Some n"
  by (simp add: digit_value_def Let_def)

lemma digits_value_snoc:
  "digits_value acc (cs @ [c]) = Option.bind (digits_value acc cs) (\<lambda>n. map_option (\<lambda>d. 10 * n + d) (digit_value c))"
  by (induction acc cs rule: digits_value.induct) (auto split: option.splits)

lemma digits_value_sprintf: "digits_value 0 (sprintf_nat n) = Some n"
proof (induction n rule: less_induct)
  case (less n)
  show ?case
  proof (cases "n < 10")
    case True
    then show ?thesis using digit_value_digit [OF True] by (simp add: sprintf_nat.simps [of n])
  next
    case False
    then have "digits_value 0 (sprintf_nat (n div 10)) = Some (n div 10)" by (intro less) simp
    moreover have "digit_value (char_of (48 + n mod 10)) = Some (n mod 10)" by (rule digit_value_digit) simp
    ultimately show ?thesis using False by (simp add: sprintf_nat.simps [of n] digits_value_snoc)
  qed
qed

lemma sprintf_nat_first: "\<exists>d cs. d < (10 :: nat) \<and> sprintf_nat n = char_of (48 + d) # cs"
proof (induction n rule: less_induct)
  case (less n)
  show ?case
  proof (cases "n < 10")
    case True
    then show ?thesis by (auto simp: sprintf_nat.simps [of n])
  next
    case False
    then have "n div 10 < n" by simp
    then obtain d cs where "d < (10 :: nat)" "sprintf_nat (n div 10) = char_of (48 + d) # cs" using less by blast
    then show ?thesis using False by (auto simp: sprintf_nat.simps [of n])
  qed
qed

lemma sign_no_digit: "d < (10 :: nat) \<Longrightarrow> (char_of (48 + d) :: char) \<noteq> CHR ''-'' \<and> (char_of (48 + d) :: char) \<noteq> CHR ''+''"
proof -
  assume "d < 10"
  then have "digit_value (char_of (48 + d)) = Some d" by (rule digit_value_digit)
  moreover have "digit_value CHR ''-'' = None" "digit_value CHR ''+'' = None" by code_simp+
  ultimately show ?thesis by force
qed

definition in_int64 :: "int \<Rightarrow> bool" where
  "in_int64 i \<longleftrightarrow> - (2 ^ 63) \<le> i \<and> i < 2 ^ 63"

lemma Atoi_sprintf:
  assumes "in_int64 i"
  shows "Atoi (sprintf_d i) = Inr i"
proof (cases "i < 0")
  case True
  then show ?thesis
    using assms sprintf_nat_first [of "nat (- i)"]
    by (auto simp: Atoi_def sprintf_d_def digits_value_sprintf in_int64_def)
next
  case False
  obtain d cs where "d < (10 :: nat)" "sprintf_nat (nat i) = char_of (48 + d) # cs" using sprintf_nat_first by blast
  then show ?thesis
    using False assms sign_no_digit [of d] digits_value_sprintf [of "nat i"]
    by (auto simp: Atoi_def sprintf_d_def in_int64_def)
qed

end
