(* ===== verification/Messages.thy ===== *)
theory Messages
  imports Prelude "HOL-Library.Multiset"
begin

text \<open>
  Messages and their wire format: \<open>src/hub_common/messages/Message.go\<close> and \<open>MessageParser.go\<close>.

  A message is a value of the record \<open>Message\<close>; the header map is an association list with distinct
  keys, whose list order is not observable in Go. A \<open>nil\<close> payload and an empty one are the same
  value: the code only reads the bytes. The identifiers that \<open>utils.GenStringId\<close> makes and the order in
  which Go ranges over a map are arguments of the definitions that use them. The FlatBuffers runtime
  is not part of the repository: writing a finished table to bytes and reading the fields back are
  the parameters \<open>enc\<close> and \<open>dec\<close>; \<open>dec\<close> gives \<open>None\<close> where the accessors panic.
\<close>

section \<open>Message.go\<close>

definition MessageTypeUnknown :: int where [simp]: "MessageTypeUnknown = -100"
definition MessageTypeProtocolUpdate :: int where [simp]: "MessageTypeProtocolUpdate = -1"
definition MessageTypePing :: int where [simp]: "MessageTypePing = 0"
definition MessageTypePong :: int where [simp]: "MessageTypePong = 1"
definition MessageTypeACK :: int where [simp]: "MessageTypeACK = 2"
definition MessageTypeText :: int where [simp]: "MessageTypeText = 3"
definition MessageTypeStream :: int where [simp]: "MessageTypeStream = 4"
definition MessageTypeJSON :: int where [simp]: "MessageTypeJSON = 5"
definition MessageTypeError :: int where [simp]: "MessageTypeError = 500"
definition MessageTypeServiceRequest :: int where [simp]: "MessageTypeServiceRequest = 110"
definition MessageTypeServiceGetRequest :: int where [simp]: "MessageTypeServiceGetRequest = 111"
definition MessageTypeServiceHeadRequest :: int where [simp]: "MessageTypeServiceHeadRequest = 112"
definition MessageTypeServicePostRequest :: int where [simp]: "MessageTypeServicePostRequest = 113"
definition MessageTypeServicePutRequest :: int where [simp]: "MessageTypeServicePutRequest = 114"
definition MessageTypeServiceDeleteRequest :: int where [simp]: "MessageTypeServiceDeleteRequest = 115"
definition MessageTypeServiceOptionsRequest :: int where [simp]: "MessageTypeServiceOptionsRequest = 116"
definition MessageTypeServicePatchRequest :: int where [simp]: "MessageTypeServicePatchRequest = 117"
definition MessageTypeServerNotification :: int where [simp]: "MessageTypeServerNotification = 11"
definition MessageTypeServerServiceNotification :: int where [simp]: "MessageTypeServerServiceNotification = 12"
definition MessageTypeClientNotification :: int where [simp]: "MessageTypeClientNotification = 21"
definition MessageTypeClientServiceNotification :: int where [simp]: "MessageTypeClientServiceNotification = 22"
definition MessageTypeServerDescriptor :: int where [simp]: "MessageTypeServerDescriptor = 100"
definition MessageTypeClientDescriptor :: int where [simp]: "MessageTypeClientDescriptor = 200"
definition MessageTypeInternalNotification :: int where [simp]: "MessageTypeInternalNotification = 333"
definition MessageTypeSvcResponseOK :: int where [simp]: "MessageTypeSvcResponseOK = 200"
definition MessageTypeSvcResponseCreated :: int where [simp]: "MessageTypeSvcResponseCreated = 201"
definition MessageTypeSvcResponsePartial :: int where [simp]: "MessageTypeSvcResponsePartial = 206"
definition MessageTypeSvcBadRequestError :: int where [simp]: "MessageTypeSvcBadRequestError = 400"
definition MessageTypeSvcUnauthorizedError :: int where [simp]: "MessageTypeSvcUnauthorizedError = 401"
definition MessageTypeSvcForbiddenError :: int where [simp]: "MessageTypeSvcForbiddenError = 403"
definition MessageTypeSvcNotFoundError :: int where [simp]: "MessageTypeSvcNotFoundError = 404"
definition MessageTypeSvcMethodNotAllowedError :: int where [simp]: "MessageTypeSvcMethodNotAllowedError = 405"
definition MessageTypeSvcGoneError :: int where [simp]: "MessageTypeSvcGoneError = 410"
definition MessageTypeSvcInternalError :: int where [simp]: "MessageTypeSvcInternalError = 500"
definition MessageTypeSvcUnavailableError :: int where [simp]: "MessageTypeSvcUnavailableError = 503"

record Message =
  m_id :: string
  m_from :: string
  m_to :: string
  m_uri :: string
  messageType :: int
  headers :: "(string \<times> string) list"
  payload :: string

definition NewMessage :: "string \<Rightarrow> string \<Rightarrow> string \<Rightarrow> string \<Rightarrow> int \<Rightarrow> string \<Rightarrow> Message" where
  "NewMessage i f t u ty p =
     \<lparr>m_id = i, m_from = f, m_to = t, m_uri = u, messageType = ty, headers = [], payload = p\<rparr>"

definition DraftMessage :: "string \<Rightarrow> string \<Rightarrow> string \<Rightarrow> string \<Rightarrow> int \<Rightarrow> string \<Rightarrow> Message" where
  "DraftMessage genId f t u ty p = NewMessage genId f t u ty p"

definition NewInternalErrorMessage :: "string \<Rightarrow> string \<Rightarrow> string \<Rightarrow> string \<Rightarrow> string \<Rightarrow> Message" where
  "NewInternalErrorMessage i f t u e = NewMessage i f t u MessageTypeSvcInternalError e"

definition NewErrorMessage :: "string \<Rightarrow> string \<Rightarrow> string \<Rightarrow> string \<Rightarrow> int \<Rightarrow> string \<Rightarrow> Message" where
  "NewErrorMessage i f t u ty e = NewMessage i f t u ty e"

definition NewPingMessage :: "string \<Rightarrow> string \<Rightarrow> string \<Rightarrow> Message" where
  "NewPingMessage genId f t = DraftMessage genId f t [] MessageTypePing []"

definition NewPongMessage :: "string \<Rightarrow> string \<Rightarrow> string \<Rightarrow> Message" where
  "NewPongMessage i f t = NewMessage i f t [] MessageTypePong []"

definition NewACKMessage :: "string \<Rightarrow> string \<Rightarrow> string \<Rightarrow> string \<Rightarrow> Message" where
  "NewACKMessage i f t u = NewMessage i f t u MessageTypeACK []"

definition NewNotification :: "string \<Rightarrow> string \<Rightarrow> Message" where
  "NewNotification i m = NewMessage i [] [] [] MessageTypeInternalNotification m"

definition error_json :: "string \<Rightarrow> string" where
  "error_json e = ''{'' @ [CHR 0x22] @ ''message'' @ [CHR 0x22] @ '':'' @ [CHR 0x22] @ e @ [CHR 0x22] @ ''}''"

definition NewErrorResponse :: "Message \<Rightarrow> string \<Rightarrow> int \<Rightarrow> string \<Rightarrow> Message" where
  "NewErrorResponse request f errType errMsg =
     NewMessage (m_id request) f (m_from request) (m_uri request) errType (error_json errMsg)"

text \<open>Accessors that do more than read or write one field.\<close>

definition GetHeader :: "Message \<Rightarrow> string \<Rightarrow> string" where
  "GetHeader m k = (case map_of (headers m) k of None \<Rightarrow> [] | Some v \<Rightarrow> v)"

definition SetHeader :: "Message \<Rightarrow> string \<Rightarrow> string \<Rightarrow> Message" where
  "SetHeader m k v = m\<lparr>headers := AList.update k v (headers m)\<rparr>"

definition Equals :: "Message \<Rightarrow> Message \<Rightarrow> bool" where
  "Equals t m \<longleftrightarrow> m_id t = m_id m \<and> m_from t = m_from m \<and> m_to t = m_to m \<and> m_uri t = m_uri m \<and>
     messageType t = messageType m \<and> payload t = payload m"

text \<open>\<open>ord\<close> is the order in which this \<open>range\<close> visits the header map.\<close>

type_synonym map_order = "(string \<times> string) list \<Rightarrow> (string \<times> string) list"

definition Copy :: "map_order \<Rightarrow> Message \<Rightarrow> Message" where
  "Copy ord t = fold (\<lambda>(k, v) m. SetHeader m k v) (ord (headers t))
     (NewMessage (m_id t) (m_from t) (m_to t) (m_uri t) (messageType t) (payload t))"

definition IsErrorMessage :: "Message \<Rightarrow> bool" where
  "IsErrorMessage t \<longleftrightarrow> messageType t = MessageTypeError \<or>
     messageType t \<ge> MessageTypeSvcBadRequestError \<and> messageType t \<le> MessageTypeSvcInternalError"

definition Dispose :: "Message \<Rightarrow> Message" where
  "Dispose t = t\<lparr>payload := []\<rparr>"

definition mapMessageTypeToRequestMethod :: "Message \<Rightarrow> string" where
  "mapMessageTypeToRequestMethod m =
     (let ty = messageType m in
      if ty = MessageTypeServiceGetRequest then ''GET''
      else if ty = MessageTypeServicePostRequest then ''POST''
      else if ty = MessageTypeServicePatchRequest then ''PATCH''
      else if ty = MessageTypeServicePutRequest then ''PUT''
      else if ty = MessageTypeServiceDeleteRequest then ''DELETE''
      else if ty = MessageTypeServiceOptionsRequest then ''OPTIONS''
      else if ty = MessageTypeServiceHeadRequest then ''HEAD''
      else ''GET'')"

section \<open>MessageParser.go\<close>

text \<open>The fields of the table that \<open>Serialize\<close> builds, as its accessors read them.\<close>

record fb_message =
  fb_id :: string
  fb_from :: string
  fb_to :: string
  fb_uri :: string
  fb_type :: int
  fb_payload :: string
  fb_keys :: "string list"
  fb_values :: "string list"

datatype parse_error = EInvalidBuffer | EInvalidFormat | EUnparsable

text \<open>
  \<open>Serialize\<close> ranges over the header map twice, once for the keys and once for the values; \<open>ord1\<close> and
  \<open>ord2\<close> are the two orders. Vectors are filled by prepending, so their elements are reversed; the
  payload loop prepends from the last byte.
\<close>

definition fb_table :: "map_order \<Rightarrow> map_order \<Rightarrow> Message \<Rightarrow> fb_message" where
  "fb_table ord1 ord2 m =
     \<lparr>fb_id = m_id m, fb_from = m_from m, fb_to = m_to m, fb_uri = m_uri m,
      fb_type = to_int32 (messageType m),
      fb_payload = fold (\<lambda>i bs. payload m ! (length (payload m) - i - 1) # bs) [0..<length (payload m)] [],
      fb_keys = rev (map fst (ord1 (headers m))), fb_values = rev (map snd (ord2 (headers m)))\<rparr>"

definition Serialize :: "(fb_message \<Rightarrow> 'b list) \<Rightarrow> map_order \<Rightarrow> map_order \<Rightarrow> Message \<Rightarrow> 'b list" where
  "Serialize enc ord1 ord2 m = enc (fb_table ord1 ord2 m)"

definition Deserialize :: "('b list \<Rightarrow> fb_message option) \<Rightarrow> 'b list \<Rightarrow> parse_error + Message" where
  "Deserialize dec buffer =
     (if length buffer < 1 then Inl EInvalidBuffer
      else (case dec buffer of
          None \<Rightarrow> Inl EUnparsable
        | Some fb \<Rightarrow>
            (let message = NewMessage (fb_id fb) (fb_from fb) (fb_to fb) (fb_uri fb) (fb_type fb) (fb_payload fb)
             in if length (fb_keys fb) \<noteq> length (fb_values fb) then Inl EInvalidFormat
                else Inr (fold (\<lambda>i m. SetHeader m (fb_keys fb ! i) (fb_values fb ! i))
                            [0..<length (fb_keys fb)] message))))"

section \<open>The message pool\<close>

text \<open>
  \<open>messagePool\<close> is a \<open>sync.Pool\<close> of pointers: \<open>Dispose\<close> puts the message back, \<open>NewMessage\<close> takes one
  out or allocates. \<open>cells\<close> is the heap of \<open>Message\<close> structs and \<open>pick\<close> the choice of the pool, which
  may return any pooled pointer or none.
\<close>

record msg_store =
  cells :: "nat \<Rightarrow> Message"
  pool :: "nat list"
  brk :: nat

definition pool_NewMessage :: "(nat list \<Rightarrow> nat option) \<Rightarrow> Message \<Rightarrow> msg_store \<Rightarrow> nat \<times> msg_store" where
  "pool_NewMessage pick msg st =
     (case pick (pool st) of
        Some a \<Rightarrow>
          (if a \<in> set (pool st)
           then (a, st\<lparr>cells := (cells st)(a := msg), pool := remove1 a (pool st)\<rparr>)
           else (brk st, st\<lparr>cells := (cells st)(brk st := msg), brk := brk st + 1\<rparr>))
      | None \<Rightarrow> (brk st, st\<lparr>cells := (cells st)(brk st := msg), brk := brk st + 1\<rparr>))"

definition pool_Dispose :: "nat \<Rightarrow> msg_store \<Rightarrow> msg_store" where
  "pool_Dispose a st = st\<lparr>cells := (cells st)(a := Dispose (cells st a)), pool := a # pool st\<rparr>"

text \<open>The pointers the program still uses are not pooled, and no pointer is pooled twice.\<close>

definition pool_ok :: "nat set \<Rightarrow> msg_store \<Rightarrow> bool" where
  "pool_ok live st \<longleftrightarrow> distinct (pool st) \<and> set (pool st) \<inter> live = {} \<and>
     (\<forall>a \<in> set (pool st) \<union> live. a < brk st)"

section \<open>Lemmas\<close>

lemma payload_prefix:
  "n \<le> length xs \<Longrightarrow> fold (\<lambda>i bs. xs ! (length xs - i - 1) # bs) [0..<n] [] = drop (length xs - n) xs"
proof (induction n)
  case (Suc n)
  then show ?case using Cons_nth_drop_Suc [of "length xs - Suc n" xs] by (simp add: Suc_diff_Suc)
qed simp

lemma fb_table_fields [simp]:
  "fb_id (fb_table ord1 ord2 m) = m_id m" "fb_from (fb_table ord1 ord2 m) = m_from m"
  "fb_to (fb_table ord1 ord2 m) = m_to m" "fb_uri (fb_table ord1 ord2 m) = m_uri m"
  "fb_type (fb_table ord1 ord2 m) = to_int32 (messageType m)"
  "fb_payload (fb_table ord1 ord2 m) = payload m"
  "fb_keys (fb_table ord1 ord2 m) = rev (map fst (ord1 (headers m)))"
  "fb_values (fb_table ord1 ord2 m) = rev (map snd (ord2 (headers m)))"
  using payload_prefix [of "length (payload m)" "payload m"] by (simp_all add: fb_table_def)

lemma headers_SetHeader: "map_of (headers (SetHeader m k v)) = (map_of (headers m))(k \<mapsto> v)"
  by (simp add: SetHeader_def)

lemma fold_SetHeader:
  "map_of (headers (fold (\<lambda>(k, v) m. SetHeader m k v) kvs m)) = map_of (headers m) ++ map_of (rev kvs)"
  "distinct (map fst (headers m)) \<Longrightarrow> distinct (map fst (headers (fold (\<lambda>(k, v) m. SetHeader m k v) kvs m)))"
  "Equals (fold (\<lambda>(k, v) m. SetHeader m k v) kvs m) m'  = Equals m m'"
  by (induction kvs arbitrary: m)
    (auto simp: headers_SetHeader map_add_def fun_eq_iff Equals_def SetHeader_def split: option.splits)

lemma fold_index_zip:
  "length ks = length vs \<Longrightarrow>
   fold (\<lambda>i m. f m (ks ! i) (vs ! i)) [0..<length ks] m = fold (\<lambda>(k, v) m. f m k v) (zip ks vs) m"
proof -
  assume len: "length ks = length vs"
  have "zip ks vs = map (\<lambda>i. (ks ! i, vs ! i)) [0..<length ks]"
    using len by (auto intro!: nth_equalityI)
  then show ?thesis by (simp add: fold_map comp_def)
qed

text \<open>What a decoded message is, whatever the two iteration orders are.\<close>

lemma Deserialize_Serialize:
  assumes "dec (enc (fb_table ord1 ord2 m)) = Some (fb_table ord1 ord2 m)"
    and "enc (fb_table ord1 ord2 m) \<noteq> []"
    and "length (ord1 (headers m)) = length (ord2 (headers m))"
  shows "\<exists>m'. Deserialize dec (Serialize enc ord1 ord2 m) = Inr m' \<and>
     Equals m' (m\<lparr>messageType := to_int32 (messageType m)\<rparr>) \<and>
     map_of (headers m') = map_of (zip (map fst (ord1 (headers m))) (map snd (ord2 (headers m)))) \<and>
     distinct (map fst (headers m'))"
proof -
  let ?ks = "map fst (ord1 (headers m))" and ?vs = "map snd (ord2 (headers m))"
  let ?m0 = "NewMessage (m_id m) (m_from m) (m_to m) (m_uri m) (to_int32 (messageType m)) (payload m)"
  let ?m' = "fold (\<lambda>(k, v) m. SetHeader m k v) (zip (rev ?ks) (rev ?vs)) ?m0"
  have "Deserialize dec (Serialize enc ord1 ord2 m) = Inr ?m'"
    using assms fold_index_zip [of "rev ?ks" "rev ?vs" SetHeader]
    by (simp add: Deserialize_def Serialize_def Suc_le_eq)
  moreover have "Equals ?m' (m\<lparr>messageType := to_int32 (messageType m)\<rparr>)"
    by (simp only: fold_SetHeader) (simp add: Equals_def NewMessage_def)
  moreover have "map_of (headers ?m') = map_of (zip ?ks ?vs)"
    using assms(3) by (simp add: fold_SetHeader NewMessage_def zip_rev)
  moreover have "distinct (map fst (headers ?m'))"
    by (rule fold_SetHeader) (simp add: NewMessage_def)
  ultimately show ?thesis by blast
qed

lemma map_of_permuted:
  "distinct (map fst xs) \<Longrightarrow> mset ys = mset xs \<Longrightarrow> map_of ys = map_of xs"
  by (metis map_of_inject_set mset_map mset_eq_imp_distinct_iff mset_eq_setD)

section \<open>Properties\<close>

text \<open>
  C6. Decoding an encoded message gives it back, when the FlatBuffers codec is faithful, the
  message type fits in 32 bits and the two traversals of the header map visit it in one order.
\<close>

theorem wire_round_trip:
  assumes codec: "\<And>tb. enc tb \<noteq> [] \<and> dec (enc tb) = Some tb"
    and "- (2 ^ 31) \<le> messageType m" and "messageType m < 2 ^ 31"
    and "distinct (map fst (headers m))"
    and "mset (ord1 (headers m)) = mset (headers m)" and "ord2 (headers m) = ord1 (headers m)"
  shows "\<exists>m'. Deserialize dec (Serialize enc ord1 ord2 m) = Inr m' \<and> Equals m' m \<and>
     map_of (headers m') = map_of (headers m)"
proof -
  have "m\<lparr>messageType := to_int32 (messageType m)\<rparr> = m" using assms(2,3) by (simp add: to_int32_id)
  moreover have "map_of (ord1 (headers m)) = map_of (headers m)"
    using assms(4,5) by (rule map_of_permuted)
  ultimately show ?thesis
    using Deserialize_Serialize [of dec enc ord1 ord2 m] codec assms(6)
    by (simp add: zip_map_fst_snd) metis
qed

text \<open>The concrete codec of the witnesses: a one-element buffer that holds the table.\<close>

definition boxed :: "fb_message \<Rightarrow> fb_message list" where
  "boxed tb = [tb]"

definition unboxed :: "fb_message list \<Rightarrow> fb_message option" where
  "unboxed b = (case b of [tb] \<Rightarrow> Some tb | _ \<Rightarrow> None)"

definition sample_message :: Message where
  "sample_message = SetHeader (SetHeader (NewMessage ''1'' ''a'' ''t'' ''x/y/z'' MessageTypeACK ''hello'')
     ''k'' ''v'') ''j'' ''w''"

theorem wire_round_trip_witness:
  "\<exists>m'. Deserialize unboxed (Serialize boxed rev rev sample_message) = Inr m' \<and>
     Equals m' sample_message \<and> map_of (headers m') = map_of (headers sample_message)"
  by (rule wire_round_trip)
    (simp_all add: boxed_def unboxed_def sample_message_def NewMessage_def SetHeader_def)

text \<open>
  Go may visit a map in a different order each time. For every message with two headers there
  are orders for which the decoded message has the two values exchanged.
\<close>

theorem wire_headers_may_swap:
  assumes "\<And>tb. enc tb \<noteq> [] \<and> dec (enc tb) = Some tb"
    and "headers m = [(k1, v1), (k2, v2)]" and "k1 \<noteq> k2"
  shows "\<exists>ord1 ord2 m'. mset (ord1 (headers m)) = mset (headers m) \<and> mset (ord2 (headers m)) = mset (headers m) \<and>
     Deserialize dec (Serialize enc ord1 ord2 m) = Inr m' \<and> GetHeader m' k1 = v2 \<and> GetHeader m' k2 = v1"
proof -
  obtain m' where m': "Deserialize dec (Serialize enc (\<lambda>h. h) rev m) = Inr m'"
    "map_of (headers m') = map_of (zip (map fst (headers m)) (map snd (rev (headers m))))"
    using Deserialize_Serialize [of dec enc "\<lambda>h. h" rev m] assms(1) by auto
  then have "GetHeader m' k1 = v2" "GetHeader m' k2 = v1"
    using assms(2,3) by (auto simp: GetHeader_def)
  then show ?thesis using m'(1) by (intro exI [of _ "\<lambda>h. h"] exI [of _ rev] exI [of _ m']) simp
qed

theorem wire_headers_may_swap_witness:
  "\<exists>ord1 ord2 m'. Deserialize unboxed (Serialize boxed ord1 ord2 sample_message) = Inr m' \<and>
     GetHeader m' ''k'' = ''w''"
proof -
  have "headers sample_message = [(''k'', ''v''), (''j'', ''w'')]" by code_simp
  then show ?thesis
    using wire_headers_may_swap [of boxed unboxed sample_message "''k''" "''v''" "''j''" "''w''"]
    by (auto simp: boxed_def unboxed_def)
qed

text \<open>
  Deserialisation never panics, and a buffer that decodes to different numbers of header keys
  and values is refused; otherwise the message carries the decoded fields and its headers are the
  pairs of keys and values, the later pair winning.
\<close>

theorem Deserialize_total:
  "Deserialize dec buffer =
     (if buffer = [] then Inl EInvalidBuffer
      else case dec buffer of None \<Rightarrow> Inl EUnparsable
        | Some fb \<Rightarrow>
           if length (fb_keys fb) \<noteq> length (fb_values fb) then Inl EInvalidFormat
           else Inr (fold (\<lambda>(k, v) m. SetHeader m k v) (zip (fb_keys fb) (fb_values fb))
             (NewMessage (fb_id fb) (fb_from fb) (fb_to fb) (fb_uri fb) (fb_type fb) (fb_payload fb))))"
  using fold_index_zip [where f = SetHeader]
  by (auto simp: Deserialize_def Let_def Suc_le_eq split: option.splits)

text \<open>
  The message pool hands out no message that is still in use: \<open>NewMessage\<close> and a \<open>Dispose\<close> of a
  message in use keep the ownership invariant, the new message is not one in use, and the contents of
  the messages in use stay as they are.
\<close>

theorem message_pool_ownership:
  assumes "pool_ok live st"
  shows "(\<forall>pick msg a st'. pool_NewMessage pick msg st = (a, st') \<longrightarrow>
      a \<notin> live \<and> pool_ok (insert a live) st' \<and> cells st' a = msg \<and> (\<forall>b \<in> live. cells st' b = cells st b)) \<and>
    (\<forall>a \<in> live. pool_ok (live - {a}) (pool_Dispose a st) \<and>
      (\<forall>b \<in> live - {a}. cells (pool_Dispose a st) b = cells st b))"
proof (intro conjI allI impI)
  fix pick msg a st'
  assume new: "pool_NewMessage pick msg st = (a, st')"
  then consider (pooled) "a \<in> set (pool st)" "st' = st\<lparr>cells := (cells st)(a := msg), pool := remove1 a (pool st)\<rparr>"
    | (fresh) "a = brk st" "st' = st\<lparr>cells := (cells st)(a := msg), brk := brk st + 1\<rparr>"
    by (auto simp: pool_NewMessage_def split: option.splits if_splits)
  then have "a \<notin> live \<and> pool_ok (insert a live) st' \<and> cells st' a = msg"
  proof cases
    case pooled
    then show ?thesis using assms by (auto simp: pool_ok_def)
  next
    case fresh
    then show ?thesis using assms by (auto simp: pool_ok_def intro: less_SucI)
  qed
  moreover have "cells st' = (cells st)(a := msg)"
    using new by (auto simp: pool_NewMessage_def split: option.splits if_splits)
  ultimately show "a \<notin> live" "pool_ok (insert a live) st'" "cells st' a = msg" "\<forall>b \<in> live. cells st' b = cells st b"
    by auto
next
  show "\<forall>a \<in> live. pool_ok (live - {a}) (pool_Dispose a st) \<and>
      (\<forall>b \<in> live - {a}. cells (pool_Dispose a st) b = cells st b)"
    using assms by (auto simp: pool_ok_def pool_Dispose_def)
qed

theorem message_pool_ownership_witness:
  "pool_ok {0} (pool_Dispose 1 \<lparr>cells = (\<lambda>_. sample_message), pool = [], brk = 2\<rparr>)"
proof -
  have "pool_ok {0, 1} \<lparr>cells = (\<lambda>_. sample_message), pool = [], brk = 2\<rparr>"
    by (simp add: pool_ok_def)
  then show ?thesis using message_pool_ownership by (metis Diff_insert_absorb empty_iff insert_commute insert_iff zero_neq_one)
qed

end
