(* ===== verification/Barrier.thy ===== *)
theory Barrier
  imports Prelude
begin

text \<open>
  \<open>src/common/async/barrier.go\<close>: the sequential behaviour of \<open>WaitLock\<close> and \<open>StatefulBarrier\<close> as
  functions, and the interleavings of one caller of \<open>Open\<close> with any number of callers of \<open>Wait\<close> as
  a step relation. \<open>Store\<close> of an \<open>atomic.Value\<close> panics on \<open>nil\<close>, which is the argument \<open>None\<close> here.
\<close>

section \<open>Sequential behaviour\<close>

record WaitLock =
  isOpen :: bool

definition NewWaitLock :: WaitLock where
  "NewWaitLock = \<lparr>isOpen = False\<rparr>"

definition Open :: "WaitLock \<Rightarrow> WaitLock" where
  "Open b = (if \<not> isOpen b then b\<lparr>isOpen := True\<rparr> else b)"

definition Lock :: "WaitLock \<Rightarrow> WaitLock" where
  "Lock b = (if isOpen b then b\<lparr>isOpen := False\<rparr> else b)"

record 'a StatefulBarrier =
  b_lock :: WaitLock
  b_state :: "'a option"

definition NewStatefulBarrier :: "'a StatefulBarrier" where
  "NewStatefulBarrier = \<lparr>b_lock = NewWaitLock, b_state = None\<rparr>"

definition OpenWith :: "'a option \<Rightarrow> 'a StatefulBarrier \<Rightarrow> 'a StatefulBarrier go" where
  "OpenWith s b =
     (if isOpen (b_lock b) then Ret b
      else (case s of
          None \<Rightarrow> Panic
        | Some a \<Rightarrow> Ret (b\<lparr>b_state := Some a, b_lock := Open (b_lock b)\<rparr>)))"

text \<open>\<open>Get\<close> blocks while the barrier is closed, which is \<open>None\<close> here; the inner option is the loaded value.\<close>

definition barrier_Get :: "'a StatefulBarrier \<Rightarrow> 'a option option" where
  "barrier_Get b = (if isOpen (b_lock b) then Some (b_state b) else None)"

section \<open>Interleavings of Open and Wait\<close>

text \<open>Program points: of \<open>Wait\<close> before the test, after it, inside \<open>cond.Wait\<close>, after the return; of \<open>Open\<close>
  before the test, before the store, before the broadcast, after the return.\<close>

datatype wait_pc = WCheck | WLock | WWaiting | WDone
datatype open_pc = OCheck | OStore | OBroadcast | ODone

record lock_state =
  ls_open :: bool
  ls_opener :: open_pc
  ls_waiter :: "nat \<Rightarrow> wait_pc"

inductive lock_step :: "lock_state \<Rightarrow> lock_state \<Rightarrow> bool" where
  wait_open: "ls_waiter s i = WCheck \<Longrightarrow> ls_open s \<Longrightarrow>
    lock_step s (s\<lparr>ls_waiter := (ls_waiter s)(i := WDone)\<rparr>)"
| wait_closed: "ls_waiter s i = WCheck \<Longrightarrow> \<not> ls_open s \<Longrightarrow>
    lock_step s (s\<lparr>ls_waiter := (ls_waiter s)(i := WLock)\<rparr>)"
| wait_sleep: "ls_waiter s i = WLock \<Longrightarrow>
    lock_step s (s\<lparr>ls_waiter := (ls_waiter s)(i := WWaiting)\<rparr>)"
| open_noop: "ls_opener s = OCheck \<Longrightarrow> ls_open s \<Longrightarrow> lock_step s (s\<lparr>ls_opener := ODone\<rparr>)"
| open_check: "ls_opener s = OCheck \<Longrightarrow> \<not> ls_open s \<Longrightarrow> lock_step s (s\<lparr>ls_opener := OStore\<rparr>)"
| open_store: "ls_opener s = OStore \<Longrightarrow> lock_step s (s\<lparr>ls_open := True, ls_opener := OBroadcast\<rparr>)"
| open_broadcast: "ls_opener s = OBroadcast \<Longrightarrow>
    lock_step s (s\<lparr>ls_opener := ODone,
      ls_waiter := (\<lambda>i. if ls_waiter s i = WWaiting then WDone else ls_waiter s i)\<rparr>)"

inductive_cases lock_stepE: "lock_step s s'"

definition lock_init :: lock_state where
  "lock_init = \<lparr>ls_open = False, ls_opener = OCheck, ls_waiter = (\<lambda>_. WCheck)\<rparr>"

definition lock_reach :: "lock_state \<Rightarrow> bool" where
  "lock_reach s \<longleftrightarrow> lock_step\<^sup>*\<^sup>* lock_init s"

lemma lock_reach_init: "lock_reach lock_init"
  by (simp add: lock_reach_def)

lemma lock_reach_step: "lock_reach s \<Longrightarrow> lock_step s s' \<Longrightarrow> lock_reach s'"
  by (simp add: lock_reach_def)

lemma lock_reach_induct [consumes 1, case_names init step]:
  assumes "lock_reach s" and "P lock_init" and "\<And>s s'. lock_reach s \<Longrightarrow> P s \<Longrightarrow> lock_step s s' \<Longrightarrow> P s'"
  shows "P s"
  using assms(1) unfolding lock_reach_def
  by (induction rule: rtranclp_induct) (use assms(2,3) in \<open>auto simp: lock_reach_def\<close>)

text \<open>The lock is open exactly when the opener is past its store.\<close>

lemma open_iff_stored: "lock_reach s \<Longrightarrow> ls_open s \<longleftrightarrow> ls_opener s = OBroadcast \<or> ls_opener s = ODone"
  by (induction rule: lock_reach_induct) (auto simp: lock_init_def elim!: lock_stepE)

lemma done_open: "lock_reach s \<Longrightarrow> ls_waiter s i = WDone \<Longrightarrow> ls_open s"
proof (induction arbitrary: i rule: lock_reach_induct)
  case init
  then show ?case by (simp add: lock_init_def)
next
  case (step s s')
  then show ?case
    using open_iff_stored [OF step.hyps(1)]
    by (elim lock_stepE) (auto split: if_splits)
qed

lemma waiters_at_broadcast:
  assumes "lock_step s s'" and "ls_opener s = OBroadcast" and "ls_opener s' = ODone"
  shows "\<forall>i. ls_waiter s i = WWaiting \<longrightarrow> ls_waiter s' i = WDone"
  using assms by (auto elim!: lock_stepE split: if_splits)

section \<open>Properties\<close>

text \<open>
  \<open>Wait\<close> returns only after the lock has been opened, and the broadcast of \<open>Open\<close> releases every
  caller that sleeps at that moment.
\<close>

theorem WaitLock_safety:
  "(lock_reach s \<longrightarrow> ls_waiter s i = WDone \<longrightarrow> ls_open s) \<and>
   (lock_step s s' \<longrightarrow> ls_opener s = OBroadcast \<longrightarrow> ls_opener s' = ODone \<longrightarrow>
     ls_waiter s i = WWaiting \<longrightarrow> ls_waiter s' i = WDone)"
  using done_open waiters_at_broadcast by blast

text \<open>The run in which one caller sleeps before \<open>Open\<close> broadcasts.\<close>

definition after_sleep :: lock_state where
  "after_sleep = lock_init\<lparr>ls_waiter := (\<lambda>_. WCheck)(0 := WWaiting), ls_opener := OBroadcast, ls_open := True\<rparr>"

lemma after_sleep_reach: "lock_reach after_sleep"
proof -
  have "lock_reach (lock_init\<lparr>ls_waiter := (\<lambda>_. WCheck)(0 := WLock)\<rparr>)"
    using lock_reach_step [OF lock_reach_init lock_step.wait_closed [of lock_init 0]] by (simp add: lock_init_def)
  from lock_reach_step [OF this lock_step.wait_sleep [of _ 0]]
  have "lock_reach (lock_init\<lparr>ls_waiter := (\<lambda>_. WCheck)(0 := WWaiting)\<rparr>)" by simp
  from lock_reach_step [OF this lock_step.open_check]
  have "lock_reach (lock_init\<lparr>ls_waiter := (\<lambda>_. WCheck)(0 := WWaiting), ls_opener := OStore\<rparr>)"
    by (simp add: lock_init_def)
  from lock_reach_step [OF this lock_step.open_store] show ?thesis
    by (simp add: after_sleep_def lock_init_def)
qed

theorem WaitLock_safety_witness:
  "\<exists>s'. lock_step after_sleep s' \<and> ls_waiter s' 0 = WDone"
proof -
  let ?s' = "after_sleep\<lparr>ls_opener := ODone,
    ls_waiter := (\<lambda>i. if ls_waiter after_sleep i = WWaiting then WDone else ls_waiter after_sleep i)\<rparr>"
  have "lock_step after_sleep ?s'" by (rule lock_step.open_broadcast) (simp add: after_sleep_def)
  moreover have "ls_waiter ?s' 0 = WDone"
    using WaitLock_safety [of after_sleep 0 ?s'] calculation by (simp add: after_sleep_def)
  ultimately show ?thesis by blast
qed

text \<open>
  A wake-up can be lost: there is a run in which a caller has read the lock as closed, \<open>Open\<close>
  completes, and the caller then sleeps for ever, whatever steps follow.
\<close>

theorem WaitLock_lost_wakeup:
  "\<exists>s. lock_reach s \<and> ls_open s \<and> ls_opener s = ODone \<and>
     {s'. lock_step\<^sup>*\<^sup>* s s'} \<subseteq> {s'. ls_waiter s' 0 = WWaiting}"
proof -
  let ?w = "(\<lambda>_. WCheck)(0 := WLock)"
  have "lock_reach (lock_init\<lparr>ls_waiter := ?w\<rparr>)"
    using lock_reach_step [OF lock_reach_init lock_step.wait_closed [of lock_init 0]] by (simp add: lock_init_def)
  from lock_reach_step [OF this lock_step.open_check]
  have "lock_reach (lock_init\<lparr>ls_waiter := ?w, ls_opener := OStore\<rparr>)" by (simp add: lock_init_def)
  from lock_reach_step [OF this lock_step.open_store]
  have "lock_reach (lock_init\<lparr>ls_waiter := ?w, ls_opener := OBroadcast, ls_open := True\<rparr>)"
    by (simp add: lock_init_def)
  from lock_reach_step [OF this lock_step.open_broadcast]
  have "lock_reach (lock_init\<lparr>ls_waiter := ?w, ls_opener := ODone, ls_open := True\<rparr>)"
    by (simp add: lock_init_def fun_upd_def if_distrib cong: if_cong)
  from lock_reach_step [OF this lock_step.wait_sleep [of _ 0]]
  have reach: "lock_reach (lock_init\<lparr>ls_waiter := (\<lambda>_. WCheck)(0 := WWaiting), ls_opener := ODone, ls_open := True\<rparr>)"
    (is "lock_reach ?s") by (simp add: lock_init_def)
  have "ls_waiter s' 0 = WWaiting \<and> ls_opener s' = ODone" if "lock_step\<^sup>*\<^sup>* ?s s'" for s'
    using that by (induction rule: rtranclp_induct) (auto elim!: lock_stepE intro!: gr0I)
  then show ?thesis using reach by (intro exI [of _ ?s]) auto
qed

end
