(* ===== verification/Requests.thy ===== *)
theory Requests
  imports Messages Barrier
begin

text \<open>
  Service requests and the queue of a service: \<open>ServiceRequest.go\<close> and \<open>ServicePool.go\<close> of
  \<open>src/hub_common/service\<close>.

  A method that can panic after it has changed the request returns the request as it is then left
  together with the outcome. \<open>Free\<close> sets the barrier and the context to \<open>nil\<close>, so both fields are
  options. The queue shares its requests with the caller and with the scheduled closure: they live in
  a heap and the queue holds addresses. The asynchronous pool is the list of the scheduled closures;
  running one is a step. What the executor of a service does to the heap is the parameter \<open>exec\<close>.
\<close>

section \<open>ServiceRequest.go\<close>

definition ServiceRequestStatusQueued :: int where [simp]: "ServiceRequestStatusQueued = 0"
definition ServiceRequestStatusProcessing :: int where [simp]: "ServiceRequestStatusProcessing = 1"
definition ServiceRequestStatusDead :: int where [simp]: "ServiceRequestStatusDead = 2"
definition ServiceRequestStatusFinished :: int where [simp]: "ServiceRequestStatusFinished = 3"
definition ServiceRequestStatusCancelled :: int where [simp]: "ServiceRequestStatusCancelled = 4"

definition ServiceRequestMessageHandlerTypes :: "int list" where
  "ServiceRequestMessageHandlerTypes =
     [MessageTypeServiceRequest, MessageTypeServiceGetRequest, MessageTypeServicePostRequest,
      MessageTypeServicePutRequest, MessageTypeServicePatchRequest, MessageTypeServiceDeleteRequest,
      MessageTypeServiceOptionsRequest, MessageTypeServiceHeadRequest]"

definition UnProcessableServiceRequestMap :: "int \<Rightarrow> bool" where
  "UnProcessableServiceRequestMap st \<longleftrightarrow> st = ServiceRequestStatusDead \<or> st = ServiceRequestStatusCancelled"

datatype ctx_value = CString string | CParams "string \<rightharpoonup> string" | CUint8 nat | CBool bool | CInt int

datatype req_error = ECannotKill int | ECannotCancel int | ENotProcessing

record ServiceRequest =
  sr_message :: Message
  sr_status :: int
  sr_barrier :: "Message StatefulBarrier option"
  sr_context :: "(string \<rightharpoonup> ctx_value) option"

definition NewServiceRequest :: "Message \<Rightarrow> ServiceRequest" where
  "NewServiceRequest m =
     \<lparr>sr_message = m, sr_status = ServiceRequestStatusQueued, sr_barrier = Some NewStatefulBarrier,
      sr_context = Some Map.empty\<rparr>"

definition setStatus :: "ServiceRequest \<Rightarrow> int \<Rightarrow> ServiceRequest" where
  "setStatus t st = (if sr_status t = ServiceRequestStatusFinished then t else t\<lparr>sr_status := st\<rparr>)"

definition TransitStatus :: "ServiceRequest \<Rightarrow> int \<Rightarrow> ServiceRequest" where
  "TransitStatus t st = setStatus t st"

text \<open>\<open>t.barrier.OpenWith(m)\<close>; a panic leaves the request as it is.\<close>

definition open_barrier :: "Message option \<Rightarrow> ServiceRequest \<Rightarrow> ServiceRequest \<times> req_error option go" where
  "open_barrier m t =
     (case sr_barrier t of
        None \<Rightarrow> (t, Panic)
      | Some b \<Rightarrow> (case OpenWith m b of
          Panic \<Rightarrow> (t, Panic)
        | Ret b' \<Rightarrow> (t\<lparr>sr_barrier := Some b'\<rparr>, Ret None)))"

definition Kill :: "ServiceRequest \<Rightarrow> ServiceRequest \<times> req_error option go" where
  "Kill t =
     (if sr_status t > 1 then (t, Ret (Some (ECannotKill (sr_status t))))
      else open_barrier None (t\<lparr>sr_status := ServiceRequestStatusDead\<rparr>))"

definition Cancel :: "ServiceRequest \<Rightarrow> ServiceRequest \<times> req_error option go" where
  "Cancel t =
     (if sr_status t > 1 then (t, Ret (Some (ECannotCancel (sr_status t))))
      else open_barrier None (t\<lparr>sr_status := ServiceRequestStatusCancelled\<rparr>))"

definition Resolve :: "ServiceRequest \<Rightarrow> Message option \<Rightarrow> ServiceRequest \<times> req_error option go" where
  "Resolve t m =
     (if sr_status t \<noteq> ServiceRequestStatusProcessing then (t, Ret (Some ENotProcessing))
      else open_barrier m (t\<lparr>sr_status := ServiceRequestStatusFinished\<rparr>))"

text \<open>\<open>Wait\<close> and \<open>Response\<close>: the outer \<open>None\<close> stands for blocking.\<close>

definition Wait :: "ServiceRequest \<Rightarrow> req_error option go option" where
  "Wait t =
     (if sr_status t \<noteq> ServiceRequestStatusProcessing then Some (Ret (Some ENotProcessing))
      else (case sr_barrier t of
          None \<Rightarrow> Some Panic
        | Some b \<Rightarrow> if isOpen (b_lock b) then Some (Ret None) else None))"

definition Response :: "ServiceRequest \<Rightarrow> Message go option" where
  "Response t =
     (case sr_barrier t of
        None \<Rightarrow> Some Panic
      | Some b \<Rightarrow> (case barrier_Get b of
          None \<Rightarrow> None
        | Some None \<Rightarrow> Some Panic
        | Some (Some m) \<Rightarrow> Some (Ret m)))"

definition IsDead :: "ServiceRequest \<Rightarrow> bool" where
  "IsDead t \<longleftrightarrow> sr_status t = ServiceRequestStatusDead"

definition IsCancelled :: "ServiceRequest \<Rightarrow> bool" where
  "IsCancelled t \<longleftrightarrow> sr_status t = ServiceRequestStatusCancelled"

definition IsFinished :: "ServiceRequest \<Rightarrow> bool" where
  "IsFinished t \<longleftrightarrow> sr_status t = ServiceRequestStatusFinished"

definition SetContext :: "ServiceRequest \<Rightarrow> string \<Rightarrow> ctx_value \<Rightarrow> ServiceRequest go" where
  "SetContext t k v =
     (case sr_context t of None \<Rightarrow> Panic | Some c \<Rightarrow> Ret (t\<lparr>sr_context := Some (c(k \<mapsto> v))\<rparr>))"

definition GetContext :: "ServiceRequest \<Rightarrow> string \<Rightarrow> ctx_value option" where
  "GetContext t k = (case sr_context t of None \<Rightarrow> None | Some c \<Rightarrow> c k)"

definition Free :: "ServiceRequest \<Rightarrow> ServiceRequest" where
  "Free t = t\<lparr>sr_context := None, sr_barrier := None\<rparr>"

text \<open>A call on a request; \<open>exec_op\<close> gives the request after the call.\<close>

datatype req_op = OKill | OCancel | OResolve "Message option" | OTransit int | OSetContext string ctx_value

fun exec_op :: "req_op \<Rightarrow> ServiceRequest \<Rightarrow> ServiceRequest" where
  "exec_op OKill t = fst (Kill t)"
| "exec_op OCancel t = fst (Cancel t)"
| "exec_op (OResolve m) t = fst (Resolve t m)"
| "exec_op (OTransit st) t = TransitStatus t st"
| "exec_op (OSetContext k v) t = (case SetContext t k v of Panic \<Rightarrow> t | Ret t' \<Rightarrow> t')"

lemmas request_defs = Kill_def Cancel_def Resolve_def open_barrier_def OpenWith_def
  TransitStatus_def setStatus_def SetContext_def Open_def

section \<open>ServicePool.go\<close>

record ServiceTaskQueue =
  hostId :: string
  requests :: "nat \<Rightarrow> ServiceRequest"
  requestSet :: "(string \<times> nat) list"
  tasks :: "nat list"
  executor :: bool

definition NewServiceTaskQueue :: "string \<Rightarrow> (nat \<Rightarrow> ServiceRequest) \<Rightarrow> ServiceTaskQueue" where
  "NewServiceTaskQueue h reqs =
     \<lparr>hostId = h, requests = reqs, requestSet = [], tasks = [], executor = True\<rparr>"

definition req_id :: "ServiceTaskQueue \<Rightarrow> nat \<Rightarrow> string" where
  "req_id q a = m_id (sr_message (requests q a))"

definition queue_Stop :: "ServiceTaskQueue \<Rightarrow> ServiceTaskQueue" where
  "queue_Stop q = q\<lparr>executor := False\<rparr>"

definition queue_Has :: "ServiceTaskQueue \<Rightarrow> string \<Rightarrow> bool" where
  "queue_Has q i \<longleftrightarrow> map_of (requestSet q) i \<noteq> None"

definition queue_Get :: "ServiceTaskQueue \<Rightarrow> string \<Rightarrow> nat option" where
  "queue_Get q i = (if \<not> queue_Has q i then None else map_of (requestSet q) i)"

definition queue_Remove :: "ServiceTaskQueue \<Rightarrow> string \<Rightarrow> ServiceTaskQueue \<times> bool" where
  "queue_Remove q i =
     (if \<not> queue_Has q i then (q, False) else (q\<lparr>requestSet := AList.delete i (requestSet q)\<rparr>, True))"

text \<open>\<open>Schedule\<close>; the result says whether a lock is returned (\<open>nil\<close> when the id is in the set).\<close>

definition queue_Schedule :: "ServiceTaskQueue \<Rightarrow> nat \<Rightarrow> ServiceTaskQueue \<times> bool" where
  "queue_Schedule q a =
     (if queue_Has q (req_id q a) then (q, False)
      else (q\<lparr>requestSet := AList.update (req_id q a) a (requestSet q), tasks := tasks q @ [a]\<rparr>, True))"

text \<open>The scheduled closure, run on the heap of the moment.\<close>

definition run_task :: "(nat \<Rightarrow> (nat \<Rightarrow> ServiceRequest) \<Rightarrow> (nat \<Rightarrow> ServiceRequest)) \<Rightarrow>
    ServiceTaskQueue \<Rightarrow> ServiceTaskQueue go" where
  "run_task exec q =
     (case tasks q of
        [] \<Rightarrow> Ret q
      | a # rest \<Rightarrow>
          (let q = q\<lparr>tasks := rest\<rparr>; r = requests q a in
           if UnProcessableServiceRequestMap (sr_status r) then
             (let (r', _) = Resolve r (Some (NewErrorResponse (sr_message r) (hostId q) 503
                 ''request has been cancelled or target server is dead''))
              in Ret (q\<lparr>requests := (requests q)(a := r')\<rparr>))
           else
             (let q = q\<lparr>requests := (requests q)(a := TransitStatus r ServiceRequestStatusProcessing)\<rparr> in
              if \<not> executor q then Panic
              else
                (let q = q\<lparr>requests := exec a (requests q)\<rparr> in Ret (fst (queue_Remove q (req_id q a)))))))"

text \<open>
  \<open>withAll\<close> applies an operation to every request of the set, in the order \<open>addrs\<close> in which Go ranges
  over it. A panic inside leaves the requests visited so far changed. The error text is dropped by
  the code: only whether there was an error is returned.
\<close>

fun withAll :: "(ServiceRequest \<Rightarrow> ServiceRequest \<times> req_error option go) \<Rightarrow> nat list \<Rightarrow>
    (nat \<Rightarrow> ServiceRequest) \<Rightarrow> bool \<Rightarrow> (nat \<Rightarrow> ServiceRequest) \<times> bool go" where
  "withAll op [] reqs hasError = (reqs, Ret hasError)"
| "withAll op (a # as) reqs hasError =
     (case op (reqs a) of
        (r', Panic) \<Rightarrow> (reqs(a := r'), Panic)
      | (r', Ret err) \<Rightarrow> withAll op as (reqs(a := r')) (hasError \<or> err \<noteq> None))"

definition KillAll :: "ServiceTaskQueue \<Rightarrow> ServiceTaskQueue \<times> bool go" where
  "KillAll q = (let (reqs, res) = withAll Kill (map snd (requestSet q)) (requests q) False
                in (q\<lparr>requests := reqs\<rparr>, res))"

definition CancelAll :: "ServiceTaskQueue \<Rightarrow> ServiceTaskQueue \<times> bool go" where
  "CancelAll q = (let (reqs, res) = withAll Cancel (map snd (requestSet q)) (requests q) False
                  in (q\<lparr>requests := reqs\<rparr>, res))"

datatype queue_error = ECannotFind string | EReq req_error

definition queue_Cancel :: "ServiceTaskQueue \<Rightarrow> string \<Rightarrow> ServiceTaskQueue \<times> queue_error option go" where
  "queue_Cancel q i =
     (case queue_Get q i of
        None \<Rightarrow> (q, Ret (Some (ECannotFind i)))
      | Some a \<Rightarrow>
          (let (r', res) = Cancel (requests q a) in
           (q\<lparr>requests := (requests q)(a := r')\<rparr>,
            case res of Panic \<Rightarrow> Panic | Ret e \<Rightarrow> Ret (map_option EReq e))))"

definition queue_Size :: "ServiceTaskQueue \<Rightarrow> nat" where
  "queue_Size q = length (requestSet q)"

section \<open>Requests: the response is written once\<close>

text \<open>The barrier is open exactly when it holds a response, and then the request is finished.\<close>

definition req_ok :: "ServiceRequest \<Rightarrow> bool" where
  "req_ok t \<longleftrightarrow> (case sr_barrier t of None \<Rightarrow> True
     | Some b \<Rightarrow> (isOpen (b_lock b) \<longleftrightarrow> b_state b \<noteq> None) \<and>
         (isOpen (b_lock b) \<longrightarrow> sr_status t = ServiceRequestStatusFinished))"

lemma req_ok_New [simp]: "req_ok (NewServiceRequest m)"
  by (simp add: req_ok_def NewServiceRequest_def NewStatefulBarrier_def NewWaitLock_def)

lemma req_ok_exec: "req_ok t \<Longrightarrow> req_ok (exec_op op t)"
  by (cases op) (auto simp: request_defs req_ok_def split: option.splits go.splits if_splits)

lemma Response_finished:
  "req_ok t \<Longrightarrow> Response t = Some (Ret m) \<longleftrightarrow>
     (\<exists>b. sr_barrier t = Some b \<and> isOpen (b_lock b) \<and> b_state b = Some m) \<and>
     sr_status t = ServiceRequestStatusFinished"
  by (auto simp: Response_def req_ok_def barrier_Get_def split: option.splits if_splits)

lemma exec_keeps_response:
  "req_ok t \<Longrightarrow> Response t = Some (Ret m) \<Longrightarrow> Response (exec_op op t) = Some (Ret m)"
  using req_ok_exec [of t op]
  by (cases op) (auto simp: Response_finished request_defs split: option.splits go.splits if_splits)

lemma exec_ops_response:
  "req_ok t \<Longrightarrow> Response t = Some (Ret m) \<Longrightarrow> Response (fold exec_op ops t) = Some (Ret m)"
  by (induction ops arbitrary: t) (auto simp: req_ok_exec exec_keeps_response)

lemma req_ok_ops: "req_ok t \<Longrightarrow> req_ok (fold exec_op ops t)"
  by (induction ops arbitrary: t) (auto simp: req_ok_exec)

lemma Resolve_responds:
  assumes "req_ok t" and "sr_status t = ServiceRequestStatusProcessing" and "sr_barrier t \<noteq> None"
  shows "snd (Resolve t (Some m)) = Ret None \<and> Response (fst (Resolve t (Some m))) = Some (Ret m) \<and>
     req_ok (fst (Resolve t (Some m)))"
  using assms
  by (auto simp: request_defs Response_def barrier_Get_def req_ok_def split: option.splits)

lemma Kill_Cancel_live:
  assumes "req_ok t" and "sr_status t \<le> 1" and "sr_barrier t \<noteq> None"
  shows "Kill t = (t\<lparr>sr_status := ServiceRequestStatusDead\<rparr>, Panic)"
    and "Cancel t = (t\<lparr>sr_status := ServiceRequestStatusCancelled\<rparr>, Panic)"
  using assms by (auto simp: request_defs req_ok_def split: option.splits)

text \<open>No call changes the message a request carries, so its id is stable.\<close>

lemma exec_op_message [simp]: "sr_message (exec_op op t) = sr_message t"
  by (cases op) (auto simp: request_defs split: option.splits go.splits if_splits)

lemma op_message [simp]:
  "sr_message (fst (Kill t)) = sr_message t" "sr_message (fst (Cancel t)) = sr_message t"
  "sr_message (fst (Resolve t m)) = sr_message t" "sr_message (TransitStatus t st) = sr_message t"
  by (auto simp: request_defs split: option.splits go.splits if_splits)

section \<open>The queue\<close>

definition same_ids :: "(nat \<Rightarrow> ServiceRequest) \<Rightarrow> (nat \<Rightarrow> ServiceRequest) \<Rightarrow> bool" where
  "same_ids f g \<longleftrightarrow> (\<forall>a. m_id (sr_message (f a)) = m_id (sr_message (g a)))"

text \<open>Every entry of the set is stored under its id, and every scheduled request is in the set once.\<close>

definition queue_ok :: "ServiceTaskQueue \<Rightarrow> bool" where
  "queue_ok q \<longleftrightarrow> distinct (map fst (requestSet q)) \<and> distinct (tasks q) \<and>
     (\<forall>(i, a) \<in> set (requestSet q). req_id q a = i) \<and>
     (\<forall>a \<in> set (tasks q). map_of (requestSet q) (req_id q a) = Some a)"

lemma same_ids_req_id: "same_ids reqs (requests q) \<Longrightarrow> req_id (q\<lparr>requests := reqs\<rparr>) a = req_id q a"
  by (simp add: same_ids_def req_id_def)

lemma same_ids_refl [simp]: "same_ids f f"
  by (simp add: same_ids_def)

lemma same_ids_upd: "sr_message r = sr_message (f a) \<Longrightarrow> same_ids g f \<Longrightarrow> g a = f a \<Longrightarrow> same_ids (g(a := r)) f"
  by (simp add: same_ids_def)

lemma queue_ok_heap: "queue_ok q \<Longrightarrow> same_ids reqs (requests q) \<Longrightarrow> queue_ok (q\<lparr>requests := reqs\<rparr>)"
  by (simp add: queue_ok_def same_ids_req_id)

lemma withAll_ids:
  assumes "\<And>r. m_id (sr_message (fst (op r))) = m_id (sr_message r)"
  shows "same_ids (fst (withAll op as reqs e)) reqs"
proof (induction as arbitrary: reqs e)
  case (Cons a as)
  obtain r' res where op: "op (reqs a) = (r', res)" by force
  then have "same_ids (reqs(a := r')) reqs" using assms [of "reqs a"] by (auto simp: same_ids_def)
  then show ?case using op Cons.IH [of "reqs(a := r')"]
    by (cases res) (auto simp: same_ids_def fun_upd_def)
qed simp

lemma update_absent: "map_of al k = None \<Longrightarrow> AList.update k v al = al @ [(k, v)]"
  by (induction al) (auto split: if_splits)

lemma Schedule_ok:
  assumes "queue_ok q"
  shows "queue_ok (fst (queue_Schedule q a))"
proof (cases "queue_Has q (req_id q a)")
  case False
  then have none: "map_of (requestSet q) (req_id q a) = None" by (simp add: queue_Has_def)
  have "a \<notin> set (tasks q)" using assms none by (auto simp: queue_ok_def)
  moreover have "req_id q b \<noteq> req_id q a" if "b \<in> set (tasks q)" for b
    using assms none that by (auto simp: queue_ok_def)
  moreover have "req_id q a \<notin> set (map fst (requestSet q))"
    using none by (simp add: map_of_eq_None_iff)
  ultimately show ?thesis using assms none False
    by (auto simp: queue_Schedule_def queue_ok_def update_absent req_id_def map_add_def)
qed (simp add: queue_Schedule_def assms)

lemma Remove_ok:
  assumes "queue_ok q" and "\<forall>a \<in> set (tasks q). req_id q a \<noteq> i"
  shows "queue_ok (fst (queue_Remove q i))"
  using assms distinct_fst_delete [of "requestSet q" i]
  by (auto simp: queue_Remove_def queue_ok_def req_id_def AList.delete_eq)

text \<open>
  The contract of \<open>IRequestExecutor\<close>: executing one request leaves the ids of all requests as they are.
\<close>

locale request_executor =
  fixes exec :: "nat \<Rightarrow> (nat \<Rightarrow> ServiceRequest) \<Rightarrow> (nat \<Rightarrow> ServiceRequest)"
  assumes exec_ids: "same_ids (exec a reqs) reqs"
begin

lemma run_task_ok:
  assumes "queue_ok q" and "run_task exec q = Ret q'"
  shows "queue_ok q'"
proof (cases "tasks q")
  case (Cons a rest)
  let ?q1 = "q\<lparr>tasks := rest\<rparr>"
  have ok1: "queue_ok ?q1" using assms(1) Cons by (auto simp: queue_ok_def req_id_def)
  have other: "\<forall>b \<in> set rest. req_id q b \<noteq> req_id q a"
  proof
    fix b assume "b \<in> set rest"
    then have "b \<noteq> a" "map_of (requestSet q) (req_id q b) = Some b" "map_of (requestSet q) (req_id q a) = Some a"
      using assms(1) Cons by (auto simp: queue_ok_def)
    then show "req_id q b \<noteq> req_id q a" by auto
  qed
  show ?thesis
  proof (cases "UnProcessableServiceRequestMap (sr_status (requests q a))")
    case True
    then show ?thesis using assms(2) Cons ok1
      by (auto simp: run_task_def Let_def case_prod_beta intro!: queue_ok_heap simp: same_ids_def)
  next
    case False
    let ?reqs = "(requests q)(a := TransitStatus (requests q a) ServiceRequestStatusProcessing)"
    let ?q2 = "?q1\<lparr>requests := exec a ?reqs\<rparr>"
    have ids: "same_ids (exec a ?reqs) (requests ?q1)"
      using exec_ids [of a ?reqs] by (simp add: same_ids_def)
    then have ok2: "queue_ok ?q2" by (rule queue_ok_heap [OF ok1])
    have "q' = fst (queue_Remove ?q2 (req_id ?q2 a))"
      using assms(2) Cons False by (auto simp: run_task_def Let_def split: if_splits)
    moreover have "\<forall>b \<in> set (tasks ?q2). req_id ?q2 b \<noteq> req_id ?q2 a"
      using other ids by (simp add: req_id_def same_ids_def)
    ultimately show ?thesis using Remove_ok [OF ok2] by simp
  qed
qed (use assms in \<open>simp add: run_task_def\<close>)

end

section \<open>Properties\<close>



text \<open>
  \<open>Kill\<close> and \<open>Cancel\<close> of a live request set the status and then panic, because they open the
  barrier with \<open>nil\<close>; the barrier stays closed, so a caller of \<open>Response\<close> keeps waiting.
\<close>

theorem Kill_Cancel_panic:
  assumes "t = fold exec_op ops (NewServiceRequest msg)" and "sr_status t \<le> 1"
  shows "Kill t = (t\<lparr>sr_status := ServiceRequestStatusDead\<rparr>, Panic) \<and>
    Cancel t = (t\<lparr>sr_status := ServiceRequestStatusCancelled\<rparr>, Panic) \<and>
    Response (fst (Kill t)) = None"
proof -
  have ok: "req_ok t" using assms(1) req_ok_ops by simp
  have bar: "sr_barrier u \<noteq> None \<Longrightarrow> sr_barrier (fold exec_op ops u) \<noteq> None" for u
  proof (induction ops arbitrary: u)
    case (Cons op ops)
    have "sr_barrier (exec_op op u) \<noteq> None"
      using Cons.prems by (cases op) (auto simp: request_defs split: option.splits go.splits if_splits)
    then show ?case using Cons.IH by simp
  qed simp
  have "sr_barrier t \<noteq> None" using assms(1) bar by (simp add: NewServiceRequest_def)
  then show ?thesis
    using Kill_Cancel_live [OF ok assms(2)] ok assms(2)
    by (auto simp: Response_def barrier_Get_def req_ok_def split: option.splits)
qed

theorem Kill_Cancel_panic_witness:
  "snd (Kill (fold exec_op [OTransit 1] (NewServiceRequest sample_message))) = Panic"
proof -
  have "sr_status (fold exec_op [OTransit 1] (NewServiceRequest sample_message)) \<le> 1"
    by (simp add: request_defs NewServiceRequest_def)
  then show ?thesis using Kill_Cancel_panic [OF refl] by (metis snd_conv)
qed

text \<open>
  A service's queue holds every id at most once: scheduling an id that is in the set is refused
  and changes nothing, scheduling any other id enters it and appends the task. All the operations
  of the queue keep the set and the scheduled tasks consistent, for every executor that leaves the
  ids of requests alone.
\<close>

theorem task_queue_invariant:
  assumes "queue_ok q"
  shows "queue_Schedule q a =
      (if queue_Has q (req_id q a) then (q, False)
       else (q\<lparr>requestSet := requestSet q @ [(req_id q a, a)], tasks := tasks q @ [a]\<rparr>, True)) \<and>
    queue_ok (fst (queue_Schedule q a)) \<and> queue_ok (fst (KillAll q)) \<and> queue_ok (fst (CancelAll q)) \<and>
    queue_ok (fst (queue_Cancel q i)) \<and>
    ((\<forall>a reqs. same_ids (exec a reqs) reqs) \<longrightarrow> run_task exec q = Ret q' \<longrightarrow> queue_ok q')"
proof (intro conjI impI)
  show "queue_ok (fst (KillAll q))" "queue_ok (fst (CancelAll q))"
    using withAll_ids [of Kill] withAll_ids [of Cancel] assms
    by (auto simp: KillAll_def CancelAll_def case_prod_beta Let_def intro!: queue_ok_heap)
  show "queue_ok (fst (queue_Cancel q i))"
    using assms by (auto simp: queue_Cancel_def case_prod_beta Let_def intro!: queue_ok_heap simp: same_ids_def split: option.splits)
  show "queue_ok q'" if "\<forall>a reqs. same_ids (exec a reqs) reqs" "run_task exec q = Ret q'"
    using request_executor.run_task_ok [of exec q q'] that assms by (simp add: request_executor_def)
  show "queue_ok (fst (queue_Schedule q a))" using assms by (rule Schedule_ok)
qed (simp add: queue_Schedule_def queue_Has_def update_absent)

theorem task_queue_invariant_witness:
  "queue_ok (fst (queue_Schedule (NewServiceTaskQueue ''h'' (\<lambda>_. NewServiceRequest sample_message)) 3))"
proof -
  have "queue_ok (NewServiceTaskQueue ''h'' (\<lambda>_. NewServiceRequest sample_message))"
    by (simp add: queue_ok_def NewServiceTaskQueue_def)
  then show ?thesis using task_queue_invariant by blast
qed

text \<open>
  Running the first scheduled task. A request that was killed or cancelled is left in the set
  without a response, so its id is refused from then on; any other request is executed and
  its id leaves the set.
\<close>

theorem run_task_outcome:
  assumes "queue_ok q" and "tasks q = a # rest" and "executor q"
    and "\<And>a reqs. same_ids (exec a reqs) reqs"
  shows "\<exists>q'. run_task exec q = Ret q' \<and> tasks q' = rest \<and>
    (if UnProcessableServiceRequestMap (sr_status (requests q a))
     then requestSet q' = requestSet q \<and> requests q' = requests q \<and> snd (queue_Schedule q' a) = False
     else \<not> queue_Has q' (req_id q a) \<and>
       requests q' = exec a ((requests q)(a := TransitStatus (requests q a) ServiceRequestStatusProcessing)))"
proof (cases "UnProcessableServiceRequestMap (sr_status (requests q a))")
  case True
  then have "sr_status (requests q a) \<noteq> ServiceRequestStatusProcessing"
    by (auto simp: UnProcessableServiceRequestMap_def)
  then have "Resolve (requests q a) m = (requests q a, Ret (Some ENotProcessing))" for m
    by (simp add: Resolve_def)
  moreover have "map_of (requestSet q) (req_id q a) \<noteq> None" using assms(1,2) by (auto simp: queue_ok_def)
  ultimately show ?thesis using True assms(2)
    by (auto simp: run_task_def Let_def queue_Schedule_def queue_Has_def req_id_def)
next
  case False
  let ?reqs = "exec a ((requests q)(a := TransitStatus (requests q a) ServiceRequestStatusProcessing))"
  have "m_id (sr_message (?reqs a)) = m_id (sr_message (requests q a))"
    using assms(4) [of a "(requests q)(a := TransitStatus (requests q a) ServiceRequestStatusProcessing)"]
    by (simp add: same_ids_def)
  then show ?thesis using False assms(2,3)
    by (auto simp: run_task_def Let_def queue_Remove_def queue_Has_def req_id_def)
qed

theorem run_task_outcome_witness:
  "\<exists>q'. run_task (\<lambda>a reqs. reqs)
     (fst (queue_Schedule (NewServiceTaskQueue ''h'' (\<lambda>_. NewServiceRequest sample_message)) 3)) = Ret q' \<and> tasks q' = []"
proof -
  let ?q = "fst (queue_Schedule (NewServiceTaskQueue ''h'' (\<lambda>_. NewServiceRequest sample_message)) 3)"
  have "queue_ok (NewServiceTaskQueue ''h'' (\<lambda>_. NewServiceRequest sample_message))"
    by (simp add: queue_ok_def NewServiceTaskQueue_def)
  then have "queue_ok ?q" by (rule Schedule_ok)
  moreover have "tasks ?q = [3]" "executor ?q"
    by (simp_all add: queue_Schedule_def NewServiceTaskQueue_def queue_Has_def)
  ultimately show ?thesis using run_task_outcome [of ?q 3 "[]" "\<lambda>a reqs. reqs"] by auto
qed

end
