(* ===== verification/Handlers.thy ===== *)
theory Handlers
  imports Requests
begin

text \<open>
  Routing of a request to the function that serves it and the executors of a service:
  \<open>DefaultServiceHandler.go\<close>, \<open>SimpleServiceHandler.go\<close> and \<open>RequestHandlerMapBuilder.go\<close> of
  \<open>src/hub_common/service\<close>, \<open>src/hub_server/request/ServiceRequestExecutor.go\<close> and
  \<open>src/hub_client/ClientServiceExecutor.go\<close>.

  A \<open>RequestHandler\<close> is a value of type \<open>'h\<close> and \<open>call\<close> says what calling it does: the request it
  leaves and its error (or panic). Errors are their texts. A type assertion that fails is a panic.
\<close>

type_synonym params = "string \<rightharpoonup> string"
type_synonym 'h caller = "'h \<Rightarrow> ServiceRequest \<Rightarrow> params \<Rightarrow> params \<Rightarrow> ServiceRequest \<times> string option go"

text \<open>\<open>IsAsyncType\<close> of \<open>src/common/connection/ConnectionType.go\<close>; the types are TCP, WS, UDP, RTC, HTTP.\<close>

definition TypeHTTP :: nat where [simp]: "TypeHTTP = 4"

definition IsAsyncType :: "nat \<Rightarrow> bool" where
  "IsAsyncType connType \<longleftrightarrow> connType < TypeHTTP"

section \<open>DefaultServiceHandler\<close>

type_synonym 'h DefaultServiceHandler = "(string \<times> (int \<times> 'h) list) list"

definition NewDefaultServiceHandler :: "'h DefaultServiceHandler" where
  "NewDefaultServiceHandler = []"

definition default_Register :: "'h DefaultServiceHandler \<Rightarrow> int \<Rightarrow> string \<Rightarrow> 'h \<Rightarrow>
    'h DefaultServiceHandler \<times> string option" where
  "default_Register h requestType uri handler =
     (if requestType < 100 \<or> requestType > 200 then (h, Some ''invalid request type'')
      else
        (let m = (case map_of h uri of None \<Rightarrow> [] | Some m \<Rightarrow> m)
         in (AList.update uri (AList.update requestType handler m) h, None)))"

definition default_Unregister :: "'h DefaultServiceHandler \<Rightarrow> int \<Rightarrow> string \<Rightarrow>
    'h DefaultServiceHandler \<times> string option" where
  "default_Unregister h requestType uri =
     (if requestType < 100 \<or> requestType > 200 then (h, Some ''invalid request type'')
      else (case map_of h uri of
          None \<Rightarrow> (h, Some (''uri '' @ uri @ '' is not registered into the service handler''))
        | Some m \<Rightarrow>
            (let m' = AList.delete requestType m in
             (if m' = [] then AList.delete uri h else AList.update uri m' h, None))))"

text \<open>\<open>request.Resolve\<close> with its error ignored; a panic goes on.\<close>

definition resolve_with :: "ServiceRequest \<Rightarrow> Message \<Rightarrow> ServiceRequest \<times> unit go" where
  "resolve_with r m = (case Resolve r (Some m) of
       (r', Panic) \<Rightarrow> (r', Panic)
     | (r', Ret _) \<Rightarrow> (r', Ret ()))"

definition not_found_response :: "ServiceRequest \<Rightarrow> string \<Rightarrow> Message" where
  "not_found_response r pattern =
     NewErrorResponse (sr_message r) [] MessageTypeSvcNotFoundError
       (''can not handle uri '' @ m_uri (sr_message r) @ ''('' @ pattern @ ''): unregistered route'')"

definition not_allowed_response :: "ServiceRequest \<Rightarrow> string \<Rightarrow> Message" where
  "not_allowed_response r pattern =
     NewErrorResponse (sr_message r) [] MessageTypeSvcMethodNotAllowedError
       (''unsupported method for uri '' @ pattern)"

text \<open>The body under the read lock: the handler to call, after the responses it may set.\<close>

definition select_handler :: "'h DefaultServiceHandler \<Rightarrow> bool \<Rightarrow> string \<Rightarrow> ServiceRequest \<Rightarrow>
    ServiceRequest \<times> 'h option go" where
  "select_handler h isAsync pattern r =
     (let requestTypeMap = map_of h pattern;
          (r1, res1) = (if requestTypeMap = None then resolve_with r (not_found_response r pattern) else (r, Ret ()))
      in case res1 of
           Panic \<Rightarrow> (r1, Panic)
         | Ret _ \<Rightarrow>
             (let entries = (case requestTypeMap of None \<Rightarrow> [] | Some m \<Rightarrow> m) in
              case map_of entries (messageType (sr_message r1)) of
                Some f \<Rightarrow> (r1, Ret (Some f))
              | None \<Rightarrow>
                  (if isAsync \<and> length entries = 1 then (r1, Ret (Some (snd (hd entries))))
                   else (case resolve_with r1 (not_allowed_response r1 pattern) of
                       (r2, Panic) \<Rightarrow> (r2, Panic)
                     | (r2, Ret _) \<Rightarrow> (r2, Ret None)))))"

definition default_Handle :: "'h caller \<Rightarrow> 'h DefaultServiceHandler \<Rightarrow> ServiceRequest \<Rightarrow>
    ServiceRequest \<times> string option go" where
  "default_Handle call h r =
     (let pattern = GetContext r ''uri_pattern''; pathParams = GetContext r ''path_params'';
          queryParams = GetContext r ''query_params''; connType = GetContext r ''connection_type'' in
      case (case connType of None \<Rightarrow> Ret False | Some (CUint8 n) \<Rightarrow> Ret (IsAsyncType n) | Some _ \<Rightarrow> Panic) of
        Panic \<Rightarrow> (r, Panic)
      | Ret isAsync \<Rightarrow>
          (case pattern of
             None \<Rightarrow> (r, Ret (Some ''unable to get uri pattern from request''))
           | Some pv \<Rightarrow>
              (case (pathParams, queryParams) of
                 (Some pp, Some qp) \<Rightarrow>
                   (case pv of
                      CString pat \<Rightarrow>
                        (case select_handler h isAsync pat r of
                           (r', Panic) \<Rightarrow> (r', Panic)
                         | (r', Ret None) \<Rightarrow> (r', Ret None)
                         | (r', Ret (Some f)) \<Rightarrow>
                             (case (pp, qp) of (CParams ps, CParams qs) \<Rightarrow> call f r' ps qs | _ \<Rightarrow> (r', Panic)))
                    | _ \<Rightarrow> (r, Panic))
               | _ \<Rightarrow> (r, Ret (Some ''unable to get params from request'')))))"

section \<open>SimpleRequestHandler\<close>

type_synonym 'h SimpleRequestHandler = "(string \<times> 'h) list"

definition simple_Register :: "'h SimpleRequestHandler \<Rightarrow> string \<Rightarrow> 'h \<Rightarrow> 'h SimpleRequestHandler \<times> string option" where
  "simple_Register m uri handler =
     (if map_of m uri \<noteq> None then (m, Some (''uri_trie '' @ uri @ '' has already been registered''))
      else (AList.update uri handler m, None))"

definition simple_Unregister :: "'h SimpleRequestHandler \<Rightarrow> string \<Rightarrow> 'h SimpleRequestHandler \<times> string option" where
  "simple_Unregister m uri =
     (if map_of m uri = None
      then (m, Some (''unable to remove uri_trie '' @ uri @ '' as it's not registered into service handler''))
      else (AList.delete uri m, None))"

definition simple_Handle :: "'h caller \<Rightarrow> 'h SimpleRequestHandler \<Rightarrow> ServiceRequest \<Rightarrow>
    ServiceRequest \<times> string option go" where
  "simple_Handle call m r =
     (case (GetContext r ''uri_pattern'', GetContext r ''path_params'', GetContext r ''query_params'') of
        (None, _, _) \<Rightarrow> (r, Ret (Some ''unable to get uri pattern from request''))
      | (Some pv, Some pp, Some qp) \<Rightarrow>
          (case pv of
             CString pat \<Rightarrow>
               (case map_of m pat of
                  None \<Rightarrow> (r, Ret (Some (''unable to process uri '' @ pat)))
                | Some f \<Rightarrow> (case (pp, qp) of (CParams ps, CParams qs) \<Rightarrow> call f r ps qs | _ \<Rightarrow> (r, Panic)))
           | _ \<Rightarrow> (r, Panic))
      | _ \<Rightarrow> (r, Ret (Some ''unable to get params from request'')))"

section \<open>RequestHandlerMap\<close>

type_synonym 'h RequestHandlerMap = "(int \<times> (string \<times> 'h) list) list"

definition hm_Add :: "'h RequestHandlerMap \<Rightarrow> int \<Rightarrow> string \<Rightarrow> 'h \<Rightarrow> 'h RequestHandlerMap" where
  "hm_Add b requestType uri handler =
     (let m = (case map_of b requestType of None \<Rightarrow> [] | Some m \<Rightarrow> m)
      in AList.update requestType (AList.update uri handler m) b)"

definition hm_Get :: "'h RequestHandlerMap \<Rightarrow> string \<Rightarrow> 'h \<Rightarrow> 'h RequestHandlerMap" where
  "hm_Get b = hm_Add b MessageTypeServiceGetRequest"
definition hm_Post :: "'h RequestHandlerMap \<Rightarrow> string \<Rightarrow> 'h \<Rightarrow> 'h RequestHandlerMap" where
  "hm_Post b = hm_Add b MessageTypeServicePostRequest"
definition hm_Put :: "'h RequestHandlerMap \<Rightarrow> string \<Rightarrow> 'h \<Rightarrow> 'h RequestHandlerMap" where
  "hm_Put b = hm_Add b MessageTypeServicePutRequest"
definition hm_Patch :: "'h RequestHandlerMap \<Rightarrow> string \<Rightarrow> 'h \<Rightarrow> 'h RequestHandlerMap" where
  "hm_Patch b = hm_Add b MessageTypeServicePatchRequest"
definition hm_Delete :: "'h RequestHandlerMap \<Rightarrow> string \<Rightarrow> 'h \<Rightarrow> 'h RequestHandlerMap" where
  "hm_Delete b = hm_Add b MessageTypeServiceDeleteRequest"
definition hm_Head :: "'h RequestHandlerMap \<Rightarrow> string \<Rightarrow> 'h \<Rightarrow> 'h RequestHandlerMap" where
  "hm_Head b = hm_Add b MessageTypeServiceHeadRequest"
definition hm_Options :: "'h RequestHandlerMap \<Rightarrow> string \<Rightarrow> 'h \<Rightarrow> 'h RequestHandlerMap" where
  "hm_Options b = hm_Add b MessageTypeServiceOptionsRequest"

section \<open>Executors\<close>

definition internal_Execute :: "string \<Rightarrow> 'h caller \<Rightarrow> 'h DefaultServiceHandler \<Rightarrow> ServiceRequest \<Rightarrow>
    ServiceRequest \<times> unit go" where
  "internal_Execute serverId call h r =
     (case default_Handle call h r of
        (r', Panic) \<Rightarrow> (r', Panic)
      | (r', Ret None) \<Rightarrow> (r', Ret ())
      | (r', Ret (Some err)) \<Rightarrow>
          resolve_with r' (NewInternalErrorMessage (m_id (sr_message r')) serverId (m_from (sr_message r'))
             (m_uri (sr_message r')) (error_json err)))"

definition client_Execute :: "string \<Rightarrow> 'h caller \<Rightarrow> 'h DefaultServiceHandler \<Rightarrow> ServiceRequest \<Rightarrow>
    ServiceRequest \<times> unit go" where
  "client_Execute identity call h r =
     (case default_Handle call h r of
        (r', Panic) \<Rightarrow> (r', Panic)
      | (r', Ret None) \<Rightarrow> (r', Ret ())
      | (r', Ret (Some err)) \<Rightarrow>
          resolve_with r' (NewInternalErrorMessage (m_id (sr_message r')) identity (m_from (sr_message r'))
             (m_uri (sr_message r')) err))"

text \<open>
  The relay executor. \<open>ask c m\<close> is the answer of connection \<open>c\<close> to \<open>m\<close>, or an error; \<open>Request\<close> sends
  the message, and \<open>Connection.Send\<close> disposes of it whether or not the write succeeds.
\<close>

record 'c RelayServiceRequestExecutor =
  serviceId :: string
  providerId :: string
  relay_hostId :: string
  connections :: "'c list"
  lastSucceededConn :: nat

definition conn_Request :: "('c \<Rightarrow> Message \<Rightarrow> string + Message) \<Rightarrow> 'c \<Rightarrow> Message \<Rightarrow> (string + Message) \<times> Message" where
  "conn_Request ask c m = (ask c m, Dispose m)"

fun do_request_loop :: "('c \<Rightarrow> Message \<Rightarrow> string + Message) \<Rightarrow> 'c list \<Rightarrow> nat \<Rightarrow> nat \<Rightarrow> Message \<Rightarrow>
    string + Message \<Rightarrow> (string + Message) \<times> nat \<times> Message" where
  "do_request_loop ask conns 0 lst m res = (res, lst, m)"
| "do_request_loop ask conns (Suc n) lst m res =
     (let lst = lst + 1; (answer, m') = conn_Request ask (conns ! (lst mod length conns)) m in
      case answer of
        Inr resp \<Rightarrow> (Inr resp, lst, m')
      | Inl err \<Rightarrow> do_request_loop ask conns n lst m' (Inl err))"

definition doRequest :: "('c \<Rightarrow> Message \<Rightarrow> string + Message) \<Rightarrow> 'c RelayServiceRequestExecutor \<Rightarrow> Message \<Rightarrow>
    (string + Message) \<times> 'c RelayServiceRequestExecutor \<times> Message" where
  "doRequest ask e m =
     (if connections e = [] then (Inl ''all service connection is down'', e, m)
      else
        (let (res, lst, m') = do_request_loop ask (connections e) (length (connections e))
               (lastSucceededConn e) m (Inl [])
         in (res, e\<lparr>lastSucceededConn := lst\<rparr>, m')))"

definition relay_Execute :: "('c \<Rightarrow> Message \<Rightarrow> string + Message) \<Rightarrow> 'c RelayServiceRequestExecutor \<Rightarrow>
    ServiceRequest \<Rightarrow> (ServiceRequest \<times> unit go) \<times> 'c RelayServiceRequestExecutor" where
  "relay_Execute ask e r =
     (let (res, e', m') = doRequest ask e (sr_message r); r' = r\<lparr>sr_message := m'\<rparr>;
          fail = (\<lambda>text. NewInternalErrorMessage (m_id m') (relay_hostId e') (m_from m') (m_uri m') text)
      in (if sr_status r' = ServiceRequestStatusDead
          then resolve_with r' (fail ''request has been cancelled or target server is dead'')
          else (case res of
              Inl err \<Rightarrow> resolve_with r' (fail err)
            | Inr resp \<Rightarrow> resolve_with r' resp), e'))"

text \<open>\<open>updateConnections\<close>: an index loop that removes the dead connections in place.\<close>

function update_conns_loop :: "('c \<Rightarrow> bool) \<Rightarrow> nat \<Rightarrow> 'c list \<Rightarrow> 'c list" where
  "update_conns_loop live i conns =
     (if i < length conns
      then if \<not> live (conns ! i) then update_conns_loop live i (take i conns @ drop (i + 1) conns)
           else update_conns_loop live (i + 1) conns
      else conns)"
  by pat_completeness auto
termination
  by (relation "measure (\<lambda>(live, i, conns). length conns - i)") auto

definition updateConnections :: "('c \<Rightarrow> bool) \<Rightarrow> 'c RelayServiceRequestExecutor \<Rightarrow> 'c RelayServiceRequestExecutor" where
  "updateConnections live e = e\<lparr>connections := update_conns_loop live 0 (connections e)\<rparr>"

definition handleClientConnectionChangeEvent :: "('c \<Rightarrow> bool) \<Rightarrow> Message \<Rightarrow> 'c RelayServiceRequestExecutor \<Rightarrow>
    'c RelayServiceRequestExecutor" where
  "handleClientConnectionChangeEvent live event e =
     (if payload event = providerId e then updateConnections live e else e)"

text \<open>\<open>UpdateProviderConnection\<close>; both failures have the same text in the source.\<close>

definition UpdateProviderConnection :: "('c \<Rightarrow> string) \<Rightarrow> (string \<Rightarrow> 'c option) \<Rightarrow> string \<Rightarrow>
    'c RelayServiceRequestExecutor \<Rightarrow> 'c RelayServiceRequestExecutor \<times> string option" where
  "UpdateProviderConnection address getConnectionByAddress connAddr e =
     (let err = ''connection address '' @ connAddr @ '' has already been added to the executor'' in
      if list_ex (\<lambda>c. address c = connAddr) (connections e) then (e, Some err)
      else (case getConnectionByAddress connAddr of
          None \<Rightarrow> (e, Some err)
        | Some conn \<Rightarrow> (e\<lparr>connections := connections e @ [conn]\<rparr>, None)))"

section \<open>Lemmas\<close>

lemma resolve_with_processing:
  assumes "req_ok r" and "sr_status r = ServiceRequestStatusProcessing" and "sr_barrier r \<noteq> None"
  shows "resolve_with r m = (fst (Resolve r (Some m)), Ret ())"
    and "Response (fst (Resolve r (Some m))) = Some (Ret m)" and "req_ok (fst (Resolve r (Some m)))"
    and "sr_status (fst (Resolve r (Some m))) = ServiceRequestStatusFinished"
  using Resolve_responds [OF assms, of m] assms(2)
  by (auto simp: resolve_with_def request_defs split: prod.splits option.splits go.splits)

lemma resolve_with_finished:
  assumes "sr_status r \<noteq> ServiceRequestStatusProcessing"
  shows "resolve_with r m = (r, Ret ())"
  using assms by (simp add: resolve_with_def Resolve_def)

lemma resolve_with_id [simp]: "sr_message (fst (resolve_with r m)) = sr_message r"
  by (auto simp: resolve_with_def request_defs split: prod.splits go.splits option.splits if_splits)

lemma select_handler_branches:
  assumes "req_ok r" and "sr_status r = ServiceRequestStatusProcessing" and "sr_barrier r \<noteq> None"
  shows "select_handler h isAsync pat r =
     (case map_of h pat of
        None \<Rightarrow> (fst (Resolve r (Some (not_found_response r pat))), Ret None)
      | Some m \<Rightarrow> (case map_of m (messageType (sr_message r)) of
          Some f \<Rightarrow> (r, Ret (Some f))
        | None \<Rightarrow> if isAsync \<and> length m = 1 then (r, Ret (Some (snd (hd m))))
                  else (fst (Resolve r (Some (not_allowed_response r pat))), Ret None)))"
  using resolve_with_processing [OF assms] by (simp add: select_handler_def resolve_with_finished Let_def split: option.splits)

definition req_routed :: "ServiceRequest \<Rightarrow> string \<Rightarrow> params \<Rightarrow> params \<Rightarrow> nat option \<Rightarrow> bool" where
  "req_routed r pat ps qs conn \<longleftrightarrow> GetContext r ''uri_pattern'' = Some (CString pat) \<and>
     GetContext r ''path_params'' = Some (CParams ps) \<and> GetContext r ''query_params'' = Some (CParams qs) \<and>
     GetContext r ''connection_type'' = map_option CUint8 conn"

lemma default_Handle_select:
  assumes "req_routed r pat ps qs conn"
  shows "default_Handle call h r =
     (case select_handler h (case conn of None \<Rightarrow> False | Some n \<Rightarrow> IsAsyncType n) pat r of
        (r', Panic) \<Rightarrow> (r', Panic)
      | (r', Ret None) \<Rightarrow> (r', Ret None)
      | (r', Ret (Some f)) \<Rightarrow> call f r' ps qs)"
  using assms by (cases conn) (simp_all add: default_Handle_def req_routed_def)

lemma update_conns_loop_filter:
  "update_conns_loop live i conns = take i conns @ filter live (drop i conns)"
proof (induction live i conns rule: update_conns_loop.induct)
  case (1 live i conns)
  show ?case
  proof (cases "i < length conns")
    case True
    then have "drop i conns = conns ! i # drop (Suc i) conns" by (simp add: Cons_nth_drop_Suc)
    moreover have "take (Suc i) conns = take i conns @ [conns ! i]"
      using True by (simp add: take_Suc_conv_app_nth)
    ultimately show ?thesis using 1 True by (subst update_conns_loop.simps) (auto simp del: update_conns_loop.simps)
  next
    case False
    then show ?thesis by (subst update_conns_loop.simps) simp
  qed
qed

declare update_conns_loop.simps [simp del]

lemma Dispose_id [simp]: "m_id (Dispose m) = m_id m" "Dispose (Dispose m) = Dispose m"
  by (simp_all add: Dispose_def)

text \<open>The connection asked in round \<open>i\<close> and the message it is sent: only the first one gets the payload.\<close>

definition asked :: "'c list \<Rightarrow> nat \<Rightarrow> nat \<Rightarrow> 'c" where
  "asked conns lst i = conns ! ((lst + 1 + i) mod length conns)"

definition sent :: "Message \<Rightarrow> nat \<Rightarrow> Message" where
  "sent m i = (if i = 0 then m else Dispose m)"

lemma do_request_loop_first:
  assumes "\<forall>j < i. isl (ask (asked conns lst j) (sent m j))"
    and "ask (asked conns lst i) (sent m i) = Inr resp" and "i < n"
  shows "do_request_loop ask conns n lst m res = (Inr resp, lst + 1 + i, Dispose m)"
  using assms
proof (induction n arbitrary: i lst m res)
  case (Suc n)
  show ?case
  proof (cases i)
    case 0
    then show ?thesis using Suc.prems by (simp add: asked_def sent_def conn_Request_def)
  next
    case (Suc i')
    obtain err where e: "ask (asked conns lst 0) m = Inl err"
      using Suc.prems(1) [rule_format, of 0] \<open>i = Suc i'\<close>
      by (cases "ask (asked conns lst 0) m") (auto simp: sent_def)
    have shift: "asked conns (lst + 1) j = asked conns lst (Suc j)" "sent (Dispose m) j = sent m (Suc j)" for j
      by (simp_all add: asked_def sent_def)
    have "do_request_loop ask conns n (lst + 1) (Dispose m) (Inl err) = (Inr resp, lst + 1 + 1 + i', Dispose (Dispose m))"
      using Suc.prems \<open>i = Suc i'\<close> by (intro Suc.IH) (auto simp: shift [simplified])
    then show ?thesis using e \<open>i = Suc i'\<close> by (simp add: asked_def conn_Request_def)
  qed
qed simp

lemma do_request_loop_fail:
  assumes "\<forall>j < n. isl (ask (asked conns lst j) (sent m j))" and "isl res"
  shows "isl (fst (do_request_loop ask conns n lst m res))"
  using assms
proof (induction n arbitrary: lst m res)
  case (Suc n)
  obtain err where e: "ask (asked conns lst 0) m = Inl err"
    using Suc.prems(1) [rule_format, of 0] by (cases "ask (asked conns lst 0) m") (auto simp: sent_def)
  have "isl (fst (do_request_loop ask conns n (lst + 1) (Dispose m) (Inl err)))"
  proof (rule Suc.IH)
    have "asked conns (lst + 1) j = asked conns lst (Suc j)" "sent (Dispose m) j = sent m (Suc j)" for j
      by (simp_all add: asked_def sent_def)
    then show "\<forall>j < n. isl (ask (asked conns (lst + 1) j) (sent (Dispose m) j))"
      using Suc.prems(1) by auto
  qed simp
  then show ?case using e by (simp add: asked_def conn_Request_def)
qed simp

text \<open>Every connection has its turn within one round.\<close>

lemma asked_covers: "c \<in> set conns \<Longrightarrow> \<exists>i < length conns. asked conns lst i = c"
proof -
  assume "c \<in> set conns"
  then obtain k where k: "k < length conns" "conns ! k = c" by (auto simp: in_set_conv_nth)
  let ?n = "length conns"
  let ?i = "(k + ?n - (lst + 1) mod ?n) mod ?n"
  have "(lst + 1 + ?i) mod ?n = ((lst + 1) mod ?n + (k + ?n - (lst + 1) mod ?n)) mod ?n"
    by (metis mod_add_left_eq mod_add_right_eq)
  also have "(lst + 1) mod ?n + (k + ?n - (lst + 1) mod ?n) = k + ?n"
    using k(1) mod_less_divisor [of ?n "lst + 1"] by linarith
  also have "(k + ?n) mod ?n = k" using k(1) by simp
  finally have "asked conns lst ?i = c" using k by (simp add: asked_def)
  moreover have "?i < ?n" using k(1) by (intro mod_less_divisor) linarith
  ultimately show ?thesis by blast
qed

interpretation relay_exec: request_executor
  "\<lambda>a reqs. reqs(a := fst (fst (relay_Execute ask e (reqs a))))" for ask e
proof unfold_locales
  fix a :: nat and reqs :: "nat \<Rightarrow> ServiceRequest"
  have "m_id (snd (snd (do_request_loop ask conns n lst m res))) = m_id m" for conns n lst m res
    by (induction ask conns n lst m res rule: do_request_loop.induct)
      (auto simp: conn_Request_def Let_def split: sum.splits)
  then have "m_id (snd (snd (doRequest ask e m))) = m_id m" for m
    by (auto simp: doRequest_def case_prod_beta Let_def)
  then show "same_ids (reqs(a := fst (fst (relay_Execute ask e (reqs a))))) reqs"
    by (auto simp: same_ids_def relay_Execute_def Let_def case_prod_beta split: sum.splits)
qed

section \<open>Properties\<close>

text \<open>
  Dispatch inside a service. For a request in processing whose context was filled by the router,
  an unknown route is answered with 404 and a known route without the method with 405, without
  calling a handler; otherwise the registered handler is called with the path and query parameters,
  and on an asynchronous connection a route with a single handler takes every method.
\<close>

theorem default_Handle_dispatch:
  assumes "req_ok r" and "sr_status r = ServiceRequestStatusProcessing" and "sr_barrier r \<noteq> None"
    and "req_routed r pat ps qs conn"
  shows "case map_of h pat of
      None \<Rightarrow> Response (fst (default_Handle call h r)) = Some (Ret (not_found_response r pat)) \<and>
              snd (default_Handle call h r) = Ret None
    | Some m \<Rightarrow> (case map_of m (messageType (sr_message r)) of
          Some f \<Rightarrow> default_Handle call h r = call f r ps qs
        | None \<Rightarrow>
            if (case conn of None \<Rightarrow> False | Some n \<Rightarrow> IsAsyncType n) \<and> length m = 1
            then default_Handle call h r = call (snd (hd m)) r ps qs
            else Response (fst (default_Handle call h r)) = Some (Ret (not_allowed_response r pat)) \<and>
                 snd (default_Handle call h r) = Ret None)"
  using resolve_with_processing [OF assms(1-3)]
  by (simp add: default_Handle_select [OF assms(4)] select_handler_branches [OF assms(1-3)] split: option.splits)

text \<open>A routed request of the kind the server creates, for the witnesses.\<close>

definition sample_request :: ServiceRequest where
  "sample_request =
     (NewServiceRequest (NewMessage ''7'' ''c'' ''s'' ''/e'' MessageTypeServiceGetRequest ''x''))
       \<lparr>sr_status := ServiceRequestStatusProcessing,
        sr_context := Some [''uri_pattern'' \<mapsto> CString ''/e'', ''path_params'' \<mapsto> CParams Map.empty,
          ''query_params'' \<mapsto> CParams Map.empty]\<rparr>"

lemma sample_request_ok:
  "req_ok sample_request" "sr_status sample_request = ServiceRequestStatusProcessing"
  "sr_barrier sample_request \<noteq> None" "req_routed sample_request ''/e'' Map.empty Map.empty None"
  by (simp_all add: sample_request_def NewServiceRequest_def req_ok_def NewStatefulBarrier_def NewWaitLock_def
      req_routed_def GetContext_def)

definition echo_call :: "unit caller" where
  "echo_call f r ps qs = (fst (Resolve r (Some (sr_message r))), Ret None)"

theorem default_Handle_dispatch_witness:
  "Response (fst (default_Handle echo_call
      (fst (default_Register [] MessageTypeServicePostRequest ''/e'' ())) sample_request)) =
     Some (Ret (not_allowed_response sample_request ''/e''))"
proof -
  have "messageType (sr_message sample_request) = MessageTypeServiceGetRequest"
    by (simp add: sample_request_def NewServiceRequest_def NewMessage_def)
  then show ?thesis
    using default_Handle_dispatch [OF sample_request_ok,
        where h = "fst (default_Register [] MessageTypeServicePostRequest ''/e'' ())" and call = echo_call]
    by (simp add: default_Register_def)
qed

text \<open>
  Relaying a request. The connections are tried in turn, starting after the one used last; the
  request succeeds exactly when one of them answers, with the answer of the first that does, and
  every connection is asked within one round. Only the first connection is sent the payload:
  sending disposes of the message.
\<close>

theorem relay_round_robin:
  fixes e :: "'c RelayServiceRequestExecutor"
  defines "n \<equiv> length (connections e)"
  assumes "connections e \<noteq> []"
  shows "(\<forall>i < n. (\<forall>j < i. isl (ask (asked (connections e) (lastSucceededConn e) j) (sent m j))) \<longrightarrow>
      ask (asked (connections e) (lastSucceededConn e) i) (sent m i) = Inr resp \<longrightarrow>
      fst (doRequest ask e m) = Inr resp) \<and>
    ((\<forall>j < n. isl (ask (asked (connections e) (lastSucceededConn e) j) (sent m j))) \<longrightarrow>
      isl (fst (doRequest ask e m))) \<and>
    asked (connections e) (lastSucceededConn e) ` {..<n} = set (connections e)"
proof (intro conjI)
  show "asked (connections e) (lastSucceededConn e) ` {..<n} = set (connections e)"
    using asked_covers [of _ "connections e" "lastSucceededConn e"] assms
    by (fastforce simp: asked_def)
  show "(\<forall>j < n. isl (ask (asked (connections e) (lastSucceededConn e) j) (sent m j))) \<longrightarrow>
      isl (fst (doRequest ask e m))"
    using do_request_loop_fail [of n ask "connections e" "lastSucceededConn e" m "Inl []"] assms
    by (simp add: doRequest_def case_prod_beta Let_def)
qed (use do_request_loop_first [of _ ask "connections e" "lastSucceededConn e" m resp n "Inl []"] assms
    in \<open>auto simp: doRequest_def\<close>)

theorem relay_round_robin_witness:
  "fst (doRequest (\<lambda>c m. if c = (2::nat) then Inr m else Inl ''down'')
     \<lparr>serviceId = ''s'', providerId = ''p'', relay_hostId = ''h'', connections = [1, 2], lastSucceededConn = 1\<rparr>
     (sr_message sample_request)) = Inr (Dispose (sr_message sample_request))"
proof -
  let ?e = "\<lparr>serviceId = ''s'', providerId = ''p'', relay_hostId = ''h'', connections = [1, 2::nat], lastSucceededConn = 1\<rparr>"
  show ?thesis
    by (rule relay_round_robin [of ?e, THEN conjunct1, rule_format, of 1])
      (simp_all add: asked_def sent_def mod_Suc)
qed

text \<open>The in-place removal loop of \<open>updateConnections\<close> keeps exactly the live connections, in order.\<close>

theorem updateConnections_filters:
  "connections (updateConnections live e) = filter live (connections e)"
  by (simp add: updateConnections_def update_conns_loop_filter)

end
