(* ===== verification/Roles.thy ===== *)
theory Roles
  imports Prelude
begin

text \<open>
  Roles of the hub: \<open>src/hub_common/roles/Identity.go\<close>. The embedded \<open>*CommonRole\<close> is a field of the
  record, privileges are bits of an \<open>int\<close>, and the descriptor that \<open>Describe\<close> caches is an option.
  The methods that only read or write one field are the record's own selectors and updates.
\<close>

unbundle bit_operations_syntax

definition MaxPrivileges :: nat where [simp]: "MaxPrivileges = 5"
definition PRMessage :: int where [simp]: "PRMessage = 1"
definition PWMessage :: int where [simp]: "PWMessage = 2"
definition PDiscoverClients :: int where [simp]: "PDiscoverClients = 4"
definition PReadClientDetail :: int where [simp]: "PReadClientDetail = 8"
definition PRegisterCallbacks :: int where [simp]: "PRegisterCallbacks = 16"
definition ClientTypeAnonymous :: int where [simp]: "ClientTypeAnonymous = 0"
definition ClientTypeAuthenticated :: int where [simp]: "ClientTypeAuthenticated = 1"
definition ClientTypeService :: int where [simp]: "ClientTypeService = 2"
definition ClientTypeManager :: int where [simp]: "ClientTypeManager = 3"
definition ClientTypeRoot :: int where [simp]: "ClientTypeRoot = 4"
definition RoleTypeClient :: int where [simp]: "RoleTypeClient = 0"
definition RoleTypeServer :: int where [simp]: "RoleTypeServer = 1"

record CommonRole =
  r_id :: string
  r_description :: string
  rType :: int

definition NewCommonRole :: "string \<Rightarrow> string \<Rightarrow> int \<Rightarrow> CommonRole" where
  "NewCommonRole i d ty = \<lparr>r_id = i, r_description = d, rType = ty\<rparr>"

definition SetDescription :: "CommonRole \<Rightarrow> string \<Rightarrow> CommonRole" where
  "SetDescription c d = c\<lparr>r_description := d\<rparr>"

definition SetType :: "CommonRole \<Rightarrow> int \<Rightarrow> CommonRole" where
  "SetType c ty = c\<lparr>rType := ty\<rparr>"

record RoleDescriptor =
  rd_Id :: string
  rd_Description :: string
  rd_RoleType :: string
  rd_ExtraInfo :: string
  rd_Address :: string

record ClientExtraInfoDescriptor =
  ei_PScope :: int
  ei_CKey :: string
  ei_CType :: int

record CommonClient =
  c_role :: CommonRole
  pScope :: int
  cKey :: string
  cType :: int
  c_descriptor :: "RoleDescriptor option"

definition Scopes :: "CommonClient \<Rightarrow> int list" where
  "Scopes c = map (\<lambda>i. pScope c AND int i) [0..<MaxPrivileges]"

definition HasScope :: "CommonClient \<Rightarrow> int \<Rightarrow> bool" where
  "HasScope c scope \<longleftrightarrow> pScope c AND scope \<noteq> 0"

definition SetPScope :: "CommonClient \<Rightarrow> int \<Rightarrow> CommonClient" where
  "SetPScope c p = c\<lparr>pScope := p\<rparr>"

definition SetCKey :: "CommonClient \<Rightarrow> string \<Rightarrow> CommonClient" where
  "SetCKey c k = c\<lparr>cKey := k\<rparr>"

definition SetCType :: "CommonClient \<Rightarrow> int \<Rightarrow> CommonClient" where
  "SetCType c ty = c\<lparr>cType := ty\<rparr>"

text \<open>A backslash followed by a quote, as the format string of \<open>Describe\<close> writes it.\<close>

definition esc_quote :: string where
  "esc_quote = [CHR 0x5C, CHR 0x22]"

definition client_extra_info :: "CommonClient \<Rightarrow> string" where
  "client_extra_info c =
     ''{'' @ esc_quote @ ''pScope'' @ esc_quote @ '': '' @ sprintf_d (pScope c) @ '', '' @
     esc_quote @ ''cKey'' @ esc_quote @ '': '' @ esc_quote @ cKey c @ esc_quote @ '', '' @
     esc_quote @ ''cType'' @ esc_quote @ '': '' @ sprintf_d (cType c) @ ''}''"

definition client_Describe :: "CommonClient \<Rightarrow> RoleDescriptor \<times> CommonClient" where
  "client_Describe c =
     (case c_descriptor c of
        Some d \<Rightarrow> (d, c)
      | None \<Rightarrow>
          (let d = \<lparr>rd_Id = r_id (c_role c), rd_Description = r_description (c_role c),
                    rd_RoleType = ''Client'', rd_ExtraInfo = client_extra_info c, rd_Address = []\<rparr>
           in (d, c\<lparr>c_descriptor := Some d\<rparr>)))"

definition NewClient :: "string \<Rightarrow> string \<Rightarrow> int \<Rightarrow> string \<Rightarrow> int \<Rightarrow> CommonClient" where
  "NewClient i d ty key scope =
     \<lparr>c_role = NewCommonRole i d RoleTypeClient, pScope = scope, cKey = key, cType = ty, c_descriptor = None\<rparr>"

definition NewClientByDescriptor :: "RoleDescriptor \<Rightarrow> ClientExtraInfoDescriptor \<Rightarrow> CommonClient" where
  "NewClientByDescriptor d e = NewClient (rd_Id d) (rd_Description d) (ei_CType e) (ei_CKey e) (ei_PScope e)"

record CommonServer =
  s_role :: CommonRole
  url :: string
  port :: int
  s_descriptor :: "RoleDescriptor option"

definition Address :: "CommonServer \<Rightarrow> string" where
  "Address s = url s @ '':'' @ sprintf_d (port s)"

definition server_Describe :: "CommonServer \<Rightarrow> RoleDescriptor \<times> CommonServer" where
  "server_Describe s =
     (case s_descriptor s of
        Some d \<Rightarrow> (d, s)
      | None \<Rightarrow>
          (let d = \<lparr>rd_Id = r_id (s_role s), rd_Description = r_description (s_role s),
                    rd_RoleType = ''Server'', rd_ExtraInfo = url s, rd_Address = url s @ '':'' @ sprintf_d (port s)\<rparr>
           in (d, s\<lparr>s_descriptor := Some d\<rparr>)))"

definition NewServer :: "string \<Rightarrow> string \<Rightarrow> string \<Rightarrow> int \<Rightarrow> CommonServer" where
  "NewServer i d u p = \<lparr>s_role = NewCommonRole i d RoleTypeServer, url = u, port = p, s_descriptor = None\<rparr>"

lemma HasScope_SetPScope_OR:
  "HasScope (SetPScope c (p OR q)) s \<longleftrightarrow> HasScope (SetPScope c p) s \<or> HasScope (SetPScope c q) s"
proof -
  have "(p OR q) AND s = (p AND s) OR (q AND s)" by (rule bit_eqI) (auto simp: bit_simps)
  then show ?thesis by (auto simp: HasScope_def SetPScope_def or_eq_0_iff)
qed

text \<open>
  A client's privileges are the union of the bits it was given, \<open>Describe\<close> reports the fields of
  the client when it is first called, and every later call reports that same descriptor, whatever
  the setters have changed in between.
\<close>

theorem client_descriptor_is_cached:
  "HasScope (SetPScope c (p OR q)) s = (HasScope (SetPScope c p) s \<or> HasScope (SetPScope c q) s) \<and>
   fst (client_Describe (SetPScope (SetCKey (SetCType (snd (client_Describe c)) ty) k) p)) =
     fst (client_Describe c)"
  using HasScope_SetPScope_OR [of c p q s]
  by (auto simp: client_Describe_def SetPScope_def SetCKey_def SetCType_def Let_def
      split: option.splits)

end
