(* ===== verification/Services.thy ===== *)
theory Services
  imports Handlers Roles
begin

text \<open>
  The services of the server: \<open>Service.go\<close>, \<open>NativeService.go\<close> and \<open>RelayService.go\<close> of
  \<open>src/hub_server/service_base\<close>, with the descriptor of \<open>src/hub_common/service/Service.go\<close>.

  A provider is the descriptor that its \<open>Describe\<close> returns, a callback the label it was given, and
  the logger and the metering module are left out. \<open>Start\<close> and \<open>Stop\<close> return the labels of the
  callbacks they call. Embedding a \<open>*Service\<close> is a field of that type.
\<close>

section \<open>Data\<close>

definition ServicePrefix :: string where "ServicePrefix = []"

definition ServiceStatusUnregistered :: int where [simp]: "ServiceStatusUnregistered = 0"
definition ServiceStatusIdle :: int where [simp]: "ServiceStatusIdle = 1"
definition ServiceStatusStarting :: int where [simp]: "ServiceStatusStarting = 2"
definition ServiceStatusRunning :: int where [simp]: "ServiceStatusRunning = 3"
definition ServiceStatusBlocked :: int where [simp]: "ServiceStatusBlocked = 4"
definition ServiceStatusDead :: int where [simp]: "ServiceStatusDead = 5"
definition ServiceStatusStopping :: int where [simp]: "ServiceStatusStopping = 6"

definition ServiceExecutionAsync :: int where [simp]: "ServiceExecutionAsync = 0"
definition ServiceExecutionSync :: int where [simp]: "ServiceExecutionSync = 1"
definition ServiceTypeInternal :: int where [simp]: "ServiceTypeInternal = 0"
definition ServiceTypeProxy :: int where [simp]: "ServiceTypeProxy = 1"

record ServiceDescriptor =
  sd_Id :: string
  sd_Description :: string
  sd_HostInfo :: RoleDescriptor
  sd_Provider :: RoleDescriptor
  sd_ServiceUris :: "string list"
  sd_CTime :: int
  sd_ServiceType :: int
  sd_AccessType :: int
  sd_ExecutionType :: int
  sd_Status :: int

datatype svc_error =
    EInvalidServiceStatus string int
  | EInvalidTransition string int int
  | EText string

record Service =
  uriPrefix :: string
  svc_id :: string
  svc_description :: string
  svc_provider :: RoleDescriptor
  serviceUris :: "string list"
  svc_cTime :: int
  serviceType :: int
  accessType :: int
  executionType :: int
  svc_status :: int
  serviceQueue :: ServiceTaskQueue
  onStartedCallback :: "string option"
  onStoppedCallback :: "string option"

section \<open>Service.go\<close>

definition NewService :: "string \<Rightarrow> int \<Rightarrow> (nat \<Rightarrow> ServiceRequest) \<Rightarrow> string \<Rightarrow> string \<Rightarrow> RoleDescriptor \<Rightarrow>
    string list \<Rightarrow> int \<Rightarrow> int \<Rightarrow> int \<Rightarrow> Service" where
  "NewService serverId now reqs i desc provider uris sType aType exeType =
     \<lparr>uriPrefix = ServicePrefix @ ''/'' @ i, svc_id = i, svc_description = desc, svc_provider = provider,
      serviceUris = uris, svc_cTime = now, serviceType = sType, accessType = aType, executionType = exeType,
      svc_status = ServiceStatusIdle, serviceQueue = NewServiceTaskQueue serverId reqs,
      onStartedCallback = None, onStoppedCallback = None\<rparr>"

definition svc_setStatus :: "int \<Rightarrow> Service \<Rightarrow> Service" where
  "svc_setStatus st s = s\<lparr>svc_status := st\<rparr>"

definition Start :: "Service \<Rightarrow> Service \<times> svc_error option \<times> string list" where
  "Start s =
     (if svc_status s \<noteq> ServiceStatusIdle
      then (s, Some (EInvalidTransition (svc_id s) (svc_status s) ServiceStatusStarting), [])
      else
        (let s = svc_setStatus ServiceStatusStarting s; s = svc_setStatus ServiceStatusRunning s
         in (s, None, case onStartedCallback s of None \<Rightarrow> [] | Some cb \<Rightarrow> [cb])))"

definition Stop :: "Service \<Rightarrow> Service \<times> svc_error option \<times> string list" where
  "Stop s =
     (if \<not> (svc_status s > ServiceStatusIdle \<or> svc_status s < ServiceStatusStopping)
      then (s, Some (EInvalidTransition (svc_id s) (svc_status s) ServiceStatusStopping), [])
      else
        (let s = svc_setStatus ServiceStatusStopping s; s = s\<lparr>serviceQueue := queue_Stop (serviceQueue s)\<rparr>;
             s = svc_setStatus ServiceStatusIdle s
         in (s, None, case onStoppedCallback s of None \<Rightarrow> [] | Some cb \<Rightarrow> [cb])))"

definition OnStarted :: "string \<Rightarrow> Service \<Rightarrow> Service" where
  "OnStarted cb s = s\<lparr>onStartedCallback := Some cb\<rparr>"

definition OnStopped :: "string \<Rightarrow> Service \<Rightarrow> Service" where
  "OnStopped cb s = s\<lparr>onStoppedCallback := Some cb\<rparr>"

text \<open>
  \<open>Handle\<close> puts the request into the queue and then, unless the service is asynchronous, waits for the
  response. The second part reads the request later, when the pool may have run the task; its outer
  \<open>None\<close> means that it still waits.
\<close>

definition Handle_schedule :: "nat \<Rightarrow> Service \<Rightarrow> Service" where
  "Handle_schedule a s = s\<lparr>serviceQueue := fst (queue_Schedule (serviceQueue s) a)\<rparr>"

definition Handle_result :: "nat \<Rightarrow> Service \<Rightarrow> Message option go option" where
  "Handle_result a s =
     (if executionType s = ServiceExecutionAsync then Some (Ret None)
      else (case Response (requests (serviceQueue s) a) of
          None \<Rightarrow> None
        | Some Panic \<Rightarrow> Some Panic
        | Some (Ret m) \<Rightarrow> Some (Ret (Some m))))"

definition svc_Cancel :: "string \<Rightarrow> Service \<Rightarrow> Service \<times> queue_error option go" where
  "svc_Cancel messageId s = (let (q, res) = queue_Cancel (serviceQueue s) messageId in (s\<lparr>serviceQueue := q\<rparr>, res))"

definition KillAllProcessingJobs :: "Service \<Rightarrow> Service \<times> bool go" where
  "KillAllProcessingJobs s = (let (q, res) = KillAll (serviceQueue s) in (s\<lparr>serviceQueue := q\<rparr>, res))"

definition CancelAllPendingJobs :: "Service \<Rightarrow> Service \<times> bool go" where
  "CancelAllPendingJobs s = (let (q, res) = CancelAll (serviceQueue s) in (s\<lparr>serviceQueue := q\<rparr>, res))"

definition Describe :: "RoleDescriptor \<Rightarrow> Service \<Rightarrow> ServiceDescriptor" where
  "Describe host s =
     \<lparr>sd_Id = svc_id s, sd_Description = svc_description s, sd_HostInfo = host, sd_Provider = svc_provider s,
      sd_ServiceUris = serviceUris s, sd_CTime = svc_cTime s, sd_ServiceType = serviceType s,
      sd_AccessType = accessType s, sd_ExecutionType = executionType s, sd_Status = svc_status s\<rparr>"

definition svc_SupportsUri :: "Service \<Rightarrow> string \<Rightarrow> bool" where
  "svc_SupportsUri s uri =
     (if \<not> HasPrefix uri (uriPrefix s) then False
      else list_ex (HasPrefix (TrimPrefix uri (uriPrefix s))) (serviceUris s))"

definition FullServiceUris :: "Service \<Rightarrow> string list" where
  "FullServiceUris s = map (\<lambda>uri. uriPrefix s @ uri) (serviceUris s)"

definition svc_Kill :: "Service \<Rightarrow> Service \<times> bool go" where
  "svc_Kill s = KillAllProcessingJobs (svc_setStatus ServiceStatusDead s)"

section \<open>NativeService.go\<close>

record 'h NativeService =
  ns_service :: Service
  ns_handler :: "'h DefaultServiceHandler"

definition NewNativeService :: "RoleDescriptor \<Rightarrow> int \<Rightarrow> (nat \<Rightarrow> ServiceRequest) \<Rightarrow> string \<Rightarrow> string \<Rightarrow> int \<Rightarrow> int \<Rightarrow>
    int \<Rightarrow> 'h NativeService" where
  "NewNativeService host now reqs i desc sType aType exeType =
     \<lparr>ns_service = NewService (rd_Id host) now reqs i desc host [] sType aType exeType,
      ns_handler = NewDefaultServiceHandler\<rparr>"

definition shorten :: "string \<Rightarrow> string \<Rightarrow> string" where
  "shorten pre uri = (if HasPrefix uri pre then TrimPrefix uri pre else uri)"

definition RegisterRoute :: "int \<Rightarrow> string \<Rightarrow> 'h \<Rightarrow> 'h NativeService \<Rightarrow> 'h NativeService \<times> string option" where
  "RegisterRoute requestType uri handler n =
     (let s = ns_service n; shortUri = shorten (uriPrefix s) uri;
          shortUri = (if shortUri \<noteq> [] \<and> last shortUri = CHR ''/'' then butlast shortUri else shortUri);
          (h, err) = default_Register (ns_handler n) requestType (uriPrefix s @ shortUri) handler
      in (n\<lparr>ns_service := s\<lparr>serviceUris := serviceUris s @ [shortUri]\<rparr>, ns_handler := h\<rparr>, err))"

text \<open>The loop keeps the last index that holds the uri.\<close>

definition last_pos :: "string \<Rightarrow> string list \<Rightarrow> nat option" where
  "last_pos u us = (if u \<in> set us then Some (last (filter (\<lambda>i. us ! i = u) [0..<length us])) else None)"

definition UnregisterRoute :: "int \<Rightarrow> string \<Rightarrow> 'h NativeService \<Rightarrow> 'h NativeService \<times> string option" where
  "UnregisterRoute requestType uri n =
     (let s = ns_service n; shortUri = shorten (uriPrefix s) uri; uris = serviceUris s in
      case last_pos shortUri uris of
        None \<Rightarrow> (n, Some (''shortUri '' @ shortUri @ '' does not exist''))
      | Some i \<Rightarrow>
          (let l = length uris; uris' = uris[l - 1 := uris ! i, i := uris ! (l - 1)];
               (h, err) = default_Unregister (ns_handler n) requestType (uriPrefix s @ shortUri)
           in (n\<lparr>ns_service := s\<lparr>serviceUris := take (l - 1) uris'\<rparr>, ns_handler := h\<rparr>, err)))"

definition CheckCredential :: "ServiceRequest \<Rightarrow> string option" where
  "CheckCredential r = (if m_from (sr_message r) = [] then Some ''invalid credential'' else None)"

definition ResolveByAck :: "string \<Rightarrow> ServiceRequest \<Rightarrow> ServiceRequest \<times> req_error option go" where
  "ResolveByAck host r =
     (let m = sr_message r in Resolve r (Some (NewACKMessage (m_id m) host (m_from m) (m_uri m))))"

definition ResolveByResponse :: "string \<Rightarrow> ServiceRequest \<Rightarrow> string \<Rightarrow> ServiceRequest \<times> req_error option go" where
  "ResolveByResponse host r responseData =
     (let m = sr_message r in
      Resolve r (Some (NewMessage (m_id m) host (m_from m) (m_uri m) MessageTypeSvcResponseOK responseData)))"

definition assembleErrorMessageData :: "string \<Rightarrow> string" where
  "assembleErrorMessageData e = ''{'' @ [CHR 0x22] @ ''message'' @ [CHR 0x22] @ '': '' @ [CHR 0x22] @ e @ [CHR 0x22] @ ''}''"

text \<open>\<open>ResolveByError\<close>; the first component of the outcome says whether the code was refused.\<close>

definition ResolveByError :: "string \<Rightarrow> ServiceRequest \<Rightarrow> int \<Rightarrow> string \<Rightarrow> ServiceRequest \<times> (string + req_error option) go" where
  "ResolveByError host r errType msg =
     (if errType < 400 \<or> errType > 500 then (r, Ret (Inl ''invalid error code''))
      else
        (let m = sr_message r;
             (r', res) = Resolve r (Some (NewMessage (m_id m) host (m_from m) (m_uri m) errType (assembleErrorMessageData msg)))
         in (r', bind_go res (\<lambda>e. Ret (Inr e)))))"

definition ResolveByInvalidCredential :: "string \<Rightarrow> ServiceRequest \<Rightarrow> ServiceRequest \<times> (string + req_error option) go" where
  "ResolveByInvalidCredential host r = ResolveByError host r MessageTypeSvcUnauthorizedError ''invalid credential''"

text \<open>\<open>RegisterRoutes\<close>; the list gives the entries in the order in which Go ranges over the two maps.\<close>

fun RegisterRoutes :: "(int \<times> string \<times> 'h) list \<Rightarrow> 'h NativeService \<Rightarrow> 'h NativeService \<times> string option" where
  "RegisterRoutes [] n = (n, None)"
| "RegisterRoutes ((requestType, uri, handler) # rest) n =
     (case RegisterRoute requestType uri handler n of
        (n', Some err) \<Rightarrow> (n', Some err)
      | (n', None) \<Rightarrow> RegisterRoutes rest n')"

section \<open>RelayService.go\<close>

text \<open>
  The service and its queue hold pointers to executors: \<open>rs_executor\<close> is the field of the relay service
  and \<open>rs_queueExecutor\<close> the executor its queue runs, both addresses in \<open>rs_executors\<close>; \<open>rs_next\<close> is the
  next free address.
\<close>

record 'c RelayService =
  rs_service :: Service
  rs_executor :: nat
  rs_queueExecutor :: nat
  rs_executors :: "nat \<Rightarrow> 'c RelayServiceRequestExecutor"
  rs_next :: nat

text \<open>\<open>NewRelayServiceRequestExecutor\<close>: a new executor has no connections, and the update keeps it so.\<close>

definition NewRelayServiceRequestExecutor :: "('c \<Rightarrow> bool) \<Rightarrow> string \<Rightarrow> string \<Rightarrow> string \<Rightarrow>
    'c RelayServiceRequestExecutor" where
  "NewRelayServiceRequestExecutor live host sid pid =
     updateConnections live
       \<lparr>serviceId = sid, providerId = pid, relay_hostId = host, connections = [], lastSucceededConn = 0\<rparr>"

definition relay_Init :: "RoleDescriptor \<Rightarrow> int \<Rightarrow> (nat \<Rightarrow> ServiceRequest) \<Rightarrow> ServiceDescriptor \<Rightarrow> RoleDescriptor \<Rightarrow>
    'c RelayServiceRequestExecutor \<Rightarrow> 'c RelayService" where
  "relay_Init host now reqs d provider e =
     \<lparr>rs_service = NewService (rd_Id host) now reqs (sd_Id d) (sd_Description d) provider (sd_ServiceUris d)
        (sd_ServiceType d) (sd_AccessType d) (sd_ExecutionType d),
      rs_executor = 0, rs_queueExecutor = 0, rs_executors = (\<lambda>_. e), rs_next = 1\<rparr>"

text \<open>
  \<open>RestoreExternally\<close>. The queue gets a new executor for the new owner; the field \<open>executor\<close> of the
  service is not changed.
\<close>

definition RestoreExternally :: "('c \<Rightarrow> bool) \<Rightarrow> RoleDescriptor \<Rightarrow> RoleDescriptor \<Rightarrow> 'c RelayService \<Rightarrow>
    'c RelayService \<times> svc_error option" where
  "RestoreExternally live host owner r =
     (let s = rs_service r in
      if svc_status s \<noteq> ServiceStatusDead then (r, Some (EInvalidServiceStatus (svc_id s) (svc_status s)))
      else (case Stop s of
          (s1, Some err, _) \<Rightarrow> (r\<lparr>rs_service := s1\<rparr>, Some err)
        | (s1, None, _) \<Rightarrow>
            (let oldOwner = svc_provider s1; oldPool = serviceQueue s1;
                 s2 = s1\<lparr>svc_provider := owner\<rparr>;
                 e = NewRelayServiceRequestExecutor live (rd_Id host) (svc_id s2) (rd_Id (svc_provider s2));
                 r2 = r\<lparr>rs_queueExecutor := rs_next r, rs_executors := (rs_executors r)(rs_next r := e), rs_next := rs_next r + 1\<rparr>;
                 s3 = s2\<lparr>serviceQueue := NewServiceTaskQueue (rd_Id host) (requests oldPool)\<rparr> in
             case Start s3 of
               (s4, None, _) \<Rightarrow> (r2\<lparr>rs_service := s4\<rparr>, None)
             | (s4, Some err, _) \<Rightarrow>
                 (r2\<lparr>rs_queueExecutor := rs_queueExecutor r,
                     rs_service := s4\<lparr>svc_provider := oldOwner, serviceQueue := oldPool, svc_status := ServiceStatusDead\<rparr>\<rparr>,
                  Some err))))"

definition relay_UpdateProviderConnection :: "('c \<Rightarrow> string) \<Rightarrow> (string \<Rightarrow> 'c option) \<Rightarrow> string \<Rightarrow> 'c RelayService \<Rightarrow>
    'c RelayService \<times> svc_error option" where
  "relay_UpdateProviderConnection address getConn connAddr r =
     (if svc_status (rs_service r) \<ge> ServiceStatusStopping
      then (r, Some (EText (''invalid service status for update provider connection('' @ sprintf_d (svc_status (rs_service r)) @ '')'')))
      else
        (let (e, err) = UpdateProviderConnection address getConn connAddr (rs_executors r (rs_executor r))
         in (r\<lparr>rs_executors := (rs_executors r)(rs_executor r := e)\<rparr>, map_option EText err)))"

definition GetProviderConnections :: "'c RelayService \<Rightarrow> 'c list" where
  "GetProviderConnections r = connections (rs_executors r (rs_executor r))"

definition relay_update :: "ServiceDescriptor \<Rightarrow> Service \<Rightarrow> Service" where
  "relay_update d s =
     s\<lparr>svc_description := sd_Description d, svc_status := sd_Status d, serviceType := sd_ServiceType d,
       executionType := sd_ExecutionType d, svc_cTime := sd_CTime d, serviceUris := sd_ServiceUris d\<rparr>"

text \<open>\<open>Update\<close> always returns \<open>nil\<close>.\<close>

definition relay_Update :: "RoleDescriptor \<Rightarrow> ServiceDescriptor \<Rightarrow> 'c RelayService \<Rightarrow> 'c RelayService \<times> svc_error option" where
  "relay_Update host d r =
     (let oldDescriptor = Describe host (rs_service r); s = relay_update d (rs_service r) in
      if sd_Status d = ServiceStatusStarting
      then (case Start s of
          (s', Some err, _) \<Rightarrow> (r\<lparr>rs_service := relay_update oldDescriptor s'\<rparr>, None)
        | (s', None, _) \<Rightarrow> (r\<lparr>rs_service := s'\<rparr>, None))
      else (r\<lparr>rs_service := s\<rparr>, None))"

section \<open>Lemmas\<close>

lemma Stop_eq:
  "Stop s = (s\<lparr>serviceQueue := queue_Stop (serviceQueue s), svc_status := ServiceStatusIdle\<rparr>, None,
     case onStoppedCallback s of None \<Rightarrow> [] | Some cb \<Rightarrow> [cb])"
proof -
  have "svc_status s > ServiceStatusIdle \<or> svc_status s < ServiceStatusStopping" by simp linarith
  then show ?thesis by (simp add: Stop_def Let_def svc_setStatus_def)
qed

lemma FullServiceUris_Stop [simp]: "FullServiceUris (fst (Stop s)) = FullServiceUris s"
  by (simp add: Stop_eq FullServiceUris_def)

lemma relay_update_Describe: "relay_update (Describe host s) (relay_update d s) = s"
  by (cases s) (simp add: relay_update_def Describe_def)

lemma relay_Update_eq:
  "relay_Update host d r =
     (if sd_Status d = ServiceStatusStarting then r else r\<lparr>rs_service := relay_update d (rs_service r)\<rparr>, None)"
proof (cases "sd_Status d = ServiceStatusStarting")
  case True
  then have "svc_status (relay_update d (rs_service r)) \<noteq> ServiceStatusIdle" by (simp add: relay_update_def)
  then show ?thesis using True by (simp add: relay_Update_def Start_def Let_def relay_update_Describe)
qed (simp add: relay_Update_def Let_def)

text \<open>What a registered route means for the service: the router gets the uri and the handler answers it.\<close>

definition native_routes :: "'h NativeService \<Rightarrow> string \<Rightarrow> int \<Rightarrow> 'h option" where
  "native_routes n uri ty = (case map_of (ns_handler n) uri of None \<Rightarrow> None | Some m \<Rightarrow> map_of m ty)"

definition route_uri :: "'h NativeService \<Rightarrow> string \<Rightarrow> string" where
  "route_uri n uri = (let u = shorten (uriPrefix (ns_service n)) uri in
     uriPrefix (ns_service n) @ (if u \<noteq> [] \<and> last u = CHR ''/'' then butlast u else u))"

lemma native_routes_RegisterRoute:
  assumes "100 \<le> ty" "ty \<le> 200"
  shows "snd (RegisterRoute ty uri h n) = None"
    and "native_routes (fst (RegisterRoute ty uri h n)) u t =
      (if u = route_uri n uri \<and> t = ty then Some h else native_routes n u t)"
    and "FullServiceUris (ns_service (fst (RegisterRoute ty uri h n))) =
      FullServiceUris (ns_service n) @ [route_uri n uri]"
    and "uriPrefix (ns_service (fst (RegisterRoute ty uri h n))) = uriPrefix (ns_service n)"
  using assms
  by (auto simp: RegisterRoute_def default_Register_def native_routes_def route_uri_def FullServiceUris_def Let_def
      update_conv' split: option.splits)

section \<open>Properties\<close>

text \<open>
  Registering the routes of a native service succeeds for every list of routes with request types:
  the service then offers to the router exactly the new uris after the old ones, under its prefix, and
  its handler answers each uri and type with the route registered last for them.
\<close>

theorem RegisterRoutes_complete:
  assumes "list_all (\<lambda>(ty, uri, h). 100 \<le> ty \<and> ty \<le> 200) routes"
  shows "snd (RegisterRoutes routes n) = None \<and>
    FullServiceUris (ns_service (fst (RegisterRoutes routes n))) =
      FullServiceUris (ns_service n) @ map (\<lambda>(ty, uri, h). route_uri n uri) routes \<and>
    native_routes (fst (RegisterRoutes routes n)) u t =
      (case find (\<lambda>(ty, uri, h). u = route_uri n uri \<and> t = ty) (rev routes) of
         Some (ty, uri, h) \<Rightarrow> Some h | None \<Rightarrow> native_routes n u t)"
  using assms
proof (induction routes arbitrary: n)
  case (Cons r routes)
  obtain ty uri h where r: "r = (ty, uri, h)" by (cases r)
  obtain n' where n': "RegisterRoute ty uri h n = (n', None)"
    using native_routes_RegisterRoute(1) [of ty uri h n] Cons.prems r by (cases "RegisterRoute ty uri h n") auto
  have reg: "native_routes n' u t = (if u = route_uri n uri \<and> t = ty then Some h else native_routes n u t)"
    "FullServiceUris (ns_service n') = FullServiceUris (ns_service n) @ [route_uri n uri]"
    "uriPrefix (ns_service n') = uriPrefix (ns_service n)" for u t
    using native_routes_RegisterRoute(2-4) [of ty uri h n] Cons.prems r n' by auto
  have same: "route_uri n' = route_uri n" using reg(3) by (simp add: route_uri_def fun_eq_iff)
  have "find P (xs @ [x]) = (case find P xs of None \<Rightarrow> if P x then Some x else None | Some y \<Rightarrow> Some y)"
    for P and xs :: "(int \<times> string \<times> 'a) list" and x by (induction xs) auto
  then show ?case using Cons.IH [of n'] Cons.prems
    by (auto simp: r n' reg same split: option.splits)
qed simp

theorem RegisterRoutes_complete_witness:
  "let n = fst (RegisterRoutes [(MessageTypeServiceGetRequest, ''/send'', 1::nat), (MessageTypeServicePostRequest, ''/message/send/'', 2)]
         (NewNativeService \<lparr>rd_Id = ''hub'', rd_Description = [], rd_RoleType = [], rd_ExtraInfo = [], rd_Address = []\<rparr> 0
            (\<lambda>_. sample_request) ''message'' [] 0 0 0))
   in FullServiceUris (ns_service n) = [''/message/send'', ''/message/send''] \<and>
      native_routes n ''/message/send'' MessageTypeServicePostRequest = Some 2"
  using RegisterRoutes_complete [of "[(MessageTypeServiceGetRequest, ''/send'', 1::nat),
      (MessageTypeServicePostRequest, ''/message/send/'', 2)]"]
  by (simp add: NewNativeService_def NewService_def NewDefaultServiceHandler_def route_uri_def shorten_def HasPrefix_def
      TrimPrefix_def FullServiceUris_def ServicePrefix_def Let_def)

text \<open>
  A service that was stopped can be started again and then runs without an executor: \<open>Stop\<close>
  succeeds in every status, \<open>Start\<close> brings the service back to running, and the first request that the
  pool then runs for it panics.
\<close>

theorem restarted_service_panics:
  assumes "tasks (serviceQueue s) = []" and "\<not> queue_Has (serviceQueue s) (req_id (serviceQueue s) a)"
    and "sr_status (requests (serviceQueue s) a) = ServiceRequestStatusQueued"
  shows "\<exists>s1 s2 cbs1 cbs2. Stop s = (s1, None, cbs1) \<and> Start s1 = (s2, None, cbs2) \<and>
    svc_status s2 = ServiceStatusRunning \<and> run_task exec (serviceQueue (Handle_schedule a s2)) = Panic"
proof -
  let ?q = "queue_Stop (serviceQueue s)"
  have "run_task exec (fst (queue_Schedule ?q a)) = Panic"
    using assms by (simp add: queue_Schedule_def queue_Stop_def queue_Has_def req_id_def run_task_def
        UnProcessableServiceRequestMap_def Let_def)
  then show ?thesis by (simp add: Stop_eq Start_def svc_setStatus_def Handle_schedule_def)
qed

theorem restarted_service_panics_witness:
  "\<exists>s1 s2 cbs1 cbs2. Stop (NewService ''hub'' 0 (\<lambda>_. NewServiceRequest (NewMessage ''1'' [] [] [] 110 [])) ''echo'' []
       \<lparr>rd_Id = ''hub'', rd_Description = [], rd_RoleType = [], rd_ExtraInfo = [], rd_Address = []\<rparr> [''/a''] 0 0 1) =
     (s1, None, cbs1) \<and> Start s1 = (s2, None, cbs2) \<and> svc_status s2 = ServiceStatusRunning \<and>
     run_task (\<lambda>a reqs. reqs) (serviceQueue (Handle_schedule 0 s2)) = Panic"
  by (rule restarted_service_panics)
    (simp_all add: NewService_def NewServiceTaskQueue_def queue_Has_def NewServiceRequest_def)

text \<open>
  A dead relay service that its provider restores is running again, but its queue relays through a
  new executor that no later \<open>UpdateProviderConnection\<close> reaches: whatever connections the provider
  announces, the executor that serves the requests has none and answers that all connections are down.
\<close>

theorem restored_relay_has_no_connections:
  assumes "svc_status (rs_service r) = ServiceStatusDead" and "rs_executor r < rs_next r"
  shows "\<exists>r'. RestoreExternally live host owner r = (r', None) \<and> svc_status (rs_service r') = ServiceStatusRunning \<and>
    (let r'' = fold (\<lambda>a r. fst (relay_UpdateProviderConnection address getConn a r)) addrs r' in
     fst (doRequest ask (rs_executors r'' (rs_queueExecutor r'')) m) = Inl ''all service connection is down'')"
proof -
  obtain r' where r': "RestoreExternally live host owner r = (r', None)" "svc_status (rs_service r') = ServiceStatusRunning"
    "rs_queueExecutor r' \<noteq> rs_executor r'" "connections (rs_executors r' (rs_queueExecutor r')) = []"
    using assms by (simp add: RestoreExternally_def Stop_eq Start_def svc_setStatus_def Let_def
        NewRelayServiceRequestExecutor_def updateConnections_def update_conns_loop_filter)
  have "rs_queueExecutor r \<noteq> rs_executor r \<Longrightarrow> connections (rs_executors r (rs_queueExecutor r)) = [] \<Longrightarrow>
      connections (rs_executors (fold (\<lambda>a r. fst (relay_UpdateProviderConnection address getConn a r)) addrs r)
        (rs_queueExecutor (fold (\<lambda>a r. fst (relay_UpdateProviderConnection address getConn a r)) addrs r))) = []" for r
    by (induction addrs arbitrary: r) (auto simp: relay_UpdateProviderConnection_def Let_def split: prod.splits)
  from this [OF r'(3,4)] show ?thesis using r'(1,2) by (simp add: doRequest_def Let_def)
qed

definition sample_relay :: "nat RelayService" where
  "sample_relay =
     (relay_Init \<lparr>rd_Id = ''hub'', rd_Description = [], rd_RoleType = [], rd_ExtraInfo = [], rd_Address = []\<rparr> 0 (\<lambda>_. sample_request)
        \<lparr>sd_Id = ''echo'', sd_Description = [],
          sd_HostInfo = \<lparr>rd_Id = ''hub'', rd_Description = [], rd_RoleType = [], rd_ExtraInfo = [], rd_Address = []\<rparr>,
          sd_Provider = \<lparr>rd_Id = ''alice'', rd_Description = [], rd_RoleType = [], rd_ExtraInfo = [], rd_Address = []\<rparr>,
          sd_ServiceUris = [''/a''], sd_CTime = 0, sd_ServiceType = ServiceTypeProxy, sd_AccessType = 0,
          sd_ExecutionType = ServiceExecutionSync, sd_Status = ServiceStatusRunning\<rparr>
        \<lparr>rd_Id = ''alice'', rd_Description = [], rd_RoleType = [], rd_ExtraInfo = [], rd_Address = []\<rparr>
        \<lparr>serviceId = ''echo'', providerId = ''alice'', relay_hostId = ''hub'', connections = [7], lastSucceededConn = 0\<rparr>)"

theorem restored_relay_has_no_connections_witness:
  "let r = sample_relay\<lparr>rs_service := fst (svc_Kill (rs_service sample_relay))\<rparr>;
       r' = fst (RestoreExternally (\<lambda>_. True) (svc_provider (rs_service r)) (svc_provider (rs_service r)) r);
       r'' = fold (\<lambda>a r. fst (relay_UpdateProviderConnection (\<lambda>_. ''x'') (\<lambda>_. Some 8) a r)) [''y''] r'
   in fst (doRequest (\<lambda>c m. Inr m) (rs_executors r'' (rs_queueExecutor r'')) (sr_message sample_request)) =
        Inl ''all service connection is down''"
proof -
  let ?r = "sample_relay\<lparr>rs_service := fst (svc_Kill (rs_service sample_relay))\<rparr>"
  have "svc_status (rs_service ?r) = ServiceStatusDead" "rs_executor ?r < rs_next ?r"
    by (simp_all add: sample_relay_def relay_Init_def svc_Kill_def KillAllProcessingJobs_def svc_setStatus_def
        case_prod_beta)
  from restored_relay_has_no_connections [OF this, of "\<lambda>_. True" "svc_provider (rs_service ?r)" "svc_provider (rs_service ?r)"
      "\<lambda>_. ''x''" "\<lambda>_. Some 8" "[''y'']" "\<lambda>c m. Inr m" "sr_message sample_request"]
  show ?thesis by (auto simp: Let_def)
qed

end
