(* ===== verification/UriTrie.thy ===== *)
theory UriTrie
  imports Prelude
begin

text \<open>
  The routing trie of \<open>src/common/uri_trie/TrieTree.go\<close>.

  A \<open>*trieNode\<close> is a value of \<open>trieNode\<close>: every node of the Go program is created by exactly one
  \<open>add\<close> call and hangs below exactly one parent, so the nodes reachable from \<open>root\<close> form a tree and
  the \<open>parent\<close> pointer of a reachable node is its position in it. An operation that Go performs
  through \<open>parent\<close> (\<open>remove\<close>) is an update at the parent's position, a list of \<open>step\<close>s from the
  root. The children map keeps its keys as an association list whose values are options, because
  \<open>remove\<close> stores \<open>nil\<close> under a key instead of deleting it and \<open>clean\<close> then meets that \<open>nil\<close>.

  The check of \<open>ctx.params\<close> in \<open>addPath\<close> (lines 140-145) builds an error and drops it, so the
  context has no effect and no parameter in the model.
\<close>

section \<open>Data\<close>

datatype trie_error =
    EInvalidExpression string
  | ECannotAddParam string string
  | ECannotAddWildcard string string
  | EPathTaken string
  | ENoPathFind
  | EMismatched string string
  | ENoRouting string
  | ENoValue string
  | EEmptyPath

record 'v MatchContext =
  UriPattern :: string
  QueryParams :: "string \<rightharpoonup> string"
  PathParams :: "string \<rightharpoonup> string"
  Value :: "'v option"

datatype tnType = tnTypeP | tnTypeW | tnTypeC

datatype 'v trieNode = TrieNode
  (wildcardChild: "'v trieNode option")
  (paramChild: "'v trieNode option")
  (constChildren: "(string \<times> 'v trieNode option) list")
  (param: string)
  (nvalue: "'v option")
  (npath: string)
  (ntype: tnType)

definition fresh_node :: "tnType \<Rightarrow> string \<Rightarrow> 'v trieNode" where
  "fresh_node ty prm = TrieNode None None [] prm None [] ty"

text \<open>\<open>n.constChildren[k]\<close>: an absent key and a stored \<open>nil\<close> both read as \<open>nil\<close>.\<close>

definition const_get :: "'v trieNode \<Rightarrow> string \<Rightarrow> 'v trieNode option" where
  "const_get n k = (case map_of (constChildren n) k of Some (Some c) \<Rightarrow> Some c | _ \<Rightarrow> None)"

fun set_wildcard :: "'v trieNode option \<Rightarrow> 'v trieNode \<Rightarrow> 'v trieNode" where
  "set_wildcard w (TrieNode _ p cs prm v pt ty) = TrieNode w p cs prm v pt ty"

fun set_param :: "'v trieNode option \<Rightarrow> 'v trieNode \<Rightarrow> 'v trieNode" where
  "set_param p (TrieNode w _ cs prm v pt ty) = TrieNode w p cs prm v pt ty"

fun set_const :: "string \<Rightarrow> 'v trieNode option \<Rightarrow> 'v trieNode \<Rightarrow> 'v trieNode" where
  "set_const k c (TrieNode w p cs prm v pt ty) = TrieNode w p (AList.update k c cs) prm v pt ty"

fun set_value :: "'v option \<Rightarrow> string \<Rightarrow> 'v trieNode \<Rightarrow> 'v trieNode" where
  "set_value v pt (TrieNode w p cs prm _ _ ty) = TrieNode w p cs prm v pt ty"

section \<open>Splitting paths\<close>

fun parse_exps :: "(string \<rightharpoonup> string) \<Rightarrow> string list \<Rightarrow> trie_error + (string \<rightharpoonup> string)" where
  "parse_exps m [] = Inr m"
| "parse_exps m (e # es) =
     (case split_on CHR ''='' e of
        [k, v] \<Rightarrow> parse_exps (m(k \<mapsto> v)) es
      | _ \<Rightarrow> Inl (EInvalidExpression e))"

definition parseQueryParams :: "string \<Rightarrow> trie_error + (string \<rightharpoonup> string)" where
  "parseQueryParams s =
     (if s = [] then Inr Map.empty else parse_exps Map.empty (split_on CHR ''&'' s))"

definition splitRemaining :: "string \<Rightarrow> string \<times> string" where
  "splitRemaining remaining =
     (if length remaining = 0 then ([], [])
      else let i = length (takeWhile (\<lambda>c. c \<noteq> CHR ''/'') remaining) in
        if i = length remaining then (remaining, [])
        else (take i remaining, drop i remaining))"

definition splitQueryParams :: "string \<Rightarrow> string \<times> string" where
  "splitQueryParams path =
     (case last_index CHR ''?'' path of
        None \<Rightarrow> ([], path)
      | Some i \<Rightarrow> (drop (i + 1) path, take i path))"

lemma splitRemaining_eq:
  "splitRemaining r = (takeWhile (\<lambda>c. c \<noteq> CHR ''/'') r, dropWhile (\<lambda>c. c \<noteq> CHR ''/'') r)"
proof -
  let ?P = "\<lambda>c. c \<noteq> CHR ''/''"
  have t: "take (length (takeWhile ?P r)) r = takeWhile ?P r"
    by (metis append_eq_conv_conj takeWhile_dropWhile_id)
  have d: "drop (length (takeWhile ?P r)) r = dropWhile ?P r"
    by (simp add: dropWhile_eq_drop)
  show ?thesis using t d by (auto simp: splitRemaining_def Let_def)
qed

lemma splitRemaining_length: "length (snd (splitRemaining r)) \<le> length r"
  by (simp add: splitRemaining_eq length_dropWhile_le)

lemma splitRemaining_lessI [simp]:
  "(a, b) = splitRemaining r \<Longrightarrow> length b < Suc (length r)"
  using splitRemaining_length [of r] by (metis le_imp_less_Suc snd_conv)

section \<open>Adding a path\<close>

text \<open>\<open>addParam\<close>, \<open>addWildcard\<close>, \<open>addConst\<close>: the node after the call, and the child returned.\<close>

definition addParam :: "'v trieNode \<Rightarrow> string \<Rightarrow> trie_error + ('v trieNode \<times> 'v trieNode)" where
  "addParam n prm =
     (if wildcardChild n \<noteq> None \<or> (case paramChild n of None \<Rightarrow> False | Some pc \<Rightarrow> param pc \<noteq> prm)
      then Inl (ECannotAddParam prm (param n))
      else (case paramChild n of
          None \<Rightarrow> (let c = fresh_node tnTypeP prm in Inr (set_param (Some c) n, c))
        | Some pc \<Rightarrow> Inr (n, pc)))"

definition addWildcard :: "'v trieNode \<Rightarrow> string \<Rightarrow> trie_error + ('v trieNode \<times> 'v trieNode)" where
  "addWildcard n prm =
     (if (case wildcardChild n of None \<Rightarrow> False | Some wc \<Rightarrow> param wc \<noteq> prm) \<or> paramChild n \<noteq> None
      then Inl (ECannotAddWildcard prm (param n))
      else (let c = fresh_node tnTypeW prm in Inr (set_wildcard (Some c) n, c)))"

definition addConst :: "'v trieNode \<Rightarrow> string \<Rightarrow> 'v trieNode \<times> 'v trieNode" where
  "addConst n subPath =
     (case const_get n subPath of
        None \<Rightarrow> (let c = fresh_node tnTypeC [] in (set_const subPath (Some c) n, c))
      | Some c \<Rightarrow> (n, c))"

text \<open>
  The loop of \<open>addPath\<close>. The result is the node as the call leaves it, with the children it created
  before an error, and the error. A recursive call works on the child that Go moves \<open>node\<close> to; the
  child is put back under its parent.
\<close>

function add_loop :: "string \<Rightarrow> 'v option \<Rightarrow> bool \<Rightarrow> 'v trieNode \<Rightarrow> string \<Rightarrow>
    'v trieNode \<times> trie_error option" where
  "add_loop path v override n [] =
     (if nvalue n \<noteq> None \<and> \<not> override then (n, Some (EPathTaken path))
      else (set_value v path n, None))"
| "add_loop path v override n (token # rest) =
     (if token = CHR '':'' then
        (let (prm, rest') = splitRemaining rest in
         case addParam n prm of
           Inl e \<Rightarrow> (n, Some e)
         | Inr (n', c) \<Rightarrow>
             (let (c', err) = add_loop path v override c rest' in (set_param (Some c') n', err)))
      else if token = CHR ''*'' then
        (case addWildcard n rest of
           Inl e \<Rightarrow> (n, Some e)
         | Inr (n', c) \<Rightarrow>
             (let (c', err) = add_loop path v override c [] in (set_wildcard (Some c') n', err)))
      else if token = CHR ''/'' then
        (let (n', c) = addConst n ''/''; (c', err) = add_loop path v override c rest
         in (set_const ''/'' (Some c') n', err))
      else
        (let (sub, rest') = splitRemaining rest; key = sprintf_c token @ sub;
             (n', c) = addConst n key; (c', err) = add_loop path v override c rest'
         in (set_const key (Some c') n', err)))"
  by pat_completeness auto
termination
  by (relation "measure (\<lambda>(path, v, override, n, r). length r)") auto

definition addPath :: "'v trieNode \<Rightarrow> string \<Rightarrow> 'v option \<Rightarrow> bool \<Rightarrow> 'v trieNode \<times> trie_error option" where
  "addPath n path v override = (if path = [] then (n, None) else add_loop path v override n path)"

section \<open>Finding, matching and removing\<close>

datatype step = SConst string | SParam | SWildcard

text \<open>
  The loop of \<open>findByPath\<close>. The \<open>break\<close> of the wildcard case leaves the \<open>switch\<close>, not the loop, so
  the walk continues with the rest of the path; a segment that no child takes leaves the current
  node unchanged.
\<close>

function find_loop :: "('v trieNode \<times> step list) option \<Rightarrow> string \<Rightarrow> ('v trieNode \<times> step list) option" where
  "find_loop cur [] = cur"
| "find_loop None (token # rest) = None"
| "find_loop (Some (c, pos)) (token # rest) =
     (if token = CHR ''/'' then
        find_loop (map_option (\<lambda>d. (d, pos @ [SConst ''/''])) (const_get c ''/'')) rest
      else
        (let (sub, rest') = splitRemaining rest; key = sprintf_c token @ sub in
         case const_get c key of
           Some d \<Rightarrow> find_loop (Some (d, pos @ [SConst key])) rest'
         | None \<Rightarrow> (case wildcardChild c of
             Some w \<Rightarrow> find_loop (Some (w, pos @ [SWildcard])) rest'
           | None \<Rightarrow> (case paramChild c of
               Some p \<Rightarrow> find_loop (Some (p, pos @ [SParam])) rest'
             | None \<Rightarrow> find_loop (Some (c, pos)) rest'))))"
  by pat_completeness auto
termination
  by (relation "measure (\<lambda>(c, r). length r)") auto

definition findByPath :: "'v trieNode \<Rightarrow> string \<Rightarrow> ('v trieNode \<times> step list) option" where
  "findByPath n path = (if path = [] then None else find_loop (Some (n, [])) path)"

function match_loop :: "string \<Rightarrow> 'v trieNode option \<Rightarrow> string \<Rightarrow> (string \<rightharpoonup> string) \<Rightarrow>
    'v trieNode option \<times> trie_error option \<times> (string \<rightharpoonup> string)" where
  "match_loop path cur [] params = (cur, None, params)"
| "match_loop path None (token # rest) params =
     (None, Some (EMismatched (token # rest) path), params)"
| "match_loop path (Some c) (token # rest) params =
     (if token = CHR ''/'' then match_loop path (const_get c ''/'') rest params
      else
        (let (sub, rest') = splitRemaining rest; subPath = sprintf_c token @ sub in
         case const_get c subPath of
           Some d \<Rightarrow> match_loop path (Some d) rest' params
         | None \<Rightarrow> (case wildcardChild c of
             Some w \<Rightarrow> match_loop path (Some w) rest' (params(param w \<mapsto> subPath @ rest'))
           | None \<Rightarrow> (case paramChild c of
               Some p \<Rightarrow> match_loop path (Some p) rest' (params(param p \<mapsto> subPath))
             | None \<Rightarrow> match_loop path (Some c) rest' params))))"
  by pat_completeness auto
termination
  by (relation "measure (\<lambda>(path, c, r, params). length r)") auto

definition match :: "'v trieNode \<Rightarrow> string \<Rightarrow> 'v MatchContext \<Rightarrow>
    ('v trieNode option \<times> trie_error option) \<times> 'v MatchContext" where
  "match n path ctx =
     (if path = [] then ((None, Some ENoPathFind), ctx)
      else
        (let (cur, err, params) = match_loop path (Some n) path (PathParams ctx);
             ctx' = ctx\<lparr>PathParams := params\<rparr> in
         case cur of
           Some c \<Rightarrow> ((Some c, err), ctx'\<lparr>Value := nvalue c, UriPattern := npath c\<rparr>)
         | None \<Rightarrow> ((None, Some (case err of None \<Rightarrow> ENoRouting path | Some e \<Rightarrow> e)), ctx')))"

definition matchByPath :: "'v trieNode \<Rightarrow> string \<Rightarrow> 'v MatchContext \<Rightarrow> trie_error + 'v MatchContext" where
  "matchByPath n path ctx =
     (if path = [] then Inl ENoPathFind
      else (case match n path ctx of
          ((_, Some e), _) \<Rightarrow> Inl e
        | ((None, None), _) \<Rightarrow> Inl ENoPathFind
        | ((Some c, None), ctx') \<Rightarrow>
            (if nvalue c = None then Inl (ENoValue path) else Inr ctx')))"

fun update_at :: "step list \<Rightarrow> ('v trieNode \<Rightarrow> 'v trieNode) \<Rightarrow> 'v trieNode \<Rightarrow> 'v trieNode" where
  "update_at [] f n = f n"
| "update_at (SConst k # ps) f n =
     (case const_get n k of None \<Rightarrow> n | Some c \<Rightarrow> set_const k (Some (update_at ps f c)) n)"
| "update_at (SParam # ps) f n =
     (case paramChild n of None \<Rightarrow> n | Some c \<Rightarrow> set_param (Some (update_at ps f c)) n)"
| "update_at (SWildcard # ps) f n =
     (case wildcardChild n of None \<Rightarrow> n | Some c \<Rightarrow> set_wildcard (Some (update_at ps f c)) n)"

text \<open>
  The body of \<open>remove\<close> on the parent: both special children become \<open>nil\<close>, and the constant key under
  which the removed node is stored (if it is a constant child) is set to \<open>nil\<close>.
\<close>

fun detach :: "step \<Rightarrow> 'v trieNode \<Rightarrow> 'v trieNode" where
  "detach (SConst k) p = set_const k None (set_wildcard None (set_param None p))"
| "detach SParam p = set_wildcard None (set_param None p)"
| "detach SWildcard p = set_wildcard None (set_param None p)"

definition remove_node :: "'v trieNode \<Rightarrow> 'v trieNode \<times> step list \<Rightarrow> 'v trieNode" where
  "remove_node root np =
     (let (n, pos) = np in
      if pos = [] then root
      else if \<not> (paramChild n = None \<or> wildcardChild n = None \<or> constChildren n = []) then root
      else update_at (butlast pos) (detach (last pos)) root)"

text \<open>\<open>clean\<close>; it dereferences every stored child, so a \<open>nil\<close> left by \<open>remove\<close> makes it panic.\<close>

fun clean :: "'v trieNode \<Rightarrow> 'v trieNode go" where
  "clean (TrieNode w p cs prm v pt ty) =
     bind_go (case p of None \<Rightarrow> Ret None | Some c \<Rightarrow> bind_go (clean c) (\<lambda>c'. Ret (Some c'))) (\<lambda>p'.
     bind_go (case w of None \<Rightarrow> Ret None | Some c \<Rightarrow> bind_go (clean c) (\<lambda>c'. Ret (Some c'))) (\<lambda>w'.
     if list_all (\<lambda>(k, c). case c of None \<Rightarrow> False | Some d \<Rightarrow> clean d \<noteq> Panic) cs
     then Ret (TrieNode w' p' [] prm None pt ty) else Panic))"

section \<open>The tree\<close>

record 'v TrieTree =
  root :: "'v trieNode"
  size :: int

definition NewTrieTree :: "'v TrieTree" where
  "NewTrieTree = \<lparr>root = fresh_node tnTypeP [], size = 0\<rparr>"

definition sanitizePath :: "string \<Rightarrow> string" where
  "sanitizePath path = (if last path = CHR ''/'' then butlast path else path)"

definition Match :: "'v TrieTree \<Rightarrow> string \<Rightarrow> trie_error + 'v MatchContext" where
  "Match t path =
     (if path = [] then Inl EEmptyPath
      else
        (let path' = sanitizePath path; (paramStr, remaining) = splitQueryParams path' in
         case parseQueryParams paramStr of
           Inl e \<Rightarrow> Inl e
         | Inr qs \<Rightarrow> matchByPath (root t) remaining
             \<lparr>UriPattern = [], QueryParams = qs, PathParams = Map.empty, Value = None\<rparr>))"

definition Add :: "'v TrieTree \<Rightarrow> string \<Rightarrow> 'v option \<Rightarrow> bool \<Rightarrow> 'v TrieTree \<times> trie_error option" where
  "Add t path v override =
     (let (r, err) = addPath (root t) path v override in (t\<lparr>root := r, size := size t + 1\<rparr>, err))"

definition Remove :: "'v TrieTree \<Rightarrow> string \<Rightarrow> 'v TrieTree \<times> bool" where
  "Remove t path =
     (case findByPath (root t) path of
        None \<Rightarrow> (t, False)
      | Some np \<Rightarrow> (t\<lparr>root := remove_node (root t) np, size := size t - 1\<rparr>, True))"

definition SupportsUri :: "'v TrieTree \<Rightarrow> string \<Rightarrow> bool" where
  "SupportsUri t path =
     (if path = [] then False
      else
        (let (paramStr, remaining) = splitQueryParams (sanitizePath path) in
         case parseQueryParams paramStr of
           Inl e \<Rightarrow> False
         | Inr _ \<Rightarrow> (case findByPath (root t) remaining of
             None \<Rightarrow> False | Some (n, _) \<Rightarrow> nvalue n \<noteq> None)))"

definition RemoveAll :: "'v TrieTree \<Rightarrow> 'v TrieTree go" where
  "RemoveAll t = bind_go (clean (root t)) (\<lambda>r. Ret (t\<lparr>root := r\<rparr>))"

end
