(* ===== verification/UriTrieFacts.thy ===== *)
theory UriTrieFacts
  imports UriTrie
begin

text \<open>
  Lemmas on the routing trie. \<open>const_walk\<close> follows constant children only, \<open>route\<close> reads the value
  and pattern stored at a literal path: the abstraction of a trie as a map from literal paths to
  routes. The lemmas show what \<open>addPath\<close>, \<open>match\<close>, \<open>remove\<close> and \<open>clean\<close> do to it, and that every
  operation keeps the structural invariant \<open>trie_ok\<close>.
\<close>

section \<open>Setters and getters\<close>

lemma setter_simps [simp]:
  "wildcardChild (set_param p n) = wildcardChild n" "wildcardChild (set_const k c n) = wildcardChild n"
  "wildcardChild (set_value v pt n) = wildcardChild n" "wildcardChild (set_wildcard w n) = w"
  "paramChild (set_param p n) = p" "paramChild (set_const k c n) = paramChild n"
  "paramChild (set_value v pt n) = paramChild n" "paramChild (set_wildcard w n) = paramChild n"
  "nvalue (set_param p n) = nvalue n" "nvalue (set_const k c n) = nvalue n"
  "nvalue (set_value v pt n) = v" "nvalue (set_wildcard w n) = nvalue n"
  "npath (set_param p n) = npath n" "npath (set_const k c n) = npath n"
  "npath (set_value v pt n) = pt" "npath (set_wildcard w n) = npath n"
  "param (set_param p n) = param n" "param (set_const k c n) = param n"
  "param (set_value v pt n) = param n" "param (set_wildcard w n) = param n"
  "constChildren (set_param p n) = constChildren n" "constChildren (set_wildcard w n) = constChildren n"
  "constChildren (set_value v pt n) = constChildren n"
  "constChildren (set_const k c n) = AList.update k c (constChildren n)"
  by (cases n; simp)+

lemma const_get_simps [simp]:
  "const_get (set_param p n) k = const_get n k" "const_get (set_wildcard w n) k = const_get n k"
  "const_get (set_value v pt n) k = const_get n k"
  "const_get (set_const j c n) k = (if k = j then c else const_get n k)"
  by (auto simp: const_get_def split: option.splits)

lemma fresh_node_simps [simp]:
  "const_get (fresh_node ty prm) k = None" "wildcardChild (fresh_node ty prm) = None"
  "paramChild (fresh_node ty prm) = None" "nvalue (fresh_node ty prm) = None"
  "param (fresh_node ty prm) = prm" "constChildren (fresh_node ty prm) = []"
  by (simp_all add: fresh_node_def const_get_def)

lemma addConst_cases:
  obtains (present) c where "const_get n k = Some c" "addConst n k = (n, c)"
  | (absent) "const_get n k = None"
      "addConst n k = (set_const k (Some (fresh_node tnTypeC [])) n, fresh_node tnTypeC [])"
  by (cases "const_get n k") (simp_all add: addConst_def Let_def)

section \<open>Keys of a path\<close>

text \<open>
  The loops cut a path into keys: a slash is a key of its own, and any other key is a maximal run
  without slashes, its first byte printed with \<open>%c\<close>. \<open>keys\<close> lists them; it is injective, so a path
  and its list of keys determine each other.
\<close>

definition path_key :: "char \<Rightarrow> string \<Rightarrow> string" where
  "path_key token rest =
     (if token = CHR ''/'' then ''/'' else sprintf_c token @ fst (splitRemaining rest))"

definition path_rest :: "char \<Rightarrow> string \<Rightarrow> string" where
  "path_rest token rest = (if token = CHR ''/'' then rest else snd (splitRemaining rest))"

lemma path_rest_length [simp]: "length (path_rest token rest) < Suc (length rest)"
  using splitRemaining_length [of rest] by (simp add: path_rest_def le_imp_less_Suc)

function keys :: "string \<Rightarrow> string list" where
  "keys [] = []"
| "keys (token # rest) = path_key token rest # keys (path_rest token rest)"
  by pat_completeness auto
termination
  by (relation "measure length") auto

lemma splitRemaining_parts: "fst (splitRemaining r) @ snd (splitRemaining r) = r"
  by (simp add: splitRemaining_eq)

lemma path_key_slash: "path_key token rest = ''/'' \<longleftrightarrow> token = CHR ''/''"
  using sprintf_c_inject [of token "fst (splitRemaining rest)" "CHR ''/''" "[]"]
  by (auto simp: path_key_def)

lemma path_key_inject:
  assumes "path_key a r = path_key b s" and "path_rest a r = path_rest b s"
  shows "a = b \<and> r = s"
proof (cases "a = CHR ''/''")
  case True
  then have "b = CHR ''/''" using assms(1) path_key_slash [of b s] by (simp add: path_key_def)
  with True assms(2) show ?thesis by (simp add: path_rest_def)
next
  case False
  then have "b \<noteq> CHR ''/''" using assms(1) path_key_slash [of a r] by (auto simp: path_key_def)
  with False assms have "a = b" "fst (splitRemaining r) = fst (splitRemaining s)"
    "snd (splitRemaining r) = snd (splitRemaining s)"
    by (simp_all add: path_key_def path_rest_def sprintf_c_inject)
  then show ?thesis by (metis splitRemaining_parts)
qed

lemma keys_inject [simp]: "keys p = keys q \<longleftrightarrow> p = q"
proof
  show "keys p = keys q \<Longrightarrow> p = q"
  proof (induction p arbitrary: q rule: keys.induct)
    case 1
    then show ?case by (cases q) auto
  next
    case (2 token rest)
    then show ?case by (cases q) (auto dest: path_key_inject)
  qed
qed simp

lemma keys_Nil [simp]: "keys p = [] \<longleftrightarrow> p = []"
  by (cases p) auto

section \<open>Constant walks and routes\<close>

primrec walk :: "'v trieNode \<Rightarrow> string list \<Rightarrow> 'v trieNode option" where
  "walk n [] = Some n"
| "walk n (k # ks) = (case const_get n k of None \<Rightarrow> None | Some c \<Rightarrow> walk c ks)"

definition node_entry :: "'v trieNode \<Rightarrow> ('v \<times> string) option" where
  "node_entry c = (case nvalue c of None \<Rightarrow> None | Some v \<Rightarrow> Some (v, npath c))"

definition kroute :: "'v trieNode \<Rightarrow> string list \<Rightarrow> ('v \<times> string) option" where
  "kroute n ks = (case walk n ks of None \<Rightarrow> None | Some c \<Rightarrow> node_entry c)"

text \<open>A literal pattern has no segment that starts with \<open>:\<close> or \<open>*\<close>.\<close>

function literal :: "string \<Rightarrow> bool" where
  "literal [] = True"
| "literal (token # rest) \<longleftrightarrow>
     token \<noteq> CHR '':'' \<and> token \<noteq> CHR ''*'' \<and> literal (path_rest token rest)"
  by pat_completeness auto
termination
  by (relation "measure length") auto

lemma kroute_Nil [simp]: "kroute n [] = node_entry n"
  by (simp add: kroute_def)

lemma kroute_Cons:
  "kroute n (k # ks) = (case const_get n k of None \<Rightarrow> None | Some c \<Rightarrow> kroute c ks)"
  by (simp add: kroute_def split: option.splits)

lemma node_entry_None: "node_entry n = None \<longleftrightarrow> nvalue n = None"
  by (simp add: node_entry_def split: option.splits)

lemma node_entry_set [simp]:
  "node_entry (set_param p n) = node_entry n" "node_entry (set_wildcard p n) = node_entry n"
  "node_entry (set_const k c n) = node_entry n" "node_entry (set_value (Some v) pt n) = Some (v, pt)"
  "node_entry (fresh_node ty prm) = None"
  by (simp_all add: node_entry_def split: option.splits)

lemma kroute_fresh [simp]: "kroute (fresh_node ty prm) ks = None"
  by (cases ks) (simp_all add: kroute_Cons)

lemma kroute_set [simp]:
  "kroute (set_param p n) ks = kroute n ks" "kroute (set_wildcard p n) ks = kroute n ks"
  by (cases ks; simp add: kroute_Cons)+

lemma kroute_set_value:
  "kroute (set_value (Some v) pt n) ks = (if ks = [] then Some (v, pt) else kroute n ks)"
  by (cases ks) (simp_all add: kroute_Cons)

lemma kroute_set_const:
  "kroute (set_const k c n) ks =
     (case ks of [] \<Rightarrow> node_entry n
      | j # js \<Rightarrow> if j = k then (case c of None \<Rightarrow> None | Some d \<Rightarrow> kroute d js) else kroute n ks)"
  by (cases ks) (simp_all add: kroute_Cons)

lemma kroute_addParam: "addParam n prm = Inr (n', c) \<Longrightarrow> kroute n' ks = kroute n ks"
  by (auto simp: addParam_def Let_def split: if_splits option.splits)

lemma kroute_addWildcard: "addWildcard n prm = Inr (n', c) \<Longrightarrow> kroute n' ks = kroute n ks"
  by (auto simp: addWildcard_def Let_def split: if_splits option.splits)

section \<open>The loops, key by key\<close>

lemma add_loop_Cons:
  "add_loop path v ov n (token # rest) =
     (if token = CHR '':'' then
        (case addParam n (fst (splitRemaining rest)) of
           Inl e \<Rightarrow> (n, Some e)
         | Inr (n', c) \<Rightarrow>
             (let r = add_loop path v ov c (path_rest token rest) in (set_param (Some (fst r)) n', snd r)))
      else if token = CHR ''*'' then
        (case addWildcard n rest of
           Inl e \<Rightarrow> (n, Some e)
         | Inr (n', c) \<Rightarrow>
             (let r = add_loop path v ov c [] in (set_wildcard (Some (fst r)) n', snd r)))
      else
        (let k = path_key token rest; a = addConst n k;
             r = add_loop path v ov (snd a) (path_rest token rest)
         in (set_const k (Some (fst r)) (fst a), snd r)))"
  by (simp add: path_key_def path_rest_def Let_def case_prod_beta split: sum.splits prod.splits)

lemma match_loop_Cons:
  "match_loop path (Some c) (token # rest) params =
     (let k = path_key token rest; r = path_rest token rest in
      case const_get c k of
        Some d \<Rightarrow> match_loop path (Some d) r params
      | None \<Rightarrow>
         (if token = CHR ''/'' then match_loop path None r params
          else (case wildcardChild c of
             Some w \<Rightarrow> match_loop path (Some w) r (params(param w \<mapsto> k @ r))
           | None \<Rightarrow> (case paramChild c of
               Some p \<Rightarrow> match_loop path (Some p) r (params(param p \<mapsto> k))
             | None \<Rightarrow> match_loop path (Some c) r params))))"
  by (simp add: path_key_def path_rest_def Let_def case_prod_beta split: option.splits)

lemma find_loop_Cons:
  "find_loop (Some (c, pos)) (token # rest) =
     (let k = path_key token rest; r = path_rest token rest in
      case const_get c k of
        Some d \<Rightarrow> find_loop (Some (d, pos @ [SConst k])) r
      | None \<Rightarrow>
         (if token = CHR ''/'' then find_loop None r
          else (case wildcardChild c of
             Some w \<Rightarrow> find_loop (Some (w, pos @ [SWildcard])) r
           | None \<Rightarrow> (case paramChild c of
               Some p \<Rightarrow> find_loop (Some (p, pos @ [SParam])) r
             | None \<Rightarrow> find_loop (Some (c, pos)) r))))"
  by (simp add: path_key_def path_rest_def Let_def case_prod_beta split: option.splits)

lemma loops_None [simp]:
  "find_loop None r = None"
  "r \<noteq> [] \<Longrightarrow> match_loop path None r ps = (None, Some (EMismatched r path), ps)"
  by (cases r; simp)+

lemmas loop_Cons = add_loop_Cons match_loop_Cons find_loop_Cons
lemmas loop_raw = add_loop.simps(2) match_loop.simps(3) find_loop.simps(3)

section \<open>Adding, matching and finding literal paths\<close>

lemma kroute_add_loop:
  "kroute (fst (add_loop path (Some v) ov n r)) ks =
     (if literal r \<and> ks = keys r \<and> (ov \<or> kroute n ks = None) then Some (v, path) else kroute n ks)"
proof (induction r arbitrary: n ks ov rule: keys.induct)
  case 1
  then show ?case using node_entry_None [of n] by (auto simp: kroute_set_value)
next
  case (2 token rest)
  consider "token = CHR '':''" | "token = CHR ''*''" | "token \<noteq> CHR '':''" "token \<noteq> CHR ''*''" by blast
  then show ?case
  proof cases
    case 3
    show ?thesis
      by (cases rule: addConst_cases [of n "path_key token rest"])
        (auto simp: "2.IH" add_loop_Cons "3" Let_def kroute_set_const kroute_Cons
          simp del: loop_raw split: list.splits)
  qed (auto simp: loop_Cons Let_def simp del: loop_raw
        dest: kroute_addParam kroute_addWildcard split: sum.splits)
qed

lemma param_add_loop [simp]: "param (fst (add_loop path v ov n r)) = param n"
proof (cases r)
  case (Cons token rest)
  then show ?thesis
    by (auto simp: loop_Cons Let_def addParam_def addWildcard_def addConst_def
        simp del: loop_raw split: sum.splits option.splits if_splits)
qed simp

lemma add_loop_error:
  "literal r \<Longrightarrow> snd (add_loop path v ov n r) =
     (if kroute n (keys r) \<noteq> None \<and> \<not> ov then Some (EPathTaken path) else None)"
proof (induction r arbitrary: n rule: keys.induct)
  case 1
  then show ?case using node_entry_None [of n] by simp
next
  case (2 token rest)
  show ?case
    by (cases rule: addConst_cases [of n "path_key token rest"])
      (use 2 in \<open>simp_all add: loop_Cons Let_def kroute_Cons del: loop_raw\<close>)
qed

lemma match_loop_walk:
  "walk n (keys q) = Some c \<Longrightarrow> match_loop path (Some n) q ps = (Some c, None, ps)"
  by (induction q arbitrary: n rule: keys.induct)
    (auto simp: loop_Cons Let_def simp del: loop_raw split: option.splits)

lemma find_loop_walk:
  "walk n (keys q) = Some c \<Longrightarrow> find_loop (Some (n, pos)) q = Some (c, pos @ map SConst (keys q))"
  by (induction q arbitrary: n pos rule: keys.induct)
    (auto simp: loop_Cons Let_def simp del: loop_raw split: option.splits)

lemma kroute_detach:
  "kroute (update_at (map SConst ks) (detach (SConst k)) n) js =
     (if prefix (ks @ [k]) js then None else kroute n js)"
proof (induction ks arbitrary: n js)
  case Nil
  then show ?case by (cases js) (auto simp: kroute_set_const)
next
  case (Cons a ks)
  then show ?case
    by (cases js; cases "const_get n a") (auto simp: kroute_set_const kroute_Cons)
qed

section \<open>The structural invariant\<close>

text \<open>A node below which nothing is reachable; \<open>nil\<close> entries of the constant map do not count.\<close>

definition childless :: "'v trieNode \<Rightarrow> bool" where
  "childless n \<longleftrightarrow> wildcardChild n = None \<and> paramChild n = None \<and> list_all (\<lambda>(k, c). c = None) (constChildren n)"

fun trie_ok :: "'v trieNode \<Rightarrow> bool" where
  "trie_ok (TrieNode w p cs prm v pt ty) \<longleftrightarrow>
     distinct (map fst cs) \<and> (w = None \<or> p = None) \<and>
     (case w of None \<Rightarrow> True | Some c \<Rightarrow> trie_ok c \<and> childless c \<and> ntype c = tnTypeW) \<and>
     (case p of None \<Rightarrow> True | Some c \<Rightarrow> trie_ok c \<and> ntype c = tnTypeP) \<and>
     list_all (\<lambda>(k, c). case c of None \<Rightarrow> True | Some d \<Rightarrow> trie_ok d \<and> ntype d = tnTypeC) cs"

text \<open>The same invariant in terms of the accessors.\<close>

lemma trie_ok_iff:
  "trie_ok n \<longleftrightarrow>
     distinct (map fst (constChildren n)) \<and> (wildcardChild n = None \<or> paramChild n = None) \<and>
     (\<forall>c. wildcardChild n = Some c \<longrightarrow> trie_ok c \<and> childless c \<and> ntype c = tnTypeW) \<and>
     (\<forall>c. paramChild n = Some c \<longrightarrow> trie_ok c \<and> ntype c = tnTypeP) \<and>
     (\<forall>k d. (k, Some d) \<in> set (constChildren n) \<longrightarrow> trie_ok d \<and> ntype d = tnTypeC)"
  by (cases n) (auto simp: list_all_iff split: option.splits)

lemma childless_const_get: "childless n \<Longrightarrow> const_get n k = None"
  by (fastforce simp: childless_def const_get_def list_all_iff dest: map_of_SomeD split: option.splits)

lemma const_get_mem: "const_get n k = Some d \<Longrightarrow> (k, Some d) \<in> set (constChildren n)"
  by (auto simp: const_get_def dest: map_of_SomeD split: option.splits)

lemma trie_ok_const_get [wf_intros]:
  "trie_ok n \<Longrightarrow> const_get n k = Some d \<Longrightarrow> trie_ok d \<and> ntype d = tnTypeC"
  using const_get_mem trie_ok_iff by metis

lemma ntype_set [simp]:
  "ntype (set_param p n) = ntype n" "ntype (set_wildcard p n) = ntype n"
  "ntype (set_const k c n) = ntype n" "ntype (set_value v pt n) = ntype n"
  "ntype (fresh_node ty prm) = ty"
  by (cases n; simp add: fresh_node_def)+

lemma trie_ok_set_value [simp]: "trie_ok (set_value v pt n) = trie_ok n"
  by (cases n) simp

lemma childless_set_value [simp]: "childless (set_value v pt n) = childless n"
  by (simp add: childless_def)

lemma trie_ok_fresh [simp]: "trie_ok (fresh_node ty prm)" "childless (fresh_node ty prm)"
  by (simp_all add: fresh_node_def childless_def)

lemma trie_ok_paramChild [wf_intros]:
  "trie_ok n \<Longrightarrow> paramChild n = Some c \<Longrightarrow> trie_ok c \<and> ntype c = tnTypeP \<and> wildcardChild n = None"
  by (subst (asm) trie_ok_iff) auto

lemma trie_ok_wildcardChild [wf_intros]:
  "trie_ok n \<Longrightarrow> wildcardChild n = Some c \<Longrightarrow>
     trie_ok c \<and> childless c \<and> ntype c = tnTypeW \<and> paramChild n = None"
  by (subst (asm) trie_ok_iff) auto

lemma trie_ok_set_const:
  "trie_ok n \<Longrightarrow> (\<And>d. c = Some d \<Longrightarrow> trie_ok d \<and> ntype d = tnTypeC) \<Longrightarrow> trie_ok (set_const k c n)"
  by (cases n; cases c) (auto intro!: list_all_update)

lemma trie_ok_set_param:
  "trie_ok n \<Longrightarrow> (\<And>c. p = Some c \<Longrightarrow> trie_ok c \<and> ntype c = tnTypeP \<and> wildcardChild n = None) \<Longrightarrow>
   trie_ok (set_param p n)"
  by (subst trie_ok_iff, subst (asm) trie_ok_iff) (cases p; auto)

lemma trie_ok_set_wildcard:
  "trie_ok n \<Longrightarrow>
   (\<And>c. w = Some c \<Longrightarrow> trie_ok c \<and> childless c \<and> ntype c = tnTypeW \<and> paramChild n = None) \<Longrightarrow>
   trie_ok (set_wildcard w n)"
  by (subst trie_ok_iff, subst (asm) trie_ok_iff) (cases w; auto)

lemma addParam_ok:
  assumes "addParam n prm = Inr (n', c)" and "trie_ok n"
  shows "trie_ok n' \<and> trie_ok c \<and> ntype c = tnTypeP \<and> wildcardChild n' = None \<and> ntype n' = ntype n"
  using assms
  by (auto simp: addParam_def Let_def dest: trie_ok_paramChild intro!: trie_ok_set_param
      split: if_splits option.splits)

lemma addWildcard_ok:
  assumes "addWildcard n prm = Inr (n', c)" and "trie_ok n"
  shows "trie_ok n' \<and> c = fresh_node tnTypeW prm \<and> paramChild n' = None \<and> ntype n' = ntype n"
  using assms
  by (auto simp: addWildcard_def Let_def intro!: trie_ok_set_wildcard split: if_splits option.splits)

lemma addConst_ok:
  "trie_ok n \<Longrightarrow> trie_ok (fst (addConst n k)) \<and> trie_ok (snd (addConst n k)) \<and>
     ntype (snd (addConst n k)) = tnTypeC \<and> ntype (fst (addConst n k)) = ntype n"
  by (auto simp: addConst_def Let_def intro: trie_ok_set_const dest: trie_ok_const_get split: option.splits)

lemma add_loop_ok:
  "trie_ok n \<Longrightarrow> trie_ok (fst (add_loop path v ov n r)) \<and> ntype (fst (add_loop path v ov n r)) = ntype n"
proof (induction r arbitrary: n rule: keys.induct)
  case 1
  then show ?case by simp
next
  case (2 token rest)
  consider "token = CHR '':''" | "token = CHR ''*''" | "token \<noteq> CHR '':''" "token \<noteq> CHR ''*''" by blast
  then show ?case
  proof cases
    case 1
    show ?thesis
    proof (cases "addParam n (fst (splitRemaining rest))")
      case (Inr a)
      then show ?thesis using "1" "2" addParam_ok [OF _ \<open>trie_ok n\<close>]
        by (cases a) (auto simp: loop_Cons Let_def simp del: loop_raw intro!: trie_ok_set_param)
    qed (simp add: "1" "2" loop_Cons del: loop_raw)
  next
    case 2
    show ?thesis
    proof (cases "addWildcard n rest")
      case (Inr a)
      moreover obtain n' c where "a = (n', c)" by (cases a)
      ultimately show ?thesis using "2" addWildcard_ok [of n rest n' c, OF _ \<open>trie_ok n\<close>]
        by (auto simp: loop_Cons Let_def simp del: loop_raw intro!: trie_ok_set_wildcard)
    qed (simp add: "2" \<open>trie_ok n\<close> loop_Cons del: loop_raw)
  next
    case 3
    then show ?thesis using "2" addConst_ok [OF \<open>trie_ok n\<close>]
      by (auto simp: loop_Cons Let_def simp del: loop_raw intro!: trie_ok_set_const)
  qed
qed

lemma detach_ok: "trie_ok n \<Longrightarrow> trie_ok (detach s n) \<and> ntype (detach s n) = ntype n"
  by (cases s) (auto intro!: trie_ok_set_const trie_ok_set_wildcard trie_ok_set_param)

lemma update_detach_childless: "childless n \<Longrightarrow> childless (update_at ps (detach s) n)"
  by (cases ps; cases s; cases "hd ps")
    (auto simp: childless_const_get childless_def list_all_update split: option.splits)

lemma update_detach_ok:
  "trie_ok n \<Longrightarrow> trie_ok (update_at ps (detach s) n) \<and> ntype (update_at ps (detach s) n) = ntype n"
proof (induction ps arbitrary: n)
  case Nil
  then show ?case by (simp add: detach_ok)
next
  case (Cons a ps)
  then show ?case
    by (cases a)
      (auto intro!: trie_ok_set_const trie_ok_set_param trie_ok_set_wildcard update_detach_childless
        dest: trie_ok_const_get trie_ok_paramChild trie_ok_wildcardChild split: option.splits)
qed

lemma clean_ok: "clean n = Ret n' \<Longrightarrow> trie_ok n \<Longrightarrow>
    trie_ok n' \<and> ntype n' = ntype n \<and> (childless n \<longrightarrow> childless n')"
proof (induction n arbitrary: n' rule: clean.induct)
  case (1 w p cs prm v pt ty)
  then show ?case
    by (fastforce simp: bind_go_eq_Ret childless_def split: option.splits if_splits)
qed

end
