(* ===== verification/Routing.thy ===== *)
theory Routing
  imports UriTrieFacts
begin

text \<open>
  The contract of the routing trie. \<open>routes t\<close> is the abstract view of a tree: the finite map from
  literal paths to the stored value and pattern. The theorems relate every operation of
  \<open>TrieTree.go\<close> to it: \<open>Add\<close> is a map update, \<open>Match\<close> a lookup, \<open>Remove\<close> deletes a path with all
  the paths below it. The locale \<open>uri_router\<close> is the interface the service managers rely on; it is
  interpreted on the trie.
\<close>

section \<open>Abstract view\<close>

definition routes :: "'v TrieTree \<Rightarrow> string \<Rightarrow> ('v \<times> string) option" where
  "routes t p = kroute (root t) (keys p)"

text \<open>A path that \<open>Match\<close> hands unchanged to the trie: no query part and no trailing slash.\<close>

definition plain_path :: "string \<Rightarrow> bool" where
  "plain_path p \<longleftrightarrow> p \<noteq> [] \<and> last p \<noteq> CHR ''/'' \<and> CHR ''?'' \<notin> set p"

text \<open>The query string that a list of parameters is written as.\<close>

fun render_query :: "(string \<times> string) list \<Rightarrow> string" where
  "render_query [] = []"
| "render_query [(k, v)] = k @ CHR ''='' # v"
| "render_query ((k, v) # kvs) = k @ CHR ''='' # v @ CHR ''&'' # render_query kvs"

definition query_word :: "string \<Rightarrow> bool" where
  "query_word s \<longleftrightarrow> set s \<inter> {CHR ''='', CHR ''&'', CHR ''?'', CHR ''/''} = {}"

definition new_ctx :: "(string \<rightharpoonup> string) \<Rightarrow> 'v MatchContext" where
  "new_ctx qs = \<lparr>UriPattern = [], QueryParams = qs, PathParams = Map.empty, Value = None\<rparr>"

text \<open>
  Matching a path against one pattern: a constant key must be equal, \<open>:name\<close> takes one segment, and
  \<open>*name\<close> takes the last segment.
\<close>

function bind_path :: "string \<Rightarrow> string \<Rightarrow> (string \<rightharpoonup> string) \<Rightarrow> (string \<rightharpoonup> string) option" where
  "bind_path [] q ps = (if q = [] then Some ps else None)"
| "bind_path (token # rest) q ps =
     (case q of [] \<Rightarrow> None
      | t # q' \<Rightarrow>
          if token = CHR '':'' then
            (if t = CHR ''/'' then None
             else bind_path (path_rest token rest) (path_rest t q')
                    (ps(fst (splitRemaining rest) \<mapsto> path_key t q')))
          else if token = CHR ''*'' then
            (if t = CHR ''/'' \<or> path_rest t q' \<noteq> [] then None else Some (ps(rest \<mapsto> path_key t q')))
          else if path_key token rest = path_key t q'
          then bind_path (path_rest token rest) (path_rest t q') ps
          else None)"
  by pat_completeness auto
termination
  by (relation "measure (\<lambda>(pat, q, ps). length pat)") auto

text \<open>The trees that a program can build.\<close>

inductive reachable_tree :: "'v TrieTree \<Rightarrow> bool" where
  init: "reachable_tree NewTrieTree"
| add: "reachable_tree t \<Longrightarrow> reachable_tree (fst (Add t p v ov))"
| remove: "reachable_tree t \<Longrightarrow> reachable_tree (fst (Remove t p))"
| remove_all: "reachable_tree t \<Longrightarrow> RemoveAll t = Ret t' \<Longrightarrow> reachable_tree t'"

section \<open>Paths and queries\<close>

lemma parse_exps_render:
  assumes "kvs \<noteq> []" and "\<forall>(k, v) \<in> set kvs. query_word k \<and> query_word v"
  shows "parse_exps m (split_on CHR ''&'' (render_query kvs)) = Inr (m ++ map_of (rev kvs))"
  using assms
proof (induction kvs arbitrary: m rule: render_query.induct)
  case (2 k v)
  then have "CHR ''&'' \<notin> set (k @ CHR ''='' # v)" by (auto simp: query_word_def)
  then show ?case using "2" by (simp add: query_word_def map_add_def fun_eq_iff)
next
  case (3 k v kv kvs)
  let ?r = "render_query (kv # kvs)"
  have words: "query_word k" "query_word v" using "3.prems" by auto
  then have "CHR ''&'' \<notin> set (k @ CHR ''='' # v)" by (auto simp: query_word_def)
  then have "split_on CHR ''&'' ((k @ CHR ''='' # v) @ CHR ''&'' # ?r) =
      (k @ CHR ''='' # v) # split_on CHR ''&'' ?r"
    by (rule split_on_append)
  then have split: "split_on CHR ''&'' (render_query ((k, v) # kv # kvs)) =
      (k @ CHR ''='' # v) # split_on CHR ''&'' ?r" by simp
  show ?case
    using "3" words
    by (simp add: split query_word_def map_add_assoc del: render_query.simps)
qed simp

lemma render_query_set:
  "\<forall>(k, v) \<in> set kvs. query_word k \<and> query_word v \<Longrightarrow> set (render_query kvs) \<inter> {CHR ''?'', CHR ''/''} = {}"
  by (induction kvs rule: render_query.induct) (auto simp: query_word_def)

lemma render_query_Nil [simp]: "render_query kvs = [] \<longleftrightarrow> kvs = []"
  by (induction kvs rule: render_query.induct) auto

lemma parseQueryParams_render:
  assumes "kvs \<noteq> []" and "\<forall>(k, v) \<in> set kvs. query_word k \<and> query_word v"
  shows "parseQueryParams (render_query kvs) = Inr (map_of (rev kvs))"
  using parse_exps_render [OF assms, of Map.empty] assms(1) by (simp add: parseQueryParams_def)

lemma Match_plain: "plain_path p \<Longrightarrow> Match t p = matchByPath (root t) p (new_ctx Map.empty)"
proof -
  assume p: "plain_path p"
  then have "last_index CHR ''?'' p = None" by (simp add: plain_path_def)
  then show ?thesis using p
    by (simp add: Match_def sanitizePath_def splitQueryParams_def parseQueryParams_def new_ctx_def plain_path_def
        del: last_index_None)
qed

lemma Match_trailing_slash: "plain_path p \<Longrightarrow> Match t (p @ ''/'') = Match t p"
proof -
  assume p: "plain_path p"
  have "Match t (p @ ''/'') = matchByPath (root t) p (new_ctx Map.empty)"
    using p last_index_None [of "CHR ''?''" p, THEN iffD2]
    by (simp add: Match_def sanitizePath_def splitQueryParams_def parseQueryParams_def new_ctx_def plain_path_def
        del: last_index_None)
  then show ?thesis using p by (simp add: Match_plain)
qed

lemma Match_query:
  assumes "plain_path p" and "kvs \<noteq> []" and "\<forall>(k, v) \<in> set kvs. query_word k \<and> query_word v"
  shows "Match t (p @ CHR ''?'' # render_query kvs) = matchByPath (root t) p (new_ctx (map_of (rev kvs)))"
proof -
  let ?s = "render_query kvs"
  have s: "CHR ''?'' \<notin> set ?s" "CHR ''/'' \<notin> set ?s" "?s \<noteq> []"
    using render_query_set [OF assms(3)] assms(2) by auto
  then have "last ?s \<noteq> CHR ''/''" by (metis last_in_set)
  then have "sanitizePath (p @ CHR ''?'' # ?s) = p @ CHR ''?'' # ?s"
    using s by (simp add: sanitizePath_def)
  moreover have "splitQueryParams (p @ CHR ''?'' # ?s) = (?s, p)"
    by (simp add: splitQueryParams_def last_index_append [OF s(1)])
  ultimately show ?thesis
    using parseQueryParams_render [OF assms(2,3)] by (simp add: Match_def new_ctx_def)
qed

section \<open>Matching\<close>

lemma matchByPath_loop:
  assumes "match_loop p (Some n) p (PathParams ctx) = (Some c, None, ps)" and "p \<noteq> []"
    and "nvalue c = Some v"
  shows "matchByPath n p ctx = Inr (ctx\<lparr>PathParams := ps, Value := Some v, UriPattern := npath c\<rparr>)"
  using assms by (simp add: matchByPath_def match_def)

lemma matchByPath_routes:
  assumes "kroute n (keys p) = Some (v, pat)" and "p \<noteq> []"
  shows "matchByPath n p (new_ctx qs) =
     Inr \<lparr>UriPattern = pat, QueryParams = qs, PathParams = Map.empty, Value = Some v\<rparr>"
proof -
  from assms obtain c where c: "walk n (keys p) = Some c" "node_entry c = Some (v, pat)"
    by (auto simp: kroute_def split: option.splits)
  then have "nvalue c = Some v" "npath c = pat"
    by (auto simp: node_entry_def split: option.splits)
  then show ?thesis
    using matchByPath_loop [OF match_loop_walk [OF c(1)] assms(2)] by (simp add: new_ctx_def)
qed

lemma bind_path_single:
  assumes "bind_path pat q ps = Some ps'"
  shows "\<exists>c. match_loop p (Some (fst (add_loop path (Some v) ov (fresh_node ty prm) pat))) q ps =
     (Some c, None, ps') \<and> nvalue c = Some v \<and> npath c = path"
  using assms
proof (induction pat q ps arbitrary: ty prm rule: bind_path.induct)
  case (1 q ps)
  then show ?case by (auto split: if_splits)
next
  case (2 token rest q ps)
  then obtain t q' where q: "q = t # q'" by (cases q) auto
  consider "token = CHR '':''" | "token = CHR ''*''" | "token \<noteq> CHR '':''" "token \<noteq> CHR ''*''" by blast
  then show ?case
  proof cases
    case 1
    then show ?thesis using "2.prems" "2.IH"(1) [OF q] q path_key_slash [of t q']
      by (auto simp: loop_Cons Let_def addParam_def fun_upd_def simp del: loop_raw split: if_splits)
  next
    case 2
    then show ?thesis using "2.prems" q
      by (auto simp: loop_Cons Let_def addWildcard_def simp del: loop_raw split: if_splits)
  next
    case 3
    then show ?thesis using "2.prems" "2.IH"(2) [OF q] q
      by (auto simp: loop_Cons Let_def addConst_def simp del: loop_raw split: if_splits)
  qed
qed

text \<open>The two walks agree, and an error means that the walk left the trie.\<close>

lemma match_loop_None [simp]: "fst (match_loop path None r ps) = None"
  by (cases r) auto

lemma match_find_loop:
  "fst (match_loop path (Some n) q ps) = map_option fst (find_loop (Some (n, pos)) q)"
proof (induction q arbitrary: n pos ps rule: keys.induct)
  case (2 token rest)
  then show ?case
    by (cases "const_get n (path_key token rest)"; cases "wildcardChild n"; cases "paramChild n")
      (auto simp only: loop_Cons Let_def option.case loops_None option.map match_loop_None split: if_split)
qed simp

lemma match_loop_no_error:
  "fst (match_loop path (Some n) q ps) = Some c \<Longrightarrow> fst (snd (match_loop path (Some n) q ps)) = None"
  by (induction q arbitrary: n ps rule: keys.induct)
    (auto simp: loop_Cons Let_def simp del: loop_raw split: option.splits if_splits)

lemma findByPath_match:
  "p \<noteq> [] \<Longrightarrow> (\<exists>ctx'. matchByPath n p ctx = Inr ctx') \<longleftrightarrow>
     (case findByPath n p of None \<Rightarrow> False | Some (c, _) \<Rightarrow> nvalue c \<noteq> None)"
proof -
  assume p: "p \<noteq> []"
  obtain cur err ps where m: "match_loop p (Some n) p (PathParams ctx) = (cur, err, ps)"
    by (cases "match_loop p (Some n) p (PathParams ctx)") auto
  have "cur = map_option fst (findByPath n p)"
    using match_find_loop [of p n p "PathParams ctx" "[]"] m p by (simp add: findByPath_def)
  moreover have "cur \<noteq> None \<Longrightarrow> err = None"
    using match_loop_no_error [of p n p "PathParams ctx"] m by auto
  ultimately show ?thesis using m p
    by (cases "findByPath n p") (auto simp: matchByPath_def match_def)
qed

section \<open>The router interface\<close>

text \<open>
  What a client of the router relies on. \<open>table\<close> is the abstract content, \<open>uri_ok\<close> the paths a
  client registers, \<open>below p q\<close> says that \<open>q\<close> goes away with \<open>p\<close>.
\<close>

locale uri_router =
  fixes add :: "'t \<Rightarrow> string \<Rightarrow> 'v \<Rightarrow> 't"
    and remove :: "'t \<Rightarrow> string \<Rightarrow> 't"
    and lookup :: "'t \<Rightarrow> string \<Rightarrow> 'v option"
    and table :: "'t \<Rightarrow> string \<Rightarrow> 'v option"
    and ok :: "'t \<Rightarrow> bool"
    and uri_ok :: "string \<Rightarrow> bool"
    and below :: "string \<Rightarrow> string \<Rightarrow> bool"
  assumes table_add: "ok t \<Longrightarrow> uri_ok p \<Longrightarrow> table (add t p v) = (table t)(p \<mapsto> v)"
    and ok_add: "ok t \<Longrightarrow> uri_ok p \<Longrightarrow> ok (add t p v)"
    and ok_remove: "ok t \<Longrightarrow> ok (remove t p)"
    and lookup_table: "ok t \<Longrightarrow> uri_ok p \<Longrightarrow> table t p = Some v \<Longrightarrow> lookup t p = Some v"
    and table_remove: "ok t \<Longrightarrow> uri_ok p \<Longrightarrow> table t p \<noteq> None \<Longrightarrow>
      table (remove t p) q = (if below p q then None else table t q)"
    and below_refl: "uri_ok p \<Longrightarrow> below p p"
begin

text \<open>Registration and removal of a list of paths, as the service managers do it in a loop.\<close>

definition register_all :: "(string \<times> 'v) list \<Rightarrow> 't \<Rightarrow> 't" where
  "register_all kvs t = fold (\<lambda>(p, v) t. add t p v) kvs t"

lemma register_all_Cons [simp]: "register_all ((p, v) # kvs) t = register_all kvs (add t p v)"
  and register_all_Nil [simp]: "register_all [] t = t"
  by (simp_all add: register_all_def)

lemma register_all_table:
  assumes "ok t" and "list_all uri_ok (map fst kvs)"
  shows "ok (register_all kvs t) \<and> table (register_all kvs t) = table t ++ map_of (rev kvs)"
  using assms
proof (induction kvs arbitrary: t)
  case (Cons kv kvs)
  obtain p v where "kv = (p, v)" by (cases kv)
  then show ?case using Cons
    by (simp add: ok_add table_add map_add_def fun_eq_iff split: option.splits)
qed simp

lemma registered_lookup:
  assumes "ok t" and "list_all uri_ok (map fst kvs)" and "map_of (rev kvs) p = Some v"
  shows "lookup (register_all kvs t) p = Some v"
proof (rule lookup_table)
  have "p \<in> fst ` set kvs" using assms(3) map_of_SomeD [of "rev kvs" p v] by force
  then show "uri_ok p" using assms(2) by (auto simp: list_all_iff)
  show "ok (register_all kvs t)" using register_all_table [OF assms(1,2)] by simp
  show "table (register_all kvs t) p = Some v"
    using register_all_table [OF assms(1,2)] assms(3) by (simp add: map_add_def)
qed

lemma removed_absent: "ok t \<Longrightarrow> uri_ok p \<Longrightarrow> table t p \<noteq> None \<Longrightarrow> table (remove t p) p = None"
  by (simp add: table_remove below_refl)

text \<open>Removal of registered paths none of which lies below another.\<close>

lemma unregister_all_table:
  assumes "ok t" and "list_all uri_ok ps" and "distinct ps"
    and "\<And>p. p \<in> set ps \<Longrightarrow> table t p \<noteq> None"
    and "\<And>p q. p \<in> set ps \<Longrightarrow> q \<in> set ps \<Longrightarrow> below p q \<Longrightarrow> p = q"
  shows "ok (fold (\<lambda>p t. remove t p) ps t) \<and>
    table (fold (\<lambda>p t. remove t p) ps t) q = (if list_ex (\<lambda>p. below p q) ps then None else table t q)"
  using assms
proof (induction ps arbitrary: t)
  case (Cons p ps)
  have rem: "table (remove t p) q = (if below p q then None else table t q)" for q
    using table_remove [of t p q] Cons.prems(1,2) Cons.prems(4) [of p] by simp
  have "table (remove t p) q' \<noteq> None" if "q' \<in> set ps" for q'
    using rem [of q'] Cons.prems(3) Cons.prems(4) [of q'] Cons.prems(5) [of p q'] that by auto
  then have "ok (fold (\<lambda>p t. remove t p) ps (remove t p)) \<and>
      table (fold (\<lambda>p t. remove t p) ps (remove t p)) q =
        (if list_ex (\<lambda>p. below p q) ps then None else table (remove t p) q)"
    using Cons.prems by (intro Cons.IH) (auto simp: ok_remove)
  then show ?case using rem by simp
qed simp

end

definition uri_pattern_ok :: "string \<Rightarrow> bool" where
  "uri_pattern_ok p \<longleftrightarrow> plain_path p \<and> literal p"

definition trie_table :: "'v TrieTree \<Rightarrow> string \<Rightarrow> 'v option" where
  "trie_table t p = map_option fst (routes t p)"

definition trie_lookup :: "'v TrieTree \<Rightarrow> string \<Rightarrow> 'v option" where
  "trie_lookup t p = (case Match t p of Inl _ \<Rightarrow> None | Inr ctx \<Rightarrow> Value ctx)"

lemma routes_Add:
  "routes (fst (Add t p (Some v) ov)) q =
     (if p \<noteq> [] \<and> literal p \<and> q = p \<and> (ov \<or> routes t q = None) then Some (v, p) else routes t q)"
  by (auto simp: routes_def Add_def addPath_def case_prod_beta kroute_add_loop)

lemma root_Remove_walk:
  assumes "trie_ok (root t)" and "walk (root t) (keys p) = Some c" and "p \<noteq> []"
  shows "Remove t p = (t\<lparr>root := update_at (map SConst (butlast (keys p)))
           (detach (SConst (last (keys p)))) (root t), size := size t - 1\<rparr>, True)"
proof -
  have "trie_ok n \<Longrightarrow> walk n ks = Some c \<Longrightarrow> trie_ok c" for n ks
    by (induction ks arbitrary: n) (auto dest: trie_ok_const_get split: option.splits)
  then have "trie_ok c" using assms by blast
  then have "paramChild c = None \<or> wildcardChild c = None" by (subst (asm) trie_ok_iff) auto
  then show ?thesis
    using find_loop_walk [OF assms(2), of "[]"] assms(3)
    by (auto simp: Remove_def findByPath_def remove_node_def map_butlast last_map)
qed

lemma routes_Remove:
  assumes "trie_ok (root t)" and "routes t p \<noteq> None" and "p \<noteq> []"
  shows "snd (Remove t p) \<and>
     routes (fst (Remove t p)) q = (if prefix (keys p) (keys q) then None else routes t q)"
proof -
  obtain c where "walk (root t) (keys p) = Some c"
    using assms(2) by (auto simp: routes_def kroute_def split: option.splits)
  then show ?thesis
    using root_Remove_walk [OF assms(1) _ assms(3)] assms(3)
      kroute_detach [of "butlast (keys p)" "last (keys p)" "root t" "keys q"]
    by (simp add: routes_def)
qed

lemma trie_ok_Remove: "trie_ok (root t) \<Longrightarrow> trie_ok (root (fst (Remove t p)))"
  by (auto simp: Remove_def remove_node_def update_detach_ok split: option.splits)

lemma trie_ok_Add: "trie_ok (root t) \<Longrightarrow> trie_ok (root (fst (Add t p v ov)))"
  by (auto simp: Add_def addPath_def add_loop_ok case_prod_beta)

lemma walk_append: "walk n (ks @ js) = (case walk n ks of None \<Rightarrow> None | Some c \<Rightarrow> walk c js)"
  by (induction ks arbitrary: n) (auto split: option.splits)

lemma set_update_mem: "(k, v) \<in> set (AList.update k v al)"
  by (induction al) auto

lemma clean_None_child:
  assumes "(k, c) \<in> set (constChildren n)" and "\<And>d. c = Some d \<Longrightarrow> clean d = Panic"
  shows "clean n = Panic"
proof (cases n)
  case (TrieNode w p cs prm v pt ty)
  have "\<not> list_all (\<lambda>(k, c). case c of None \<Rightarrow> False | Some d \<Rightarrow> clean d \<noteq> Panic) cs"
    using assms TrieNode by (cases c) (auto simp: list_all_iff intro!: bexI [of _ "(k, c)"])
  then show ?thesis unfolding TrieNode clean.simps by (intro bind_go_PanicI) simp
qed

lemma clean_panic:
  "walk n ks \<noteq> None \<Longrightarrow> clean (update_at (map SConst ks) (detach (SConst k)) n) = Panic"
proof (induction ks arbitrary: n)
  case Nil
  show ?case by (rule clean_None_child [of k None]) (simp_all add: set_update_mem)
next
  case (Cons a ks)
  then obtain c where c: "const_get n a = Some c" "walk c ks \<noteq> None" by (auto split: option.splits)
  let ?c' = "update_at (map SConst ks) (detach (SConst k)) c"
  show ?case by (rule clean_None_child [of a "Some ?c'"]) (simp_all add: c Cons.IH set_update_mem del: detach.simps)
qed

lemma reachable_ok: "reachable_tree t \<Longrightarrow> trie_ok (root t)"
  by (induction rule: reachable_tree.induct)
    (auto simp: NewTrieTree_def trie_ok_Add trie_ok_Remove RemoveAll_def bind_go_eq_Ret dest: clean_ok)

interpretation trie_router: uri_router
  "\<lambda>t p v. fst (Add t p (Some v) True)" "\<lambda>t p. fst (Remove t p)" trie_lookup trie_table
  "\<lambda>t. trie_ok (root t)" uri_pattern_ok "\<lambda>p q. prefix (keys p) (keys q)"
proof unfold_locales
  fix t :: "'v TrieTree" and p v
  show "uri_pattern_ok p \<Longrightarrow> trie_table (fst (Add t p (Some v) True)) = (trie_table t)(p \<mapsto> v)"
    by (auto simp: fun_eq_iff trie_table_def routes_Add uri_pattern_ok_def plain_path_def)
  show "uri_pattern_ok p \<Longrightarrow> trie_table t p = Some v \<Longrightarrow> trie_lookup t p = Some v"
    by (auto simp: trie_lookup_def trie_table_def uri_pattern_ok_def routes_def Match_plain
        matchByPath_routes plain_path_def)
  fix q
  show "trie_ok (root t) \<Longrightarrow> uri_pattern_ok p \<Longrightarrow> trie_table t p \<noteq> None \<Longrightarrow>
      trie_table (fst (Remove t p)) q = (if prefix (keys p) (keys q) then None else trie_table t q)"
    using routes_Remove [of t p q] by (simp add: trie_table_def uri_pattern_ok_def plain_path_def)
qed (simp_all add: trie_ok_Add trie_ok_Remove)

section \<open>Properties of the trie\<close>

text \<open>
  C1. \<open>Add\<close> refines the update of a map: a literal path becomes bound to the value and to itself as
  pattern, unless it is bound already and \<open>override\<close> is false; no other path changes. A pattern
  with parameters changes no literal route.
\<close>

theorem Add_refines_update:
  "routes (fst (Add t p (Some v) ov)) =
     (if p \<noteq> [] \<and> literal p \<and> (ov \<or> routes t p = None) then (routes t)(p \<mapsto> (v, p)) else routes t)"
  by (auto simp: fun_eq_iff routes_Add)

text \<open>
  C2. A request for a registered literal path is matched to its route, with or without a query
  string, and the query parameters are the ones the query string lists.
\<close>

theorem Match_registered:
  assumes "plain_path p" and "routes t p = Some (v, pat)" and "kvs \<noteq> []"
    and "\<forall>(k, w) \<in> set kvs. query_word k \<and> query_word w"
  shows "Match t p =
      Inr \<lparr>UriPattern = pat, QueryParams = Map.empty, PathParams = Map.empty, Value = Some v\<rparr> \<and>
    Match t (p @ ''/'') = Match t p \<and>
    Match t (p @ CHR ''?'' # render_query kvs) =
      Inr \<lparr>UriPattern = pat, QueryParams = map_of (rev kvs), PathParams = Map.empty, Value = Some v\<rparr>"
  using assms matchByPath_routes [of "root t" p v pat]
  by (simp add: Match_plain Match_trailing_slash Match_query routes_def plain_path_def)

theorem Match_registered_witness:
  "Match (fst (Add NewTrieTree ''/hub/echo'' (Some (7::nat)) False)) ''/hub/echo?x=1&y=2'' =
     Inr \<lparr>UriPattern = ''/hub/echo'', QueryParams = map_of [(''y'', ''2''), (''x'', ''1'')],
          PathParams = Map.empty, Value = Some 7\<rparr>"
proof -
  let ?t = "fst (Add NewTrieTree ''/hub/echo'' (Some (7::nat)) False)"
  have "plain_path ''/hub/echo''" by code_simp
  moreover have "routes ?t ''/hub/echo'' = Some (7, ''/hub/echo'')" by code_simp
  moreover have "\<forall>(k, w) \<in> set [(''x'', ''1''), (''y'', ''2'')]. query_word k \<and> query_word w" by code_simp
  ultimately show ?thesis
    using Match_registered [of "''/hub/echo''" ?t 7 "''/hub/echo''" "[(''x'', ''1''), (''y'', ''2'')]"]
    by simp
qed

text \<open>
  C20. \<open>Remove\<close> of a registered literal path succeeds; it deletes the path and every path that
  continues it, and no other literal route.
\<close>

theorem Remove_deletes_below:
  assumes "reachable_tree t" and "routes t p \<noteq> None" and "p \<noteq> []"
  shows "snd (Remove t p) \<and>
     routes (fst (Remove t p)) = (\<lambda>q. if prefix (keys p) (keys q) then None else routes t q)"
  using routes_Remove [OF reachable_ok [OF assms(1)] assms(2,3)] by (auto simp: fun_eq_iff)

theorem Remove_deletes_below_witness:
  "routes (fst (Remove (fst (Add (fst (Add NewTrieTree ''/a/b'' (Some (1::nat)) True)) ''/a'' (Some 2) True))
     ''/a'')) ''/a/b'' = None"
proof -
  let ?t = "fst (Add (fst (Add NewTrieTree ''/a/b'' (Some (1::nat)) True)) ''/a'' (Some 2) True)"
  have "reachable_tree ?t" by (intro reachable_tree.intros)
  moreover have "routes ?t ''/a'' \<noteq> None" by code_simp
  moreover have "prefix (keys ''/a'') (keys ''/a/b'')" by code_simp
  ultimately show ?thesis using Remove_deletes_below [of ?t "''/a''"] by simp
qed

text \<open>
  C24. Every tree that the operations can build is well formed: no node has both a parameter and a
  wildcard child, nothing hangs below a wildcard, keys are distinct, and each node's type is the
  kind of edge that leads to it.
\<close>

theorem reachable_tree_invariant: "reachable_tree t \<Longrightarrow> trie_ok (root t)"
  by (rule reachable_ok)

theorem reachable_tree_invariant_witness:
  "trie_ok (root (fst (Remove (fst (Add NewTrieTree ''/u/:id/*tail'' (Some (3::nat)) True)) ''/u'')))"
  by (intro reachable_tree_invariant reachable_tree.intros)



text \<open>C33. \<open>SupportsUri\<close> answers yes exactly for the paths that \<open>Match\<close> accepts.\<close>

theorem SupportsUri_iff_Match: "SupportsUri t p \<longleftrightarrow> (\<exists>ctx. Match t p = Inr ctx)"
proof -
  obtain s r where sr: "splitQueryParams (sanitizePath p) = (s, r)" by force
  show ?thesis
  proof (cases "r = []")
    case True
    then show ?thesis using sr
      by (auto simp: SupportsUri_def Match_def matchByPath_def findByPath_def split: sum.splits)
  next
    case False
    then show ?thesis using sr findByPath_match [of r]
      by (auto simp: SupportsUri_def Match_def split: sum.splits)
  qed
qed

text \<open>
  \<open>Remove\<close> stores \<open>nil\<close> in the children map and \<open>clean\<close> dereferences every stored child: once a
  registered literal path has been removed, \<open>RemoveAll\<close> panics.
\<close>

theorem RemoveAll_panics_after_Remove:
  assumes "reachable_tree t" and "routes t p \<noteq> None" and "p \<noteq> []"
  shows "RemoveAll (fst (Remove t p)) = Panic"
proof -
  obtain c where c: "walk (root t) (keys p) = Some c"
    using assms(2) by (auto simp: routes_def kroute_def split: option.splits)
  have "walk (root t) (butlast (keys p)) \<noteq> None"
    using c assms(3) walk_append [of "root t" "butlast (keys p)" "[last (keys p)]"]
    by (auto split: option.splits)
  then show ?thesis
    using root_Remove_walk [OF reachable_ok [OF assms(1)] c assms(3)] clean_panic
    by (fastforce simp: RemoveAll_def)
qed

theorem RemoveAll_panics_after_Remove_witness:
  "RemoveAll (fst (Remove (fst (Add NewTrieTree ''/a'' (Some (1::nat)) True)) ''/a'')) = Panic"
proof -
  have "reachable_tree (fst (Add NewTrieTree ''/a'' (Some (1::nat)) True))" by (intro reachable_tree.intros)
  moreover have "routes (fst (Add NewTrieTree ''/a'' (Some (1::nat)) True)) ''/a'' \<noteq> None" by code_simp
  ultimately show ?thesis by (simp add: RemoveAll_panics_after_Remove)
qed

end
