(* ===== verification/ServiceManager.thy ===== *)
theory ServiceManager
  imports Services Routing
begin

text \<open>
  The service manager of the server, \<open>src/hub_server/modules/service_manager/ServiceManagerModule.go\<close>.

  The services are objects shared by the service map and the routing trie: they live in a heap and both
  structures hold addresses. The locks are left out; a Go map is an association list, and where the code
  ranges over it the order is the order of the list.
\<close>

section \<open>The module\<close>

datatype ('h, 'c) IService = INative "'h NativeService" | IRelay "'c RelayService"

fun svc_base :: "('h, 'c) IService \<Rightarrow> Service" where
  "svc_base (INative n) = ns_service n"
| "svc_base (IRelay r) = rs_service r"

fun set_base :: "Service \<Rightarrow> ('h, 'c) IService \<Rightarrow> ('h, 'c) IService" where
  "set_base s (INative n) = INative (n\<lparr>ns_service := s\<rparr>)"
| "set_base s (IRelay r) = IRelay (r\<lparr>rs_service := s\<rparr>)"

lemma svc_base_set [simp]: "svc_base (set_base s x) = s"
  by (cases x) auto

definition MaxServicePerClient :: nat where [simp]: "MaxServicePerClient = 5"

datatype sm_error =
    EExceededMaxServiceCount string nat
  | ENoSuchService string
  | EServiceNotFound string
  | ERoute trie_error

record ('h, 'c) ServiceManagerModule =
  trieTree :: "nat TrieTree"
  serviceMap :: "(string \<times> nat) list"
  sm_heap :: "nat \<Rightarrow> ('h, 'c) IService"

definition sm_Init :: "(nat \<Rightarrow> ('h, 'c) IService) \<Rightarrow> ('h, 'c) ServiceManagerModule" where
  "sm_Init h = \<lparr>trieTree = NewTrieTree, serviceMap = [], sm_heap = h\<rparr>"

definition sm_service :: "('h, 'c) ServiceManagerModule \<Rightarrow> nat \<Rightarrow> Service" where
  "sm_service m a = svc_base (sm_heap m a)"

definition set_service :: "nat \<Rightarrow> Service \<Rightarrow> ('h, 'c) ServiceManagerModule \<Rightarrow> ('h, 'c) ServiceManagerModule" where
  "set_service a s m = m\<lparr>sm_heap := (sm_heap m)(a := set_base s (sm_heap m a))\<rparr>"

text \<open>
  \<open>UnregisterAllServices\<close> calls \<open>Error()\<close> on the result of \<open>Stop\<close>, which panics when it is \<open>nil\<close>; the
  result is the text of the errors.
\<close>

fun unregister_all_loop :: "nat list \<Rightarrow> ('h, 'c) ServiceManagerModule \<Rightarrow> ('h, 'c) ServiceManagerModule \<times> svc_error list go" where
  "unregister_all_loop [] m = (m, Ret [])"
| "unregister_all_loop (a # as) m =
     (case Stop (sm_service m a) of
        (s, None, _) \<Rightarrow> (set_service a s m, Panic)
      | (s, Some err, _) \<Rightarrow>
          (let m = set_service a s m; m = m\<lparr>serviceMap := AList.delete (svc_id s) (serviceMap m)\<rparr>;
               (m', res) = unregister_all_loop as m
           in (m', bind_go res (\<lambda>es. Ret (err # es)))))"

definition UnregisterAllServices :: "('h, 'c) ServiceManagerModule \<Rightarrow> ('h, 'c) ServiceManagerModule \<times> svc_error list go" where
  "UnregisterAllServices m = unregister_all_loop (map snd (serviceMap m)) m"

definition GetService :: "('h, 'c) ServiceManagerModule \<Rightarrow> string \<Rightarrow> nat option" where
  "GetService m i = map_of (serviceMap m) i"

definition HasService :: "('h, 'c) ServiceManagerModule \<Rightarrow> string \<Rightarrow> bool" where
  "HasService m i \<longleftrightarrow> GetService m i \<noteq> None"

definition getServicesByClientId :: "('h, 'c) ServiceManagerModule \<Rightarrow> string \<Rightarrow> nat list" where
  "getServicesByClientId m i = filter (\<lambda>a. rd_Id (svc_provider (sm_service m a)) = i) (map snd (serviceMap m))"

definition serviceCountByClientId :: "('h, 'c) ServiceManagerModule \<Rightarrow> string \<Rightarrow> nat" where
  "serviceCountByClientId m i = length (getServicesByClientId m i)"

text \<open>The loop of \<open>registerService\<close>; a route that fails is only logged.\<close>

fun register_uris :: "nat \<Rightarrow> string list \<Rightarrow> string list \<Rightarrow> nat TrieTree \<Rightarrow> nat TrieTree" where
  "register_uris a [] addedPathSet t = t"
| "register_uris a (uri # uris) addedPathSet t =
     (if uri \<in> set addedPathSet then register_uris a uris addedPathSet t
      else (case Add t uri (Some a) True of
          (t', Some err) \<Rightarrow> register_uris a uris addedPathSet t'
        | (t', None) \<Rightarrow> register_uris a uris (uri # addedPathSet) t'))"

definition registerService :: "string \<Rightarrow> string \<Rightarrow> nat \<Rightarrow> ('h, 'c) ServiceManagerModule \<Rightarrow>
    ('h, 'c) ServiceManagerModule \<times> sm_error option" where
  "registerService serverId clientId a m =
     (if clientId \<noteq> serverId \<and> serviceCountByClientId m clientId \<ge> MaxServicePerClient
      then (m, Some (EExceededMaxServiceCount clientId MaxServicePerClient))
      else
        (let svc = sm_service m a in
         (m\<lparr>serviceMap := AList.update (svc_id svc) a (serviceMap m),
            trieTree := register_uris a (FullServiceUris svc) [] (trieTree m)\<rparr>, None)))"

definition removeUriRoute :: "string \<Rightarrow> nat TrieTree \<Rightarrow> nat TrieTree" where
  "removeUriRoute route t = fst (Remove t route)"

definition unregisterService :: "string \<Rightarrow> ('h, 'c) ServiceManagerModule \<Rightarrow> ('h, 'c) ServiceManagerModule \<times> sm_error option" where
  "unregisterService i m =
     (case GetService m i of
        None \<Rightarrow> (m, Some (ENoSuchService i))
      | Some a \<Rightarrow>
          (let uris = FullServiceUris (sm_service m a); m = set_service a (fst (Stop (sm_service m a))) m
           in (m\<lparr>trieTree := fold removeUriRoute uris (trieTree m), serviceMap := AList.delete i (serviceMap m)\<rparr>, None)))"

definition UnregisterAllServicesFromClientId :: "string \<Rightarrow> ('h, 'c) ServiceManagerModule \<Rightarrow> ('h, 'c) ServiceManagerModule" where
  "UnregisterAllServicesFromClientId clientId m =
     fold (\<lambda>a m. fst (unregisterService (svc_id (sm_service m a)) m)) (getServicesByClientId m clientId) m"

definition MatchServiceByUri :: "('h, 'c) ServiceManagerModule \<Rightarrow> string \<Rightarrow> nat MatchContext option" where
  "MatchServiceByUri m uri = (case Match (trieTree m) uri of Inl _ \<Rightarrow> None | Inr ctx \<Rightarrow> Some ctx)"

text \<open>The type assertion on the value panics when it is \<open>nil\<close>.\<close>

definition FindServiceByUri :: "('h, 'c) ServiceManagerModule \<Rightarrow> string \<Rightarrow> nat option go" where
  "FindServiceByUri m uri =
     (case Match (trieTree m) uri of
        Inl _ \<Rightarrow> Ret None
      | Inr ctx \<Rightarrow> (case Value ctx of None \<Rightarrow> Panic | Some a \<Rightarrow> Ret (Some a)))"

definition sm_SupportsUri :: "('h, 'c) ServiceManagerModule \<Rightarrow> string \<Rightarrow> bool" where
  "sm_SupportsUri m uri = SupportsUri (trieTree m) uri"

definition DescribeAllServices :: "RoleDescriptor \<Rightarrow> ('h, 'c) ServiceManagerModule \<Rightarrow> ServiceDescriptor list" where
  "DescribeAllServices host m = map (\<lambda>(i, a). Describe host (sm_service m a)) (serviceMap m)"

definition DescribeAllRelayServices :: "RoleDescriptor \<Rightarrow> ('h, 'c) ServiceManagerModule \<Rightarrow> ServiceDescriptor list" where
  "DescribeAllRelayServices host m = filter (\<lambda>d. sd_ServiceType d = ServiceTypeProxy) (DescribeAllServices host m)"

definition addUriRoute :: "nat \<Rightarrow> string \<Rightarrow> nat TrieTree \<Rightarrow> nat TrieTree \<times> trie_error option" where
  "addUriRoute a route t = Add t route (Some a) True"

text \<open>The loop over the uris of the descriptor in \<open>UpdateService\<close>: adds a route or strikes it off.\<close>

fun update_uris :: "nat \<Rightarrow> string \<Rightarrow> string list \<Rightarrow> string list \<Rightarrow> nat TrieTree \<Rightarrow> nat TrieTree \<times> string list \<times> trie_error option" where
  "update_uris a i [] currentUriSet t = (t, currentUriSet, None)"
| "update_uris a i (shortUri # rest) currentUriSet t =
     (let fullUri = ServicePrefix @ ''/'' @ i @ shortUri in
      if fullUri \<notin> set currentUriSet
      then (case addUriRoute a fullUri t of
          (t', Some err) \<Rightarrow> (t', currentUriSet, Some err)
        | (t', None) \<Rightarrow> update_uris a i rest currentUriSet t')
      else update_uris a i rest (removeAll fullUri currentUriSet) t)"

definition UpdateService :: "RoleDescriptor \<Rightarrow> ServiceDescriptor \<Rightarrow> ('h, 'c) ServiceManagerModule \<Rightarrow>
    (('h, 'c) ServiceManagerModule \<times> sm_error option) go" where
  "UpdateService host d m =
     (case GetService m (sd_Id d) of
        None \<Rightarrow> Ret (m, Some (EServiceNotFound (sd_Id d)))
      | Some a \<Rightarrow>
          (case sm_heap m a of
             INative n \<Rightarrow> Panic
           | IRelay r \<Rightarrow>
               (let (r', _) = relay_Update host d r; m = m\<lparr>sm_heap := (sm_heap m)(a := IRelay r')\<rparr>;
                    currentUriSet = remdups (FullServiceUris (rs_service r'));
                    (t, left, err) = update_uris a (sd_Id d) (sd_ServiceUris d) currentUriSet (trieTree m) in
                case err of
                  Some e \<Rightarrow> Ret (m\<lparr>trieTree := t\<rparr>, Some (ERoute e))
                | None \<Rightarrow> Ret (m\<lparr>trieTree := fold removeUriRoute left t\<rparr>, None))))"

section \<open>Reachable states\<close>

text \<open>
  What the server does to the manager: registration on behalf of the provider, the removals, updates,
  and changes of a single service that keep its id and its provider (\<open>Start\<close>, \<open>Stop\<close>, requests).
\<close>

inductive sm_reach :: "string \<Rightarrow> ('h, 'c) ServiceManagerModule \<Rightarrow> bool" for serverId where
  init: "sm_reach serverId (sm_Init h)"
| register: "sm_reach serverId m \<Longrightarrow> rd_Id (svc_provider (sm_service m a)) = clientId \<Longrightarrow>
    sm_reach serverId (fst (registerService serverId clientId a m))"
| unregister: "sm_reach serverId m \<Longrightarrow> sm_reach serverId (fst (unregisterService i m))"
| unregister_all: "sm_reach serverId m \<Longrightarrow> sm_reach serverId (fst (UnregisterAllServices m))"
| update: "sm_reach serverId m \<Longrightarrow> UpdateService host d m = Ret (m', err) \<Longrightarrow> sm_reach serverId m'"
| service: "sm_reach serverId m \<Longrightarrow> svc_id s = svc_id (sm_service m a) \<Longrightarrow> svc_provider s = svc_provider (sm_service m a) \<Longrightarrow>
    sm_reach serverId (set_service a s m)"

definition sm_ok :: "string \<Rightarrow> ('h, 'c) ServiceManagerModule \<Rightarrow> bool" where
  "sm_ok serverId m \<longleftrightarrow> trie_ok (root (trieTree m)) \<and> distinct (map fst (serviceMap m)) \<and>
     (\<forall>i a. map_of (serviceMap m) i = Some a \<longrightarrow> svc_id (sm_service m a) = i) \<and>
     (\<forall>cid. cid \<noteq> serverId \<longrightarrow> serviceCountByClientId m cid \<le> MaxServicePerClient)"

lemma sm_service_set [simp]: "sm_service (set_service a s m) b = (if b = a then s else sm_service m b)"
  by (simp add: sm_service_def set_service_def)

lemma set_service_fields [simp]:
  "trieTree (set_service a s m) = trieTree m" "serviceMap (set_service a s m) = serviceMap m"
  by (simp_all add: set_service_def)

lemma sm_service_upd [simp]:
  "sm_service (m\<lparr>serviceMap := x\<rparr>) a = sm_service m a" "sm_service (m\<lparr>trieTree := t\<rparr>) a = sm_service m a"
  by (simp_all add: sm_service_def)

lemma count_update:
  "length (filter P (map snd (AList.update k a al))) \<le> length (filter P (map snd al)) + (if P a then 1 else 0)"
  by (induction al) auto

lemma count_delete: "length (filter P (map snd (AList.delete k al))) \<le> length (filter P (map snd al))"
  by (induction al) auto

lemma register_uris_ok: "trie_ok (root t) \<Longrightarrow> trie_ok (root (register_uris a uris added t))"
proof (induction a uris added t rule: register_uris.induct)
  case (2 a uri uris added t)
  then show ?case using trie_ok_Add [of t uri "Some a" True] by (auto split: prod.splits option.splits)
qed simp

lemma remove_routes_ok: "trie_ok (root t) \<Longrightarrow> trie_ok (root (fold removeUriRoute uris t))"
  by (induction uris arbitrary: t) (auto simp: removeUriRoute_def trie_ok_Remove)

lemma update_uris_ok: "trie_ok (root t) \<Longrightarrow> update_uris a i us cur t = (t', cur', err) \<Longrightarrow> trie_ok (root t')"
proof (induction a i us cur t rule: update_uris.induct)
  case (2 a i u us cur t)
  then show ?case using trie_ok_Add [of t "ServicePrefix @ ''/'' @ i @ u" "Some a" True]
    by (auto simp: Let_def addUriRoute_def split: prod.splits option.splits if_splits)
qed simp

text \<open>The invariant depends on a service only through its id and its provider.\<close>

lemma sm_ok_heap:
  assumes "sm_ok serverId m" and "trie_ok (root (trieTree m'))" and "serviceMap m' = serviceMap m"
    and "\<And>a. svc_id (sm_service m' a) = svc_id (sm_service m a) \<and> svc_provider (sm_service m' a) = svc_provider (sm_service m a)"
  shows "sm_ok serverId m'"
  using assms by (simp add: sm_ok_def serviceCountByClientId_def getServicesByClientId_def)

lemma sm_ok_delete:
  assumes "sm_ok serverId m"
  shows "sm_ok serverId (m\<lparr>serviceMap := AList.delete i (serviceMap m)\<rparr>)"
proof -
  let ?m = "m\<lparr>serviceMap := AList.delete i (serviceMap m)\<rparr>"
  have "serviceCountByClientId ?m cid \<le> serviceCountByClientId m cid" for cid
    using count_delete [of "\<lambda>a. rd_Id (svc_provider (sm_service m a)) = cid" i "serviceMap m"]
    by (simp add: serviceCountByClientId_def getServicesByClientId_def)
  then have "cid \<noteq> serverId \<Longrightarrow> serviceCountByClientId ?m cid \<le> MaxServicePerClient" for cid
    using assms le_trans unfolding sm_ok_def by blast
  moreover have "map_of (AList.delete i (serviceMap m)) j = Some a \<Longrightarrow> map_of (serviceMap m) j = Some a" for j a
    by (simp add: delete_conv' split: if_splits)
  ultimately show ?thesis using assms by (simp add: sm_ok_def distinct_delete)
qed

lemma sm_ok_register:
  assumes "sm_ok serverId m" and "rd_Id (svc_provider (sm_service m a)) = clientId"
  shows "sm_ok serverId (fst (registerService serverId clientId a m))"
proof (cases "snd (registerService serverId clientId a m)")
  case None
  let ?m = "fst (registerService serverId clientId a m)"
  have few: "clientId \<noteq> serverId \<Longrightarrow> serviceCountByClientId m clientId < MaxServicePerClient"
    and m: "serviceMap ?m = AList.update (svc_id (sm_service m a)) a (serviceMap m)" "sm_service ?m = sm_service m"
      "trieTree ?m = register_uris a (FullServiceUris (sm_service m a)) [] (trieTree m)"
    using None by (auto simp: registerService_def Let_def sm_service_def fun_eq_iff split: if_splits)
  have "serviceCountByClientId ?m cid \<le> MaxServicePerClient" if "cid \<noteq> serverId" for cid
    using count_update [of "\<lambda>a. rd_Id (svc_provider (sm_service m a)) = cid" "svc_id (sm_service m a)" a "serviceMap m"]
      assms that few by (auto simp: sm_ok_def serviceCountByClientId_def getServicesByClientId_def m split: if_splits)
  then show ?thesis using assms
    by (auto simp: sm_ok_def m register_uris_ok distinct_update update_conv' split: if_splits)
qed (use assms in \<open>auto simp: registerService_def Let_def split: if_splits\<close>)

lemma sm_ok_unregister: "sm_ok serverId m \<Longrightarrow> sm_ok serverId (fst (unregisterService i m))"
proof (cases "GetService m i")
  case (Some a)
  assume ok: "sm_ok serverId m"
  let ?m = "set_service a (fst (Stop (sm_service m a))) m"
  have "sm_ok serverId (?m\<lparr>trieTree := fold removeUriRoute (FullServiceUris (sm_service m a)) (trieTree m)\<rparr>)"
    by (rule sm_ok_heap [OF ok]) (use ok in \<open>simp_all add: Stop_eq remove_routes_ok sm_ok_def\<close>)
  from sm_ok_delete [OF this, of i] show ?thesis using Some by (simp add: unregisterService_def Let_def)
qed (simp add: unregisterService_def)

lemma UnregisterAllServices_eq:
  "UnregisterAllServices m = (case serviceMap m of [] \<Rightarrow> (m, Ret []) |
     (i, a) # _ \<Rightarrow> (set_service a (fst (Stop (sm_service m a))) m, Panic))"
  by (cases "serviceMap m") (auto simp: UnregisterAllServices_def Stop_eq)

lemma UpdateService_fields:
  assumes "UpdateService host d m = Ret (m', err)" and "trie_ok (root (trieTree m))"
  shows "serviceMap m' = serviceMap m \<and> trie_ok (root (trieTree m')) \<and>
    svc_id (sm_service m' a) = svc_id (sm_service m a) \<and> svc_provider (sm_service m' a) = svc_provider (sm_service m a)"
  using assms update_uris_ok [OF assms(2)]
  by (auto simp: UpdateService_def Let_def sm_service_def relay_Update_eq relay_update_def remove_routes_ok
      split: option.splits IService.splits prod.splits if_splits)

lemma sm_reach_ok: "sm_reach serverId m \<Longrightarrow> sm_ok serverId m"
proof (induction rule: sm_reach.induct)
  case (init h)
  show ?case by (simp add: sm_ok_def sm_Init_def NewTrieTree_def serviceCountByClientId_def getServicesByClientId_def
        reachable_ok [OF reachable_tree.init, unfolded NewTrieTree_def, simplified])
next
  case (unregister_all m)
  have "sm_ok serverId (set_service a (fst (Stop (sm_service m a))) m)" for a
    by (rule sm_ok_heap [OF unregister_all.IH]) (use unregister_all.IH in \<open>simp_all add: Stop_eq sm_ok_def\<close>)
  then show ?case using unregister_all.IH by (simp add: UnregisterAllServices_eq split: list.splits)
next
  case (update m host d m' err)
  then show ?case using UpdateService_fields [OF update.hyps(2)] by (intro sm_ok_heap [OF update.IH]) (auto simp: sm_ok_def)
next
  case (service m s a)
  show ?case by (rule sm_ok_heap [OF service.IH]) (use service in \<open>auto simp: sm_ok_def\<close>)
qed (simp_all add: sm_ok_register sm_ok_unregister)

section \<open>Routes of a registered service\<close>

lemma register_uris_table:
  assumes "trie_ok (root t)" and "list_all uri_pattern_ok uris" and "\<And>u. u \<in> set added \<Longrightarrow> trie_table t u = Some a"
  shows "trie_table (register_uris a uris added t) = (\<lambda>u. if u \<in> set uris then Some a else trie_table t u)"
  using assms
proof (induction uris arbitrary: added t)
  case (Cons uri uris)
  obtain t' err where add: "Add t uri (Some a) True = (t', err)" by force
  have t': "trie_table t' = (trie_table t)(uri \<mapsto> a)" "trie_ok (root t')"
    using trie_router.table_add [OF Cons.prems(1), of uri a] trie_ok_Add [OF Cons.prems(1), of uri "Some a" True]
      Cons.prems(2) add by auto
  have new: "trie_table (register_uris a uris added' t') = (\<lambda>u. if u \<in> set uris then Some a else trie_table t' u)"
    if "set added' \<subseteq> insert uri (set added)" for added'
    by (rule Cons.IH) (use that t' Cons.prems in auto)
  have "trie_table (register_uris a uris added t) = (\<lambda>u. if u \<in> set uris then Some a else trie_table t u)"
    by (rule Cons.IH) (use Cons.prems in auto)
  then show ?case using new [OF subset_insertI] new [of "uri # added"] add t'(1) Cons.prems(3)
    by (auto simp: fun_eq_iff split: option.splits)
qed simp

lemma lookup_found: "trie_lookup (trieTree m) u = Some a \<Longrightarrow> FindServiceByUri m u = Ret (Some a)"
  by (auto simp: trie_lookup_def FindServiceByUri_def split: sum.splits option.splits)

lemma FindServiceByUri_table:
  "trie_ok (root (trieTree m)) \<Longrightarrow> uri_pattern_ok u \<Longrightarrow> trie_table (trieTree m) u = Some a \<Longrightarrow> FindServiceByUri m u = Ret (Some a)"
  by (rule lookup_found) (rule trie_router.lookup_table)

lemma registerService_ok:
  "registerService serverId clientId a m = (m', None) \<longleftrightarrow>
     \<not> (clientId \<noteq> serverId \<and> serviceCountByClientId m clientId \<ge> MaxServicePerClient) \<and>
     m' = m\<lparr>serviceMap := AList.update (svc_id (sm_service m a)) a (serviceMap m),
            trieTree := register_uris a (FullServiceUris (sm_service m a)) [] (trieTree m)\<rparr>"
  by (auto simp: registerService_def Let_def)

section \<open>Properties\<close>


definition sample_provider :: "string \<Rightarrow> RoleDescriptor" where
  "sample_provider i = \<lparr>rd_Id = i, rd_Description = [], rd_RoleType = [], rd_ExtraInfo = [], rd_Address = []\<rparr>"

text \<open>Two services: \<open>echo\<close> of alice, with its root path registered for two methods, and \<open>file\<close> of bob.\<close>

definition sample_services :: "nat \<Rightarrow> (nat, nat) IService" where
  "sample_services a =
     IRelay (sample_relay\<lparr>rs_service :=
       (if a = 0 then NewService ''hub'' 0 (\<lambda>_. sample_request) ''echo'' [] (sample_provider ''alice'') [[], []] ServiceTypeProxy 0 1
        else NewService ''hub'' 0 (\<lambda>_. sample_request) ''file'' [] (sample_provider ''bob'') [''/a'', ''/b/c''] ServiceTypeProxy 0 1)\<rparr>)"

definition sample_services_manager :: "(nat, nat) ServiceManagerModule" where
  "sample_services_manager = fst (registerService ''hub'' ''alice'' 0 (fst (registerService ''hub'' ''bob'' 1 (sm_Init sample_services))))"

lemma sample_services_reach: "sm_reach ''hub'' sample_services_manager"
proof -
  have svc: "sm_service (sm_Init sample_services) = (\<lambda>a. svc_base (sample_services a))"
    by (simp add: sm_service_def sm_Init_def fun_eq_iff)
  have kept: "sm_service (fst (registerService ''hub'' c a m)) = sm_service m" for c a and m :: "(nat, nat) ServiceManagerModule"
    by (simp add: registerService_def Let_def sm_service_def fun_eq_iff)
  show ?thesis unfolding sample_services_manager_def
    by (rule sm_reach.register, rule sm_reach.register, rule sm_reach.init)
      (simp_all add: kept svc sample_services_def NewService_def sample_provider_def)
qed


text \<open>
  C7. A service that is registered is found under each of its literal uris; the routes of the other
  services stay as they were.
\<close>

theorem registered_service_is_found:
  assumes "sm_reach serverId m" and "list_all uri_pattern_ok (FullServiceUris (sm_service m a))"
    and "registerService serverId clientId a m = (m', None)"
  shows "GetService m' (svc_id (sm_service m a)) = Some a \<and>
    (\<forall>u \<in> set (FullServiceUris (sm_service m a)). FindServiceByUri m' u = Ret (Some a)) \<and>
    trie_table (trieTree m') = (\<lambda>u. if u \<in> set (FullServiceUris (sm_service m a)) then Some a else trie_table (trieTree m) u)"
proof -
  have ok: "trie_ok (root (trieTree m))" using sm_reach_ok [OF assms(1)] by (simp add: sm_ok_def)
  have m': "trieTree m' = register_uris a (FullServiceUris (sm_service m a)) [] (trieTree m)"
    "serviceMap m' = AList.update (svc_id (sm_service m a)) a (serviceMap m)"
    using assms(3) by (auto simp: registerService_ok)
  have tab: "trie_table (trieTree m') = (\<lambda>u. if u \<in> set (FullServiceUris (sm_service m a)) then Some a else trie_table (trieTree m) u)"
    using register_uris_table [OF ok assms(2), of "[]" a] by (simp add: m')
  have "FindServiceByUri m' u = Ret (Some a)" if "u \<in> set (FullServiceUris (sm_service m a))" for u
    by (rule FindServiceByUri_table) (use that assms(2) tab ok in \<open>auto simp: list_all_iff m' register_uris_ok\<close>)
  then show ?thesis using tab by (simp add: GetService_def m')
qed

theorem registered_service_is_found_witness:
  "FindServiceByUri (fst (registerService ''hub'' ''bob'' 1 (sm_Init sample_services))) ''/file/b/c'' = Ret (Some 1)"
proof -
  let ?m = "sm_Init sample_services" and ?m' = "fst (registerService ''hub'' ''bob'' 1 (sm_Init sample_services))"
  have uris: "FullServiceUris (sm_service ?m 1) = [''/file/a'', ''/file/b/c'']" by code_simp
  have "list_all uri_pattern_ok [''/file/a'', ''/file/b/c'']" by code_simp
  moreover have "registerService ''hub'' ''bob'' 1 ?m = (?m', None)"
    by (simp add: registerService_def Let_def sm_Init_def serviceCountByClientId_def getServicesByClientId_def)
  ultimately show ?thesis using registered_service_is_found [OF sm_reach.init, of sample_services 1] uris by auto
qed



text \<open>
  A service that offers its root path for two methods has the same uri twice, and the second removal
  of that uri, finding no child for the last segment, removes the node above it: unregistering such a
  service takes the routes of every other service with it.
\<close>

theorem unregister_wipes_other_services:
  "FindServiceByUri sample_services_manager ''/file/a'' = Ret (Some 1) \<and>
   GetService (fst (unregisterService ''echo'' sample_services_manager)) ''file'' = Some 1 \<and>
   FindServiceByUri (fst (unregisterService ''echo'' sample_services_manager)) ''/file/a'' = Ret None"
  by code_simp

lemma update_uris_same:
  "distinct us \<Longrightarrow> update_uris a i us (map (\<lambda>u. ServicePrefix @ ''/'' @ i @ u) us) t = (t, [], None)"
proof (induction us)
  case (Cons u us)
  then have "removeAll (ServicePrefix @ ''/'' @ i @ u) (map (\<lambda>u. ServicePrefix @ ''/'' @ i @ u) us) =
      map (\<lambda>u. ServicePrefix @ ''/'' @ i @ u) us" by (auto intro!: removeAll_id)
  then show ?case using Cons by simp
qed simp

text \<open>
  \<open>UpdateService\<close> compares the uris of the descriptor with those of the service after it has already
  stored the former in the latter: for a descriptor whose status is not starting the service gets new
  uris and the routing table stays as it is, so new uris have no route and old routes remain.
\<close>

theorem UpdateService_keeps_routes:
  assumes "GetService m (sd_Id d) = Some a" and "sm_heap m a = IRelay r"
    and "uriPrefix (rs_service r) = ServicePrefix @ ''/'' @ sd_Id d" and "distinct (sd_ServiceUris d)"
    and "sd_Status d \<noteq> ServiceStatusStarting"
  shows "\<exists>m'. UpdateService host d m = Ret (m', None) \<and> trieTree m' = trieTree m \<and>
    serviceUris (sm_service m' a) = sd_ServiceUris d"
proof -
  let ?s = "relay_update d (rs_service r)"
  have "FullServiceUris ?s = map (\<lambda>u. ServicePrefix @ ''/'' @ sd_Id d @ u) (sd_ServiceUris d)"
    using assms(3) by (simp add: FullServiceUris_def relay_update_def)
  moreover have "inj (\<lambda>u. ServicePrefix @ ''/'' @ sd_Id d @ u)" by (auto intro: injI)
  then have "distinct (map (\<lambda>u. ServicePrefix @ ''/'' @ sd_Id d @ u) (sd_ServiceUris d))"
    using assms(4) by (simp add: distinct_map inj_on_def)
  ultimately have "remdups (FullServiceUris ?s) = map (\<lambda>u. ServicePrefix @ ''/'' @ sd_Id d @ u) (sd_ServiceUris d)"
    by (simp add: distinct_remdups_id)
  then show ?thesis using assms(1,2,5) update_uris_same [OF assms(4), of a "sd_Id d"]
    by (simp add: UpdateService_def relay_Update_eq Let_def sm_service_def) (simp add: relay_update_def)
qed

theorem UpdateService_keeps_routes_witness:
  "\<exists>m'. UpdateService (sample_provider ''hub'')
       (Describe (sample_provider ''hub'') (sm_service sample_services_manager 1)\<lparr>sd_ServiceUris := [''/new'']\<rparr>)
       sample_services_manager = Ret (m', None) \<and> trieTree m' = trieTree sample_services_manager \<and>
     serviceUris (sm_service m' 1) = [''/new'']"
proof -
  let ?m = sample_services_manager
  let ?d = "Describe (sample_provider ''hub'') (sm_service ?m 1)\<lparr>sd_ServiceUris := [''/new'']\<rparr>"
  have heap: "sm_heap ?m = sample_services"
    by (simp add: sample_services_manager_def registerService_def Let_def sm_Init_def)
  have "sd_Id ?d = ''file''" "sd_Status ?d = ServiceStatusIdle" "sd_ServiceUris ?d = [''/new'']"
    by (simp_all add: Describe_def sm_service_def heap sample_services_def NewService_def)
  moreover have "GetService ?m ''file'' = Some 1" by code_simp
  moreover obtain r where "sm_heap ?m 1 = IRelay r" "uriPrefix (rs_service r) = ServicePrefix @ ''/'' @ ''file''"
    by (simp add: heap sample_services_def NewService_def)
  ultimately show ?thesis using UpdateService_keeps_routes [of ?m ?d 1 r "sample_provider ''hub''"] by simp
qed

text \<open>
  \<open>UnregisterAllServices\<close>, which the server runs when it closes, calls a method on the \<open>nil\<close> error of
  the first service it stops: with any service registered it panics and every service stays registered.
\<close>

theorem UnregisterAllServices_panics:
  assumes "serviceMap m \<noteq> []"
  shows "snd (UnregisterAllServices m) = Panic \<and> serviceMap (fst (UnregisterAllServices m)) = serviceMap m"
  using assms by (auto simp: UnregisterAllServices_eq split: list.splits)

theorem UnregisterAllServices_panics_witness:
  "snd (UnregisterAllServices sample_services_manager) = Panic"
proof -
  have "map fst (serviceMap sample_services_manager) = [''file'', ''echo'']" by code_simp
  then show ?thesis using UnregisterAllServices_panics [of sample_services_manager] by auto
qed

end
