(* ===== verification/RedBlackTree.thy ===== *)
theory RedBlackTree
  imports Prelude
begin

text \<open>
  The red-black tree of \<open>src/common/data_structures/RedBlackTree.go\<close>.

  The nodes reachable from \<open>root\<close> are a value of \<open>rb\<close>. A pointer to a node inside the tree, from which
  the code climbs through \<open>Parent\<close>, is a focus: the subtree at the node together with the list of
  frames from its parent up to the root. \<open>up\<close> gives back the whole tree. Where the code would
  dereference a \<open>nil\<close> (a rotation without the child that moves up, a red root) the result is \<open>Panic\<close>.
  The comparison of keys, an interface in Go, is the parameter \<open>cmp\<close>.
\<close>

section \<open>Data\<close>

datatype color = red | black

datatype ('k, 'v) Node = NilNode | Node color "('k, 'v) Node" 'k 'v "('k, 'v) Node"

datatype ('k, 'v) frame =
    LeftOf color 'k 'v "('k, 'v) Node"
  | RightOf "('k, 'v) Node" color 'k 'v

fun plug :: "('k, 'v) frame \<Rightarrow> ('k, 'v) Node \<Rightarrow> ('k, 'v) Node" where
  "plug (LeftOf c k v r) t = Node c t k v r"
| "plug (RightOf l c k v) t = Node c l k v t"

primrec up :: "('k, 'v) frame list \<Rightarrow> ('k, 'v) Node \<Rightarrow> ('k, 'v) Node" where
  "up [] t = t"
| "up (f # fs) t = up fs (plug f t)"

fun nodeColor :: "('k, 'v) Node \<Rightarrow> color" where
  "nodeColor NilNode = black"
| "nodeColor (Node c l k v r) = c"

fun frame_color :: "('k, 'v) frame \<Rightarrow> color" where
  "frame_color (LeftOf c k v r) = c"
| "frame_color (RightOf l c k v) = c"

fun sibling :: "('k, 'v) frame \<Rightarrow> ('k, 'v) Node" where
  "sibling (LeftOf c k v r) = r"
| "sibling (RightOf l c k v) = l"

fun set_color :: "color \<Rightarrow> ('k, 'v) Node \<Rightarrow> ('k, 'v) Node" where
  "set_color c NilNode = NilNode"
| "set_color c (Node _ l k v r) = Node c l k v r"

fun set_frame_color :: "color \<Rightarrow> ('k, 'v) frame \<Rightarrow> ('k, 'v) frame" where
  "set_frame_color c (LeftOf _ k v r) = LeftOf c k v r"
| "set_frame_color c (RightOf l _ k v) = RightOf l c k v"

fun set_sibling :: "('k, 'v) Node \<Rightarrow> ('k, 'v) frame \<Rightarrow> ('k, 'v) frame" where
  "set_sibling s (LeftOf c k v _) = LeftOf c k v s"
| "set_sibling s (RightOf _ c k v) = RightOf s c k v"

section \<open>Rotations and insertion\<close>

fun rotateLeft :: "('k, 'v) Node \<Rightarrow> ('k, 'v) Node go" where
  "rotateLeft (Node c a k v (Node c2 b k2 v2 d)) = Ret (Node c2 (Node c a k v b) k2 v2 d)"
| "rotateLeft _ = Panic"

fun rotateRight :: "('k, 'v) Node \<Rightarrow> ('k, 'v) Node go" where
  "rotateRight (Node c (Node c2 a k2 v2 b) k v d) = Ret (Node c2 a k2 v2 (Node c b k v d))"
| "rotateRight _ = Panic"

text \<open>\<open>insertCase5\<close>: recolour parent and grandparent, then rotate the grandparent.\<close>

fun insertCase5 :: "('k, 'v) Node \<Rightarrow> ('k, 'v) frame list \<Rightarrow> ('k, 'v) Node go" where
  "insertCase5 t (p # g # fs) =
     (let gp = plug (set_frame_color red g) (plug (set_frame_color black p) t) in
      bind_go
        (case (p, g) of
           (LeftOf _ _ _ _, LeftOf _ _ _ _) \<Rightarrow> rotateRight gp
         | (RightOf _ _ _ _, RightOf _ _ _ _) \<Rightarrow> rotateLeft gp
         | _ \<Rightarrow> Ret gp)
        (\<lambda>gp'. Ret (up fs gp')))"
| "insertCase5 t _ = Panic"

text \<open>
  \<open>insertCase4\<close>: an inner grandchild is rotated to the outside; the focus moves to the old parent,
  which the rotation put below the node.
\<close>

fun insertCase4 :: "('k, 'v) Node \<Rightarrow> ('k, 'v) frame list \<Rightarrow> ('k, 'v) Node go" where
  "insertCase4 t (p # g # fs) =
     (case (p, g) of
        (RightOf _ _ _ _, LeftOf _ _ _ _) \<Rightarrow>
          bind_go (rotateLeft (plug p t)) (\<lambda>n. case n of
              Node c l k v r \<Rightarrow> insertCase5 l (LeftOf c k v r # g # fs)
            | NilNode \<Rightarrow> Panic)
      | (LeftOf _ _ _ _, RightOf _ _ _ _) \<Rightarrow>
          bind_go (rotateRight (plug p t)) (\<lambda>n. case n of
              Node c l k v r \<Rightarrow> insertCase5 r (RightOf l c k v # g # fs)
            | NilNode \<Rightarrow> Panic)
      | _ \<Rightarrow> insertCase5 t (p # g # fs))"
| "insertCase4 t _ = Panic"

function insertCase1 :: "('k, 'v) Node \<Rightarrow> ('k, 'v) frame list \<Rightarrow> ('k, 'v) Node go"
  and insertCase2 :: "('k, 'v) Node \<Rightarrow> ('k, 'v) frame list \<Rightarrow> ('k, 'v) Node go"
  and insertCase3 :: "('k, 'v) Node \<Rightarrow> ('k, 'v) frame list \<Rightarrow> ('k, 'v) Node go" where
  "insertCase1 t fs = (if fs = [] then Ret (set_color black t) else insertCase2 t fs)"
| "insertCase2 t fs =
     (case fs of
        [] \<Rightarrow> Ret t
      | p # _ \<Rightarrow> if frame_color p = black then Ret (up fs t) else insertCase3 t fs)"
| "insertCase3 t fs =
     (case fs of
        p # g # rest \<Rightarrow>
          (if nodeColor (sibling g) = red
           then insertCase1
                  (plug (set_frame_color red (set_sibling (set_color black (sibling g)) g))
                     (plug (set_frame_color black p) t)) rest
           else insertCase4 t fs)
      | _ \<Rightarrow> insertCase4 t fs)"
  by pat_completeness auto
termination
  by (relation "measure (\<lambda>a. case a of
        Inl (t, fs) \<Rightarrow> 3 * length fs + 2
      | Inr (Inl (t, fs)) \<Rightarrow> 3 * length fs + 1
      | Inr (Inr (t, fs)) \<Rightarrow> 3 * length fs)") (auto split: if_splits)

declare insertCase1.simps [simp del] insertCase2.simps [simp del] insertCase3.simps [simp del]

text \<open>The loop of \<open>Put\<close>: the focus descends; an equal key is overwritten in place.\<close>

fun put_loop :: "('k \<Rightarrow> 'k \<Rightarrow> int) \<Rightarrow> 'k \<Rightarrow> 'v \<Rightarrow> ('k, 'v) frame list \<Rightarrow> ('k, 'v) Node \<Rightarrow> ('k, 'v) Node go" where
  "put_loop cmp key val fs NilNode = insertCase1 (Node red NilNode key val NilNode) fs"
| "put_loop cmp key val fs (Node c l k v r) =
     (if cmp key k = 0 then Ret (up fs (Node c l key val r))
      else if cmp key k < 0 then put_loop cmp key val (LeftOf c k v r # fs) l
      else put_loop cmp key val (RightOf l c k v # fs) r)"

definition Put :: "('k \<Rightarrow> 'k \<Rightarrow> int) \<Rightarrow> ('k, 'v) Node \<Rightarrow> 'k \<Rightarrow> 'v \<Rightarrow> ('k, 'v) Node go" where
  "Put cmp root key val = put_loop cmp key val [] root"

definition PutKeyAsValue :: "('k \<Rightarrow> 'k \<Rightarrow> int) \<Rightarrow> ('k, 'k) Node \<Rightarrow> 'k \<Rightarrow> ('k, 'k) Node go" where
  "PutKeyAsValue cmp root n = Put cmp root n n"

section \<open>Lookup, traversal, ends\<close>

fun rb_lookup :: "('k \<Rightarrow> 'k \<Rightarrow> int) \<Rightarrow> ('k, 'v) Node \<Rightarrow> 'k \<Rightarrow> ('k \<times> 'v) option" where
  "rb_lookup cmp NilNode key = None"
| "rb_lookup cmp (Node c l k v r) key =
     (if cmp key k = 0 then Some (k, v)
      else if cmp key k < 0 then rb_lookup cmp l key else rb_lookup cmp r key)"

definition Get :: "('k \<Rightarrow> 'k \<Rightarrow> int) \<Rightarrow> ('k, 'v) Node \<Rightarrow> 'k \<Rightarrow> 'v option" where
  "Get cmp root key = map_option snd (rb_lookup cmp root key)"

definition Empty :: "('k, 'v) Node \<Rightarrow> bool" where
  "Empty root = (case root of NilNode \<Rightarrow> True | _ \<Rightarrow> False)"

text \<open>
  \<open>inOrderTraverse\<close>: the callback threads a state and may panic. When it answers false the traversal
  leaves the current node only: the callers further up go on.
\<close>

fun inOrderTraverse :: "('k \<Rightarrow> 'v \<Rightarrow> 's \<Rightarrow> (bool \<times> 's) go) \<Rightarrow> ('k, 'v) Node \<Rightarrow> 's \<Rightarrow> 's go" where
  "inOrderTraverse cb NilNode s = Panic"
| "inOrderTraverse cb (Node c l k v r) s =
     bind_go (if l = NilNode then Ret s else inOrderTraverse cb l s) (\<lambda>s1.
     bind_go (cb k v s1) (\<lambda>(continue, s2).
       if \<not> continue then Ret s2
       else if r = NilNode then Ret s2 else inOrderTraverse cb r s2))"

definition ForEach :: "('v \<Rightarrow> 's \<Rightarrow> (bool \<times> 's) go) \<Rightarrow> ('k, 'v) Node \<Rightarrow> 's \<Rightarrow> 's go" where
  "ForEach cb root s = inOrderTraverse (\<lambda>k v. cb v) root s"

text \<open>
  \<open>Clear\<close> cuts the links of a node before the traversal looks at its right child, so the right
  subtrees are not visited; the tree is empty afterwards, and an empty tree panics.
\<close>

definition Clear :: "('k, 'v) Node \<Rightarrow> ('k, 'v) Node go" where
  "Clear root = (case root of NilNode \<Rightarrow> Panic | _ \<Rightarrow> Ret NilNode)"

fun Left :: "('k, 'v) Node \<Rightarrow> ('k \<times> 'v) option" where
  "Left NilNode = None"
| "Left (Node c l k v r) = (case l of NilNode \<Rightarrow> Some (k, v) | _ \<Rightarrow> Left l)"

fun Right :: "('k, 'v) Node \<Rightarrow> ('k \<times> 'v) option" where
  "Right NilNode = None"
| "Right (Node c l k v r) = (case r of NilNode \<Rightarrow> Some (k, v) | _ \<Rightarrow> Right r)"

section \<open>Invariants and abstract views\<close>

fun inorder :: "('k, 'v) Node \<Rightarrow> ('k \<times> 'v) list" where
  "inorder NilNode = []"
| "inorder (Node c l k v r) = inorder l @ (k, v) # inorder r"

text \<open>The colour invariant and the black height of the leftmost path.\<close>

fun invc :: "('k, 'v) Node \<Rightarrow> bool" where
  "invc NilNode = True"
| "invc (Node c l k v r) \<longleftrightarrow>
     invc l \<and> invc r \<and> (c = red \<longrightarrow> nodeColor l = black \<and> nodeColor r = black)"

fun bheight :: "('k, 'v) Node \<Rightarrow> nat" where
  "bheight NilNode = 0"
| "bheight (Node c l k v r) = bheight l + (if c = black then 1 else 0)"

fun invh :: "('k, 'v) Node \<Rightarrow> bool" where
  "invh NilNode = True"
| "invh (Node c l k v r) \<longleftrightarrow> invh l \<and> invh r \<and> bheight l = bheight r"

definition rbt :: "('k, 'v) Node \<Rightarrow> bool" where
  "rbt t \<longleftrightarrow> invc t \<and> invh t \<and> nodeColor t = black"

text \<open>The abstract map: an association list ordered by \<open>cmp\<close>.\<close>

fun ins_list :: "('k \<Rightarrow> 'k \<Rightarrow> int) \<Rightarrow> 'k \<Rightarrow> 'v \<Rightarrow> ('k \<times> 'v) list \<Rightarrow> ('k \<times> 'v) list" where
  "ins_list cmp k v [] = [(k, v)]"
| "ins_list cmp k v ((k', v') # xs) =
     (if cmp k k' = 0 then (k, v) # xs
      else if cmp k k' < 0 then (k, v) # (k', v') # xs
      else (k', v') # ins_list cmp k v xs)"

fun find_list :: "('k \<Rightarrow> 'k \<Rightarrow> int) \<Rightarrow> 'k \<Rightarrow> ('k \<times> 'v) list \<Rightarrow> ('k \<times> 'v) option" where
  "find_list cmp k [] = None"
| "find_list cmp k ((k', v') # xs) = (if cmp k k' = 0 then Some (k', v') else find_list cmp k xs)"

definition sorted_keys :: "('k \<Rightarrow> 'k \<Rightarrow> int) \<Rightarrow> ('k \<times> 'v) list \<Rightarrow> bool" where
  "sorted_keys cmp xs \<longleftrightarrow> sorted_wrt (\<lambda>a b. cmp a b < 0) (map fst xs)"

fun size_rb :: "('k, 'v) Node \<Rightarrow> nat" where
  "size_rb NilNode = 0"
| "size_rb (Node c l k v r) = size_rb l + size_rb r + 1"

fun height_rb :: "('k, 'v) Node \<Rightarrow> nat" where
  "height_rb NilNode = 0"
| "height_rb (Node c l k v r) = max (height_rb l) (height_rb r) + 1"

end
