(* ===== verification/RedBlackTreeFacts.thy ===== *)
theory RedBlackTreeFacts
  imports RedBlackTree
begin

text \<open>
  Correctness of the red-black tree: insertion never panics on a red-black tree and keeps the colour
  and height invariants (so the height is logarithmic), and through the in-order list of its entries
  the tree implements an ordered association list. The order of keys is the locale \<open>comparator\<close>, the
  contract of the Go interface \<open>IComparable\<close>.
\<close>

section \<open>Structure: colours and heights\<close>

text \<open>Conditions on the frames above a focus whose subtree has black height \<open>n\<close>.\<close>

primrec ctx_h :: "('k, 'v) frame list \<Rightarrow> nat \<Rightarrow> bool" where
  "ctx_h [] n = True"
| "ctx_h (f # fs) n \<longleftrightarrow> invh (sibling f) \<and> bheight (sibling f) = n \<and>
     ctx_h fs (n + (if frame_color f = black then 1 else 0))"

primrec ctx_c :: "('k, 'v) frame list \<Rightarrow> bool" where
  "ctx_c [] = True"
| "ctx_c (f # fs) \<longleftrightarrow> invc (sibling f) \<and> ctx_c fs \<and>
     (frame_color f = red \<longrightarrow> nodeColor (sibling f) = black \<and> fs \<noteq> [] \<and> frame_color (hd fs) = black)"

lemma nodeColor_plug [simp]: "nodeColor (plug f t) = frame_color f"
  by (cases f) auto

lemma invc_plug: "invc (plug f t) \<longleftrightarrow> invc t \<and> invc (sibling f) \<and>
    (frame_color f = red \<longrightarrow> nodeColor t = black \<and> nodeColor (sibling f) = black)"
  by (cases f) auto

lemma invh_plug: "invh t \<Longrightarrow> bheight t = bheight (sibling f) \<Longrightarrow>
    invh (plug f t) = invh (sibling f) \<and>
    bheight (plug f t) = bheight t + (if frame_color f = black then 1 else 0)"
  by (cases f) auto

lemma frame_setters [simp]:
  "frame_color (set_frame_color c f) = c" "sibling (set_frame_color c f) = sibling f"
  "frame_color (set_sibling s f) = frame_color f" "sibling (set_sibling s f) = s"
  by (cases f; simp)+

lemma set_color_inv [simp]:
  "invh (set_color c t) = invh t" "invc t \<Longrightarrow> invc (set_color black t)"
  "inorder (set_color c t) = inorder t" "nodeColor (set_color black t) = black"
  by (cases t; simp)+

lemma bheight_blacken: "nodeColor t = red \<Longrightarrow> bheight (set_color black t) = Suc (bheight t)"
  by (cases t) auto

lemma up_rbt:
  assumes "invc t" and "invh t" and "ctx_h fs (bheight t)" and "ctx_c fs"
    and "nodeColor t = red \<longrightarrow> fs \<noteq> [] \<and> frame_color (hd fs) = black"
  shows "rbt (up fs t)"
  using assms
proof (induction fs arbitrary: t)
  case Nil
  then show ?case by (cases "nodeColor t") (auto simp: rbt_def)
next
  case (Cons f fs)
  have col: "frame_color f = red \<longrightarrow> nodeColor t = black"
    using Cons.prems by (cases "nodeColor t") auto
  have "rbt (up fs (plug f t))"
  proof (rule Cons.IH)
    show "invc (plug f t)" using Cons.prems col by (auto simp: invc_plug)
    show "invh (plug f t)" "ctx_h fs (bheight (plug f t))"
      using Cons.prems invh_plug [of t f] by auto
  qed (use Cons.prems in auto)
  then show ?case by simp
qed

section \<open>Insertion keeps a red-black tree\<close>

text \<open>The focus after an insertion step: a red node over black children.\<close>

definition red_focus :: "('k, 'v) Node \<Rightarrow> ('k, 'v) frame list \<Rightarrow> bool" where
  "red_focus t fs \<longleftrightarrow> nodeColor t = red \<and> invc t \<and> invh t \<and> ctx_h fs (bheight t) \<and> ctx_c fs"

lemma insertCase5_rbt:
  assumes "red_focus t (p # g # fs)" and "frame_color p = red" and "frame_color g = black"
    and "nodeColor (sibling g) = black"
    and "(case (p, g) of (LeftOf _ _ _ _, LeftOf _ _ _ _) \<Rightarrow> True
           | (RightOf _ _ _ _, RightOf _ _ _ _) \<Rightarrow> True | _ \<Rightarrow> False)"
  shows "\<exists>t'. insertCase5 t (p # g # fs) = Ret t' \<and> rbt t'"
  using assms
  by (cases p; cases g) (auto simp: red_focus_def intro!: up_rbt)

lemma insertCase4_rbt:
  assumes "red_focus t (p # g # fs)" and "frame_color p = red" and "frame_color g = black"
    and "nodeColor (sibling g) = black"
  shows "\<exists>t'. insertCase4 t (p # g # fs) = Ret t' \<and> rbt t'"
proof -
  obtain a k v b where t: "t = Node red a k v b"
    using assms(1) by (cases t) (auto simp: red_focus_def)
  show ?thesis
    using assms insertCase5_rbt [of t p g fs] insertCase5_rbt [of _ "LeftOf red k v b" g fs]
      insertCase5_rbt [of _ "RightOf a red k v" g fs]
    by (cases p; cases g) (auto simp: t red_focus_def simp del: insertCase5.simps)
qed

lemma insertCase_rbt:
  "red_focus t fs \<Longrightarrow> \<exists>t'. insertCase1 t fs = Ret t' \<and> rbt t'"
  "red_focus t fs \<Longrightarrow> fs \<noteq> [] \<Longrightarrow> \<exists>t'. insertCase2 t fs = Ret t' \<and> rbt t'"
  "red_focus t fs \<Longrightarrow> fs \<noteq> [] \<Longrightarrow> frame_color (hd fs) = red \<Longrightarrow> \<exists>t'. insertCase3 t fs = Ret t' \<and> rbt t'"
proof (induction t fs and t fs and t fs rule: insertCase1_insertCase2_insertCase3.induct)
  case (1 t fs)
  then show ?case
    by (subst insertCase1.simps) (auto simp: red_focus_def rbt_def)
next
  case (2 t fs)
  then obtain p rest where fs: "fs = p # rest" by (cases fs) auto
  show ?case
  proof (cases "frame_color p")
    case red
    then show ?thesis using 2 fs by (subst insertCase2.simps) auto
  next
    case black
    then have "rbt (up fs t)" using "2.prems" fs by (intro up_rbt) (auto simp: red_focus_def)
    then show ?thesis using black fs by (subst insertCase2.simps) auto
  qed
next
  case (3 t fs)
  then obtain p g rest where fs: "fs = p # g # rest"
    by (cases fs; cases "tl fs") (auto simp: red_focus_def)
  have g: "frame_color g = black" using "3.prems" fs by (auto simp: red_focus_def)
  show ?case
  proof (cases "nodeColor (sibling g)")
    case red
    let ?t' = "plug (set_frame_color red (set_sibling (set_color black (sibling g)) g))
                 (plug (set_frame_color black p) t)"
    have "red_focus ?t' rest"
      using "3.prems" g red fs
      by (auto simp: red_focus_def invc_plug invh_plug bheight_blacken)
    then show ?thesis using 3 fs red by (subst insertCase3.simps) auto
  next
    case black
    then show ?thesis using "3.prems" fs g insertCase4_rbt [of t p g rest]
      by (subst insertCase3.simps) auto
  qed
qed

lemma put_loop_rbt:
  assumes "invc t" and "invh t" and "ctx_h fs (bheight t)" and "ctx_c fs"
    and "nodeColor t = red \<longrightarrow> fs \<noteq> [] \<and> frame_color (hd fs) = black"
  shows "\<exists>t'. put_loop cmp key val fs t = Ret t' \<and> rbt t'"
  using assms
proof (induction t arbitrary: fs)
  case NilNode
  then show ?case by (simp add: insertCase_rbt(1) red_focus_def)
next
  case (Node c l k v r)
  have "rbt (up fs (Node c l key val r))" using Node.prems by (intro up_rbt) auto
  moreover have "\<exists>t'. put_loop cmp key val (LeftOf c k v r # fs) l = Ret t' \<and> rbt t'"
    using Node.prems by (intro Node.IH; cases c) auto
  moreover have "\<exists>t'. put_loop cmp key val (RightOf l c k v # fs) r = Ret t' \<and> rbt t'"
    using Node.prems by (intro Node.IH; cases c) auto
  ultimately show ?case by simp
qed

lemma bheight_size: "invh t \<Longrightarrow> 2 ^ bheight t \<le> size_rb t + 1"
  by (induction t) auto

lemma height_bheight:
  "invc t \<Longrightarrow> invh t \<Longrightarrow> height_rb t \<le> 2 * bheight t + (if nodeColor t = red then 1 else 0)"
proof (induction t)
  case (Node c l k v r)
  then show ?case
    by (cases c; cases "nodeColor l"; cases "nodeColor r") auto
qed simp

lemma height_logarithmic: "rbt t \<Longrightarrow> 2 ^ (height_rb t div 2) \<le> size_rb t + 1"
proof -
  assume t: "rbt t"
  then have "height_rb t div 2 \<le> bheight t"
    using height_bheight [of t] by (auto simp: rbt_def)
  then have "2 ^ (height_rb t div 2) \<le> (2::nat) ^ bheight t" by (intro power_increasing) auto
  also have "\<dots> \<le> size_rb t + 1" using t bheight_size [of t] by (simp add: rbt_def)
  finally show ?thesis .
qed

section \<open>Traversal\<close>

text \<open>A callback that never stops sees the entries in order.\<close>

lemma traverse_all:
  assumes "\<And>k v s. cb k v s = Ret (True, f k v s)" and "t \<noteq> NilNode"
  shows "inOrderTraverse cb t s = Ret (fold (\<lambda>(k, v). f k v) (inorder t) s)"
  using assms(2)
proof (induction t arbitrary: s)
  case (Node c l k v r)
  then show ?case by (auto simp: assms(1))
qed simp

text \<open>A callback that may panic but never stops visits the entries in order until it panics.\<close>

lemma traverse_go:
  assumes "\<And>k v s. cb k v s = bind_go (f (k, v) s) (\<lambda>s'. Ret (True, s'))" and "t \<noteq> NilNode"
  shows "inOrderTraverse cb t s = fold_go f (inorder t) s"
  using assms(2)
proof (induction t arbitrary: s)
  case (Node c l k v r)
  have l: "(if l = NilNode then Ret s else inOrderTraverse cb l s) = fold_go f (inorder l) s" for s
    using Node.IH(1) by auto
  have r: "(\<lambda>s. if r = NilNode then Ret s else inOrderTraverse cb r s) = fold_go f (inorder r)"
    using Node.IH(2) by auto
  show ?case
    by (simp only: inOrderTraverse.simps l) (simp add: assms(1) [of k v] fold_go_append fold_go_Cons bind_go_assoc r)
qed simp

text \<open>The same, where the callback goes on as long as the state satisfies an invariant.\<close>

lemma traverse_inv:
  assumes "\<And>k v s. P s \<Longrightarrow> cb k v s = bind_go (f (k, v) s) (\<lambda>s'. Ret (True, s'))"
    and "\<And>x s s'. P s \<Longrightarrow> f x s = Ret s' \<Longrightarrow> P s'" and "t \<noteq> NilNode" and "P s"
  shows "inOrderTraverse cb t s = fold_go f (inorder t) s"
proof -
  let ?cb = "\<lambda>k v s. bind_go (f (k, v) s) (\<lambda>s'. Ret (True, s'))"
  have inv: "fold_go f xs s = Ret s' \<Longrightarrow> P s \<Longrightarrow> P s'" for xs s s'
    by (induction xs arbitrary: s) (auto simp: bind_go_eq_Ret dest: assms(2))
  have all: "inOrderTraverse ?cb t s = fold_go f (inorder t) s" if "t \<noteq> NilNode" for t s
    by (rule traverse_go) (use that in simp_all)
  have "inOrderTraverse cb t s = inOrderTraverse ?cb t s" using assms(3,4)
  proof (induction t arbitrary: s)
    case (Node c l k v r)
    let ?l = "if l = NilNode then Ret s else inOrderTraverse ?cb l s"
    let ?rest = "\<lambda>cb'. \<lambda>s. bind_go (cb' k v s) (\<lambda>(b, s'). if \<not> b then Ret s' else
        if r = NilNode then Ret s' else inOrderTraverse cb' r s')"
    have "?rest cb s = ?rest ?cb s" if "P s" for s
      using assms(1) [OF that] assms(2) [OF that] Node.IH(2) by (cases "f (k, v) s") auto
    moreover have "?l = Ret s' \<Longrightarrow> P s'" for s'
      using Node.prems(2) all [of l s] inv [of "inorder l" s s'] by (auto split: if_splits)
    ultimately have "bind_go ?l (?rest cb) = bind_go ?l (?rest ?cb)" by (cases ?l) simp_all
    moreover have "(if l = NilNode then Ret s else inOrderTraverse cb l s) = ?l" using Node by simp
    ultimately show ?case by simp
  qed simp
  then show ?thesis using all [OF assms(3)] by simp
qed

lemma size_inorder: "size_rb t = length (inorder t)"
  by (induction t) auto

section \<open>Insertion keeps the order of entries\<close>

fun entries_before :: "('k, 'v) frame list \<Rightarrow> ('k \<times> 'v) list" where
  "entries_before [] = []"
| "entries_before (LeftOf c k v r # fs) = entries_before fs"
| "entries_before (RightOf l c k v # fs) = entries_before fs @ inorder l @ [(k, v)]"

fun entries_after :: "('k, 'v) frame list \<Rightarrow> ('k \<times> 'v) list" where
  "entries_after [] = []"
| "entries_after (LeftOf c k v r # fs) = (k, v) # inorder r @ entries_after fs"
| "entries_after (RightOf l c k v # fs) = entries_after fs"

lemma inorder_up: "inorder (up fs t) = entries_before fs @ inorder t @ entries_after fs"
proof (induction fs arbitrary: t)
  case (Cons f fs)
  then show ?case by (cases f) simp_all
qed simp

lemma entries_set_frame_color [simp]:
  "entries_before (set_frame_color c f # fs) = entries_before (f # fs)"
  "entries_after (set_frame_color c f # fs) = entries_after (f # fs)"
  "inorder s = inorder (sibling f) \<Longrightarrow> entries_before (set_sibling s f # fs) = entries_before (f # fs)"
  "inorder s = inorder (sibling f) \<Longrightarrow> entries_after (set_sibling s f # fs) = entries_after (f # fs)"
  by (cases f; simp)+

lemma inorder_plug_up: "inorder (up fs (plug f t)) = inorder (up (f # fs) t)"
  by simp

lemma rotate_inorder:
  "rotateLeft t = Ret t' \<Longrightarrow> inorder t' = inorder t"
  "rotateRight u = Ret u' \<Longrightarrow> inorder u' = inorder u"
  by (induction t rule: rotateLeft.induct; auto) (induction u rule: rotateRight.induct; auto)

lemma insertCase5_inorder: "insertCase5 t fs = Ret t' \<Longrightarrow> inorder t' = inorder (up fs t)"
proof (induction t fs rule: insertCase5.induct)
  case (1 t p g fs)
  then show ?case by (cases p; cases g) (auto simp: inorder_up)
qed auto

lemma insertCase4_inorder: "insertCase4 t fs = Ret t' \<Longrightarrow> inorder t' = inorder (up fs t)"
proof (induction t fs rule: insertCase4.induct)
  case (1 t p g fs)
  then show ?case
    by (cases p; cases g; cases t)
      (auto simp: inorder_up dest!: insertCase5_inorder simp del: insertCase5.simps)
qed auto

lemma insertCase_inorder:
  "insertCase1 t fs = Ret t' \<Longrightarrow> inorder t' = inorder (up fs t)"
  "insertCase2 t fs = Ret t' \<Longrightarrow> inorder t' = inorder (up fs t)"
  "insertCase3 t fs = Ret t' \<Longrightarrow> inorder t' = inorder (up fs t)"
proof (induction t fs and t fs and t fs rule: insertCase1_insertCase2_insertCase3.induct)
  case (1 t fs)
  then show ?case by (subst (asm) insertCase1.simps) (auto split: if_splits)
next
  case (2 t fs)
  then show ?case by (subst (asm) insertCase2.simps) (auto split: if_splits list.splits)
next
  case (3 t fs)
  show ?case
  proof (cases "\<exists>p g rest. fs = p # g # rest \<and> nodeColor (sibling g) = red")
    case True
    then obtain p g rest where fs: "fs = p # g # rest" "nodeColor (sibling g) = red" by blast
    then show ?thesis using 3 by (subst (asm) insertCase3.simps) (simp add: inorder_up flip: inorder_plug_up, cases p; cases g; simp)
  next
    case False
    then show ?thesis using "3.prems"
      by (subst (asm) insertCase3.simps)
        (auto split: list.splits if_splits dest: insertCase4_inorder simp del: insertCase4.simps)
  qed
qed

section \<open>Keys\<close>

locale comparator =
  fixes cmp :: "'k \<Rightarrow> 'k \<Rightarrow> int" and valid :: "'k \<Rightarrow> bool"
  assumes anti: "valid a \<Longrightarrow> valid b \<Longrightarrow> cmp a b < 0 \<longleftrightarrow> cmp b a > 0"
    and trans: "valid a \<Longrightarrow> valid b \<Longrightarrow> valid c \<Longrightarrow> cmp a b \<le> 0 \<Longrightarrow> cmp b c \<le> 0 \<Longrightarrow> cmp a c \<le> 0"
begin

lemma flip_eq: "valid a \<Longrightarrow> valid b \<Longrightarrow> cmp a b = 0 \<longleftrightarrow> cmp b a = 0"
  using anti [of a b] anti [of b a] by linarith

lemma less_le_trans: "valid a \<Longrightarrow> valid b \<Longrightarrow> valid c \<Longrightarrow> cmp a b < 0 \<Longrightarrow> cmp b c \<le> 0 \<Longrightarrow> cmp a c < 0"
  using anti [of a c] anti [of c a] anti [of a b] trans [of b c a] by linarith

lemma le_less_trans: "valid a \<Longrightarrow> valid b \<Longrightarrow> valid c \<Longrightarrow> cmp a b \<le> 0 \<Longrightarrow> cmp b c < 0 \<Longrightarrow> cmp a c < 0"
  using anti [of a c] anti [of c a] anti [of b c] trans [of c a b] by linarith

definition all_valid :: "('k \<times> 'v) list \<Rightarrow> bool" where
  "all_valid xs \<longleftrightarrow> list_all valid (map fst xs)"

lemma all_valid_simps [simp]:
  "all_valid []" "all_valid ((k, v) # xs) \<longleftrightarrow> valid k \<and> all_valid xs"
  "all_valid (xs @ ys) \<longleftrightarrow> all_valid xs \<and> all_valid ys"
  by (auto simp: all_valid_def)

lemma all_valid_mem: "all_valid xs \<Longrightarrow> x \<in> set xs \<Longrightarrow> valid (fst x)"
  by (auto simp: all_valid_def list_all_iff)

text \<open>A key that lies between two parts of the list is inserted between them.\<close>

lemma ins_list_after:
  "\<forall>x \<in> set xs. cmp k (fst x) > 0 \<Longrightarrow> ins_list cmp k v (xs @ ys) = xs @ ins_list cmp k v ys"
  by (induction xs) auto

lemma ins_list_before:
  "\<forall>x \<in> set ys. cmp k (fst x) < 0 \<Longrightarrow> ins_list cmp k v (xs @ ys) = ins_list cmp k v xs @ ys"
proof (induction xs)
  case Nil
  then show ?case by (cases ys) auto
qed auto

lemma find_list_skip:
  "\<forall>x \<in> set xs. cmp k (fst x) \<noteq> 0 \<Longrightarrow> find_list cmp k (xs @ ys) = find_list cmp k ys"
  "\<forall>x \<in> set ys. cmp k (fst x) \<noteq> 0 \<Longrightarrow> find_list cmp k (xs @ ys) = find_list cmp k xs"
proof -
  show "\<forall>x \<in> set xs. cmp k (fst x) \<noteq> 0 \<Longrightarrow> find_list cmp k (xs @ ys) = find_list cmp k ys"
    by (induction xs) auto
  have "\<forall>x \<in> set ys. cmp k (fst x) \<noteq> 0 \<Longrightarrow> find_list cmp k ys = None"
    by (induction ys) auto
  then show "\<forall>x \<in> set ys. cmp k (fst x) \<noteq> 0 \<Longrightarrow> find_list cmp k (xs @ ys) = find_list cmp k xs"
    by (induction xs) auto
qed

text \<open>In a sorted list, comparing with one entry decides the side on which a key belongs.\<close>

lemma sorted_split:
  assumes "sorted_keys cmp (xs @ (k', v') # ys)" and "all_valid (xs @ (k', v') # ys)" and "valid k"
  shows "cmp k k' < 0 \<Longrightarrow> \<forall>x \<in> set ((k', v') # ys). cmp k (fst x) < 0"
    and "cmp k k' > 0 \<Longrightarrow> \<forall>x \<in> set (xs @ [(k', v')]). cmp k (fst x) > 0"
    and "cmp k k' = 0 \<Longrightarrow> (\<forall>x \<in> set xs. cmp k (fst x) > 0) \<and> (\<forall>x \<in> set ys. cmp k (fst x) < 0)"
proof -
  have val: "valid k'" "\<And>x. x \<in> set xs \<union> set ys \<Longrightarrow> valid (fst x)"
    using assms(2) all_valid_mem by auto
  have ord: "\<And>x. x \<in> set xs \<Longrightarrow> cmp (fst x) k' < 0" "\<And>x. x \<in> set ys \<Longrightarrow> cmp k' (fst x) < 0"
    using assms(1) by (auto simp: sorted_keys_def sorted_wrt_append)
  show "cmp k k' < 0 \<Longrightarrow> \<forall>x \<in> set ((k', v') # ys). cmp k (fst x) < 0"
    using ord(2) val assms(3) less_le_trans [of k k'] by fastforce
  have "x \<in> set xs \<Longrightarrow> cmp k k' \<ge> 0 \<Longrightarrow> cmp k (fst x) > 0" for x
    using ord(1) [of x] val assms(3) less_le_trans [of "fst x" k' k] anti [of "fst x" k] anti [of k k'] anti [of k' k]
    by (cases "cmp k k' = 0") (auto simp: flip_eq [of k' k])
  then show "cmp k k' > 0 \<Longrightarrow> \<forall>x \<in> set (xs @ [(k', v')]). cmp k (fst x) > 0"
    and "cmp k k' = 0 \<Longrightarrow> (\<forall>x \<in> set xs. cmp k (fst x) > 0) \<and> (\<forall>x \<in> set ys. cmp k (fst x) < 0)"
    using ord(2) val assms(3) le_less_trans [of k k'] by fastforce+
qed

lemma lookup_find:
  assumes "sorted_keys cmp (inorder t)" and "all_valid (inorder t)" and "valid k"
  shows "rb_lookup cmp t k = find_list cmp k (inorder t)"
  using assms
proof (induction t)
  case (Node c l k' v' r)
  note sp = sorted_split [of "inorder l" k' v' "inorder r" k]
  have sub: "sorted_keys cmp (inorder l)" "sorted_keys cmp (inorder r)"
    using Node.prems(1) by (auto simp: sorted_keys_def sorted_wrt_append)
  consider "cmp k k' = 0" | "cmp k k' < 0" | "cmp k k' > 0" by linarith
  then show ?case
  proof cases
    case 1
    then have "\<forall>x \<in> set (inorder l). cmp k (fst x) \<noteq> 0" using sp(3) Node.prems by fastforce
    then show ?thesis using 1 by (simp add: find_list_skip)
  next
    case 2
    then have "\<forall>x \<in> set ((k', v') # inorder r). cmp k (fst x) \<noteq> 0" using sp(1) Node.prems by fastforce
    then show ?thesis using 2 Node sub by (simp add: find_list_skip del: find_list.simps)
  next
    case 3
    then have "\<forall>x \<in> set (inorder l). cmp k (fst x) \<noteq> 0" using sp(2) Node.prems by fastforce
    then show ?thesis using 3 Node sub by (simp add: find_list_skip)
  qed
qed simp

lemma put_loop_inorder:
  assumes "put_loop cmp k v fs t = Ret t'" and "sorted_keys cmp (inorder t)" and "all_valid (inorder t)"
    and "valid k" and "\<forall>x \<in> set (entries_before fs). cmp k (fst x) > 0"
    and "\<forall>x \<in> set (entries_after fs). cmp k (fst x) < 0"
  shows "inorder t' = entries_before fs @ ins_list cmp k v (inorder t) @ entries_after fs"
  using assms
proof (induction t arbitrary: fs)
  case NilNode
  then show ?case by (auto dest!: insertCase_inorder simp: inorder_up)
next
  case (Node c l k' v' r)
  note sp = sorted_split [of "inorder l" k' v' "inorder r" k]
  have sub: "sorted_keys cmp (inorder l)" "sorted_keys cmp (inorder r)"
    using Node.prems(2) by (auto simp: sorted_keys_def sorted_wrt_append)
  consider "cmp k k' = 0" | "cmp k k' < 0" | "cmp k k' > 0" by linarith
  then show ?case
  proof cases
    case 1
    then have "\<forall>x \<in> set (inorder l). cmp k (fst x) > 0" using sp(3) Node.prems by fastforce
    then show ?thesis using 1 Node.prems(1) by (auto simp: inorder_up ins_list_after)
  next
    case 2
    then have after: "\<forall>x \<in> set ((k', v') # inorder r). cmp k (fst x) < 0" using sp(1) Node.prems by fastforce
    have "inorder t' = entries_before fs @ ins_list cmp k v (inorder l) @ (k', v') # inorder r @ entries_after fs"
      using Node.IH(1) [of "LeftOf c k' v' r # fs"] 2 Node.prems sub after by fastforce
    then show ?thesis using ins_list_before [OF after] by simp
  next
    case 3
    then have before: "\<forall>x \<in> set (inorder l @ [(k', v')]). cmp k (fst x) > 0" using sp(2) Node.prems by fastforce
    have "inorder t' = entries_before fs @ inorder l @ (k', v') # ins_list cmp k v (inorder r) @ entries_after fs"
      using Node.IH(2) [of "RightOf l c k' v' # fs"] 3 Node.prems sub before by fastforce
    then show ?thesis using ins_list_after [OF before] by simp
  qed
qed

lemma set_ins_list: "set (ins_list cmp k v xs) \<subseteq> insert (k, v) (set xs)"
  by (induction xs) (auto split: if_splits)

lemma ins_list_sorted:
  assumes "sorted_keys cmp xs" and "all_valid xs" and "valid k"
  shows "sorted_keys cmp (ins_list cmp k v xs) \<and> all_valid (ins_list cmp k v xs)"
  using assms
proof (induction xs)
  case (Cons x xs)
  obtain k' v' where x: "x = (k', v')" by (cases x)
  note sp = sorted_split [of "[]" k' v' xs k, simplified]
  have lt: "\<forall>y \<in> set xs. cmp k' (fst y) < 0" and tl: "sorted_keys cmp xs" and val: "valid k'" "all_valid xs"
    using Cons.prems x by (auto simp: sorted_keys_def)
  consider "cmp k k' = 0" | "cmp k k' < 0" | "cmp k k' > 0" by linarith
  then show ?case
  proof cases
    case 1
    then show ?thesis using sp(3) Cons.prems x tl by (auto simp: sorted_keys_def)
  next
    case 2
    then show ?thesis using sp(1) Cons.prems x tl by (auto simp: sorted_keys_def)
  next
    case 3
    then have "cmp k' k < 0" using anti [of k' k] val Cons.prems by simp
    then have "\<forall>y \<in> set (ins_list cmp k v xs). cmp k' (fst y) < 0" using lt set_ins_list [of k v xs] by auto
    then show ?thesis using 3 x Cons.IH [OF tl val(2) assms(3)] val by (auto simp: sorted_keys_def)
  qed
qed (auto simp: sorted_keys_def)

lemma find_ins_list:
  assumes "sorted_keys cmp xs" and "all_valid xs" and "valid k" and "valid j"
  shows "find_list cmp j (ins_list cmp k v xs) = (if cmp j k = 0 then Some (k, v) else find_list cmp j xs)"
  using assms
proof (induction xs)
  case (Cons x xs)
  obtain k' v' where x: "x = (k', v')" by (cases x)
  have val: "valid k'" using Cons.prems x by simp
  have eq: "cmp k k' = 0 \<Longrightarrow> cmp j k = 0 \<longleftrightarrow> cmp j k' = 0"
    using trans [of j k k'] trans [of j k' k] trans [of k k' j] trans [of k' k j] Cons.prems(3,4) val
      flip_eq [of k k'] flip_eq [of j k] flip_eq [of j k'] anti [of j k] anti [of j k'] anti [of k j] anti [of k' j]
    by force
  have "cmp j k = 0 \<Longrightarrow> cmp j k' = 0 \<Longrightarrow> cmp k k' = 0"
    using trans [of k j k'] trans [of k' j k] Cons.prems(3,4) val flip_eq [of j k] flip_eq [of j k'] anti [of k k'] anti [of k' k]
    by force
  then show ?case using Cons x eq by (auto simp: sorted_keys_def)
qed simp

text \<open>The red-black tree implements the ordered association list.\<close>

definition tree_ok :: "('k, 'v) Node \<Rightarrow> bool" where
  "tree_ok t \<longleftrightarrow> rbt t \<and> sorted_keys cmp (inorder t) \<and> all_valid (inorder t)"

lemma Put_tree_ok:
  assumes "tree_ok t" and "valid k"
  shows "\<exists>t'. Put cmp t k v = Ret t' \<and> tree_ok t' \<and> inorder t' = ins_list cmp k v (inorder t)"
proof -
  obtain t' where t': "put_loop cmp k v [] t = Ret t'" "rbt t'"
    using put_loop_rbt [of t "[]" cmp k v] assms by (auto simp: tree_ok_def rbt_def)
  then have "inorder t' = ins_list cmp k v (inorder t)"
    using put_loop_inorder [OF t'(1)] assms by (simp add: tree_ok_def)
  then show ?thesis
    using t' assms ins_list_sorted [of "inorder t" k v] by (simp add: Put_def tree_ok_def)
qed

lemma tree_ok_empty [simp]: "tree_ok NilNode"
  by (simp add: tree_ok_def rbt_def sorted_keys_def)

lemma Get_find: "tree_ok t \<Longrightarrow> valid k \<Longrightarrow> Get cmp t k = map_option snd (find_list cmp k (inorder t))"
  by (simp add: Get_def tree_ok_def lookup_find)

lemma Get_Put:
  assumes "tree_ok t" and "valid k" and "valid j" and "Put cmp t k v = Ret t'"
  shows "Get cmp t' j = (if cmp j k = 0 then Some v else Get cmp t j)"
proof -
  have "tree_ok t'" "inorder t' = ins_list cmp k v (inorder t)"
    using Put_tree_ok [OF assms(1,2), of v] assms(4) by auto
  then show ?thesis
    using assms find_ins_list [of "inorder t" k j v] by (auto simp: Get_find tree_ok_def)
qed

end

section \<open>Properties\<close>

text \<open>Insertion of a list of entries, one after the other.\<close>

definition put_all :: "('k \<Rightarrow> 'k \<Rightarrow> int) \<Rightarrow> ('k \<times> 'v) list \<Rightarrow> ('k, 'v) Node \<Rightarrow> ('k, 'v) Node go" where
  "put_all cmp kvs t = fold_go (\<lambda>(k, v) t. Put cmp t k v) kvs t"

context comparator
begin

lemma put_all_ok:
  assumes "tree_ok t" and "list_all valid (map fst kvs)"
  shows "\<exists>t'. put_all cmp kvs t = Ret t' \<and> tree_ok t' \<and>
     (\<forall>j. valid j \<longrightarrow> Get cmp t' j =
       (case find (\<lambda>(k, v). cmp j k = 0) (rev kvs) of Some (k, v) \<Rightarrow> Some v | None \<Rightarrow> Get cmp t j))"
  using assms
proof (induction kvs arbitrary: t)
  case (Cons kv kvs)
  obtain k v where kv: "kv = (k, v)" by (cases kv)
  obtain t1 where t1: "Put cmp t k v = Ret t1" "tree_ok t1"
    using Put_tree_ok [OF Cons.prems(1)] Cons.prems(2) kv by fastforce
  obtain t' where t': "put_all cmp kvs t1 = Ret t'" "tree_ok t'"
    "\<forall>j. valid j \<longrightarrow> Get cmp t' j =
       (case find (\<lambda>(k, v). cmp j k = 0) (rev kvs) of Some (k, v) \<Rightarrow> Some v | None \<Rightarrow> Get cmp t1 j)"
    using Cons.IH [OF t1(2)] Cons.prems(2) by auto
  have app: "find P (xs @ ys) = (case find P xs of None \<Rightarrow> find P ys | Some x \<Rightarrow> Some x)" for P and xs ys :: "('k \<times> 'v) list"
    by (induction xs) auto
  have "Get cmp t1 j = (if cmp j k = 0 then Some v else Get cmp t j)" if "valid j" for j
    using Get_Put [OF Cons.prems(1) _ that t1(1)] Cons.prems(2) kv by simp
  then show ?case
    using t' t1 kv by (auto simp: put_all_def app split: option.splits)
qed (simp add: put_all_def)

end

text \<open>
  \<open>ForEach\<close> and \<open>Clear\<close> dereference the root: on an empty tree they panic. A callback that answers
  false stops only the walk below its own node; the nodes above are still visited.
\<close>

theorem ForEach_quirks:
  "ForEach cb NilNode s = Panic \<and> Clear NilNode = Panic \<and>
   ForEach (\<lambda>v seen. Ret (v \<noteq> (1::int), seen @ [v])) (Node black (Node red NilNode 1 1 NilNode) (2::int) 2 NilNode) [] =
     Ret [1, 2]"
  by (simp add: ForEach_def Clear_def)

end
