(* ===== verification/Throttle.thy ===== *)
theory Throttle
  imports Prelude
begin

text \<open>
  Request throttling: \<open>src/hub_common/throttling/ThrottleController.go\<close> and
  \<open>src/hub_server/modules/throttle/RequestThrottleModule.go\<close>. Times and durations are nanoseconds
  (\<open>int\<close>); every reading of \<open>time.Now()\<close> is an argument. The record that \<open>Hit\<close> returns is a copy of
  the stored one, and its error is the number of hits over the limit that the text reports.
\<close>

definition minute :: int where "minute = 60 * 10 ^ 9"

record ThrottleRecord =
  tr_Id :: string
  WindowExpiration :: int
  WindowDuration :: int
  HitsUnderWindow :: int
  Limit :: int

definition NewThrottleRecord :: "int \<Rightarrow> string \<Rightarrow> int \<Rightarrow> int \<Rightarrow> ThrottleRecord" where
  "NewThrottleRecord now i limit duration =
     \<lparr>tr_Id = i, WindowExpiration = now + duration, WindowDuration = duration, HitsUnderWindow = 1, Limit = limit\<rparr>"

definition resetThrottleWindowBy :: "ThrottleRecord \<Rightarrow> int \<Rightarrow> ThrottleRecord" where
  "resetThrottleWindowBy r windowBegin =
     (let r = r\<lparr>WindowExpiration := windowBegin + WindowDuration r\<rparr>;
          r = (if HitsUnderWindow r > Limit r
               then let r = r\<lparr>HitsUnderWindow := HitsUnderWindow r - Limit r\<rparr>;
                        exceededHits = HitsUnderWindow r - Limit r
                    in r\<lparr>WindowExpiration := WindowExpiration r + minute * exceededHits\<rparr>
               else r)
      in r\<lparr>HitsUnderWindow := 0\<rparr>)"

definition record_Hit :: "int \<Rightarrow> ThrottleRecord \<Rightarrow> ThrottleRecord \<times> int option" where
  "record_Hit now r =
     (let r = (if WindowExpiration r < now then resetThrottleWindowBy r now else r);
          r = r\<lparr>HitsUnderWindow := HitsUnderWindow r + 1\<rparr>
      in (r, if HitsUnderWindow r \<ge> Limit r then Some (HitsUnderWindow r - Limit r) else None))"

type_synonym ThrottleController = "(string \<times> ThrottleRecord) list"

definition createOrLoadRecord :: "ThrottleController \<Rightarrow> int \<Rightarrow> string \<Rightarrow> int \<Rightarrow> int \<Rightarrow>
    ThrottleController \<times> ThrottleRecord" where
  "createOrLoadRecord c now i limit duration =
     (case map_of c i of
        Some r \<Rightarrow> (c, r)
      | None \<Rightarrow> (let r = NewThrottleRecord now i limit duration in (AList.update i r c, r)))"

text \<open>\<open>Hit\<close> reads the clock twice: when a record is created and when it is hit.\<close>

definition controller_Hit :: "ThrottleController \<Rightarrow> int \<Rightarrow> int \<Rightarrow> string \<Rightarrow> int \<Rightarrow> int \<Rightarrow>
    ThrottleController \<times> ThrottleRecord \<times> int option" where
  "controller_Hit c now1 now2 i limit duration =
     (let (c, r) = createOrLoadRecord c now1 i limit duration; (r', err) = record_Hit now2 r
      in (AList.update i r' c, r', err))"

definition throttle_cleanJob :: "int \<Rightarrow> ThrottleController \<Rightarrow> ThrottleController" where
  "throttle_cleanJob now c = filter (\<lambda>(k, r). \<not> now > WindowExpiration r) c"

definition throttle_Clear :: "ThrottleController \<Rightarrow> ThrottleController" where
  "throttle_Clear c = []"

record ThrottleGroup =
  ThrottleLevel :: nat
  tg_WindowDuration :: int
  tg_Limit :: int

definition DefaultThrottleGroup :: ThrottleGroup where
  "DefaultThrottleGroup = \<lparr>ThrottleLevel = 1, tg_WindowDuration = minute, tg_Limit = 150\<rparr>"

text \<open>\<open>initGlobalVariables\<close>, for the window (in seconds) and the limit of the configuration.\<close>

definition AddressThrottleGroup :: "int \<Rightarrow> int \<Rightarrow> ThrottleGroup" where
  "AddressThrottleGroup addressWindow addressLimit =
     \<lparr>ThrottleLevel = 3,
      tg_WindowDuration = (if addressWindow > 0 \<and> addressWindow < 600 then addressWindow * 10 ^ 9 else minute),
      tg_Limit = (if addressLimit > 0 \<and> addressLimit < 500 then addressLimit else 300)\<rparr>"

definition assembleThrottleId :: "nat \<Rightarrow> string \<Rightarrow> string" where
  "assembleThrottleId level i = sprintf_d (int level) @ ''-'' @ i"

definition module_Hit :: "ThrottleController \<Rightarrow> int \<Rightarrow> int \<Rightarrow> ThrottleGroup \<Rightarrow> string \<Rightarrow>
    ThrottleController \<times> ThrottleRecord \<times> int option" where
  "module_Hit c now1 now2 g i =
     controller_Hit c now1 now2 (assembleThrottleId (ThrottleLevel g) i) (tg_Limit g) (tg_WindowDuration g)"

section \<open>Runs of hits\<close>

text \<open>The answers to a sequence of hits on one record.\<close>

fun hits :: "int list \<Rightarrow> ThrottleRecord \<Rightarrow> ThrottleRecord \<times> int option list" where
  "hits [] r = (r, [])"
| "hits (t # ts) r =
     (let (r', e) = record_Hit t r; (r'', es) = hits ts r' in (r'', e # es))"

lemma record_Hit_in_window:
  "\<not> WindowExpiration r < t \<Longrightarrow>
   record_Hit t r = (r\<lparr>HitsUnderWindow := HitsUnderWindow r + 1\<rparr>,
     if HitsUnderWindow r + 1 \<ge> Limit r then Some (HitsUnderWindow r + 1 - Limit r) else None)"
  by (simp add: record_Hit_def Let_def)

lemma hits_in_window:
  assumes "\<forall>t \<in> set ts. t \<le> WindowExpiration r"
  shows "HitsUnderWindow (fst (hits ts r)) = HitsUnderWindow r + int (length ts) \<and>
    snd (hits ts r) = map (\<lambda>i. let h = HitsUnderWindow r + 1 + int i in if h \<ge> Limit r then Some (h - Limit r) else None)
      [0..<length ts]"
  using assms
proof (induction ts arbitrary: r)
  case (Cons t ts)
  let ?r' = "r\<lparr>HitsUnderWindow := HitsUnderWindow r + 1\<rparr>"
  have "[0..<length (t # ts)] = 0 # map Suc [0..<length ts]"
    by (simp add: upt_conv_Cons map_Suc_upt del: upt_Suc)
  then show ?case
    using Cons.IH [of ?r'] Cons.prems record_Hit_in_window [of r t]
    by (auto simp: case_prod_beta Let_def comp_def algebra_simps simp del: upt_Suc)
qed simp

definition accepted :: "int option list \<Rightarrow> nat" where
  "accepted es = length (filter (\<lambda>e. e = None) es)"

lemma accepted_count:
  "accepted (map (\<lambda>i. let h = b + int i in if h \<ge> l then Some (h - l) else None) [0..<n]) = min n (nat (l - b))"
proof -
  have "accepted (map (\<lambda>i. let h = b + int i in if h \<ge> l then Some (h - l) else None) [0..<n]) =
      length (filter (\<lambda>i. int i < l - b) [0..<n])"
    by (simp add: accepted_def filter_map comp_def Let_def if_distrib [of "\<lambda>e. e = None"] not_le
        less_diff_eq add.commute cong: if_cong)
  also have "\<dots> = card {i. i < n \<and> int i < l - b}"
    by (simp add: distinct_length_filter [of "[0..<n]"] Int_def conj_commute)
  also have "{i. i < n \<and> int i < l - b} = {..<min n (nat (l - b))}" by auto
  finally show ?thesis by simp
qed

section \<open>Properties\<close>

text \<open>
  C38. Within one window the controller accepts at most \<open>Limit - 1\<close> requests: of a run of hits on a
  record none of which is later than the expiration of the window, exactly those are accepted that
  keep the count below the limit, and the count is exact.
\<close>

theorem throttle_window_limit:
  assumes "\<forall>t \<in> set ts. t \<le> WindowExpiration r"
  shows "accepted (snd (hits ts r)) = min (length ts) (nat (Limit r - 1 - HitsUnderWindow r)) \<and>
    HitsUnderWindow (fst (hits ts r)) = HitsUnderWindow r + int (length ts)"
  using hits_in_window [OF assms] accepted_count [of "HitsUnderWindow r + 1" "Limit r" "length ts"]
  by (simp add: diff_diff_eq)

theorem throttle_window_limit_witness:
  "accepted (snd (hits [1, 2, 3, 4, 5] (NewThrottleRecord 0 ''a'' 4 10))) = 2"
proof -
  have "\<forall>t \<in> set [1, 2, 3, 4, 5]. t \<le> WindowExpiration (NewThrottleRecord 0 ''a'' 4 10)"
    by (simp add: NewThrottleRecord_def)
  from throttle_window_limit [OF this] show ?thesis by (simp add: NewThrottleRecord_def del: hits.simps)
qed

text \<open>
  The penalty for exceeding the limit is computed by subtracting the limit twice: after a window
  with more hits than the limit and fewer than twice the limit, the new window is shortened by one
  minute for each hit missing to twice the limit, instead of being prolonged.
\<close>

theorem throttle_penalty_shortens_window:
  assumes "WindowExpiration r < now" and "Limit r < HitsUnderWindow r" and "HitsUnderWindow r < 2 * Limit r"
  shows "WindowExpiration (fst (record_Hit now r)) =
      now + WindowDuration r - minute * (2 * Limit r - HitsUnderWindow r) \<and>
    WindowExpiration (fst (record_Hit now r)) < now + WindowDuration r"
  using assms
  by (simp add: record_Hit_def resetThrottleWindowBy_def Let_def minute_def algebra_simps)

theorem throttle_penalty_shortens_window_witness:
  "WindowExpiration (fst (record_Hit (2 * minute)
     \<lparr>tr_Id = ''a'', WindowExpiration = minute, WindowDuration = minute, HitsUnderWindow = 5, Limit = 4\<rparr>)) = 0"
proof -
  let ?r = "\<lparr>tr_Id = ''a'', WindowExpiration = minute, WindowDuration = minute, HitsUnderWindow = 5, Limit = 4\<rparr>"
  show ?thesis using throttle_penalty_shortens_window [of ?r "2 * minute"] by (simp add: minute_def)
qed

text \<open>
  A hit concerns one record only: the controller keeps one record per id, the other records
  stay as they are, and the answer is that of the stored record (or of a new one).
\<close>

theorem controller_Hit_frame:
  "fst (snd (controller_Hit c now1 now2 i limit duration)) =
     fst (record_Hit now2 (case map_of c i of Some r \<Rightarrow> r | None \<Rightarrow> NewThrottleRecord now1 i limit duration)) \<and>
   map_of (fst (controller_Hit c now1 now2 i limit duration)) =
     (map_of c)(i \<mapsto> fst (snd (controller_Hit c now1 now2 i limit duration)))"
  by (auto simp: controller_Hit_def createOrLoadRecord_def case_prod_beta Let_def split: option.splits)

end
