(* ===== verification/BlockList.thy ===== *)
theory BlockList
  imports Prelude
begin

text \<open>
  The block list of addresses: \<open>BlockListStore.go\<close> and \<open>BlockListModule.go\<close> of
  \<open>src/hub_server/modules/blocklist\<close>. A record is its expiration time in nanoseconds; every reading
  of the clock is an argument.
\<close>

type_synonym InMemoryBlockListStore = "(string \<times> int) list"

definition DefaultBlockListTtl :: int where "DefaultBlockListTtl = 3600 * 10 ^ 9"

definition store_Delete :: "InMemoryBlockListStore \<Rightarrow> string \<Rightarrow> InMemoryBlockListStore \<times> string option" where
  "store_Delete s i =
     (if map_of s i = None then (s, Some ''record does not exist'') else (AList.delete i s, None))"

definition store_Add :: "InMemoryBlockListStore \<Rightarrow> int \<Rightarrow> string \<Rightarrow> int \<Rightarrow> InMemoryBlockListStore \<times> bool" where
  "store_Add s now record ttl =
     (case map_of s record of
        Some expireAt \<Rightarrow>
          (if expireAt > now then (s, True) else (AList.update record (now + ttl) (AList.delete record s), True))
      | None \<Rightarrow> (AList.update record (now + ttl) s, False))"

definition store_Has :: "InMemoryBlockListStore \<Rightarrow> int \<Rightarrow> string \<Rightarrow> InMemoryBlockListStore \<times> bool" where
  "store_Has s now i =
     (case map_of s i of
        None \<Rightarrow> (s, False)
      | Some expireAt \<Rightarrow> if expireAt < now then (fst (store_Delete s i), False) else (s, True))"

text \<open>\<open>cleanJob\<close> collects the records whose expiration lies after now and deletes them.\<close>

definition cleanJob :: "InMemoryBlockListStore \<Rightarrow> int \<Rightarrow> InMemoryBlockListStore" where
  "cleanJob s now =
     fold (\<lambda>i s. fst (store_Delete s i)) (map fst (filter (\<lambda>(k, expireAt). expireAt > now) s)) s"

definition module_Add :: "InMemoryBlockListStore \<Rightarrow> int \<Rightarrow> string \<Rightarrow> int \<Rightarrow> InMemoryBlockListStore" where
  "module_Add s now record ttl = fst (store_Add s now record ttl)"

definition DemoteByAddr :: "InMemoryBlockListStore \<Rightarrow> int \<Rightarrow> string \<Rightarrow> InMemoryBlockListStore" where
  "DemoteByAddr s now addr = module_Add s now addr DefaultBlockListTtl"

definition module_Remove :: "InMemoryBlockListStore \<Rightarrow> string \<Rightarrow> InMemoryBlockListStore \<times> string option" where
  "module_Remove s record = store_Delete s record"

lemma store_Has_iff: "snd (store_Has s now i) \<longleftrightarrow> (\<exists>e. map_of s i = Some e \<and> now \<le> e)"
  by (auto simp: store_Has_def split: option.splits)

lemma map_of_store_Delete [simp]: "map_of (fst (store_Delete s i)) = (map_of s)(i := None)"
  by (auto simp: store_Delete_def)

lemma map_of_fold_Delete:
  "map_of (fold (\<lambda>i s. fst (store_Delete s i)) is s) = (\<lambda>j. if j \<in> set is then None else map_of s j)"
  by (induction "is" arbitrary: s) (auto simp: fun_eq_iff)

lemma map_of_cleanJob:
  assumes "distinct (map fst s)"
  shows "map_of (cleanJob s now) i = (case map_of s i of Some e \<Rightarrow> if e > now then None else Some e | None \<Rightarrow> None)"
proof -
  have "i \<in> fst ` {x \<in> set s. case x of (k, e) \<Rightarrow> now < e} \<longleftrightarrow> (\<exists>e. map_of s i = Some e \<and> now < e)"
    using assms by (force simp: image_iff)
  then show ?thesis
    by (auto simp: cleanJob_def map_of_fold_Delete split: option.splits)
qed

text \<open>
  An address that is added is reported as blocked until its time has passed: adding an
  address that is not blocked blocks it for the given time, adding one that is blocked keeps its
  expiration, and no other address is affected.
\<close>

theorem blocklist_Add_Has:
  "snd (store_Has (fst (store_Add s now a ttl)) t b) \<longleftrightarrow>
     (if b = a then
        (case map_of s a of Some e \<Rightarrow> if e > now then t \<le> e else t \<le> now + ttl | None \<Rightarrow> t \<le> now + ttl)
      else snd (store_Has s t b))"
  by (auto simp: store_Has_iff store_Add_def split: option.splits)

text \<open>
  The periodic clean job of the block list deletes the records that have not expired and keeps
  the expired ones: after it has run, no address is blocked any more.
\<close>

theorem cleanJob_unblocks_everyone:
  assumes "distinct (map fst s)" and "now < t"
  shows "\<not> snd (store_Has (cleanJob s now) t a)"
  using assms by (auto simp: store_Has_iff map_of_cleanJob split: option.splits if_splits)

theorem cleanJob_unblocks_everyone_witness:
  "snd (store_Has (DemoteByAddr [] 0 ''10.0.0.1'') 6 ''10.0.0.1'') \<and>
   \<not> snd (store_Has (cleanJob (DemoteByAddr [] 0 ''10.0.0.1'') 5) 6 ''10.0.0.1'')"
proof
  show "snd (store_Has (DemoteByAddr [] 0 ''10.0.0.1'') 6 ''10.0.0.1'')" by code_simp
  have "distinct (map fst (DemoteByAddr [] 0 ''10.0.0.1''))" by code_simp
  then show "\<not> snd (store_Has (cleanJob (DemoteByAddr [] 0 ''10.0.0.1'') 5) 6 ''10.0.0.1'')"
    using cleanJob_unblocks_everyone by simp
qed

end
