(* ===== verification/Connections.thy ===== *)
theory Connections
  imports Prelude
begin

text \<open>
  Connections and their owners: \<open>Set.go\<close> of \<open>src/common/data_structures\<close>, the life cycle of
  \<open>src/websocket/connection/Connection.go\<close>, and \<open>ConnectionStore.go\<close>, \<open>ActiveClientStore.go\<close>,
  \<open>ConnectionManagerModule.go\<close> of \<open>src/hub_server/modules/connection_manager\<close>.

  A \<open>Set\<close> is the list of its members. Connection objects live in a heap, because the stores and the
  callbacks share them. A close callback is data: no callback, the one of \<open>acceptConnection\<close>, or the
  one that \<open>RegisterClientToConnection\<close> installs for a client; \<open>OnClose\<close> overwrites the previous one. The
  network connection below is the parameter \<open>neterr\<close>, the error of closing it. Events are appended to a log.
\<close>

section \<open>Set.go\<close>

type_synonym 'a Set = "'a list"

definition Set_Add :: "'a Set \<Rightarrow> 'a \<Rightarrow> 'a Set \<times> bool" where
  "Set_Add s x = (if x \<in> set s then (s, False) else (s @ [x], True))"

definition Set_Delete :: "'a Set \<Rightarrow> 'a \<Rightarrow> 'a Set \<times> bool" where
  "Set_Delete s x = (if x \<in> set s then (removeAll x s, True) else (s, False))"

definition Set_Clear :: "'a Set \<Rightarrow> 'a Set" where
  "Set_Clear s = []"

definition Set_GetAll :: "'a Set \<Rightarrow> 'a list" where
  "Set_GetAll s = s"

definition Set_Size :: "'a Set \<Rightarrow> nat" where
  "Set_Size s = length s"

section \<open>Connection objects\<close>

definition StateIdle :: int where [simp]: "StateIdle = 0"
definition StateReading :: int where [simp]: "StateReading = 1"
definition StateStopping :: int where [simp]: "StateStopping = 2"
definition StateStopped :: int where [simp]: "StateStopped = 3"
definition StateClosing :: int where [simp]: "StateClosing = 4"
definition StateDisconnected :: int where [simp]: "StateDisconnected = 5"

datatype close_cb = NoCallback | OnManager | OnClient string

record WsConnection =
  w_addr :: string
  w_type :: nat
  w_state :: int
  w_onClose :: close_cb
  w_closeChannel :: nat

definition NewWsConnection :: "string \<Rightarrow> nat \<Rightarrow> WsConnection" where
  "NewWsConnection addr ty =
     \<lparr>w_addr = addr, w_type = ty, w_state = StateIdle, w_onClose = NoCallback, w_closeChannel = 1\<rparr>"

definition setState :: "int \<Rightarrow> WsConnection \<Rightarrow> WsConnection" where
  "setState st c = (if st < 0 \<or> st > StateDisconnected then c else c\<lparr>w_state := st\<rparr>)"

definition IsLive :: "WsConnection \<Rightarrow> bool" where
  "IsLive c \<longleftrightarrow> w_state c = StateReading"

text \<open>The two ends of \<open>ReadLoop\<close>: entering it from the idle state, and leaving it after a read error.\<close>

definition ReadLoop_enter :: "WsConnection \<Rightarrow> WsConnection" where
  "ReadLoop_enter c = (if w_state c > StateIdle then c else setState StateReading c)"

definition ReadLoop_exit :: "WsConnection \<Rightarrow> WsConnection" where
  "ReadLoop_exit c = setState StateStopped c"

section \<open>Stores\<close>

type_synonym ActiveClientStore = "(string \<times> string Set) list"

definition getOrCreateAndAdd :: "ActiveClientStore \<Rightarrow> string \<Rightarrow> string \<Rightarrow> ActiveClientStore \<times> bool" where
  "getOrCreateAndAdd s clientId addr =
     (let st = (case map_of s clientId of None \<Rightarrow> [] | Some st \<Rightarrow> st); (st', ok) = Set_Add st addr
      in (AList.update clientId st' s, ok))"

definition active_Add :: "ActiveClientStore \<Rightarrow> string \<Rightarrow> string \<Rightarrow> ActiveClientStore \<times> string option" where
  "active_Add s clientId addr =
     (let (s', ok) = getOrCreateAndAdd s clientId addr in
      (s', if ok then None
           else Some (''connection '' @ addr @ '' has already been registered as client '' @ clientId)))"

definition active_Has :: "ActiveClientStore \<Rightarrow> string \<Rightarrow> bool" where
  "active_Has s clientId \<longleftrightarrow> map_of s clientId \<noteq> None"

definition active_Get :: "ActiveClientStore \<Rightarrow> string \<Rightarrow> string list" where
  "active_Get s clientId = (case map_of s clientId of None \<Rightarrow> [] | Some st \<Rightarrow> Set_GetAll st)"

definition active_Delete :: "ActiveClientStore \<Rightarrow> string \<Rightarrow> string \<Rightarrow> ActiveClientStore \<times> string option" where
  "active_Delete s clientId addr =
     (case map_of s clientId of
        None \<Rightarrow> (s, Some (''client '' @ clientId @ '' does not have connection yet''))
      | Some st \<Rightarrow>
          (let (st', ok) = Set_Delete st addr in
           if \<not> ok then (s, Some (''client '' @ clientId @ '' does not have connection '' @ addr @ '' registered''))
           else if Set_Size st' = 0 then (AList.delete clientId s, None)
           else (AList.update clientId st' s, None)))"

definition active_DeleteAll :: "ActiveClientStore \<Rightarrow> string \<Rightarrow> ActiveClientStore \<times> string option" where
  "active_DeleteAll s clientId =
     (case map_of s clientId of
        None \<Rightarrow> (s, Some (''client '' @ clientId @ '' does not have connection yet''))
      | Some st \<Rightarrow> (AList.delete clientId s, None))"

text \<open>\<open>InMemoryConnectionStore\<close>: addresses to connection objects.\<close>

type_synonym ConnectionStore = "(string \<times> nat) list"

definition conn_Get :: "ConnectionStore \<Rightarrow> string \<Rightarrow> nat option" where
  "conn_Get s addr = map_of s addr"

definition conn_Has :: "ConnectionStore \<Rightarrow> string \<Rightarrow> bool" where
  "conn_Has s addr \<longleftrightarrow> conn_Get s addr \<noteq> None"

definition conn_Add :: "ConnectionStore \<Rightarrow> string \<Rightarrow> nat \<Rightarrow> ConnectionStore \<times> string option" where
  "conn_Add s addr c =
     (if conn_Has s addr then (s, Some (''connection '' @ addr @ '' already exists''))
      else (AList.update addr c s, None))"

definition conn_Delete :: "ConnectionStore \<Rightarrow> string \<Rightarrow> ConnectionStore \<times> string option" where
  "conn_Delete s addr =
     (if \<not> conn_Has s addr then (s, Some (''connection from '' @ addr @ '' does not exist''))
      else (AList.delete addr s, None))"

definition conn_GetAll :: "ConnectionStore \<Rightarrow> nat list" where
  "conn_GetAll s = map snd s"

section \<open>ConnectionManagerModule\<close>

record ConnectionManagerModule =
  heap :: "nat \<Rightarrow> WsConnection"
  connStore :: ConnectionStore
  activeClientStore :: ActiveClientStore
  event_log :: "(string \<times> string) list"

definition NewConnectionManager :: "(nat \<Rightarrow> WsConnection) \<Rightarrow> ConnectionManagerModule" where
  "NewConnectionManager h = \<lparr>heap = h, connStore = [], activeClientStore = [], event_log = []\<rparr>"

definition EmitEvent :: "string \<Rightarrow> string \<Rightarrow> ConnectionManagerModule \<Rightarrow> ConnectionManagerModule" where
  "EmitEvent e arg m = m\<lparr>event_log := event_log m @ [(e, arg)]\<rparr>"

definition OnClose :: "nat \<Rightarrow> close_cb \<Rightarrow> ConnectionManagerModule \<Rightarrow> ConnectionManagerModule" where
  "OnClose c cb m = m\<lparr>heap := (heap m)(c := (heap m c)\<lparr>w_onClose := cb\<rparr>)\<rparr>"

definition AddConnection :: "nat \<Rightarrow> ConnectionManagerModule \<Rightarrow> ConnectionManagerModule \<times> string option" where
  "AddConnection c m =
     (let (s, err) = conn_Add (connStore m) (w_addr (heap m c)) c in
      if err \<noteq> None then (m, err) else (OnClose c OnManager (m\<lparr>connStore := s\<rparr>), None))"

definition handleConnectionClosed :: "nat \<Rightarrow> ConnectionManagerModule \<Rightarrow> ConnectionManagerModule" where
  "handleConnectionClosed c m = m\<lparr>connStore := fst (conn_Delete (connStore m) (w_addr (heap m c)))\<rparr>"

definition handleClientConnectionClosed :: "string \<Rightarrow> ConnectionManagerModule \<Rightarrow> ConnectionManagerModule" where
  "handleClientConnectionClosed clientId m =
     (if active_Get (activeClientStore m) clientId = [] then EmitEvent ''EClientConnectionGone'' clientId m else m)"

fun run_close_cb :: "close_cb \<Rightarrow> nat \<Rightarrow> ConnectionManagerModule \<Rightarrow> ConnectionManagerModule" where
  "run_close_cb NoCallback c m = m"
| "run_close_cb OnManager c m = handleConnectionClosed c m"
| "run_close_cb (OnClient clientId) c m =
     (let m = handleConnectionClosed c m;
          m = m\<lparr>activeClientStore := fst (active_Delete (activeClientStore m) clientId (w_addr (heap m c)))\<rparr>;
          m = EmitEvent ''EClientConnectionClosed'' clientId m
      in handleClientConnectionClosed clientId m)"

text \<open>
  \<open>Close\<close> of a connection. The outcome is \<open>None\<close> when the final receive from \<open>closeChannel\<close> blocks, and
  otherwise the error that is returned.
\<close>

definition set_conn_state :: "nat \<Rightarrow> int \<Rightarrow> ConnectionManagerModule \<Rightarrow> ConnectionManagerModule" where
  "set_conn_state c st m = m\<lparr>heap := (heap m)(c := setState st (heap m c))\<rparr>"

definition Close :: "string option \<Rightarrow> nat \<Rightarrow> ConnectionManagerModule \<Rightarrow>
    ConnectionManagerModule \<times> string option option" where
  "Close neterr c m =
     (if w_state (heap m c) \<ge> StateClosing then (m, Some (Some ''err: closing a closing connection''))
      else
        (let m = set_conn_state c StateClosing m;
             m = run_close_cb (w_onClose (heap m c)) c m;
             m = set_conn_state c StateDisconnected m
         in if w_closeChannel (heap m c) = 0 then (m, None)
            else (m\<lparr>heap := (heap m)(c := (heap m c)\<lparr>w_closeChannel := w_closeChannel (heap m c) - 1\<rparr>)\<rparr>, Some neterr)))"

definition handleConnectionError :: "string option \<Rightarrow> nat \<Rightarrow> ConnectionManagerModule \<Rightarrow> ConnectionManagerModule" where
  "handleConnectionError neterr c m = fst (Close neterr c m)"

definition handleClientDowngrade :: "string \<Rightarrow> ConnectionManagerModule \<Rightarrow> ConnectionManagerModule" where
  "handleClientDowngrade clientId m =
     m\<lparr>activeClientStore := fst (active_DeleteAll (activeClientStore m) clientId)\<rparr>"

definition Disconnect :: "string option \<Rightarrow> string \<Rightarrow> ConnectionManagerModule \<Rightarrow>
    ConnectionManagerModule \<times> string option option" where
  "Disconnect neterr addr m =
     (case conn_Get (connStore m) addr of
        None \<Rightarrow> (m, Some (Some (''can not find connection by address '' @ addr)))
      | Some c \<Rightarrow> Close neterr c m)"

fun close_all :: "(nat \<Rightarrow> string option) \<Rightarrow> nat list \<Rightarrow> string option \<Rightarrow> ConnectionManagerModule \<Rightarrow>
    ConnectionManagerModule \<times> string option option" where
  "close_all neterr [] err m = (m, Some err)"
| "close_all neterr (c # cs) err m =
     (case Close (neterr c) c m of
        (m', None) \<Rightarrow> (m', None)
      | (m', Some None) \<Rightarrow> close_all neterr cs err m'
      | (m', Some (Some e)) \<Rightarrow> close_all neterr cs (Some e) m')"

definition DisconnectAllConnections :: "(nat \<Rightarrow> string option) \<Rightarrow> ConnectionManagerModule \<Rightarrow>
    ConnectionManagerModule \<times> string option option" where
  "DisconnectAllConnections neterr m = close_all neterr (conn_GetAll (connStore m)) None m"

definition GetConnectionByAddress :: "ConnectionManagerModule \<Rightarrow> string \<Rightarrow> nat option" where
  "GetConnectionByAddress m addr = conn_Get (connStore m) addr"

text \<open>An element \<open>None\<close> of the result is a \<open>nil\<close> connection: an address that is not in the store.\<close>

definition GetConnectionsByClientId :: "ConnectionManagerModule \<Rightarrow> string \<Rightarrow> nat option list" where
  "GetConnectionsByClientId m clientId =
     map (conn_Get (connStore m)) (active_Get (activeClientStore m) clientId)"

definition RegisterClientToConnection :: "string \<Rightarrow> string \<Rightarrow> ConnectionManagerModule \<Rightarrow>
    ConnectionManagerModule \<times> string option" where
  "RegisterClientToConnection clientId addr m =
     (case conn_Get (connStore m) addr of
        None \<Rightarrow> (m, Some (''can not find connection by address '' @ addr))
      | Some c \<Rightarrow>
          (let (s, err) = active_Add (activeClientStore m) clientId addr; m = m\<lparr>activeClientStore := s\<rparr> in
           if err \<noteq> None then (m, err)
           else (EmitEvent ''EClientConnectionEstablished'' clientId (OnClose c (OnClient clientId) m), None)))"

definition WithAllConnections :: "ConnectionManagerModule \<Rightarrow> (nat \<Rightarrow> 's \<Rightarrow> 's) \<Rightarrow> 's \<Rightarrow> 's" where
  "WithAllConnections m cb s = fold cb (conn_GetAll (connStore m)) s"

end
