(* ===== verification/ConnectionFacts.thy ===== *)
theory ConnectionFacts
  imports Connections
begin

text \<open>
  The connection manager keeps its two stores consistent: as long as every connection is registered
  for one client at most, each address a client owns is that of a stored, open connection whose close
  callback will take it away again.
\<close>

section \<open>Stores\<close>

lemma active_Get_update: "active_Get (AList.update c st s) d = (if d = c then st else active_Get s d)"
  by (simp add: active_Get_def Set_GetAll_def)

lemma active_Get_delete: "active_Get (AList.delete c s) d = (if d = c then [] else active_Get s d)"
  by (simp add: active_Get_def)

lemma active_Get_Add:
  "active_Get (fst (active_Add s c a)) d =
     (if d = c \<and> a \<notin> set (active_Get s c) then active_Get s c @ [a] else active_Get s d)"
  "snd (active_Add s c a) = None \<longleftrightarrow> a \<notin> set (active_Get s c)"
  by (auto simp: active_Add_def getOrCreateAndAdd_def Set_Add_def active_Get_def Set_GetAll_def Let_def
      split: option.splits)

lemma active_Get_Delete:
  "active_Get (fst (active_Delete s c a)) d = (if d = c then removeAll a (active_Get s c) else active_Get s d)"
  by (auto simp: active_Delete_def Set_Delete_def Set_Size_def active_Get_def Set_GetAll_def Let_def
      split: option.splits)

lemma active_Get_DeleteAll:
  "active_Get (fst (active_DeleteAll s c)) d = (if d = c then [] else active_Get s d)"
  by (auto simp: active_DeleteAll_def active_Get_def split: option.splits)

lemma conn_Delete_map [simp]: "map_of (fst (conn_Delete s a)) = (map_of s)(a := None)"
  by (auto simp: conn_Delete_def conn_Has_def conn_Get_def)

section \<open>The invariant\<close>

definition cm_ok :: "ConnectionManagerModule \<Rightarrow> bool" where
  "cm_ok m \<longleftrightarrow>
     (\<forall>a c. map_of (connStore m) a = Some c \<longrightarrow>
        w_addr (heap m c) = a \<and> w_state (heap m c) < StateClosing \<and> w_onClose (heap m c) \<noteq> NoCallback) \<and>
     (\<forall>cid a. a \<in> set (active_Get (activeClientStore m) cid) \<longrightarrow>
        (\<exists>c. map_of (connStore m) a = Some c \<and> w_onClose (heap m c) = OnClient cid))"

lemma cm_okD:
  "cm_ok m \<Longrightarrow> map_of (connStore m) a = Some c \<Longrightarrow>
     w_addr (heap m c) = a \<and> w_state (heap m c) < StateClosing \<and> w_onClose (heap m c) \<noteq> NoCallback"
  "cm_ok m \<Longrightarrow> a \<in> set (active_Get (activeClientStore m) cid) \<Longrightarrow>
     \<exists>c. map_of (connStore m) a = Some c \<and> w_onClose (heap m c) = OnClient cid"
  by (auto simp: cm_ok_def)

lemma run_close_cb_heap [simp]: "heap (run_close_cb cb c m) = heap m"
  by (cases cb) (simp_all add: Let_def handleConnectionClosed_def handleClientConnectionClosed_def EmitEvent_def)

lemma run_close_cb_stores:
  "connStore (run_close_cb cb c m) =
     (if cb = NoCallback then connStore m else fst (conn_Delete (connStore m) (w_addr (heap m c))))"
  "activeClientStore (run_close_cb cb c m) =
     (case cb of OnClient cid \<Rightarrow> fst (active_Delete (activeClientStore m) cid (w_addr (heap m c)))
      | _ \<Rightarrow> activeClientStore m)"
  by (cases cb; simp add: Let_def handleConnectionClosed_def handleClientConnectionClosed_def EmitEvent_def)+

declare run_close_cb.simps [simp del]

lemma Close_open:
  assumes "w_state (heap m c) < StateClosing"
  shows "connStore (fst (Close e c m)) = connStore (run_close_cb (w_onClose (heap m c)) c m)"
    and "activeClientStore (fst (Close e c m)) = activeClientStore (run_close_cb (w_onClose (heap m c)) c m)"
    and "d \<noteq> c \<Longrightarrow> heap (fst (Close e c m)) d = heap m d"
    and "w_addr (heap (fst (Close e c m)) c) = w_addr (heap m c)"
    and "w_state (heap (fst (Close e c m)) c) = StateDisconnected"
    and "w_closeChannel (heap (fst (Close e c m)) c) = w_closeChannel (heap m c) - 1"
    and "snd (Close e c m) = (if w_closeChannel (heap m c) = 0 then None else Some e)"
  using assms
  by (auto simp: Close_def Let_def set_conn_state_def setState_def run_close_cb_stores split: close_cb.splits)

lemma Close_ok:
  assumes "cm_ok m" and "map_of (connStore m) a = Some c"
  shows "cm_ok (fst (Close e c m))"
proof -
  have c: "w_addr (heap m c) = a" "w_state (heap m c) < StateClosing" "w_onClose (heap m c) \<noteq> NoCallback"
    using cm_okD(1) [OF assms] by auto
  have other: "b \<noteq> a \<Longrightarrow> map_of (connStore m) b = Some d \<Longrightarrow> d \<noteq> c" for b d
    using cm_okD(1) [OF assms(1), of b d] c(1) by auto
  let ?m = "fst (Close e c m)"
  have store: "map_of (connStore ?m) = (map_of (connStore m))(a := None)"
    using c by (simp add: Close_open run_close_cb_stores)
  have owned: "b \<in> set (active_Get (activeClientStore ?m) cid) \<Longrightarrow>
      b \<noteq> a \<and> b \<in> set (active_Get (activeClientStore m) cid)" for b cid
    using c cm_okD(2) [OF assms(1), of b cid] assms(2)
    by (cases "w_onClose (heap m c)")
      (auto simp: Close_open run_close_cb_stores active_Get_Delete split: if_splits)
  show ?thesis unfolding cm_ok_def
  proof (intro conjI allI impI)
    fix b d assume "map_of (connStore ?m) b = Some d"
    then have b: "b \<noteq> a" "map_of (connStore m) b = Some d" using store by (auto split: if_splits)
    then show "w_addr (heap ?m d) = b" "w_state (heap ?m d) < StateClosing" "w_onClose (heap ?m d) \<noteq> NoCallback"
      using other [OF b] cm_okD(1) [OF assms(1) b(2)] Close_open(3) [OF c(2), of d e] by auto
  next
    fix cid b assume "b \<in> set (active_Get (activeClientStore ?m) cid)"
    then have b: "b \<noteq> a" "b \<in> set (active_Get (activeClientStore m) cid)" using owned by blast+
    then obtain d where d: "map_of (connStore m) b = Some d" "w_onClose (heap m d) = OnClient cid"
      using cm_okD(2) [OF assms(1)] by blast
    then show "\<exists>d. map_of (connStore ?m) b = Some d \<and> w_onClose (heap ?m d) = OnClient cid"
      using b store other [OF b(1) d(1)] Close_open(3) [OF c(2), of d e] by auto
  qed
qed

lemma AddConnection_ok:
  assumes "cm_ok m" and "w_state (heap m c) < StateClosing"
  shows "cm_ok (fst (AddConnection c m))"
proof (cases "conn_Has (connStore m) (w_addr (heap m c))")
  case False
  then have none: "map_of (connStore m) (w_addr (heap m c)) = None" by (simp add: conn_Has_def conn_Get_def)
  have other: "map_of (connStore m) b = Some d \<Longrightarrow> d \<noteq> c" for b d
    using cm_okD(1) [OF assms(1), of b d] none by auto
  show ?thesis
    using False assms none other cm_okD [OF assms(1)]
    by (fastforce simp: AddConnection_def conn_Add_def OnClose_def cm_ok_def Let_def)
qed (simp add: AddConnection_def conn_Add_def assms)

lemma RegisterClient_ok:
  assumes "cm_ok m" and "\<And>cid'. addr \<in> set (active_Get (activeClientStore m) cid') \<Longrightarrow> cid' = cid"
  shows "cm_ok (fst (RegisterClientToConnection cid addr m))"
proof (cases "map_of (connStore m) addr")
  case (Some c)
  let ?s = "fst (active_Add (activeClientStore m) cid addr)"
  have c: "w_addr (heap m c) = addr" using cm_okD(1) [OF assms(1) Some] by simp
  show ?thesis
  proof (cases "addr \<in> set (active_Get (activeClientStore m) cid)")
    case True
    then have "fst (RegisterClientToConnection cid addr m) = m\<lparr>activeClientStore := ?s\<rparr>"
      using Some active_Get_Add(2) [of "activeClientStore m" cid addr]
      by (auto simp: RegisterClientToConnection_def conn_Get_def Let_def case_prod_beta)
    then show ?thesis using assms(1) True by (auto simp: cm_ok_def active_Get_Add)
  next
    case False
    let ?h = "(heap m)(c := (heap m c)\<lparr>w_onClose := OnClient cid\<rparr>)"
    have reg: "fst (RegisterClientToConnection cid addr m) =
        EmitEvent ''EClientConnectionEstablished'' cid (m\<lparr>activeClientStore := ?s, heap := ?h\<rparr>)"
      using Some False active_Get_Add(2) [of "activeClientStore m" cid addr]
      by (simp add: RegisterClientToConnection_def conn_Get_def Let_def case_prod_beta OnClose_def)
    have owned: "\<exists>d. map_of (connStore m) b = Some d \<and> w_onClose (?h d) = OnClient cid'"
      if mem: "b \<in> set (active_Get ?s cid')" for b cid'
    proof (cases "b = addr")
      case True
      then have "cid' = cid" using mem assms(2) by (auto simp: active_Get_Add split: if_splits)
      then show ?thesis using True Some by simp
    next
      case False
      then obtain d where "map_of (connStore m) b = Some d" "w_onClose (heap m d) = OnClient cid'"
        using mem cm_okD(2) [OF assms(1)] by (auto simp: active_Get_Add split: if_splits)
      moreover from this have "d \<noteq> c" using cm_okD(1) [OF assms(1), of b d] c False by auto
      ultimately show ?thesis by simp
    qed
    show ?thesis unfolding reg
      using assms(1) owned by (auto simp: cm_ok_def EmitEvent_def)
  qed
qed (simp add: RegisterClientToConnection_def conn_Get_def assms)

text \<open>
  The runs of the module. A new connection has not been closed; a connection is registered for a
  second client only if it is the same one.
\<close>

inductive cm_reach :: "ConnectionManagerModule \<Rightarrow> bool" where
  init: "cm_reach (NewConnectionManager h)"
| add: "cm_reach m \<Longrightarrow> w_state (heap m c) < StateClosing \<Longrightarrow> cm_reach (fst (AddConnection c m))"
| register: "cm_reach m \<Longrightarrow> (\<And>cid'. addr \<in> set (active_Get (activeClientStore m) cid') \<Longrightarrow> cid' = cid) \<Longrightarrow>
    cm_reach (fst (RegisterClientToConnection cid addr m))"
| read: "cm_reach m \<Longrightarrow> cm_reach (m\<lparr>heap := (heap m)(c := ReadLoop_enter (heap m c))\<rparr>)"
| close: "cm_reach m \<Longrightarrow> map_of (connStore m) a = Some c \<Longrightarrow> cm_reach (fst (Close e c m))"
| downgrade: "cm_reach m \<Longrightarrow> cm_reach (handleClientDowngrade cid m)"

lemma cm_reach_ok: "cm_reach m \<Longrightarrow> cm_ok m"
proof (induction rule: cm_reach.induct)
  case (init h)
  then show ?case by (simp add: cm_ok_def NewConnectionManager_def active_Get_def)
next
  case (read m c)
  then show ?case
    by (fastforce simp: cm_ok_def ReadLoop_enter_def setState_def)
next
  case (downgrade m cid)
  then show ?case
    by (auto simp: cm_ok_def handleClientDowngrade_def active_Get_DeleteAll split: if_splits)
qed (simp_all add: AddConnection_ok RegisterClient_ok Close_ok)

section \<open>Properties\<close>


definition sample_heap :: "nat \<Rightarrow> WsConnection" where
  "sample_heap c = NewWsConnection (if c = 0 then ''1.1.1.1:5'' else ''2.2.2.2:6'') 1"

definition sample_manager :: ConnectionManagerModule where
  "sample_manager = fst (RegisterClientToConnection ''alice'' ''1.1.1.1:5''
     (fst (AddConnection 0 (NewConnectionManager sample_heap))))"

lemma sample_manager_reach: "cm_reach sample_manager"
  unfolding sample_manager_def
proof (rule cm_reach.register)
  show "cm_reach (fst (AddConnection 0 (NewConnectionManager sample_heap)))"
    by (rule cm_reach.add [OF cm_reach.init]) (simp add: NewConnectionManager_def sample_heap_def NewWsConnection_def)
qed (simp add: AddConnection_def conn_Add_def conn_Has_def conn_Get_def NewConnectionManager_def OnClose_def
    active_Get_def Let_def)


text \<open>
  Closing an open connection takes it out of the connection store and out of the addresses of
  the client it was registered for, reports the closing for that client, and reports the client as gone
  exactly when this was its last connection.
\<close>

theorem Close_cleans_up:
  assumes "cm_reach m" and "map_of (connStore m) a = Some c" and "w_onClose (heap m c) = OnClient cid"
  shows "map_of (connStore (fst (Close e c m))) = (map_of (connStore m))(a := None) \<and>
    active_Get (activeClientStore (fst (Close e c m))) cid = removeAll a (active_Get (activeClientStore m) cid) \<and>
    event_log (fst (Close e c m)) = event_log m @ [(''EClientConnectionClosed'', cid)] @
      (if removeAll a (active_Get (activeClientStore m) cid) = [] then [(''EClientConnectionGone'', cid)] else [])"
proof -
  have c: "w_addr (heap m c) = a" "w_state (heap m c) < StateClosing"
    using cm_okD(1) [OF cm_reach_ok [OF assms(1)] assms(2)] by auto
  have "active_Get (fst (active_Delete (activeClientStore m) cid a)) cid = removeAll a (active_Get (activeClientStore m) cid)"
    by (simp add: active_Get_Delete)
  then have "event_log (fst (Close e c m)) = event_log m @ [(''EClientConnectionClosed'', cid)] @
      (if removeAll a (active_Get (activeClientStore m) cid) = [] then [(''EClientConnectionGone'', cid)] else [])"
    using c assms(3)
    by (auto simp: Close_def Let_def set_conn_state_def setState_def run_close_cb.simps handleConnectionClosed_def
        handleClientConnectionClosed_def EmitEvent_def)
  then show ?thesis
    using c assms(3) by (simp add: Close_open run_close_cb_stores active_Get_Delete)
qed

theorem Close_cleans_up_witness:
  "event_log (fst (Close None 0 sample_manager)) =
     [(''EClientConnectionEstablished'', ''alice''), (''EClientConnectionClosed'', ''alice''),
      (''EClientConnectionGone'', ''alice'')]"
proof -
  have "map_of (connStore sample_manager) ''1.1.1.1:5'' = Some 0" by code_simp
  moreover have "w_onClose (heap sample_manager 0) = OnClient ''alice''" by code_simp
  moreover have "event_log sample_manager = [(''EClientConnectionEstablished'', ''alice'')]" by code_simp
  moreover have "removeAll ''1.1.1.1:5'' (active_Get (activeClientStore sample_manager) ''alice'') = []" by code_simp
  ultimately show ?thesis using Close_cleans_up [OF sample_manager_reach] by simp
qed

text \<open>
  A second client on the same connection overwrites the close callback of the first: after the
  connection is closed, the first client still owns its address and the lookup yields \<open>nil\<close>.
\<close>

theorem second_registration_leaks:
  "GetConnectionsByClientId
     (fst (Close None 0 (fst (RegisterClientToConnection ''bob'' ''1.1.1.1:5'' sample_manager)))) ''alice'' = [None]"
  by code_simp

text \<open>
  The read loop ends by setting the state of a closed connection back to stopped, so a second
  \<open>Close\<close> passes its guard, runs the close callback again and then blocks for ever on the empty channel.
\<close>

theorem second_Close_blocks:
  assumes "w_state (heap m c) < StateClosing" and "w_closeChannel (heap m c) = 1"
    and "m' = fst (Close e c m)"
  shows "snd (Close e c m) = Some e \<and>
    snd (Close e' c (m'\<lparr>heap := (heap m')(c := ReadLoop_exit (heap m' c))\<rparr>)) = None"
proof
  show "snd (Close e c m) = Some e" using assms by (simp add: Close_open)
  let ?m = "m'\<lparr>heap := (heap m')(c := ReadLoop_exit (heap m' c))\<rparr>"
  have "w_closeChannel (heap m' c) = 0" using assms by (simp add: Close_open)
  then show "snd (Close e' c ?m) = None"
    by (subst Close_open) (simp_all add: ReadLoop_exit_def setState_def)
qed

theorem second_Close_blocks_witness:
  "snd (Close None 0 sample_manager) = Some None"
  using second_Close_blocks [of sample_manager 0 "fst (Close None 0 sample_manager)" None]
  by (simp add: sample_manager_def sample_heap_def NewWsConnection_def RegisterClientToConnection_def AddConnection_def
      conn_Add_def conn_Has_def conn_Get_def NewConnectionManager_def OnClose_def EmitEvent_def active_Add_def
      getOrCreateAndAdd_def Set_Add_def Let_def)

end
