(* ===== verification/Auth.thy ===== *)
theory Auth
  imports Roles ConnectionFacts Handlers
begin

text \<open>
  Authentication: \<open>AuthModule.go\<close>, \<open>TokenStore.go\<close>, \<open>TokenUtils.go\<close> and \<open>TokenClaim.go\<close> of
  \<open>src/hub_server/modules/auth\<close>. Of the token stores the in-memory one is modelled in full; the operations
  of \<open>RedisTokenStore\<close> call a Redis client, whose \<open>get\<close> and \<open>del\<close> are parameters. Validation takes the
  \<open>Get\<close> of the store as the argument \<open>get\<close>.

  Times are nanoseconds and every reading of the clock is an argument. The JWT package is not part of
  the repository: signing a claim, reading the claim of a token and checking a token against a key are
  the fields of the parameter \<open>J\<close>. The client manager is the lookup \<open>getClient\<close>, which gives an error
  text or the client. Errors are texts.
\<close>

section \<open>TokenStore.go\<close>

record inMemoryTokenInfo =
  ti_clientId :: string
  expireDate :: int

type_synonym MemoryTokenStore = "(string \<times> inMemoryTokenInfo) list"

definition token_timerJob :: "int \<Rightarrow> MemoryTokenStore \<Rightarrow> MemoryTokenStore" where
  "token_timerJob checkTime s =
     fold AList.delete (map fst (filter (\<lambda>(k, v). expireDate v < checkTime) s)) s"

definition token_Put :: "int \<Rightarrow> MemoryTokenStore \<Rightarrow> string \<Rightarrow> string \<Rightarrow> int \<Rightarrow> MemoryTokenStore" where
  "token_Put now s token clientId ttl =
     AList.update token \<lparr>ti_clientId = clientId, expireDate = now + ttl\<rparr> s"

definition token_Get :: "MemoryTokenStore \<Rightarrow> string \<Rightarrow> string + string" where
  "token_Get s token =
     (case map_of s token of None \<Rightarrow> Inl ''can not find token'' | Some info \<Rightarrow> Inr (ti_clientId info))"

definition token_Revoke :: "MemoryTokenStore \<Rightarrow> string \<Rightarrow> MemoryTokenStore \<times> string option" where
  "token_Revoke s token =
     (if map_of s token = None then (s, Some ''can not find token'') else (AList.delete token s, None))"

definition redis_assembleKey :: "string \<Rightarrow> string" where
  "redis_assembleKey key = ''token-'' @ key"

definition redis_token_Get :: "(string \<Rightarrow> string + string) \<Rightarrow> string \<Rightarrow> string + string" where
  "redis_token_Get rget token = rget (redis_assembleKey token)"

definition redis_token_Revoke :: "(string \<Rightarrow> 'r \<Rightarrow> 'r \<times> string option) \<Rightarrow> string \<Rightarrow> 'r \<Rightarrow> 'r \<times> string option" where
  "redis_token_Revoke rdel token r = rdel token r"

section \<open>TokenUtils.go and TokenClaim.go\<close>

record JWT =
  jwt_sign :: "string \<Rightarrow> int \<Rightarrow> string \<Rightarrow> string"
  jwt_claim :: "string \<Rightarrow> (string \<times> int) option"
  jwt_valid :: "string \<Rightarrow> string \<Rightarrow> int \<Rightarrow> bool"

text \<open>A claim is the client id and the expiration in Unix seconds.\<close>

definition NewTokenClaim :: "int \<Rightarrow> string \<Rightarrow> int \<Rightarrow> string \<times> int" where
  "NewTokenClaim now clientId ttl = (clientId, (now + ttl) div 10 ^ 9)"

definition SignToken :: "JWT \<Rightarrow> int \<Rightarrow> string \<Rightarrow> string \<Rightarrow> int \<Rightarrow> string" where
  "SignToken J now clientId clientCKey ttl =
     (let (cid, expiresAt) = NewTokenClaim now clientId ttl in jwt_sign J cid expiresAt clientCKey)"

text \<open>\<open>VerifyToken\<close>: the callback supplies the key for the claim that the token carries.\<close>

definition VerifyToken :: "JWT \<Rightarrow> int \<Rightarrow> string \<Rightarrow> (string \<times> int \<Rightarrow> string + string) \<Rightarrow> string option" where
  "VerifyToken J now token keyFor =
     (case jwt_claim J token of
        None \<Rightarrow> Some ''malformed token''
      | Some claim \<Rightarrow> (case keyFor claim of
          Inl err \<Rightarrow> Some err
        | Inr key \<Rightarrow> if jwt_valid J token key now then None else Some ''invalid token''))"

section \<open>AuthModule.go\<close>

definition AsyncConnTtl :: int where "AsyncConnTtl = 3600 * 10 ^ 9"
definition SyncConnTtl :: int where "SyncConnTtl = 1800 * 10 ^ 9"
definition MaxTokenTtl :: int where "MaxTokenTtl = 24 * 3600 * 10 ^ 9"
definition ServiceTokenTtl :: int where "ServiceTokenTtl = 180 * 24 * 3600 * 10 ^ 9"

definition isTokenExpired :: "int \<Rightarrow> int \<Rightarrow> bool" where
  "isTokenExpired now expireTime \<longleftrightarrow> now > expireTime * 10 ^ 9"

type_synonym get_client = "string \<Rightarrow> string + CommonClient"

text \<open>\<open>parseToken\<close> returns the claimed client id together with the error.\<close>

definition parseToken :: "JWT \<Rightarrow> get_client \<Rightarrow> int \<Rightarrow> string \<Rightarrow> string \<times> string option" where
  "parseToken J getClient now token =
     (case jwt_claim J token of None \<Rightarrow> [] | Some (cid, _) \<Rightarrow> cid,
      VerifyToken J now token (\<lambda>(cid, expiresAt).
        if isTokenExpired now expiresAt then Inl ''token expired''
        else (case getClient cid of Inl err \<Rightarrow> Inl err | Inr client \<Rightarrow> Inr (cKey client))))"

text \<open>A stored token and the not-found error of Redis have the same result.\<close>

definition ErrNotFoundStr :: string where "ErrNotFoundStr = ''not found''"

definition checkTokenFromStore :: "(string \<Rightarrow> string + string) \<Rightarrow> string \<Rightarrow> string \<times> string option" where
  "checkTokenFromStore get token =
     (case get token of
        Inr _ \<Rightarrow> ([], None)
      | Inl err \<Rightarrow> if err = ErrNotFoundStr then ([], None) else ([], Some err))"

definition ValidateToken :: "JWT \<Rightarrow> get_client \<Rightarrow> int \<Rightarrow> (string \<Rightarrow> string + string) \<Rightarrow> string \<Rightarrow>
    string \<times> string option" where
  "ValidateToken J getClient now get token =
     (if token = [] then ([], None)
      else (case checkTokenFromStore get token of
          (clientId, Some err) \<Rightarrow> (clientId, None)
        | (_, None) \<Rightarrow> parseToken J getClient now token))"

definition validateSyncConnRequest :: "JWT \<Rightarrow> get_client \<Rightarrow> int \<Rightarrow> (string \<Rightarrow> string + string) \<Rightarrow> Message \<Rightarrow>
    string \<times> string option" where
  "validateSyncConnRequest J getClient now get request =
     (if m_from request = [] then ([], None) else ValidateToken J getClient now get (m_from request))"

text \<open>The loop dereferences every connection of the client, so a \<open>nil\<close> before the match panics.\<close>

fun match_conns :: "(nat \<Rightarrow> WsConnection) \<Rightarrow> string \<Rightarrow> nat option list \<Rightarrow> bool go" where
  "match_conns h addr [] = Ret False"
| "match_conns h addr (None # cs) = Panic"
| "match_conns h addr (Some c # cs) = (if w_addr (h c) = addr then Ret True else match_conns h addr cs)"

definition validateAsyncConnRequest :: "ConnectionManagerModule \<Rightarrow> string \<Rightarrow> Message \<Rightarrow>
    (string \<times> string option) go" where
  "validateAsyncConnRequest m addr request =
     bind_go (match_conns (heap m) addr (GetConnectionsByClientId m (m_from request)))
       (\<lambda>found. Ret (if found then m_from request else [], None))"

definition ValidateRequestSource :: "JWT \<Rightarrow> get_client \<Rightarrow> int \<Rightarrow> (string \<Rightarrow> string + string) \<Rightarrow>
    ConnectionManagerModule \<Rightarrow> nat \<Rightarrow> string \<Rightarrow> Message \<Rightarrow> (string \<times> string option) go" where
  "ValidateRequestSource J getClient now get m connType addr request =
     (if IsAsyncType connType then validateAsyncConnRequest m addr request
      else Ret (validateSyncConnRequest J getClient now get request))"

definition getClientAndCheckCredential :: "get_client \<Rightarrow> string \<Rightarrow> string \<Rightarrow> string + CommonClient" where
  "getClientAndCheckCredential getClient i password =
     (case getClient i of
        Inl err \<Rightarrow> Inl err
      | Inr client \<Rightarrow> if cKey client \<noteq> password then Inl ''invalid id or password'' else Inr client)"

text \<open>The two clock readings are those of \<open>NewTokenClaim\<close> and of \<open>Put\<close>.\<close>

definition loginAndCacheToken :: "JWT \<Rightarrow> int \<Rightarrow> int \<Rightarrow> MemoryTokenStore \<Rightarrow> CommonClient \<Rightarrow> int \<Rightarrow>
    MemoryTokenStore \<times> string" where
  "loginAndCacheToken J now1 now2 s client ttl =
     (let clientId = r_id (c_role client); clientCKey = cKey client;
          ttl = (if cType client = ClientTypeService then ServiceTokenTtl else ttl);
          token = SignToken J now1 clientId clientCKey ttl
      in (token_Put now2 s token clientId ttl, token))"

definition Login :: "JWT \<Rightarrow> get_client \<Rightarrow> int \<Rightarrow> int \<Rightarrow> MemoryTokenStore \<Rightarrow> nat \<Rightarrow> string \<Rightarrow> string \<Rightarrow>
    MemoryTokenStore \<times> (string + string)" where
  "Login J getClient now1 now2 s connType i password =
     (case getClientAndCheckCredential getClient i password of
        Inl err \<Rightarrow> (s, Inl err)
      | Inr client \<Rightarrow>
          (let (s', token) = loginAndCacheToken J now1 now2 s client
                 (if IsAsyncType connType then AsyncConnTtl else SyncConnTtl)
           in (s', Inr token)))"

definition refreshToken :: "JWT \<Rightarrow> get_client \<Rightarrow> int \<Rightarrow> MemoryTokenStore \<Rightarrow> string \<Rightarrow> string \<Rightarrow> int \<Rightarrow>
    MemoryTokenStore \<times> (string + string)" where
  "refreshToken J getClient now s oldToken clientId ttl =
     (case token_Revoke s oldToken of
        (s', Some err) \<Rightarrow> (s', Inl err)
      | (s', None) \<Rightarrow> (case getClient clientId of
          Inl err \<Rightarrow> (s', Inl err)
        | Inr client \<Rightarrow> (s', Inr (SignToken J now (r_id (c_role client)) (cKey client) ttl))))"

text \<open>The requested time to live is in milliseconds.\<close>

definition RefreshToken :: "JWT \<Rightarrow> get_client \<Rightarrow> int \<Rightarrow> MemoryTokenStore \<Rightarrow> string \<Rightarrow> string \<Rightarrow> int \<Rightarrow>
    MemoryTokenStore \<times> (string + string)" where
  "RefreshToken J getClient now s token clientId ttlMs =
     (if ttlMs < 0 \<or> ttlMs > MaxTokenTtl div 10 ^ 6
      then (s, Inl (''invalid ttl '' @ sprintf_d ttlMs @ ''. 0 < ttl < '' @ sprintf_d (MaxTokenTtl div 10 ^ 6)))
      else refreshToken J getClient now s token clientId (10 ^ 6 * ttlMs))"

definition RevokeToken :: "MemoryTokenStore \<Rightarrow> string \<Rightarrow> MemoryTokenStore \<times> string option" where
  "RevokeToken s token = token_Revoke s token"

section \<open>Lemmas\<close>

lemma memory_check:
  "checkTokenFromStore (token_Get s) token = ([], if map_of s token = None then Some ''can not find token'' else None)"
  by (auto simp: checkTokenFromStore_def token_Get_def ErrNotFoundStr_def split: option.splits)

lemma ValidateToken_memory:
  "ValidateToken J getClient now (token_Get s) token =
     (if token = [] \<or> map_of s token = None then ([], None) else parseToken J getClient now token)"
  by (auto simp: ValidateToken_def memory_check)

lemma parseToken_ok:
  "parseToken J getClient now token = (cid, None) \<longleftrightarrow>
     (\<exists>expiresAt client. jwt_claim J token = Some (cid, expiresAt) \<and> \<not> isTokenExpired now expiresAt \<and>
        getClient cid = Inr client \<and> jwt_valid J token (cKey client) now)"
  by (auto simp: parseToken_def VerifyToken_def split: option.splits sum.splits if_splits)

lemma match_conns_Some:
  "None \<notin> set cs \<Longrightarrow> match_conns h addr cs = Ret (\<exists>c. Some c \<in> set cs \<and> w_addr (h c) = addr)"
  by (induction h addr cs rule: match_conns.induct) auto

lemma Login_token:
  assumes "Login J getClient now1 now2 s connType i password = (s', Inr token)"
  obtains client ttl where "getClient i = Inr client" "cKey client = password"
    "token = jwt_sign J (r_id (c_role client)) ((now1 + ttl) div 10 ^ 9) (cKey client)"
    "map_of s' token \<noteq> None" "SyncConnTtl \<le> ttl"
  using assms
  by (auto simp: Login_def getClientAndCheckCredential_def loginAndCacheToken_def Let_def SignToken_def NewTokenClaim_def
      token_Put_def AsyncConnTtl_def SyncConnTtl_def ServiceTokenTtl_def split: sum.splits if_splits)

section \<open>Properties\<close>


text \<open>The client and the codec of the witnesses: a token spells its claim and its key, the time in unary.\<close>

definition sample_client :: get_client where
  "sample_client i = (if i = ''alice'' then Inr (NewClient ''alice'' [] ClientTypeAuthenticated ''pw'' 0) else Inl ''no such client'')"

definition sample_jwt :: JWT where
  "sample_jwt =
     \<lparr>jwt_sign = (\<lambda>cid expiresAt key. cid @ ''.'' @ key @ ''.'' @ replicate (nat expiresAt) CHR ''1''),
      jwt_claim = (\<lambda>t. if prefix ''alice.pw.'' t then Some (''alice'', int (length t) - 9) else None),
      jwt_valid = (\<lambda>t key now. prefix (''alice.'' @ key @ ''.'') t \<and> now div 10 ^ 9 \<le> int (length t) - 9)\<rparr>"

definition sample_token :: string where
  "sample_token = ''alice.pw.'' @ replicate 1800 CHR ''1''"

definition sample_store :: MemoryTokenStore where
  "sample_store = fst (Login sample_jwt sample_client 0 0 [] TypeHTTP ''alice'' ''pw'')"

lemma sample_login:
  "Login sample_jwt sample_client 0 0 [] TypeHTTP ''alice'' ''pw'' = (sample_store, Inr sample_token)"
  by (simp add: sample_store_def Login_def sample_client_def getClientAndCheckCredential_def loginAndCacheToken_def
      SignToken_def NewTokenClaim_def sample_jwt_def sample_token_def NewClient_def NewCommonRole_def IsAsyncType_def
      SyncConnTtl_def Let_def)

lemma sample_token_known: "map_of sample_store sample_token \<noteq> None" "sample_token \<noteq> []"
  using sample_login by (auto elim: Login_token simp: sample_token_def)

lemma sample_token_validates:
  "ValidateToken sample_jwt sample_client 5 (token_Get sample_store) sample_token = (''alice'', None)"
  using sample_token_known
  by (simp add: ValidateToken_memory parseToken_ok)
    (simp add: sample_jwt_def sample_token_def sample_client_def NewClient_def isTokenExpired_def)




text \<open>
  A refreshed token is signed but never put into the in-memory store, so it does not authenticate
  the client; the old token is gone as well.
\<close>

theorem refreshed_token_is_rejected:
  assumes "RefreshToken J getClient now s oldToken clientId ttlMs = (s', Inr token)"
    and "map_of s token = None \<or> token = oldToken"
  shows "ValidateToken J getClient t (token_Get s') token = ([], None) \<and>
    ValidateToken J getClient t (token_Get s') oldToken = ([], None)"
proof -
  have "map_of s' token = None" "map_of s' oldToken = None"
    using assms by (auto simp: RefreshToken_def refreshToken_def token_Revoke_def split: if_splits sum.splits option.splits)
  then show ?thesis by (simp add: ValidateToken_memory)
qed

theorem refreshed_token_is_rejected_witness:
  "\<exists>s' token. RefreshToken sample_jwt sample_client 7 sample_store sample_token ''alice'' 2000 = (s', Inr token) \<and>
     ValidateToken sample_jwt sample_client 8 (token_Get s') token = ([], None)"
proof -
  have st: "map_of sample_store sample_token \<noteq> None"
    using sample_login by (auto elim: Login_token)
  have "map fst sample_store = [sample_token]"
    by (simp add: sample_store_def Login_def sample_client_def getClientAndCheckCredential_def loginAndCacheToken_def
        SignToken_def NewTokenClaim_def sample_jwt_def sample_token_def NewClient_def NewCommonRole_def IsAsyncType_def
        SyncConnTtl_def token_Put_def Let_def)
  then have "set (map fst sample_store) = {sample_token}" by simp
  moreover have "sample_token \<noteq> ''alice.pw.11''"
  proof
    assume "sample_token = ''alice.pw.11''"
    then have "length sample_token = length ''alice.pw.11''" by (rule arg_cong)
    then show False by (simp add: sample_token_def)
  qed
  ultimately have none: "map_of sample_store ''alice.pw.11'' = None"
    by (auto simp: map_of_eq_None_iff)
  obtain s' where r: "RefreshToken sample_jwt sample_client 7 sample_store sample_token ''alice'' 2000 =
      (s', Inr ''alice.pw.11'')"
    using st by (auto simp: RefreshToken_def refreshToken_def token_Revoke_def sample_client_def SignToken_def
        NewTokenClaim_def sample_jwt_def NewClient_def NewCommonRole_def MaxTokenTtl_def numeral_2_eq_2)
  then show ?thesis using refreshed_token_is_rejected [OF r] none by blast
qed

text \<open>
  With the Redis store, a token that was revoked, or never stored, is validated like a stored one:
  whatever the store answers short of a connection error, only the signature decides.
\<close>

theorem redis_store_does_not_gate_tokens:
  assumes "token \<noteq> []" and "rget (redis_assembleKey token) = Inl ErrNotFoundStr \<or> (\<exists>v. rget (redis_assembleKey token) = Inr v)"
  shows "ValidateToken J getClient now (redis_token_Get rget) token = parseToken J getClient now token"
  using assms by (auto simp: ValidateToken_def checkTokenFromStore_def redis_token_Get_def)

theorem redis_store_does_not_gate_tokens_witness:
  "fst (ValidateToken sample_jwt sample_client 5 (redis_token_Get (\<lambda>_. Inl ErrNotFoundStr)) sample_token) = ''alice''"
  by (subst redis_store_does_not_gate_tokens)
    (simp_all add: sample_token_def parseToken_def sample_jwt_def)

text \<open>
  On a socket connection a request is taken for the client it names exactly when the connection
  is registered for that client; the check never panics in a consistent connection manager.
\<close>

theorem async_authentication:
  assumes "cm_reach m" and "IsAsyncType connType"
  shows "ValidateRequestSource J getClient now get m connType addr request =
    Ret (if addr \<in> set (active_Get (activeClientStore m) (m_from request)) then m_from request else [], None)"
proof -
  let ?cs = "GetConnectionsByClientId m (m_from request)"
  let ?as = "active_Get (activeClientStore m) (m_from request)"
  have stored: "\<exists>c. conn_Get (connStore m) a = Some c \<and> w_addr (heap m c) = a" if "a \<in> set ?as" for a
    using cm_okD [OF cm_reach_ok [OF assms(1)]] that unfolding conn_Get_def by blast
  have cs: "?cs = map (conn_Get (connStore m)) ?as" by (simp add: GetConnectionsByClientId_def)
  have "None \<notin> set ?cs" unfolding cs using stored by force
  moreover have "(\<exists>c. Some c \<in> set ?cs \<and> w_addr (heap m c) = addr) \<longleftrightarrow> addr \<in> set ?as"
  proof
    assume "\<exists>c. Some c \<in> set ?cs \<and> w_addr (heap m c) = addr"
    then obtain c a where "a \<in> set ?as" "conn_Get (connStore m) a = Some c" "w_addr (heap m c) = addr"
      unfolding cs by (auto dest: sym)
    then show "addr \<in> set ?as" using stored [of a] by auto
  next
    assume "addr \<in> set ?as"
    then obtain c where "conn_Get (connStore m) addr = Some c" "w_addr (heap m c) = addr" using stored by blast
    then show "\<exists>c. Some c \<in> set ?cs \<and> w_addr (heap m c) = addr"
      unfolding cs using \<open>addr \<in> set ?as\<close> by (auto intro!: exI [of _ c] image_eqI [of _ _ addr])
  qed
  ultimately show ?thesis
    using assms(2) by (simp add: ValidateRequestSource_def validateAsyncConnRequest_def match_conns_Some)
qed

theorem async_authentication_witness:
  "ValidateRequestSource sample_jwt sample_client 5 (token_Get []) sample_manager 1 ''1.1.1.1:5''
     (NewMessage ''1'' ''alice'' [] ''/x'' MessageTypeServiceGetRequest []) = Ret (''alice'', None)"
proof -
  have "''1.1.1.1:5'' \<in> set (active_Get (activeClientStore sample_manager) ''alice'')" by code_simp
  then show ?thesis
    by (subst async_authentication [OF sample_manager_reach]) (simp_all add: IsAsyncType_def NewMessage_def)
qed

end
