(* ===== verification/Middlewares.thy ===== *)
theory Middlewares
  imports RedBlackTreeFacts Throttle BlockList Auth
begin

text \<open>
  The request middlewares: \<open>src/hub_server/middleware/ServerMiddleware.go\<close>,
  \<open>src/hub_server/modules/middleware_manager/MiddlewareManagerModule.go\<close>, and the four middlewares that
  the modules of the server define (connection, block list, throttle, authentication).

  The middlewares are kept in the red-black tree, ordered by \<open>Compare\<close>. Running one takes the request
  and the state of the server's modules; a \<open>nil\<close> result is \<open>None\<close>. The readings of the clock during one
  request are one instant \<open>now\<close>. The configuration of the modules, and with it the parameters of the
  authentication model, are the record \<open>env\<close>.
\<close>

section \<open>Middlewares and their order\<close>

datatype mw_kind = KConnection | KBlockList | KThrottle | KAuth

record ServerMiddleware =
  mw_id :: string
  mw_priority :: int
  mw_kind :: mw_kind

definition ConnectionMiddleware :: ServerMiddleware where
  "ConnectionMiddleware = \<lparr>mw_id = ''connection'', mw_priority = 0, mw_kind = KConnection\<rparr>"
definition BlockListMiddleware :: ServerMiddleware where
  "BlockListMiddleware = \<lparr>mw_id = ''block_list'', mw_priority = 1, mw_kind = KBlockList\<rparr>"
definition RequestAddressThrottleMiddleware :: ServerMiddleware where
  "RequestAddressThrottleMiddleware = \<lparr>mw_id = ''request_throttle'', mw_priority = 2, mw_kind = KThrottle\<rparr>"
definition AuthMiddleware :: ServerMiddleware where
  "AuthMiddleware = \<lparr>mw_id = ''auth'', mw_priority = 3, mw_kind = KAuth\<rparr>"

text \<open>The difference of two priorities, at the width of Go's \<open>int\<close>.\<close>

definition mw_Compare :: "ServerMiddleware \<Rightarrow> ServerMiddleware \<Rightarrow> int" where
  "mw_Compare m t = to_int64 (mw_priority m - mw_priority t)"

text \<open>Priorities whose differences do not wrap around.\<close>

definition mw_valid :: "ServerMiddleware \<Rightarrow> bool" where
  "mw_valid m \<longleftrightarrow> - (2 ^ 62) \<le> mw_priority m \<and> mw_priority m < 2 ^ 62"

lemma mw_Compare_valid: "mw_valid m \<Longrightarrow> mw_valid t \<Longrightarrow> mw_Compare m t = mw_priority m - mw_priority t"
  unfolding mw_Compare_def mw_valid_def by (rule to_int64_id) auto

interpretation mw_order: comparator mw_Compare mw_valid
  by unfold_locales (auto simp: mw_Compare_valid)

type_synonym mw_tree = "(ServerMiddleware, ServerMiddleware) Node"

text \<open>\<open>RegisterMiddleware\<close>, for the error of the middleware's \<open>Init\<close>.\<close>

definition RegisterMiddleware :: "string option \<Rightarrow> mw_tree \<Rightarrow> ServerMiddleware \<Rightarrow> (mw_tree \<times> string option) go" where
  "RegisterMiddleware initErr t m =
     (case initErr of
        Some err \<Rightarrow> Ret (t, Some err)
      | None \<Rightarrow> bind_go (PutKeyAsValue mw_Compare t m) (\<lambda>t'. Ret (t', None)))"

section \<open>Running the middlewares\<close>

record conn_info =
  ci_type :: nat
  ci_addr :: string

record server_env =
  e_serverId :: string
  e_jwt :: JWT
  e_getClient :: get_client
  e_addressGroup :: ThrottleGroup
  e_formatTime :: "int \<Rightarrow> string"

record server_state =
  ss_blocklist :: InMemoryBlockListStore
  ss_throttle :: ThrottleController
  ss_tokens :: MemoryTokenStore
  ss_connections :: ConnectionManagerModule

type_synonym mw_result = "(ServiceRequest option \<times> server_state) go"

definition ConnectionMiddleware_Run :: "conn_info \<Rightarrow> ServiceRequest \<Rightarrow> server_state \<Rightarrow> mw_result" where
  "ConnectionMiddleware_Run conn r st =
     bind_go (SetContext r ''connection_type'' (CUint8 (ci_type conn))) (\<lambda>r.
     bind_go (SetContext r ''is_sync_conn'' (CBool (\<not> IsAsyncType (ci_type conn)))) (\<lambda>r.
     bind_go (SetContext r ''address'' (CString (ci_addr conn))) (\<lambda>r. Ret (Some r, st))))"

text \<open>\<open>request.Resolve\<close> followed by \<open>return nil\<close>.\<close>

definition reject :: "ServiceRequest \<Rightarrow> Message \<Rightarrow> server_state \<Rightarrow> mw_result" where
  "reject r m st = bind_go (snd (resolve_with r m)) (\<lambda>_. Ret (None, st))"

definition BlockListMiddleware_Run :: "server_env \<Rightarrow> int \<Rightarrow> conn_info \<Rightarrow> ServiceRequest \<Rightarrow> server_state \<Rightarrow> mw_result" where
  "BlockListMiddleware_Run env now conn r st =
     (case split_on CHR '':'' (ci_addr conn) of
        [ipAddr, _] \<Rightarrow>
          (let (bl, exist) = store_Has (ss_blocklist st) now ipAddr; st = st\<lparr>ss_blocklist := bl\<rparr> in
           if exist
           then reject r (NewErrorResponse (sr_message r) (e_serverId env) MessageTypeSvcForbiddenError
                  (''address '' @ ipAddr @ '' has been blocklisted'')) st
           else Ret (Some r, st))
      | _ \<Rightarrow> reject r (NewErrorResponse (sr_message r) (e_serverId env) MessageTypeSvcInternalError
               ''can not parse remote address'') st)"

definition BlockListExceedingHitFactor :: int where "BlockListExceedingHitFactor = 3"

definition checkAndDemoteAddrToBlockList :: "int \<Rightarrow> int \<Rightarrow> int \<Rightarrow> string \<Rightarrow> server_state \<Rightarrow> server_state \<times> bool" where
  "checkAndDemoteAddrToBlockList now remains limit addr st =
     (if remains < -1 * limit * BlockListExceedingHitFactor
      then (st\<lparr>ss_blocklist := DemoteByAddr (ss_blocklist st) now addr\<rparr>, True) else (st, False))"

definition ThrottleMiddleware_Run :: "server_env \<Rightarrow> int \<Rightarrow> conn_info \<Rightarrow> ServiceRequest \<Rightarrow> server_state \<Rightarrow> mw_result" where
  "ThrottleMiddleware_Run env now conn r st =
     (case split_on CHR '':'' (ci_addr conn) of
        [ipAddr, _] \<Rightarrow>
          (let (th, rec, err) = module_Hit (ss_throttle st) now now (e_addressGroup env) ipAddr;
               st = st\<lparr>ss_throttle := th\<rparr> in
           if err \<noteq> None then Ret (Some r, st)
           else
             (let remains = Limit rec - HitsUnderWindow rec;
                  (st, shouldDemote) = (if remains < 0
                     then checkAndDemoteAddrToBlockList now remains (Limit rec) ipAddr st else (st, False)) in
              if shouldDemote
              then reject r (NewErrorResponse (sr_message r) (e_serverId env) MessageTypeSvcForbiddenError
                     (''address '' @ ipAddr @ '' has been blocklisted'')) st
              else
                bind_go (SetContext r ''throttle-addr-window-expire'' (CString (e_formatTime env (WindowExpiration rec)))) (\<lambda>r.
                bind_go (SetContext r ''throttle-addr-hit-remains'' (CInt (max 0 remains))) (\<lambda>r. Ret (Some r, st)))))
      | _ \<Rightarrow> reject r (NewErrorResponse (sr_message r) (e_serverId env) MessageTypeSvcInternalError
               ''can not parse remote address'') st)"

definition SetFrom :: "ServiceRequest \<Rightarrow> string \<Rightarrow> ServiceRequest" where
  "SetFrom r f = r\<lparr>sr_message := (sr_message r)\<lparr>m_from := f\<rparr>\<rparr>"

definition AuthMiddleware_Run :: "server_env \<Rightarrow> int \<Rightarrow> conn_info \<Rightarrow> ServiceRequest \<Rightarrow> server_state \<Rightarrow> mw_result" where
  "AuthMiddleware_Run env now conn r st =
     bind_go (if \<not> IsAsyncType (ci_type conn) then SetContext r ''token'' (CString (m_from (sr_message r))) else Ret r) (\<lambda>r.
     bind_go (ValidateRequestSource (e_jwt env) (e_getClient env) now (token_Get (ss_tokens st)) (ss_connections st)
                (ci_type conn) (ci_addr conn) (sr_message r)) (\<lambda>(clientId, err).
       if err \<noteq> None
       then bind_go (SetContext (SetFrom r []) ''is_authorized'' (CBool False)) (\<lambda>r. Ret (Some r, st))
       else bind_go (SetContext (SetFrom r clientId) ''is_authorized'' (CBool (clientId \<noteq> []))) (\<lambda>r. Ret (Some r, st))))"

definition mw_Run :: "server_env \<Rightarrow> int \<Rightarrow> ServerMiddleware \<Rightarrow> conn_info \<Rightarrow> ServiceRequest \<Rightarrow> server_state \<Rightarrow> mw_result" where
  "mw_Run env now md conn r st =
     (case mw_kind md of
        KConnection \<Rightarrow> ConnectionMiddleware_Run conn r st
      | KBlockList \<Rightarrow> BlockListMiddleware_Run env now conn r st
      | KThrottle \<Rightarrow> ThrottleMiddleware_Run env now conn r st
      | KAuth \<Rightarrow> AuthMiddleware_Run env now conn r st)"

text \<open>The callback of \<open>RunMiddlewares\<close> reads the status of what \<open>Run\<close> returned, so a \<open>nil\<close> panics.\<close>

definition run_callback :: "server_env \<Rightarrow> int \<Rightarrow> conn_info \<Rightarrow> ServerMiddleware \<Rightarrow>
    ServiceRequest \<times> server_state \<Rightarrow> (bool \<times> ServiceRequest \<times> server_state) go" where
  "run_callback env now conn md rs =
     bind_go (mw_Run env now md conn (fst rs) (snd rs)) (\<lambda>(r', st').
       case r' of
         None \<Rightarrow> Panic
       | Some r \<Rightarrow> Ret (\<not> sr_status r > ServiceRequestStatusProcessing, (r, st')))"

definition RunMiddlewares :: "server_env \<Rightarrow> int \<Rightarrow> mw_tree \<Rightarrow> conn_info \<Rightarrow> ServiceRequest \<Rightarrow> server_state \<Rightarrow>
    (ServiceRequest \<times> server_state) go" where
  "RunMiddlewares env now t conn r st = ForEach (run_callback env now conn) t (r, st)"

definition mw_Clear :: "mw_tree \<Rightarrow> mw_tree go" where
  "mw_Clear t = Clear t"

section \<open>Properties of the order\<close>

text \<open>
  C17. Insertion into a red-black tree never panics; the result satisfies the red-black invariants, so
  its height is logarithmic in its size, its entries are ordered, and a lookup finds the value that was
  inserted last under an equal key.
\<close>

theorem red_black_tree_correct:
  assumes "comparator cmp valid" and "list_all valid (map fst kvs)"
  shows "\<exists>t. put_all cmp kvs NilNode = Ret t \<and> rbt t \<and> sorted_keys cmp (inorder t) \<and>
    2 ^ (height_rb t div 2) \<le> size_rb t + 1 \<and>
    (\<forall>j. valid j \<longrightarrow> Get cmp t j = map_option snd (find (\<lambda>(k, v). cmp j k = 0) (rev kvs)))"
proof -
  have "Get cmp NilNode j = None" for j by (simp add: Get_def)
  then show ?thesis
    using comparator.put_all_ok [OF assms(1) comparator.tree_ok_empty [OF assms(1)] assms(2)] height_logarithmic
    by (fastforce simp: comparator.tree_ok_def [OF assms(1)] split: option.splits)
qed


theorem red_black_tree_correct_witness:
  "\<exists>t. put_all mw_Compare [(AuthMiddleware, 1::nat), (ConnectionMiddleware, 2), (AuthMiddleware, 3)] NilNode = Ret t \<and>
     rbt t \<and> Get mw_Compare t AuthMiddleware = Some 3"
proof -
  let ?kvs = "[(AuthMiddleware, 1::nat), (ConnectionMiddleware, 2), (AuthMiddleware, 3)]"
  have valid: "list_all mw_valid (map fst ?kvs)" "mw_valid AuthMiddleware"
    by (simp_all add: mw_valid_def AuthMiddleware_def ConnectionMiddleware_def)
  from red_black_tree_correct [OF mw_order.comparator_axioms valid(1)]
  obtain t where "put_all mw_Compare ?kvs NilNode = Ret t" "rbt t"
    "\<forall>j. mw_valid j \<longrightarrow> Get mw_Compare t j = map_option snd (find (\<lambda>(k, v). mw_Compare j k = 0) (rev ?kvs))"
    by blast
  then show ?thesis
    using valid by (intro exI [of _ t]) (simp add: mw_Compare_valid)
qed

section \<open>The pipeline\<close>

text \<open>Registering a list of middlewares whose \<open>Init\<close> succeeds.\<close>

definition register_middlewares :: "ServerMiddleware list \<Rightarrow> mw_tree \<Rightarrow> mw_tree go" where
  "register_middlewares ms t = fold_go (\<lambda>m t. bind_go (RegisterMiddleware None t m) (\<lambda>(t', _). Ret t')) ms t"

text \<open>One stage: run the middleware; the callback's read of a \<open>nil\<close> request panics.\<close>

definition mw_stage :: "server_env \<Rightarrow> int \<Rightarrow> conn_info \<Rightarrow> ServerMiddleware \<Rightarrow>
    ServiceRequest \<times> server_state \<Rightarrow> (ServiceRequest \<times> server_state) go" where
  "mw_stage env now conn md rs =
     bind_go (mw_Run env now md conn (fst rs) (snd rs)) (\<lambda>(r', st').
       case r' of None \<Rightarrow> Panic | Some r \<Rightarrow> Ret (r, st'))"

lemma SetContext_status: "SetContext r k v = Ret r' \<Longrightarrow> sr_status r' = sr_status r"
  by (auto simp: SetContext_def split: option.splits)

lemma reject_None: "reject r m st = Ret (r', st') \<Longrightarrow> r' = None"
  by (auto simp: reject_def bind_go_eq_Ret)

lemma mw_Run_status:
  "mw_Run env now md conn r st = Ret (Some r', st') \<Longrightarrow> sr_status r' = sr_status r"
  by (cases "mw_kind md")
    (auto simp: mw_Run_def ConnectionMiddleware_Run_def BlockListMiddleware_Run_def ThrottleMiddleware_Run_def
      AuthMiddleware_Run_def SetFrom_def bind_go_eq_Ret Let_def
      dest!: SetContext_status reject_None split: list.splits if_splits prod.splits)

lemma run_callback_stage:
  assumes "sr_status (fst rs) \<le> 1"
  shows "run_callback env now conn md rs = bind_go (mw_stage env now conn md rs) (\<lambda>rs'. Ret (True, rs'))"
  using assms mw_Run_status [of env now md conn "fst rs" "snd rs"]
  by (cases "mw_Run env now md conn (fst rs) (snd rs)") (auto simp: run_callback_def mw_stage_def split: option.splits)

lemma mw_stage_status: "mw_stage env now conn md rs = Ret rs' \<Longrightarrow> sr_status (fst rs') = sr_status (fst rs)"
  by (auto simp: mw_stage_def bind_go_eq_Ret mw_Run_status split: option.splits)

lemma RunMiddlewares_fold:
  assumes "t \<noteq> NilNode" and "sr_status r \<le> 1"
  shows "RunMiddlewares env now t conn r st = fold_go (\<lambda>kv. mw_stage env now conn (snd kv)) (inorder t) (r, st)"
  unfolding RunMiddlewares_def ForEach_def
  by (rule traverse_inv [where P = "\<lambda>rs. sr_status (fst rs) \<le> 1"])
    (use assms in \<open>auto simp: run_callback_stage dest: mw_stage_status\<close>)

text \<open>What registration keeps of the tree: \<open>ms\<close> are the middlewares registered so far.\<close>

definition registered :: "ServerMiddleware list \<Rightarrow> mw_tree \<Rightarrow> bool" where
  "registered ms t \<longleftrightarrow> mw_order.tree_ok t \<and> (\<exists>ms'. inorder t = map (\<lambda>m. (m, m)) ms' \<and> set ms' \<subseteq> set ms \<and>
     mw_priority ` set ms' = mw_priority ` set ms)"

lemma ins_list_middleware:
  assumes "mw_valid m" and "list_all mw_valid ms'"
  shows "\<exists>ns. ins_list mw_Compare m m (map (\<lambda>m. (m, m)) ms') = map (\<lambda>m. (m, m)) ns \<and>
     set ns \<subseteq> insert m (set ms') \<and> mw_priority ` set ns = insert (mw_priority m) (mw_priority ` set ms')"
  using assms(2)
proof (induction ms')
  case Nil
  show ?case by (intro exI [of _ "[m]"]) simp
next
  case (Cons x xs)
  obtain ns where ns: "ins_list mw_Compare m m (map (\<lambda>m. (m, m)) xs) = map (\<lambda>m. (m, m)) ns"
    "set ns \<subseteq> insert m (set xs)" "mw_priority ` set ns = insert (mw_priority m) (mw_priority ` set xs)"
    using Cons by auto
  have cmp: "mw_Compare m x = mw_priority m - mw_priority x"
    using Cons.prems assms(1) by (simp add: mw_Compare_valid)
  consider "mw_priority m = mw_priority x" | "mw_priority m < mw_priority x" | "mw_priority m > mw_priority x"
    by linarith
  then show ?case
  proof cases
    case 1 then show ?thesis by (intro exI [of _ "m # xs"]) (auto simp: cmp)
  next
    case 2 then show ?thesis by (intro exI [of _ "m # x # xs"]) (auto simp: cmp)
  next
    case 3 then show ?thesis using ns by (intro exI [of _ "x # ns"]) (auto simp: cmp)
  qed
qed

lemma registered_step:
  assumes "registered ms t" and "mw_valid m"
  shows "\<exists>t'. RegisterMiddleware None t m = Ret (t', None) \<and> registered (ms @ [m]) t'"
proof -
  obtain ms' where ms': "mw_order.tree_ok t" "inorder t = map (\<lambda>m. (m, m)) ms'" "set ms' \<subseteq> set ms"
    "mw_priority ` set ms' = mw_priority ` set ms" using assms(1) by (auto simp: registered_def)
  obtain t' where t': "Put mw_Compare t m m = Ret t'" "mw_order.tree_ok t'"
    "inorder t' = ins_list mw_Compare m m (inorder t)"
    using mw_order.Put_tree_ok [OF ms'(1) assms(2)] by blast
  have "list_all mw_valid ms'"
    using ms'(1,2) by (auto simp: mw_order.tree_ok_def mw_order.all_valid_def list_all_iff)
  from ins_list_middleware [OF assms(2) this] obtain ns where
    "inorder t' = map (\<lambda>m. (m, m)) ns" "set ns \<subseteq> insert m (set ms')"
    "mw_priority ` set ns = insert (mw_priority m) (mw_priority ` set ms')" using t'(3) ms'(2) by auto
  then have "registered (ms @ [m]) t'" using t'(2) ms'(3,4) by (auto simp: registered_def)
  then show ?thesis using t'(1) by (auto simp: RegisterMiddleware_def PutKeyAsValue_def)
qed

lemma register_all:
  assumes "list_all mw_valid ms" and "registered ms0 t"
  shows "\<exists>t'. register_middlewares ms t = Ret t' \<and> registered (ms0 @ ms) t'"
  using assms
proof (induction ms arbitrary: ms0 t)
  case (Cons m ms)
  obtain t1 where "RegisterMiddleware None t m = Ret (t1, None)" "registered (ms0 @ [m]) t1"
    using registered_step Cons.prems by force
  then show ?case using Cons.IH [of "ms0 @ [m]" t1] Cons.prems by (simp add: register_middlewares_def)
qed (simp add: register_middlewares_def)

lemma registered_empty: "registered [] NilNode"
  by (simp add: registered_def)

lemma fold_go_map: "fold_go f (map g xs) s = fold_go (\<lambda>x. f (g x)) xs s"
  by (induction xs arbitrary: s) (auto simp: fun_eq_iff intro!: arg_cong2 [where f = bind_go])

text \<open>
  C40. The middlewares run in the order of their priorities, whatever the order of registration: the
  registrations succeed, and running the pipeline on a request that is not finished is the sequence of
  the stages, ordered by priority, one for each priority. Middlewares of equal priority replace each
  other.
\<close>

theorem middlewares_run_by_priority:
  assumes "ms \<noteq> []" and "list_all mw_valid ms" and "sr_status r \<le> ServiceRequestStatusProcessing"
  shows "\<exists>t ms'. register_middlewares ms NilNode = Ret t \<and>
    sorted_wrt (\<lambda>a b. mw_priority a < mw_priority b) ms' \<and> set ms' \<subseteq> set ms \<and>
    mw_priority ` set ms' = mw_priority ` set ms \<and>
    RunMiddlewares env now t conn r st = fold_go (mw_stage env now conn) ms' (r, st)"
proof -
  obtain t where t: "register_middlewares ms NilNode = Ret t" "registered ms t"
    using register_all [OF assms(2) registered_empty] by auto
  then obtain ms' where ms': "mw_order.tree_ok t" "inorder t = map (\<lambda>m. (m, m)) ms'" "set ms' \<subseteq> set ms"
    "mw_priority ` set ms' = mw_priority ` set ms" by (auto simp: registered_def)
  have "list_all mw_valid ms'" "sorted_wrt (\<lambda>a b. mw_Compare a b < 0) ms'"
    using ms'(1,2) by (auto simp: mw_order.tree_ok_def mw_order.all_valid_def list_all_iff sorted_keys_def comp_def)
  then have "sorted_wrt (\<lambda>a b. mw_priority a < mw_priority b) ms'"
    by (induction ms') (auto simp: mw_Compare_valid list_all_iff)
  moreover have "t \<noteq> NilNode" using ms'(2,4) assms(1) by auto
  ultimately show ?thesis using t(1) ms' assms(3)
    by (intro exI [of _ t] exI [of _ ms']) (simp add: RunMiddlewares_fold fold_go_map)
qed

theorem middlewares_run_by_priority_witness:
  "\<forall>env now conn m st. \<exists>t ms'. register_middlewares [AuthMiddleware, ConnectionMiddleware] NilNode = Ret t \<and>
     sorted_wrt (\<lambda>a b. mw_priority a < mw_priority b) ms' \<and>
     RunMiddlewares env now t conn (NewServiceRequest m) st = fold_go (mw_stage env now conn) ms' (NewServiceRequest m, st)"
proof (intro allI)
  fix env now conn m st
  have "list_all mw_valid [AuthMiddleware, ConnectionMiddleware]"
    by (simp add: mw_valid_def AuthMiddleware_def ConnectionMiddleware_def)
  from middlewares_run_by_priority [OF _ this, of "NewServiceRequest m" env now conn st]
  show "\<exists>t ms'. register_middlewares [AuthMiddleware, ConnectionMiddleware] NilNode = Ret t \<and>
     sorted_wrt (\<lambda>a b. mw_priority a < mw_priority b) ms' \<and>
     RunMiddlewares env now t conn (NewServiceRequest m) st = fold_go (mw_stage env now conn) ms' (NewServiceRequest m, st)"
    by (auto simp: NewServiceRequest_def)
qed

text \<open>
  The tree of the server. The modules register their middlewares in the order they are loaded, and the registration of
  the throttle middleware fails, because the module that keeps the block list is loaded after the throttle module
  (theory \<open>Modules\<close> derives this tree from the loader).
\<close>

definition server_mw_tree :: mw_tree where
  "server_mw_tree =
     (case register_middlewares [ConnectionMiddleware, AuthMiddleware, BlockListMiddleware] NilNode of Ret t \<Rightarrow> t | Panic \<Rightarrow> NilNode)"

lemma server_mw_tree_order:
  "map snd (inorder server_mw_tree) =
     [ConnectionMiddleware, BlockListMiddleware, AuthMiddleware]"
  by code_simp

lemma server_pipeline:
  assumes "sr_status r \<le> 1"
  shows "RunMiddlewares env now server_mw_tree conn r st = fold_go (mw_stage env now conn)
    [ConnectionMiddleware, BlockListMiddleware, AuthMiddleware] (r, st)"
proof -
  have "server_mw_tree \<noteq> NilNode" using server_mw_tree_order by auto
  then show ?thesis
    using assms fold_go_map [of "mw_stage env now conn" snd "inorder server_mw_tree" "(r, st)"]
    by (simp add: RunMiddlewares_fold server_mw_tree_order)
qed

lemmas mw_kinds = ConnectionMiddleware_def BlockListMiddleware_def RequestAddressThrottleMiddleware_def AuthMiddleware_def

text \<open>A request from the connection, as the first middleware leaves it.\<close>

definition with_conn :: "conn_info \<Rightarrow> ServiceRequest \<Rightarrow> ServiceRequest" where
  "with_conn conn r = r\<lparr>sr_context := map_option (\<lambda>c. c(''connection_type'' \<mapsto> CUint8 (ci_type conn),
     ''is_sync_conn'' \<mapsto> CBool (\<not> IsAsyncType (ci_type conn)), ''address'' \<mapsto> CString (ci_addr conn))) (sr_context r)\<rparr>"

lemma stage_connection:
  "sr_context r \<noteq> None \<Longrightarrow> mw_stage env now conn ConnectionMiddleware (r, st) = Ret (with_conn conn r, st)"
  by (auto simp: mw_stage_def mw_Run_def mw_kinds ConnectionMiddleware_Run_def SetContext_def with_conn_def)

lemma stage_blocklist:
  assumes "sr_status r = ServiceRequestStatusQueued" and "split_on CHR '':'' (ci_addr conn) = [ip, pt]"
  shows "mw_stage env now conn BlockListMiddleware (r, st) =
    (if snd (store_Has (ss_blocklist st) now ip) then Panic
     else Ret (r, st\<lparr>ss_blocklist := fst (store_Has (ss_blocklist st) now ip)\<rparr>))"
  using assms
  by (auto simp: mw_stage_def mw_Run_def mw_kinds BlockListMiddleware_Run_def reject_def resolve_with_def Resolve_def
      Let_def split: prod.splits)

text \<open>A hit without an error has hits left, so the throttle middleware never rejects a request.\<close>

lemma module_Hit_remains:
  "module_Hit c now1 now2 g i = (c', rec, None) \<Longrightarrow> HitsUnderWindow rec < Limit rec"
  by (auto simp: module_Hit_def controller_Hit_def record_Hit_def Let_def split: prod.splits if_splits)

text \<open>
  The throttle middleware, where it is installed, lets every request pass: it counts the hit and leaves the rest of the
  request and of the state as they are, however many hits the address has.
\<close>

lemma throttle_never_rejects:
  assumes "sr_context r = Some c" and "split_on CHR '':'' (ci_addr conn) = [ip, pt]"
  shows "\<exists>c'. mw_stage env now conn RequestAddressThrottleMiddleware (r, st) =
      Ret (r\<lparr>sr_context := Some c'\<rparr>, st\<lparr>ss_throttle := fst (module_Hit (ss_throttle st) now now (e_addressGroup env) ip)\<rparr>) \<and>
    (\<forall>k. k \<notin> {''throttle-addr-window-expire'', ''throttle-addr-hit-remains''} \<longrightarrow> c' k = c k)"
proof -
  obtain th rec err where hit: "module_Hit (ss_throttle st) now now (e_addressGroup env) ip = (th, rec, err)"
    by (cases "module_Hit (ss_throttle st) now now (e_addressGroup env) ip") auto
  show ?thesis
  proof (cases err)
    case None
    then show ?thesis using assms hit module_Hit_remains [of "ss_throttle st" now now "e_addressGroup env" ip]
      by (auto simp: mw_stage_def mw_Run_def mw_kinds ThrottleMiddleware_Run_def SetContext_def Let_def)
  next
    case (Some e)
    then show ?thesis using assms hit
      by (auto simp: mw_stage_def mw_Run_def mw_kinds ThrottleMiddleware_Run_def Let_def intro!: exI [of _ c])
  qed
qed

lemma stage_auth:
  assumes "sr_context r = Some c"
    and "ValidateRequestSource (e_jwt env) (e_getClient env) now (token_Get (ss_tokens st)) (ss_connections st)
      (ci_type conn) (ci_addr conn) (sr_message r) = Ret (cid, err)"
  shows "\<exists>c'. mw_stage env now conn AuthMiddleware (r, st) =
      Ret ((SetFrom r (if err = None then cid else []))\<lparr>sr_context := Some c'\<rparr>, st) \<and>
    c' ''is_authorized'' = Some (CBool (err = None \<and> cid \<noteq> [])) \<and>
    (\<forall>k. k \<notin> {''token'', ''is_authorized''} \<longrightarrow> c' k = c k)"
  using assms
  by (auto simp: mw_stage_def mw_Run_def mw_kinds AuthMiddleware_Run_def SetContext_def SetFrom_def)

lemma server_middlewares_pass:
  assumes "sr_status r = ServiceRequestStatusQueued" and "sr_context r \<noteq> None"
    and "split_on CHR '':'' (ci_addr conn) = [ip, pt]" and "\<not> snd (store_Has (ss_blocklist st) now ip)"
    and "ValidateRequestSource (e_jwt env) (e_getClient env) now (token_Get (ss_tokens st)) (ss_connections st)
      (ci_type conn) (ci_addr conn) (sr_message r) = Ret (cid, err)"
  shows "\<exists>r' st'. RunMiddlewares env now server_mw_tree conn r st = Ret (r', st') \<and>
    sr_message r' = (sr_message r)\<lparr>m_from := if err = None then cid else []\<rparr> \<and>
    sr_status r' = ServiceRequestStatusQueued \<and> sr_barrier r' = sr_barrier r \<and> sr_context r' \<noteq> None \<and>
    GetContext r' ''is_authorized'' = Some (CBool (err = None \<and> cid \<noteq> [])) \<and>
    GetContext r' ''address'' = Some (CString (ci_addr conn)) \<and>
    GetContext r' ''connection_type'' = Some (CUint8 (ci_type conn)) \<and>
    (\<forall>k \<in> {''uri_pattern'', ''path_params'', ''query_params''}. GetContext r' k = GetContext r k) \<and>
    st' = st\<lparr>ss_blocklist := fst (store_Has (ss_blocklist st) now ip)\<rparr>"
proof -
  obtain c where c: "sr_context r = Some c" using assms(2) by auto
  let ?st1 = "st\<lparr>ss_blocklist := fst (store_Has (ss_blocklist st) now ip)\<rparr>"
  let ?r1 = "with_conn conn r"
  have r1: "sr_context ?r1 \<noteq> None" "sr_status ?r1 = ServiceRequestStatusQueued" using c assms(1)
    by (simp_all add: with_conn_def)
  define c1 where "c1 = the (sr_context ?r1)"
  have c1: "sr_context ?r1 = Some c1" using c by (simp add: c1_def with_conn_def)
  obtain c3 where c3: "mw_stage env now conn AuthMiddleware (?r1, ?st1) =
      Ret ((SetFrom ?r1 (if err = None then cid else []))\<lparr>sr_context := Some c3\<rparr>, ?st1)"
    "c3 ''is_authorized'' = Some (CBool (err = None \<and> cid \<noteq> []))"
    "\<forall>k. k \<notin> {''token'', ''is_authorized''} \<longrightarrow> c3 k = c1 k"
    using stage_auth [OF c1, of env now ?st1 conn cid err] assms(5) by (auto simp: with_conn_def)
  have "RunMiddlewares env now server_mw_tree conn r st =
      Ret ((SetFrom ?r1 (if err = None then cid else []))\<lparr>sr_context := Some c3\<rparr>, ?st1)"
    using assms(1,2,4) r1 c3(1) by (simp add: server_pipeline stage_connection stage_blocklist [OF _ assms(3)])
  then show ?thesis
    using c3(2,3) assms(1) c by (simp add: SetFrom_def GetContext_def with_conn_def c1_def)
qed

text \<open>
  C18. What the server's middlewares do to a request from an address that is not blocked: the request
  passes, still queued and with its message and barrier; its sender is replaced by the client that the
  authentication found, or by nobody; its context tells the connection and whether the sender is
  authorised.
\<close>

theorem middlewares_authenticate:
  assumes "sr_status r = ServiceRequestStatusQueued" and "sr_context r \<noteq> None"
    and "split_on CHR '':'' (ci_addr conn) = [ip, pt]" and "\<not> snd (store_Has (ss_blocklist st) now ip)"
    and "ValidateRequestSource (e_jwt env) (e_getClient env) now (token_Get (ss_tokens st)) (ss_connections st)
      (ci_type conn) (ci_addr conn) (sr_message r) = Ret (cid, err)"
  shows "\<exists>r' st'. RunMiddlewares env now server_mw_tree conn r st = Ret (r', st') \<and>
    sr_message r' = (sr_message r)\<lparr>m_from := if err = None then cid else []\<rparr> \<and>
    sr_status r' = ServiceRequestStatusQueued \<and> sr_barrier r' = sr_barrier r \<and> sr_context r' \<noteq> None \<and>
    GetContext r' ''is_authorized'' = Some (CBool (err = None \<and> cid \<noteq> [])) \<and>
    GetContext r' ''address'' = Some (CString (ci_addr conn)) \<and>
    GetContext r' ''connection_type'' = Some (CUint8 (ci_type conn)) \<and>
    (\<forall>k \<in> {''uri_pattern'', ''path_params'', ''query_params''}. GetContext r' k = GetContext r k) \<and>
    st' = st\<lparr>ss_blocklist := fst (store_Has (ss_blocklist st) now ip)\<rparr>"
  by (rule server_middlewares_pass [OF assms])

definition sample_state :: server_state where
  "sample_state = \<lparr>ss_blocklist = [(''9.9.9.9'', 100)], ss_throttle = [], ss_tokens = [], ss_connections = sample_manager\<rparr>"

definition sample_env :: server_env where
  "sample_env = \<lparr>e_serverId = ''hub'', e_jwt = sample_jwt, e_getClient = sample_client,
     e_addressGroup = AddressThrottleGroup 0 0, e_formatTime = (\<lambda>_. [])\<rparr>"

definition sample_conn :: "string \<Rightarrow> conn_info" where
  "sample_conn a = \<lparr>ci_type = 1, ci_addr = a\<rparr>"

theorem middlewares_authenticate_witness:
  "\<exists>r' st'. RunMiddlewares sample_env 5 server_mw_tree (sample_conn ''1.1.1.1:5'')
      (NewServiceRequest (NewMessage ''1'' ''alice'' [] ''/x'' MessageTypeServiceGetRequest [])) sample_state = Ret (r', st') \<and>
     m_from (sr_message r') = ''alice'' \<and> GetContext r' ''is_authorized'' = Some (CBool True)"
proof -
  let ?r = "NewServiceRequest (NewMessage ''1'' ''alice'' [] ''/x'' MessageTypeServiceGetRequest [])"
  have "split_on CHR '':'' (ci_addr (sample_conn ''1.1.1.1:5'')) = [''1.1.1.1'', ''5'']"
    "\<not> snd (store_Has (ss_blocklist sample_state) 5 ''1.1.1.1'')"
    "ValidateRequestSource (e_jwt sample_env) (e_getClient sample_env) 5 (token_Get (ss_tokens sample_state))
       (ss_connections sample_state) (ci_type (sample_conn ''1.1.1.1:5'')) (ci_addr (sample_conn ''1.1.1.1:5''))
       (sr_message ?r) = Ret (''alice'', None)"
    by code_simp+
  from middlewares_authenticate [OF _ _ this] show ?thesis by (fastforce simp: NewServiceRequest_def)
qed

text \<open>
  A request from a blocked address is still queued, so the middleware's answer is refused, and the
  runner then dereferences the \<open>nil\<close> the middleware returned.
\<close>

lemma blocked_request_panics:
  assumes "sr_status r = ServiceRequestStatusQueued" and "sr_context r \<noteq> None"
    and "split_on CHR '':'' (ci_addr conn) = [ip, pt]" and "snd (store_Has (ss_blocklist st) now ip)"
  shows "RunMiddlewares env now server_mw_tree conn r st = Panic"
  using assms stage_blocklist [of "with_conn conn r" conn ip pt env now st]
  by (simp add: server_pipeline stage_connection) (simp add: with_conn_def)

end
