(* ===== verification/Dispatcher.thy ===== *)
theory Dispatcher
  imports ServiceManager Middlewares
begin

text \<open>
  From an incoming message to the answer: \<open>MessageDispatcher.go\<close> and \<open>MessageHandler.go\<close> of
  \<open>src/hub_common/dispatcher\<close>, \<open>src/hub_server/message_dispatcher\<close>, the HTTP side of a connection
  (\<open>src/hub_common/http/HTTPWritableConnection.go\<close>, \<open>src/hub_server/http/MessageTransformer.go\<close>,
  \<open>src/hub_common/http/HTTPRequest.go\<close>, \<open>src/hub_server/modules/auth/BearerTokenUtil.go\<close>) and
  \<open>Send\<close> of \<open>src/hub_common/connection/Connection.go\<close>.

  A connection is its type and address, the messages written to it, and for HTTP the wait lock that
  the first answer opens. \<open>write\<close> gives the error of writing a message. A call that waits for the pool
  is run with the pool working off the tasks of the service in the order in which they were scheduled.
\<close>

section \<open>Sending\<close>

record out_conn =
  oc_info :: conn_info
  oc_open :: bool
  oc_out :: "Message list"

type_synonym writer = "Message \<Rightarrow> string option"

definition http_Send :: "writer \<Rightarrow> Message option \<Rightarrow> out_conn \<Rightarrow> out_conn \<times> string option go" where
  "http_Send write m c =
     (if oc_open c then (c, Ret (Some ''unable to send more than once for HTTP connection''))
      else (case m of
          None \<Rightarrow> (c\<lparr>oc_open := True\<rparr>, Panic)
        | Some msg \<Rightarrow>
            (case write msg of
               Some err \<Rightarrow> (c\<lparr>oc_open := True\<rparr>, Ret (Some err))
             | None \<Rightarrow> (c\<lparr>oc_open := True, oc_out := oc_out c @ [msg]\<rparr>, Ret None))))"

definition socket_Send :: "writer \<Rightarrow> Message option \<Rightarrow> out_conn \<Rightarrow> out_conn \<times> string option go" where
  "socket_Send write m c =
     (case m of
        None \<Rightarrow> (c, Panic)
      | Some msg \<Rightarrow>
          (case write msg of Some err \<Rightarrow> (c, Ret (Some err)) | None \<Rightarrow> (c\<lparr>oc_out := oc_out c @ [msg]\<rparr>, Ret None)))"

definition conn_Send :: "writer \<Rightarrow> Message option \<Rightarrow> out_conn \<Rightarrow> out_conn \<times> string option go" where
  "conn_Send write m c =
     (if ci_type (oc_info c) = TypeHTTP then http_Send write m c else socket_Send write m c)"

section \<open>HTTP requests\<close>

record http_request =
  hr_method :: string
  hr_path :: string
  hr_url :: string
  hr_remote :: string
  hr_headers :: "(string \<times> string list) list"
  hr_body :: "string + string"

definition mapHttpRequestMethodToMessageType :: "string \<Rightarrow> int option" where
  "mapHttpRequestMethodToMessageType method =
     (if method = ''GET'' then Some MessageTypeServiceGetRequest
      else if method = ''PUT'' then Some MessageTypeServicePutRequest
      else if method = ''POST'' then Some MessageTypeServicePostRequest
      else if method = ''PATCH'' then Some MessageTypeServicePatchRequest
      else if method = ''DELETE'' then Some MessageTypeServiceDeleteRequest
      else if method = ''HEAD'' then Some MessageTypeServiceHeadRequest
      else if method = ''OPTIONS'' then Some MessageTypeServiceOptionsRequest
      else None)"

definition reservedHeaders :: "string list" where
  "reservedHeaders = [''Whr'', ''From'', ''To'', ''Id'', ''Content-Type'', ''Content-Length'', ''Host'', ''User-Agent'',
     ''Accept'', ''Accept-Encoding'', ''Connection'', ''R-Token'']"

definition header_values :: "http_request \<Rightarrow> string \<Rightarrow> string list" where
  "header_values r k = (case map_of (hr_headers r) k of None \<Rightarrow> [] | Some vs \<Rightarrow> vs)"

definition isWhrRequest :: "http_request \<Rightarrow> bool" where
  "isWhrRequest r \<longleftrightarrow> header_values r ''Whr'' \<noteq> []"

definition transformHeaderFields :: "(string \<times> string list) list \<Rightarrow> Message \<Rightarrow> Message" where
  "transformHeaderFields hs m =
     fold (\<lambda>(k, v) m. if k \<notin> set reservedHeaders \<and> v \<noteq> [] then SetHeader m k (hd v) else m) hs m"

text \<open>\<open>BearerTokenUtil.go\<close>: the token is the first value of its own header.\<close>

definition AuthHeaderKey :: string where "AuthHeaderKey = ''R-Token''"

definition GetTrimmedHTTPToken :: "http_request \<Rightarrow> string" where
  "GetTrimmedHTTPToken r = (case header_values r AuthHeaderKey of [] \<Rightarrow> [] | v # _ \<Rightarrow> v)"

text \<open>\<open>HTTPRequest.go\<close>; the forms of a request are not parsed at this point, and \<open>marshal\<close> is the JSON encoder.\<close>

record WHttpRequest =
  wh_Method :: string
  wh_Header :: "(string \<times> string list) list"
  wh_Body :: string
  wh_RemoteAddr :: string

definition ToWHTTPRequest :: "http_request \<Rightarrow> string + WHttpRequest" where
  "ToWHTTPRequest r =
     (case hr_body r of
        Inl err \<Rightarrow> Inl err
      | Inr body \<Rightarrow> Inr \<lparr>wh_Method = hr_method r, wh_Header = hr_headers r, wh_Body = body, wh_RemoteAddr = hr_remote r\<rparr>)"

definition EncodeToWHTTPRequestJson :: "(WHttpRequest \<Rightarrow> string + string) \<Rightarrow> http_request \<Rightarrow> string + string" where
  "EncodeToWHTTPRequestJson marshal r = (case ToWHTTPRequest r of Inl err \<Rightarrow> Inl err | Inr whr \<Rightarrow> marshal whr)"

definition TransformRequest :: "(WHttpRequest \<Rightarrow> string + string) \<Rightarrow> string \<Rightarrow> http_request \<Rightarrow> string + Message" where
  "TransformRequest marshal genId r =
     (case mapHttpRequestMethodToMessageType (hr_method r) of
        None \<Rightarrow> Inl ''unsupported http method''
      | Some msgType \<Rightarrow>
          (if isWhrRequest r
           then (case EncodeToWHTTPRequestJson marshal r of
               Inl err \<Rightarrow> Inl err
             | Inr encoded \<Rightarrow> Inr (DraftMessage genId (hr_remote r) [] (hr_url r) MessageTypeServiceRequest encoded))
           else
             (let to = (case header_values r ''X-To'' of [] \<Rightarrow> [] | v # _ \<Rightarrow> v) in
              case hr_body r of
                Inl err \<Rightarrow> Inl err
              | Inr body \<Rightarrow>
                  Inr (transformHeaderFields (hr_headers r) (DraftMessage genId (GetTrimmedHTTPToken r) to (hr_path r) msgType body)))))"

section \<open>Handling a service request\<close>

definition NewJsonMessageError :: "string \<Rightarrow> string" where
  "NewJsonMessageError m = error_json m"

definition processIncomingMessage :: "Message \<Rightarrow> Message" where
  "processIncomingMessage m =
     (let uri = m_uri m in
      if length uri > 2 \<and> uri ! (length uri - 1) = CHR ''/'' \<and> uri ! (length uri - 2) \<noteq> CHR ''/''
      then m\<lparr>m_uri := butlast uri\<rparr> else m)"

definition registerRequestMetaContext :: "ServiceRequest \<Rightarrow> nat MatchContext \<Rightarrow> ServiceRequest go" where
  "registerRequestMetaContext r ctx =
     bind_go (SetContext r ''uri_pattern'' (CString (UriPattern ctx))) (\<lambda>r.
     bind_go (SetContext r ''path_params'' (CParams (PathParams ctx))) (\<lambda>r.
     SetContext r ''query_params'' (CParams (QueryParams ctx))))"

text \<open>The state of the server that a request meets.\<close>

record ('h, 'c) hub =
  h_env :: server_env
  h_tree :: mw_tree
  h_state :: server_state
  h_services :: "('h, 'c) ServiceManagerModule"

definition createRequest :: "int \<Rightarrow> Message \<Rightarrow> nat MatchContext \<Rightarrow> conn_info \<Rightarrow> ('h, 'c) hub \<Rightarrow>
    (ServiceRequest \<times> ('h, 'c) hub) go" where
  "createRequest now m ctx conn hub =
     bind_go (registerRequestMetaContext (NewServiceRequest m) ctx) (\<lambda>r.
     bind_go (RunMiddlewares (h_env hub) now (h_tree hub) conn r (h_state hub)) (\<lambda>(r, st).
       Ret (r, hub\<lparr>h_state := st\<rparr>)))"

text \<open>
  The pool runs the first task of a service. A panic of the executor is not recovered by anybody and
  ends the process.
\<close>

definition run_service_task :: "string \<Rightarrow> 'h caller \<Rightarrow> ('c \<Rightarrow> Message \<Rightarrow> string + Message) \<Rightarrow> ('h, 'c) IService \<Rightarrow>
    ('h, 'c) IService go" where
  "run_service_task host call ask x =
     (let q = serviceQueue (svc_base x) in
      case tasks q of
        [] \<Rightarrow> Ret x
      | a # _ \<Rightarrow>
          (let live = (\<not> UnProcessableServiceRequestMap (sr_status (requests q a)));
               r = TransitStatus (requests q a) ServiceRequestStatusProcessing in
           case x of
             INative n \<Rightarrow>
               (if live \<and> executor q \<and> snd (internal_Execute host call (ns_handler n) r) = Panic then Panic
                else bind_go (run_task (\<lambda>a reqs. reqs(a := fst (internal_Execute host call (ns_handler n) (reqs a)))) q)
                  (\<lambda>q'. Ret (INative (n\<lparr>ns_service := (ns_service n)\<lparr>serviceQueue := q'\<rparr>\<rparr>))))
           | IRelay s \<Rightarrow>
               (let e = rs_executors s (rs_queueExecutor s) in
                if live \<and> executor q \<and> snd (fst (relay_Execute ask e r)) = Panic then Panic
                else bind_go (run_task (\<lambda>a reqs. reqs(a := fst (fst (relay_Execute ask e (reqs a))))) q)
                  (\<lambda>q'. Ret (IRelay (s\<lparr>rs_service := (rs_service s)\<lparr>serviceQueue := q'\<rparr>,
                     rs_executors := (if live then (rs_executors s)(rs_queueExecutor s := snd (relay_Execute ask e r))
                       else rs_executors s)\<rparr>))))))"

fun drain :: "string \<Rightarrow> 'h caller \<Rightarrow> ('c \<Rightarrow> Message \<Rightarrow> string + Message) \<Rightarrow> nat \<Rightarrow> ('h, 'c) IService \<Rightarrow> ('h, 'c) IService go" where
  "drain host call ask 0 x = Ret x"
| "drain host call ask (Suc n) x = bind_go (run_service_task host call ask x) (drain host call ask n)"

text \<open>
  \<open>svc.Handle\<close> with the waiting: the request is stored at the address \<open>a\<close>, scheduled, and for a service
  that is not asynchronous the tasks of the queue are run and the response is read. \<open>Crashed\<close> is the end
  of the process, \<open>Blocked\<close> a wait that never ends.
\<close>

datatype 'a run = Finished 'a | Blocked | Crashed

definition update_queue :: "(ServiceTaskQueue \<Rightarrow> ServiceTaskQueue) \<Rightarrow> ('h, 'c) IService \<Rightarrow> ('h, 'c) IService" where
  "update_queue f x = set_base ((svc_base x)\<lparr>serviceQueue := f (serviceQueue (svc_base x))\<rparr>) x"

definition svc_Handle :: "string \<Rightarrow> 'h caller \<Rightarrow> ('c \<Rightarrow> Message \<Rightarrow> string + Message) \<Rightarrow> nat \<Rightarrow> ServiceRequest \<Rightarrow>
    ('h, 'c) IService \<Rightarrow> (('h, 'c) IService \<times> Message option go) run" where
  "svc_Handle host call ask a r x =
     (let x = update_queue (\<lambda>q. q\<lparr>requests := (requests q)(a := r)\<rparr>) x;
          x = set_base (Handle_schedule a (svc_base x)) x in
      if executionType (svc_base x) = ServiceExecutionAsync then Finished (x, Ret None)
      else (case drain host call ask (length (tasks (serviceQueue (svc_base x)))) x of
          Panic \<Rightarrow> Crashed
        | Ret x' \<Rightarrow> (case Handle_result a (svc_base x') of None \<Rightarrow> Blocked | Some res \<Rightarrow> Finished (x', res))))"

text \<open>The end of \<open>Handle\<close>: the request is freed and the answer is sent.\<close>

definition finish_request :: "writer \<Rightarrow> string \<Rightarrow> Message \<Rightarrow> Message option \<Rightarrow> out_conn \<Rightarrow> out_conn \<times> string option go" where
  "finish_request write serverId m response c =
     (if response = None \<and> \<not> IsAsyncType (ci_type (oc_info c))
      then conn_Send write (Some (NewErrorResponse m serverId MessageTypeSvcForbiddenError
             (NewJsonMessageError ''service does not support sync requests''))) c
      else conn_Send write response c)"

text \<open>
  The body of \<open>ServiceRequestMessageHandler.Handle\<close>. The state after a panic is not needed: the first
  component is \<open>None\<close> then.
\<close>

definition handle_body :: "writer \<Rightarrow> int \<Rightarrow> 'h caller \<Rightarrow> ('c \<Rightarrow> Message \<Rightarrow> string + Message) \<Rightarrow> nat \<Rightarrow> Message \<Rightarrow>
    out_conn \<Rightarrow> ('h, 'c) hub \<Rightarrow> (('h, 'c) hub option \<times> out_conn \<times> string option go) run" where
  "handle_body write now call ask a m0 c hub =
     (let serverId = e_serverId (h_env hub); m = processIncomingMessage m0 in
      case MatchServiceByUri (h_services hub) (m_uri m) of
        None \<Rightarrow>
          (let err = ''can not find service for uri '' @ m_uri m;
               (c', sent) = conn_Send write (Some (NewErrorMessage (m_id m) serverId (m_from m) (m_uri m)
                 MessageTypeSvcNotFoundError (NewJsonMessageError err))) c
           in (case sent of Panic \<Rightarrow> Finished (None, c', Panic) | Ret _ \<Rightarrow> Finished (Some hub, c', Ret (Some err))))
      | Some ctx \<Rightarrow>
          (case Value ctx of
             None \<Rightarrow> Finished (None, c, Panic)
           | Some s \<Rightarrow>
               (case createRequest now m ctx (oc_info c) hub of
                  Panic \<Rightarrow> Finished (None, c, Panic)
                | Ret (r, hub) \<Rightarrow>
                    (let sm = h_services hub in
                     if sr_status r > ServiceRequestStatusProcessing
                     then (case Response r of
                         None \<Rightarrow> Blocked
                       | Some Panic \<Rightarrow> Finished (None, c, Panic)
                       | Some (Ret resp) \<Rightarrow>
                           (let (c', res) = finish_request write serverId (sr_message r) (Some resp) c
                            in Finished (if res = Panic then None else Some hub, c', res)))
                     else (case svc_Handle serverId call ask a r (sm_heap sm s) of
                         Blocked \<Rightarrow> Blocked
                       | Crashed \<Rightarrow> Crashed
                       | Finished (x, Panic) \<Rightarrow> Finished (None, c, Panic)
                       | Finished (x, Ret response) \<Rightarrow>
                           (let r' = requests (serviceQueue (svc_base x)) a;
                                x = update_queue (\<lambda>q. q\<lparr>requests := (requests q)(a := Free r')\<rparr>) x;
                                hub = hub\<lparr>h_services := sm\<lparr>sm_heap := (sm_heap sm)(s := x)\<rparr>\<rparr>;
                                (c', res) = finish_request write serverId (sr_message r') response c
                            in Finished (if res = Panic then None else Some hub, c', res)))))))"

text \<open>The deferred recovery answers a panic with 500; \<open>panic_text\<close> is what \<open>recover\<close> returned, printed.\<close>

definition handle_service_request :: "string \<Rightarrow> writer \<Rightarrow> int \<Rightarrow> 'h caller \<Rightarrow> ('c \<Rightarrow> Message \<Rightarrow> string + Message) \<Rightarrow> nat \<Rightarrow> Message \<Rightarrow>
    out_conn \<Rightarrow> ('h, 'c) hub \<Rightarrow> (('h, 'c) hub option \<times> out_conn \<times> string option go) run" where
  "handle_service_request panic_text write now call ask a m c hub =
     (case handle_body write now call ask a m c hub of
        Finished (hub', c', Panic) \<Rightarrow>
          (let (c'', sent) = conn_Send write (Some (NewErrorResponse (processIncomingMessage m) (e_serverId (h_env hub))
                 MessageTypeSvcInternalError
                 (NewJsonMessageError (''unknown server internal error occurred: '' @ panic_text)))) c'
           in Finished (hub', c'', bind_go sent (\<lambda>_. Ret None)))
      | res \<Rightarrow> res)"

section \<open>The dispatcher\<close>

datatype msg_handler = HPing | HInvalid | HServiceRequest

definition handler_Type :: "msg_handler \<Rightarrow> int" where
  "handler_Type h = (case h of HPing \<Rightarrow> MessageTypePing | HInvalid \<Rightarrow> MessageTypeUnknown | HServiceRequest \<Rightarrow> MessageTypeServiceRequest)"

definition handler_Types :: "msg_handler \<Rightarrow> int list option" where
  "handler_Types h = (case h of HServiceRequest \<Rightarrow> Some ServiceRequestMessageHandlerTypes | _ \<Rightarrow> None)"

type_synonym MessageDispatcher = "(int \<times> msg_handler) list"

definition RegisterHandler :: "msg_handler \<Rightarrow> MessageDispatcher \<Rightarrow> MessageDispatcher" where
  "RegisterHandler h d =
     (case handler_Types h of
        None \<Rightarrow> AList.update (handler_Type h) h d
      | Some ts \<Rightarrow> fold (\<lambda>t d. AList.update t h d) ts d)"

definition UnregisterHandler :: "int \<Rightarrow> MessageDispatcher \<Rightarrow> MessageDispatcher \<times> bool" where
  "UnregisterHandler ty d = (if map_of d ty \<noteq> None then (AList.delete ty d, True) else (d, False))"

definition GetHandler :: "MessageDispatcher \<Rightarrow> int \<Rightarrow> msg_handler option" where
  "GetHandler d ty = map_of d ty"

definition server_dispatcher :: MessageDispatcher where
  "server_dispatcher = RegisterHandler HServiceRequest (RegisterHandler HInvalid (RegisterHandler HPing []))"

definition ping_Handle :: "string \<Rightarrow> writer \<Rightarrow> Message \<Rightarrow> out_conn \<Rightarrow> out_conn \<times> string option go" where
  "ping_Handle role write m c =
     conn_Send write (Some (if m_to m \<noteq> role
       then NewInternalErrorMessage (m_id m) role (m_from m) (m_uri m) ''incorrect receiver id''
       else NewPongMessage (m_id m) role (m_from m))) c"

definition invalid_Handle :: "string \<Rightarrow> writer \<Rightarrow> Message \<Rightarrow> out_conn \<Rightarrow> out_conn \<times> string option go" where
  "invalid_Handle role write m c =
     conn_Send write (Some (NewInternalErrorMessage (m_id m) role (m_from m) (m_uri m) ''invalid message(no handler found)'')) c"

text \<open>
  \<open>Dispatch\<close> on the pool; the error of the handler is only logged. A handler's panic other than the
  recovered ones ends the process.
\<close>

definition Dispatch :: "MessageDispatcher \<Rightarrow> string \<Rightarrow> writer \<Rightarrow> int \<Rightarrow> 'h caller \<Rightarrow> ('c \<Rightarrow> Message \<Rightarrow> string + Message) \<Rightarrow> nat \<Rightarrow>
    Message \<Rightarrow> out_conn \<Rightarrow> ('h, 'c) hub \<Rightarrow> (('h, 'c) hub option \<times> out_conn) run" where
  "Dispatch d panic_text write now call ask a m c hub =
     (let plain = (\<lambda>(c', res). case res of Panic \<Rightarrow> Crashed | Ret _ \<Rightarrow> Finished (Some hub, c')) in
      case GetHandler d (messageType m) of
        None \<Rightarrow> Finished (Some hub, c)
      | Some HPing \<Rightarrow> plain (ping_Handle (e_serverId (h_env hub)) write m c)
      | Some HInvalid \<Rightarrow> plain (invalid_Handle (e_serverId (h_env hub)) write m c)
      | Some HServiceRequest \<Rightarrow>
          (case handle_service_request panic_text write now call ask a m c hub of
             Blocked \<Rightarrow> Blocked
           | Crashed \<Rightarrow> Crashed
           | Finished (hub', c', Panic) \<Rightarrow> Crashed
           | Finished (hub', c', Ret _) \<Rightarrow> Finished (hub', c')))"

section \<open>Lemmas\<close>

lemma conn_Send_http: "ci_type (oc_info c) = TypeHTTP \<Longrightarrow> oc_open (fst (conn_Send write m c))"
  by (auto simp: conn_Send_def http_Send_def split: option.splits)

lemma conn_Send_info [simp]: "oc_info (fst (conn_Send write m c)) = oc_info c"
  by (auto simp: conn_Send_def http_Send_def socket_Send_def split: option.splits)

lemma conn_Send_writes:
  "write m = None \<Longrightarrow> \<not> oc_open c \<Longrightarrow> \<exists>o'. conn_Send write (Some m) c = (c\<lparr>oc_open := o', oc_out := oc_out c @ [m]\<rparr>, Ret None)"
  by (auto simp: conn_Send_def http_Send_def socket_Send_def intro: exI [of _ "oc_open c"])

lemma finish_request_http:
  "ci_type (oc_info c) = TypeHTTP \<Longrightarrow> oc_open (fst (finish_request write i m resp c)) \<and> oc_info (fst (finish_request write i m resp c)) = oc_info c"
  by (simp add: finish_request_def conn_Send_http)

lemma handle_body_http:
  assumes "ci_type (oc_info c) = TypeHTTP" and "handle_body write now call ask a m c hub = Finished (hub', c', res)"
  shows "oc_info c' = oc_info c \<and> (res = Panic \<or> oc_open c')"
proof -
  have send: "oc_open c'" "oc_info c' = oc_info c" if "conn_Send write x c = (c', res')" for x res'
    using conn_Send_http [OF assms(1), of "write" x] conn_Send_info [of "write" x c] that by auto
  have finish: "oc_open c'" "oc_info c' = oc_info c" if "finish_request write i x y c = (c', res')" for i x y res'
    using that finish_request_http [OF assms(1), of "write" i x y] by auto
  show ?thesis using assms(2)
    by (auto simp: handle_body_def Let_def dest: send finish
        split: option.splits prod.splits go.splits run.splits if_splits)
qed

lemma server_dispatcher_service: "ty \<in> set ServiceRequestMessageHandlerTypes \<Longrightarrow> GetHandler server_dispatcher ty = Some HServiceRequest"
  by (auto simp: GetHandler_def server_dispatcher_def RegisterHandler_def handler_Types_def handler_Type_def
      ServiceRequestMessageHandlerTypes_def)

lemma transformHeaderFields_type: "messageType (transformHeaderFields hs m) = messageType m"
  unfolding transformHeaderFields_def by (induction hs arbitrary: m) (auto simp: SetHeader_def)

lemma TransformRequest_type:
  "TransformRequest marshal genId r = Inr m \<Longrightarrow> messageType m \<in> set ServiceRequestMessageHandlerTypes"
  by (auto simp: TransformRequest_def mapHttpRequestMethodToMessageType_def transformHeaderFields_type DraftMessage_def
      NewMessage_def ServiceRequestMessageHandlerTypes_def Let_def split: option.splits sum.splits if_splits)

text \<open>The request as the router leaves it.\<close>

definition routed_request :: "Message \<Rightarrow> nat MatchContext \<Rightarrow> ServiceRequest" where
  "routed_request m ctx = (NewServiceRequest m)\<lparr>sr_context := Some [''uri_pattern'' \<mapsto> CString (UriPattern ctx),
     ''path_params'' \<mapsto> CParams (PathParams ctx), ''query_params'' \<mapsto> CParams (QueryParams ctx)]\<rparr>"

lemma registerRequestMetaContext_New: "registerRequestMetaContext (NewServiceRequest m) ctx = Ret (routed_request m ctx)"
  by (simp add: registerRequestMetaContext_def SetContext_def NewServiceRequest_def routed_request_def)

lemma routed_request_simps [simp]:
  "sr_status (routed_request m ctx) = ServiceRequestStatusQueued" "sr_context (routed_request m ctx) \<noteq> None"
  "sr_message (routed_request m ctx) = m" "sr_barrier (routed_request m ctx) = Some NewStatefulBarrier"
  by (simp_all add: routed_request_def NewServiceRequest_def)

text \<open>The conditions under which the server's middlewares let a message pass as one of the client \<open>from\<close>.\<close>

definition admitted :: "int \<Rightarrow> conn_info \<Rightarrow> ('h, 'c) hub \<Rightarrow> Message \<Rightarrow> string \<Rightarrow> bool" where
  "admitted now conn hub m from \<longleftrightarrow> h_tree hub = server_mw_tree \<and>
     (\<exists>ip pt cid err. split_on CHR '':'' (ci_addr conn) = [ip, pt] \<and>
       \<not> snd (store_Has (ss_blocklist (h_state hub)) now ip) \<and>
       ValidateRequestSource (e_jwt (h_env hub)) (e_getClient (h_env hub)) now (token_Get (ss_tokens (h_state hub)))
         (ss_connections (h_state hub)) (ci_type conn) (ci_addr conn) m = Ret (cid, err) \<and>
       from = (if err = None then cid else []))"

lemma createRequest_admitted:
  assumes "admitted now conn hub m from"
  obtains r st where "createRequest now m ctx conn hub = Ret (r, hub\<lparr>h_state := st\<rparr>)"
    "sr_message r = m\<lparr>m_from := from\<rparr>" "sr_status r = ServiceRequestStatusQueued" "sr_barrier r = Some NewStatefulBarrier"
    "req_routed r (UriPattern ctx) (PathParams ctx) (QueryParams ctx) (Some (ci_type conn))"
proof -
  obtain ip pt cid err where a: "h_tree hub = server_mw_tree" "split_on CHR '':'' (ci_addr conn) = [ip, pt]"
    "\<not> snd (store_Has (ss_blocklist (h_state hub)) now ip)"
    "ValidateRequestSource (e_jwt (h_env hub)) (e_getClient (h_env hub)) now (token_Get (ss_tokens (h_state hub)))
       (ss_connections (h_state hub)) (ci_type conn) (ci_addr conn) m = Ret (cid, err)"
    "from = (if err = None then cid else [])"
    using assms by (auto simp: admitted_def)
  obtain r st where "RunMiddlewares (h_env hub) now server_mw_tree conn (routed_request m ctx) (h_state hub) = Ret (r, st)"
    "sr_message r = m\<lparr>m_from := from\<rparr>" "sr_status r = ServiceRequestStatusQueued" "sr_barrier r = Some NewStatefulBarrier"
    "GetContext r ''connection_type'' = Some (CUint8 (ci_type conn))"
    "\<forall>k \<in> {''uri_pattern'', ''path_params'', ''query_params''}. GetContext r k = GetContext (routed_request m ctx) k"
    using server_middlewares_pass [of "routed_request m ctx" conn ip pt "h_state hub" now "h_env hub" cid err] a by auto
  then show thesis using a(1)
    by (intro that [of r st]) (simp_all add: createRequest_def registerRequestMetaContext_New req_routed_def,
        simp_all add: routed_request_def GetContext_def)
qed

text \<open>A native service that waits for its answers and has no work.\<close>

definition native_idle :: "'h NativeService \<Rightarrow> string \<Rightarrow> bool" where
  "native_idle n i \<longleftrightarrow> executionType (ns_service n) \<noteq> ServiceExecutionAsync \<and> executor (serviceQueue (ns_service n)) \<and>
     tasks (serviceQueue (ns_service n)) = [] \<and> \<not> queue_Has (serviceQueue (ns_service n)) i"

lemma svc_Handle_native:
  assumes "native_idle n (m_id (sr_message r))" and "sr_status r = ServiceRequestStatusQueued"
    and "internal_Execute host call (ns_handler n) (r\<lparr>sr_status := ServiceRequestStatusProcessing\<rparr>) = (r', Ret ())"
    and "Response r' = Some (Ret resp)"
  shows "\<exists>x. svc_Handle host call ask a r (INative n) = Finished (x, Ret (Some resp)) \<and>
    requests (serviceQueue (svc_base x)) a = r'"
proof -
  let ?q = "serviceQueue (ns_service n)"
  let ?q1 = "?q\<lparr>requests := (requests ?q)(a := r)\<rparr>"
  let ?exec = "\<lambda>a reqs. reqs(a := fst (internal_Execute host call (ns_handler n) (reqs a)))"
  have sched: "queue_Schedule ?q1 a = (?q1\<lparr>requestSet := AList.update (m_id (sr_message r)) a (requestSet ?q), tasks := [a]\<rparr>, True)"
    using assms(1) by (simp add: queue_Schedule_def native_idle_def queue_Has_def req_id_def)
  obtain q' where "run_task ?exec (fst (queue_Schedule ?q1 a)) = Ret q'" "requests q' = (requests ?q)(a := r')"
    using assms(1-3)
    by (auto simp: sched run_task_def Let_def UnProcessableServiceRequestMap_def native_idle_def TransitStatus_def
        setStatus_def queue_Remove_def)
  then show ?thesis using assms
    by (simp add: svc_Handle_def update_queue_def Handle_schedule_def sched native_idle_def run_service_task_def Let_def
        UnProcessableServiceRequestMap_def TransitStatus_def setStatus_def Handle_result_def)
qed

text \<open>The contract of a handler that answers every request: it resolves it with \<open>answer\<close>.\<close>

definition handler_answers :: "'h caller \<Rightarrow> 'h \<Rightarrow> params \<Rightarrow> params \<Rightarrow> (Message \<Rightarrow> Message) \<Rightarrow> bool" where
  "handler_answers call f ps qs answer \<longleftrightarrow>
     (\<forall>r. call f r ps qs = (fst (Resolve r (Some (answer (sr_message r)))), Ret None))"

lemma internal_Execute_answers:
  assumes "req_routed r pat ps qs conn" and "native_routes n pat (messageType (sr_message r)) = Some f"
    and "handler_answers call f ps qs answer" and "sr_status r = ServiceRequestStatusProcessing"
    and "sr_barrier r = Some NewStatefulBarrier"
  shows "\<exists>r'. internal_Execute host call (ns_handler n) r = (r', Ret ()) \<and> Response r' = Some (Ret (answer (sr_message r))) \<and>
    sr_message r' = sr_message r"
proof -
  have ok: "req_ok r" using assms(4,5) by (simp add: req_ok_def NewStatefulBarrier_def NewWaitLock_def)
  obtain m where m: "map_of (ns_handler n) pat = Some m" "map_of m (messageType (sr_message r)) = Some f"
    using assms(2) by (auto simp: native_routes_def split: option.splits)
  have "select_handler (ns_handler n) b pat r = (r, Ret (Some f))" for b
    by (subst select_handler_branches [OF ok assms(4)]) (simp_all add: m assms(5) del: map_of_eq_Some_iff)
  then have "default_Handle call (ns_handler n) r = call f r ps qs"
    by (simp add: default_Handle_select [OF assms(1)])
  then show ?thesis
    using assms(3,5) Resolve_responds [OF ok assms(4), of "answer (sr_message r)"]
    by (simp add: internal_Execute_def handler_answers_def)
qed

lemma processIncomingMessage_keeps [simp]:
  "m_id (processIncomingMessage m) = m_id m" "messageType (processIncomingMessage m) = messageType m"
  by (simp_all add: processIncomingMessage_def Let_def)

lemma dispatched_http_is_answered:
  assumes "TransformRequest marshal genId req = Inr m" and "ci_type (oc_info c) = TypeHTTP"
    and "Dispatch server_dispatcher panic_text write now call ask a m c hub = Finished (hub', c')"
  shows "oc_open c'"
proof -
  obtain res where h: "handle_service_request panic_text write now call ask a m c hub = Finished (hub', c', res)"
    using assms(3) server_dispatcher_service [OF TransformRequest_type [OF assms(1)]]
    by (auto simp: Dispatch_def Let_def split: run.splits go.splits prod.splits)
  then obtain hub1 c1 res1 where b: "handle_body write now call ask a m c hub = Finished (hub1, c1, res1)"
    by (auto simp: handle_service_request_def split: run.splits go.splits prod.splits)
  note c1 = handle_body_http [OF assms(2) b]
  show ?thesis
  proof (cases res1)
    case Panic
    then obtain x where "c' = fst (conn_Send write x c1)"
      using h b by (auto simp: handle_service_request_def Let_def case_prod_beta)
    then show ?thesis using c1 assms(2) by (simp add: conn_Send_http)
  next
    case (Ret x)
    then show ?thesis using h b c1 by (auto simp: handle_service_request_def)
  qed
qed

section \<open>Properties\<close>

text \<open>
  C4. An HTTP request that the dispatcher finishes has been answered: the wait lock of its connection is
  open, so the HTTP handler that waits for it returns, whatever the service, the middlewares or the
  writer did, panics included.
\<close>

theorem http_request_is_answered:
  assumes "TransformRequest marshal genId req = Inr m" and "ci_type (oc_info c) = TypeHTTP"
    and "Dispatch server_dispatcher panic_text write now call ask a m c hub = Finished (hub', c')"
  shows "oc_open c'"
  by (rule dispatched_http_is_answered [OF assms])

text \<open>
  C3. From the message to the answer. A service request whose uri the router matches to a native service
  with a handler for it, from a sender that the middlewares admit, is answered with exactly one message:
  what the handler answers to the message, with the authenticated client as its sender.
\<close>

theorem native_request_is_served:
  assumes "messageType m \<in> set ServiceRequestMessageHandlerTypes"
    and "MatchServiceByUri (h_services hub) (m_uri (processIncomingMessage m)) = Some ctx" and "Value ctx = Some s"
    and "sm_heap (h_services hub) s = INative n" and "native_idle n (m_id m)"
    and "native_routes n (UriPattern ctx) (messageType m) = Some f"
    and "handler_answers call f (PathParams ctx) (QueryParams ctx) answer"
    and "admitted now (oc_info c) hub (processIncomingMessage m) from"
    and "\<And>x. write x = None" and "\<not> oc_open c"
  shows "\<exists>hub' c'. Dispatch server_dispatcher panic_text write now call ask a m c hub = Finished (Some hub', c') \<and>
    oc_out c' = oc_out c @ [answer ((processIncomingMessage m)\<lparr>m_from := from\<rparr>)]"
proof -
  let ?m = "processIncomingMessage m" and ?id = "e_serverId (h_env hub)"
  obtain r st where r: "createRequest now ?m ctx (oc_info c) hub = Ret (r, hub\<lparr>h_state := st\<rparr>)"
    "sr_message r = ?m\<lparr>m_from := from\<rparr>" "sr_status r = ServiceRequestStatusQueued" "sr_barrier r = Some NewStatefulBarrier"
    "req_routed r (UriPattern ctx) (PathParams ctx) (QueryParams ctx) (Some (ci_type (oc_info c)))"
    using createRequest_admitted [OF assms(8)] by blast
  let ?r = "r\<lparr>sr_status := ServiceRequestStatusProcessing\<rparr>"
  obtain r' where r': "internal_Execute ?id call (ns_handler n) ?r = (r', Ret ())"
    "Response r' = Some (Ret (answer (?m\<lparr>m_from := from\<rparr>)))"
    using internal_Execute_answers [of ?r "UriPattern ctx" "PathParams ctx" "QueryParams ctx" "Some (ci_type (oc_info c))" n f call answer]
      r assms(6,7) by (auto simp: req_routed_def GetContext_def)
  obtain x where x: "svc_Handle ?id call ask a r (INative n) = Finished (x, Ret (Some (answer (?m\<lparr>m_from := from\<rparr>))))"
    using svc_Handle_native [OF _ r(3) r'] assms(5) r(2) by auto
  obtain o' where "conn_Send write (Some (answer (?m\<lparr>m_from := from\<rparr>))) c =
      (c\<lparr>oc_open := o', oc_out := oc_out c @ [answer (?m\<lparr>m_from := from\<rparr>)]\<rparr>, Ret None)"
    using conn_Send_writes [of "write", OF assms(9,10)] by blast
  then show ?thesis using assms(1-4) r(1,3) x
    by (simp add: Dispatch_def server_dispatcher_service handle_service_request_def handle_body_def Let_def finish_request_def)
qed

text \<open>
  C25. A service request for a uri that no service offers is answered with exactly one message, a 404, and
  changes nothing.
\<close>

theorem unknown_uri_is_answered_404:
  assumes "messageType m \<in> set ServiceRequestMessageHandlerTypes"
    and "MatchServiceByUri (h_services hub) (m_uri (processIncomingMessage m)) = None"
    and "\<And>x. write x = None" and "\<not> oc_open c"
  shows "\<exists>c'. Dispatch server_dispatcher panic_text write now call ask a m c hub = Finished (Some hub, c') \<and>
    (\<exists>resp. oc_out c' = oc_out c @ [resp] \<and> messageType resp = MessageTypeSvcNotFoundError \<and>
      m_id resp = m_id m \<and> m_to resp = m_from (processIncomingMessage m))"
proof -
  let ?m = "processIncomingMessage m"
  let ?resp = "NewErrorMessage (m_id ?m) (e_serverId (h_env hub)) (m_from ?m) (m_uri ?m) MessageTypeSvcNotFoundError
    (NewJsonMessageError (''can not find service for uri '' @ m_uri ?m))"
  obtain o' where "conn_Send write (Some ?resp) c = (c\<lparr>oc_open := o', oc_out := oc_out c @ [?resp]\<rparr>, Ret None)"
    using conn_Send_writes [of "write", OF assms(3,4)] by blast
  moreover have "messageType ?resp = MessageTypeSvcNotFoundError" "m_id ?resp = m_id m" "m_to ?resp = m_from ?m"
    by (simp_all add: NewErrorMessage_def NewMessage_def)
  ultimately show ?thesis using assms(1,2)
    by (simp add: Dispatch_def server_dispatcher_service handle_service_request_def handle_body_def Let_def)
qed

text \<open>A recovered panic is answered with 500.\<close>

lemma handle_recovers:
  assumes "handle_body write now call ask a m c hub = Finished (h', c, Panic)" and "\<And>x. write x = None" and "\<not> oc_open c"
    and "messageType m \<in> set ServiceRequestMessageHandlerTypes"
  shows "\<exists>c' resp. Dispatch server_dispatcher panic_text write now call ask a m c hub = Finished (h', c') \<and>
    oc_out c' = oc_out c @ [resp] \<and> messageType resp = MessageTypeSvcInternalError \<and> m_id resp = m_id m"
proof -
  let ?resp = "NewErrorResponse (processIncomingMessage m) (e_serverId (h_env hub)) MessageTypeSvcInternalError
     (NewJsonMessageError (''unknown server internal error occurred: '' @ panic_text))"
  obtain o' where "conn_Send write (Some ?resp) c = (c\<lparr>oc_open := o', oc_out := oc_out c @ [?resp]\<rparr>, Ret None)"
    using conn_Send_writes [of "write", OF assms(2,3)] by blast
  moreover have "messageType ?resp = MessageTypeSvcInternalError" "m_id ?resp = m_id m"
    by (simp_all add: NewErrorResponse_def NewMessage_def)
  ultimately show ?thesis using assms(1,4)
    by (simp add: Dispatch_def server_dispatcher_service handle_service_request_def Let_def)
qed

text \<open>
  A request from a blocked address is answered with 500, an unknown internal error, and not with the
  403 that the block list middleware composes: its answer is refused because the request is still queued,
  and the runner of the middlewares dereferences the \<open>nil\<close> that the middleware returns.
\<close>

theorem blocked_request_gets_500:
  assumes "messageType m \<in> set ServiceRequestMessageHandlerTypes"
    and "MatchServiceByUri (h_services hub) (m_uri (processIncomingMessage m)) = Some ctx" and "Value ctx = Some s"
    and "h_tree hub = server_mw_tree" and "split_on CHR '':'' (ci_addr (oc_info c)) = [ip, pt]"
    and "snd (store_Has (ss_blocklist (h_state hub)) now ip)" and "\<And>x. write x = None" and "\<not> oc_open c"
  shows "\<exists>h' c' resp. Dispatch server_dispatcher panic_text write now call ask a m c hub = Finished (h', c') \<and>
    oc_out c' = oc_out c @ [resp] \<and> messageType resp = MessageTypeSvcInternalError \<and> m_id resp = m_id m"
proof -
  have "createRequest now (processIncomingMessage m) ctx (oc_info c) hub = Panic"
    using blocked_request_panics [of "routed_request (processIncomingMessage m) ctx" "oc_info c" ip pt "h_state hub" now] assms(4-6)
    by (simp add: createRequest_def registerRequestMetaContext_New)
  then have "handle_body write now call ask a m c hub = Finished (None, c, Panic)"
    using assms(2,3) by (simp add: handle_body_def Let_def)
  from handle_recovers [OF this assms(7,8,1)] show ?thesis by blast
qed

text \<open>
  A request to an asynchronous service over a socket is answered with 500 although it was scheduled:
  \<open>Handle\<close> returns \<open>nil\<close> as the response, and sending \<open>nil\<close> panics.
\<close>

theorem async_service_answers_500:
  assumes "messageType m \<in> set ServiceRequestMessageHandlerTypes"
    and "MatchServiceByUri (h_services hub) (m_uri (processIncomingMessage m)) = Some ctx" and "Value ctx = Some s"
    and "executionType (svc_base (sm_heap (h_services hub) s)) = ServiceExecutionAsync"
    and "admitted now (oc_info c) hub (processIncomingMessage m) from" and "IsAsyncType (ci_type (oc_info c))"
    and "\<And>x. write x = None" and "\<not> oc_open c"
  shows "\<exists>h' c' resp. Dispatch server_dispatcher panic_text write now call ask a m c hub = Finished (h', c') \<and>
    oc_out c' = oc_out c @ [resp] \<and> messageType resp = MessageTypeSvcInternalError \<and> m_id resp = m_id m"
proof -
  obtain r st where r: "createRequest now (processIncomingMessage m) ctx (oc_info c) hub = Ret (r, hub\<lparr>h_state := st\<rparr>)"
    "sr_status r = ServiceRequestStatusQueued"
    using createRequest_admitted [OF assms(5)] by blast
  obtain x where "svc_Handle (e_serverId (h_env hub)) call ask a r (sm_heap (h_services hub) s) = Finished (x, Ret None)"
    using assms(4) by (simp add: svc_Handle_def update_queue_def Handle_schedule_def Let_def)
  moreover have "conn_Send write None c = (c, Panic)"
    using assms(6) by (simp add: conn_Send_def socket_Send_def IsAsyncType_def)
  ultimately have "handle_body write now call ask a m c hub = Finished (None, c, Panic)"
    using assms(2,3,6) r by (simp add: handle_body_def finish_request_def Let_def)
  from handle_recovers [OF this assms(7,8,1)] show ?thesis by blast
qed

section \<open>Witnesses\<close>

definition sample_native :: "int \<Rightarrow> unit NativeService" where
  "sample_native exeType = fst (RegisterRoutes [(MessageTypeServiceGetRequest, ''/hi'', ())]
     (NewNativeService (sample_provider ''hub'') 0 (\<lambda>_. sample_request) ''echo'' [] ServiceTypeInternal 0 exeType))"

definition sample_hub :: "int \<Rightarrow> (unit, nat) hub" where
  "sample_hub exeType = \<lparr>h_env = sample_env, h_tree = server_mw_tree, h_state = sample_state,
     h_services = fst (registerService ''hub'' ''hub'' 0 (sm_Init (\<lambda>_. INative (sample_native exeType))))\<rparr>"

definition sample_get :: Message where
  "sample_get = NewMessage ''1'' ''alice'' [] ''/echo/hi/'' MessageTypeServiceGetRequest ''x''"

definition sample_out :: "string \<Rightarrow> out_conn" where
  "sample_out addr = \<lparr>oc_info = sample_conn addr, oc_open = False, oc_out = []\<rparr>"

lemma sample_hub_fields [simp]:
  "h_env (sample_hub e) = sample_env" "h_tree (sample_hub e) = server_mw_tree" "h_state (sample_hub e) = sample_state"
  "sm_heap (h_services (sample_hub e)) s = INative (sample_native e)"
  by (simp_all add: sample_hub_def registerService_def sm_Init_def Let_def)

lemma sample_get_type: "messageType sample_get \<in> set ServiceRequestMessageHandlerTypes" "m_id sample_get = ''1''"
  by (simp_all add: sample_get_def NewMessage_def ServiceRequestMessageHandlerTypes_def)

lemma sample_match:
  assumes "e = ServiceExecutionSync \<or> e = ServiceExecutionAsync"
  shows "\<exists>ctx. MatchServiceByUri (h_services (sample_hub e)) (m_uri (processIncomingMessage sample_get)) = Some ctx \<and>
    Value ctx = Some 0 \<and> UriPattern ctx = ''/echo/hi''"
proof -
  have "map_option (\<lambda>c. (Value c, UriPattern c))
      (MatchServiceByUri (h_services (sample_hub ServiceExecutionSync)) (m_uri (processIncomingMessage sample_get))) =
      Some (Some 0, ''/echo/hi'')" by code_simp
  moreover have "map_option (\<lambda>c. (Value c, UriPattern c))
      (MatchServiceByUri (h_services (sample_hub ServiceExecutionAsync)) (m_uri (processIncomingMessage sample_get))) =
      Some (Some 0, ''/echo/hi'')" by code_simp
  ultimately show ?thesis using assms by (auto simp del: ServiceExecutionSync_def ServiceExecutionAsync_def)
qed

lemma sample_admitted: "admitted 5 (oc_info (sample_out ''1.1.1.1:5'')) (sample_hub e) (processIncomingMessage sample_get) ''alice''"
proof -
  have "split_on CHR '':'' ''1.1.1.1:5'' = [''1.1.1.1'', ''5'']" "\<not> snd (store_Has (ss_blocklist sample_state) 5 ''1.1.1.1'')"
    "ValidateRequestSource (e_jwt sample_env) (e_getClient sample_env) 5 (token_Get (ss_tokens sample_state))
       (ss_connections sample_state) 1 ''1.1.1.1:5'' (processIncomingMessage sample_get) = Ret (''alice'', None)"
    by code_simp+
  then show ?thesis by (simp add: admitted_def sample_out_def sample_conn_def)
qed

theorem native_request_is_served_witness:
  "\<exists>hub' c'. Dispatch server_dispatcher [] (\<lambda>_. None) 5 echo_call (\<lambda>_ _. Inl []) 0 sample_get (sample_out ''1.1.1.1:5'')
     (sample_hub ServiceExecutionSync) = Finished (Some hub', c') \<and>
   oc_out c' = [(processIncomingMessage sample_get)\<lparr>m_from := ''alice''\<rparr>]"
proof -
  obtain ctx where ctx: "MatchServiceByUri (h_services (sample_hub ServiceExecutionSync)) (m_uri (processIncomingMessage sample_get)) = Some ctx"
    "Value ctx = Some 0" "UriPattern ctx = ''/echo/hi''" using sample_match by blast
  have "native_idle (sample_native ServiceExecutionSync) ''1''"
    "native_routes (sample_native ServiceExecutionSync) ''/echo/hi'' (messageType sample_get) = Some ()"
    by code_simp+
  moreover have "handler_answers echo_call () ps qs (\<lambda>m. m)" for ps qs
    by (simp add: handler_answers_def echo_call_def)
  moreover have "oc_out (sample_out ''1.1.1.1:5'') = []" "\<not> oc_open (sample_out ''1.1.1.1:5'')" by (simp_all add: sample_out_def)
  ultimately show ?thesis
    using native_request_is_served [OF sample_get_type(1) ctx(1,2) sample_hub_fields(4) _ _ _ sample_admitted,
        of "()" echo_call "\<lambda>m. m" "\<lambda>_. None" "[]" "\<lambda>_ _. Inl []" 0]
    by (simp add: ctx(3) sample_get_type(2))
qed

theorem unknown_uri_is_answered_404_witness:
  "\<exists>c' resp. Dispatch server_dispatcher [] (\<lambda>_. None) 5 echo_call (\<lambda>_ _. Inl []) 0 (sample_get\<lparr>m_uri := ''/nowhere/a/b''\<rparr>)
     (sample_out ''1.1.1.1:5'') (sample_hub ServiceExecutionSync) = Finished (Some (sample_hub ServiceExecutionSync), c') \<and>
   oc_out c' = [resp] \<and> messageType resp = 404"
proof -
  let ?m = "sample_get\<lparr>m_uri := ''/nowhere/a/b''\<rparr>"
  have "messageType ?m \<in> set ServiceRequestMessageHandlerTypes" using sample_get_type(1) by simp
  moreover have "map_option Value (MatchServiceByUri (h_services (sample_hub ServiceExecutionSync)) (m_uri (processIncomingMessage ?m))) = None"
    by code_simp
  moreover have "oc_out (sample_out ''1.1.1.1:5'') = []" "\<not> oc_open (sample_out ''1.1.1.1:5'')" by (simp_all add: sample_out_def)
  ultimately show ?thesis
    using unknown_uri_is_answered_404 [of ?m "sample_hub ServiceExecutionSync" "\<lambda>_. None" "sample_out ''1.1.1.1:5''" "[]" 5
        echo_call "\<lambda>_ _. Inl []" 0] by fastforce
qed

theorem blocked_request_gets_500_witness:
  "\<exists>h' c' resp. Dispatch server_dispatcher [] (\<lambda>_. None) 5 echo_call (\<lambda>_ _. Inl []) 0 sample_get (sample_out ''9.9.9.9:1'')
     (sample_hub ServiceExecutionSync) = Finished (h', c') \<and> oc_out c' = [resp] \<and> messageType resp = 500"
proof -
  obtain ctx where ctx: "MatchServiceByUri (h_services (sample_hub ServiceExecutionSync)) (m_uri (processIncomingMessage sample_get)) = Some ctx"
    "Value ctx = Some 0" using sample_match by blast
  have "split_on CHR '':'' ''9.9.9.9:1'' = [''9.9.9.9'', ''1'']" "snd (store_Has (ss_blocklist sample_state) 5 ''9.9.9.9'')"
    by code_simp+
  moreover have "ci_addr (oc_info (sample_out a)) = a" "oc_out (sample_out a) = []" "\<not> oc_open (sample_out a)" for a
    by (simp_all add: sample_out_def sample_conn_def)
  ultimately show ?thesis
    using blocked_request_gets_500 [OF sample_get_type(1) ctx sample_hub_fields(2),
        of "sample_out ''9.9.9.9:1''" "''9.9.9.9''" "''1''" 5 "\<lambda>_. None" "[]" echo_call "\<lambda>_ _. Inl []" 0]
    by fastforce
qed

theorem async_service_answers_500_witness:
  "\<exists>h' c' resp. Dispatch server_dispatcher [] (\<lambda>_. None) 5 echo_call (\<lambda>_ _. Inl []) 0 sample_get (sample_out ''1.1.1.1:5'')
     (sample_hub ServiceExecutionAsync) = Finished (h', c') \<and> oc_out c' = [resp] \<and> messageType resp = 500"
proof -
  obtain ctx where ctx: "MatchServiceByUri (h_services (sample_hub ServiceExecutionAsync)) (m_uri (processIncomingMessage sample_get)) = Some ctx"
    "Value ctx = Some 0" using sample_match by blast
  have "executionType (ns_service (sample_native ServiceExecutionAsync)) = ServiceExecutionAsync" by code_simp
  moreover have "oc_out (sample_out a) = []" "\<not> oc_open (sample_out a)" "IsAsyncType (ci_type (oc_info (sample_out a)))" for a
    by (simp_all add: sample_out_def sample_conn_def IsAsyncType_def)
  ultimately show ?thesis
    using async_service_answers_500 [OF sample_get_type(1) ctx _ sample_admitted, of "\<lambda>_. None" "[]" echo_call "\<lambda>_ _. Inl []" 0]
    by fastforce
qed

theorem http_request_is_answered_witness:
  "\<exists>h' c'. Dispatch server_dispatcher [] (\<lambda>_. None) 5 echo_call (\<lambda>_ _. Inl []) 0
       (transformHeaderFields [] (DraftMessage ''1'' [] [] ''/nowhere'' MessageTypeServiceGetRequest []))
       \<lparr>oc_info = \<lparr>ci_type = TypeHTTP, ci_addr = ''1.1.1.1:5''\<rparr>, oc_open = False, oc_out = []\<rparr> (sample_hub ServiceExecutionSync) =
     Finished (h', c') \<and> oc_open c'"
proof -
  let ?m = "transformHeaderFields [] (DraftMessage ''1'' [] [] ''/nowhere'' MessageTypeServiceGetRequest [])"
  let ?c = "\<lparr>oc_info = \<lparr>ci_type = TypeHTTP, ci_addr = ''1.1.1.1:5''\<rparr>, oc_open = False, oc_out = []\<rparr>"
  let ?d = "Dispatch server_dispatcher [] (\<lambda>_. None) 5 echo_call (\<lambda>_ _. Inl []) 0 ?m ?c (sample_hub ServiceExecutionSync)"
  let ?req = "\<lparr>hr_method = ''GET'', hr_path = ''/nowhere'', hr_url = [], hr_remote = [], hr_headers = [], hr_body = Inr []\<rparr>"
  have "TransformRequest (\<lambda>_. Inl []) ''1'' ?req = Inr ?m"
    by (simp add: TransformRequest_def mapHttpRequestMethodToMessageType_def isWhrRequest_def header_values_def GetTrimmedHTTPToken_def)
  moreover have "case ?d of Finished _ \<Rightarrow> True | _ \<Rightarrow> False" by code_simp
  then obtain h' c' where "?d = Finished (h', c')" by (auto split: run.splits)
  ultimately show ?thesis using http_request_is_answered [of _ _ ?req ?m ?c] by fastforce
qed

end
