(* ===== verification/Clients.thy ===== *)
theory Clients
  imports Auth
begin

text \<open>
  The client manager of the server: \<open>ClientManagerModule.go\<close>, \<open>client_store/InMemoryStore.go\<close> and the
  query of \<open>client_store/IClientStore.go\<close> under \<open>src/hub_server/modules/client_manager\<close>, and
  \<open>src/hub_server/client/Client.go\<close>.

  Clients are objects that the store shares with its callers: they live in a heap and the store maps
  an id to an address. The error of an operation is its text. The MySQL and cached stores are in
  \<open>CachedClients\<close>; \<open>createClientManagerStore\<close> takes the results of opening them.
\<close>

section \<open>Client.go\<close>

definition NewAnonymousClient :: CommonClient where
  "NewAnonymousClient = NewClient [] [] ClientTypeAnonymous [] 0"

definition NewClientFromDescriptor :: "RoleDescriptor \<Rightarrow> ClientExtraInfoDescriptor \<Rightarrow> CommonClient" where
  "NewClientFromDescriptor d e = NewClientByDescriptor d e"

definition quoted :: "string \<Rightarrow> string" where
  "quoted s = [CHR 0x22] @ s @ [CHR 0x22]"

definition role_String :: "RoleDescriptor \<Rightarrow> string" where
  "role_String d =
     ''{'' @ quoted ''id'' @ '':'' @ quoted (rd_Id d) @ '','' @ quoted ''description'' @ '':'' @ quoted (rd_Description d) @
     '','' @ quoted ''roleType'' @ '':'' @ quoted (rd_RoleType d) @ '','' @ quoted ''address'' @ '':'' @ quoted (rd_Address d) @
     '','' @ quoted ''extraInfo'' @ '':'' @ quoted (rd_ExtraInfo d) @ ''}''"

section \<open>InMemoryStore.go\<close>

record InMemoryStore =
  cl_heap :: "nat \<Rightarrow> CommonClient"
  cl_clients :: "(string \<times> nat) list"
  cl_next :: nat

definition NewInMemoryStore :: "(nat \<Rightarrow> CommonClient) \<Rightarrow> nat \<Rightarrow> InMemoryStore" where
  "NewInMemoryStore h n = \<lparr>cl_heap = h, cl_clients = [], cl_next = n\<rparr>"

definition client_id :: "nat \<Rightarrow> InMemoryStore \<Rightarrow> string" where
  "client_id a s = r_id (c_role (cl_heap s a))"

definition cstore_Get :: "string \<Rightarrow> InMemoryStore \<Rightarrow> string + nat" where
  "cstore_Get i s = (case map_of (cl_clients s) i of None \<Rightarrow> Inl ''not found'' | Some a \<Rightarrow> Inr a)"

definition cstore_GetAll :: "InMemoryStore \<Rightarrow> string + nat list" where
  "cstore_GetAll s = Inr (map snd (cl_clients s))"

definition cstore_Create :: "nat \<Rightarrow> InMemoryStore \<Rightarrow> InMemoryStore \<times> string option" where
  "cstore_Create a s =
     (if map_of (cl_clients s) (client_id a s) \<noteq> None then (s, Some ''client already exist'')
      else (s\<lparr>cl_clients := AList.update (client_id a s) a (cl_clients s)\<rparr>, None))"

definition cstore_Update :: "nat \<Rightarrow> InMemoryStore \<Rightarrow> InMemoryStore \<times> string option" where
  "cstore_Update a s =
     (if map_of (cl_clients s) (client_id a s) = None then (s, Some ''not found'')
      else (s\<lparr>cl_clients := AList.update (client_id a s) a (cl_clients s)\<rparr>, None))"

definition cstore_Has :: "string \<Rightarrow> InMemoryStore \<Rightarrow> string + bool" where
  "cstore_Has i s = Inr (map_of (cl_clients s) i \<noteq> None)"

definition cstore_Delete :: "string \<Rightarrow> InMemoryStore \<Rightarrow> InMemoryStore \<times> string option" where
  "cstore_Delete i s =
     (if map_of (cl_clients s) i = None then (s, Some ''not found'')
      else (s\<lparr>cl_clients := AList.delete i (cl_clients s)\<rparr>, None))"

section \<open>Queries\<close>

text \<open>A time is a number, zero for the zero time.\<close>

record DClientQuery =
  q_limit :: int
  q_createdAfter :: int
  q_createdBefore :: int
  q_cType :: int

definition Query :: DClientQuery where
  "Query = \<lparr>q_limit = 0, q_createdAfter = 0, q_createdBefore = 0, q_cType = - 1\<rparr>"

definition q_Limit :: "int \<Rightarrow> DClientQuery \<Rightarrow> DClientQuery" where
  "q_Limit n q = q\<lparr>q_limit := n\<rparr>"

definition CreatedWithin :: "int \<Rightarrow> int \<Rightarrow> DClientQuery \<Rightarrow> DClientQuery" where
  "CreatedWithin after before q =
     (if after < before then q\<lparr>q_createdAfter := after, q_createdBefore := before\<rparr> else q)"

definition CreatedAfter :: "int \<Rightarrow> DClientQuery \<Rightarrow> DClientQuery" where
  "CreatedAfter after q =
     (if q_createdBefore q \<noteq> 0 \<and> q_createdBefore q < after then q else q\<lparr>q_createdAfter := after\<rparr>)"

definition CreatedBefore :: "int \<Rightarrow> DClientQuery \<Rightarrow> DClientQuery" where
  "CreatedBefore before q =
     (if q_createdAfter q \<noteq> 0 \<and> q_createdAfter q > before then q else q\<lparr>q_createdBefore := before\<rparr>)"

definition q_Type :: "int \<Rightarrow> DClientQuery \<Rightarrow> DClientQuery" where
  "q_Type t q = q\<lparr>q_cType := t\<rparr>"

text \<open>\<open>Find\<close> of the in-memory store is not implemented.\<close>

definition cstore_Find :: "DClientQuery \<Rightarrow> InMemoryStore \<Rightarrow> (string + nat list) go" where
  "cstore_Find q s = Panic"

section \<open>ClientManagerModule.go\<close>

definition HasClient :: "string \<Rightarrow> InMemoryStore \<Rightarrow> string + bool" where
  "HasClient i s = cstore_Has i s"

definition GetClient :: "string \<Rightarrow> InMemoryStore \<Rightarrow> string + nat" where
  "GetClient i s = (if i = [] then Inl ''invalid client id '' else cstore_Get i s)"

text \<open>No store returns \<open>nil\<close> without an error, so the second test never applies to the in-memory one.\<close>

definition GetClientWithErrOnNotFound :: "string \<Rightarrow> InMemoryStore \<Rightarrow> string + nat" where
  "GetClientWithErrOnNotFound i s = GetClient i s"

definition WithAllClients :: "(nat list \<Rightarrow> 's \<Rightarrow> 's) \<Rightarrow> InMemoryStore \<Rightarrow> 's \<Rightarrow> 's \<times> string option" where
  "WithAllClients cb s x = (case cstore_GetAll s of Inl err \<Rightarrow> (x, Some err) | Inr all \<Rightarrow> (cb all x, None))"

definition AddClient :: "nat \<Rightarrow> InMemoryStore \<Rightarrow> InMemoryStore \<times> string option" where
  "AddClient a s = cstore_Create a s"

definition UpdateClient :: "nat \<Rightarrow> InMemoryStore \<Rightarrow> InMemoryStore \<times> string option" where
  "UpdateClient a s = cstore_Update a s"

definition DeleteClient :: "string \<Rightarrow> InMemoryStore \<Rightarrow> InMemoryStore \<times> string option" where
  "DeleteClient i s = cstore_Delete i s"

definition GetClientsByType :: "int \<Rightarrow> InMemoryStore \<Rightarrow> (string + nat list) go" where
  "GetClientsByType t s = cstore_Find (q_Type t Query) s"

definition GetClientsCreatedAfter :: "int \<Rightarrow> InMemoryStore \<Rightarrow> (string + nat list) go" where
  "GetClientsCreatedAfter t s = cstore_Find (CreatedAfter t Query) s"

definition GetClientsCreatedBefore :: "int \<Rightarrow> InMemoryStore \<Rightarrow> (string + nat list) go" where
  "GetClientsCreatedBefore t s = cstore_Find (CreatedBefore t Query) s"

definition GetAllClients :: "InMemoryStore \<Rightarrow> string + nat list" where
  "GetAllClients s = cstore_GetAll s"

text \<open>Which store the module uses; \<open>err\<close> is the error of opening the database of the wanted kind.\<close>

datatype store_kind = SInMemory | SMySql | SCached

record client_manager_config =
  cc_driver :: string
  cc_persistent :: string
  cc_redis :: string

definition createClientManagerStore :: "(store_kind \<Rightarrow> string option) \<Rightarrow> client_manager_config \<Rightarrow> store_kind" where
  "createClientManagerStore err c =
     (let hasPersistent = (cc_persistent c \<noteq> []); hasRedis = (cc_redis c \<noteq> []);
          (kind, e) =
            (if hasPersistent \<and> hasRedis then (SCached, if cc_driver c \<noteq> ''mysql'' then Some ''invalid clientManager.persistent.db value'' else err SCached)
             else if hasPersistent then (SMySql, if cc_driver c \<noteq> ''mysql'' then Some ''invalid clientManager.persistent.db value'' else err SMySql)
             else (SInMemory, None))
      in if e \<noteq> None then SInMemory else kind)"

text \<open>The lookup the authentication module uses: the client as it is when it is read.\<close>

definition manager_getClient :: "InMemoryStore \<Rightarrow> get_client" where
  "manager_getClient s i = (case GetClient i s of Inl err \<Rightarrow> Inl err | Inr a \<Rightarrow> Inr (cl_heap s a))"

text \<open>A new client object, and a change of one.\<close>

definition alloc_client :: "CommonClient \<Rightarrow> InMemoryStore \<Rightarrow> nat \<times> InMemoryStore" where
  "alloc_client c s = (cl_next s, s\<lparr>cl_heap := (cl_heap s)(cl_next s := c), cl_next := Suc (cl_next s)\<rparr>)"

definition write_client :: "nat \<Rightarrow> CommonClient \<Rightarrow> InMemoryStore \<Rightarrow> InMemoryStore" where
  "write_client a c s = s\<lparr>cl_heap := (cl_heap s)(a := c)\<rparr>"

section \<open>The store as a directory of clients\<close>

text \<open>The clients by id, which is what the operations change.\<close>

definition directory :: "InMemoryStore \<Rightarrow> string \<Rightarrow> CommonClient option" where
  "directory s i = map_option (cl_heap s) (map_of (cl_clients s) i)"

text \<open>Every stored client is filed under its own id, at an address of its own below the next free one.\<close>

definition store_ok :: "InMemoryStore \<Rightarrow> bool" where
  "store_ok s \<longleftrightarrow> distinct (map fst (cl_clients s)) \<and>
     (\<forall>i a. map_of (cl_clients s) i = Some a \<longrightarrow> r_id (c_role (cl_heap s a)) = i \<and> a < cl_next s)"

lemma store_ok_new [wf_intros]: "store_ok (NewInMemoryStore h n)"
  by (simp add: store_ok_def NewInMemoryStore_def)

lemma store_ok_alloc [wf_intros]: "store_ok s \<Longrightarrow> store_ok (snd (alloc_client c s))"
  by (fastforce simp: store_ok_def alloc_client_def)

lemma store_ok_Create [wf_intros]: "store_ok s \<Longrightarrow> a < cl_next s \<Longrightarrow> store_ok (fst (cstore_Create a s))"
  by (auto simp: store_ok_def cstore_Create_def client_id_def simp del: map_of_eq_Some_iff)

lemma store_ok_Update [wf_intros]: "store_ok s \<Longrightarrow> a < cl_next s \<Longrightarrow> store_ok (fst (cstore_Update a s))"
  by (auto simp: store_ok_def cstore_Update_def client_id_def simp del: map_of_eq_Some_iff)

lemma store_ok_Delete [wf_intros]: "store_ok s \<Longrightarrow> store_ok (fst (cstore_Delete i s))"
  by (auto simp: store_ok_def cstore_Delete_def simp del: map_of_eq_Some_iff)

lemma store_ok_write [wf_intros]:
  "store_ok s \<Longrightarrow> r_id (c_role c) = r_id (c_role (cl_heap s a)) \<Longrightarrow> store_ok (write_client a c s)"
  by (auto simp: store_ok_def write_client_def simp del: map_of_eq_Some_iff)

text \<open>Adding and updating a client that has just been made.\<close>

definition add_new :: "CommonClient \<Rightarrow> InMemoryStore \<Rightarrow> InMemoryStore \<times> string option" where
  "add_new c s = (let (a, s1) = alloc_client c s in AddClient a s1)"

definition update_new :: "CommonClient \<Rightarrow> InMemoryStore \<Rightarrow> InMemoryStore \<times> string option" where
  "update_new c s = (let (a, s1) = alloc_client c s in UpdateClient a s1)"

lemma store_ok_below:
  assumes "store_ok s" and "map_of (cl_clients s) i = Some a"
  shows "r_id (c_role (cl_heap s a)) = i" and "a \<noteq> cl_next s"
  using assms unfolding store_ok_def by blast+

lemma directory_alloc:
  assumes "store_ok s"
  shows "directory (snd (alloc_client c s)) = directory s"
proof
  fix i
  show "directory (snd (alloc_client c s)) i = directory s i"
    using store_ok_below(2) [OF assms, of i]
    by (cases "map_of (cl_clients s) i") (auto simp: directory_def alloc_client_def simp del: map_of_eq_Some_iff)
qed

text \<open>What the services rely on: a registry of clients with at most one client for an id.\<close>

locale client_registry =
  fixes inv :: "'s \<Rightarrow> bool" and dir :: "'s \<Rightarrow> string \<Rightarrow> 'c option" and key :: "'c \<Rightarrow> string"
    and add :: "'c \<Rightarrow> 's \<Rightarrow> 's \<times> string option" and upd :: "'c \<Rightarrow> 's \<Rightarrow> 's \<times> string option"
    and del :: "string \<Rightarrow> 's \<Rightarrow> 's \<times> string option"
  assumes add_inv: "inv s \<Longrightarrow> inv (fst (add c s))" and upd_inv: "inv s \<Longrightarrow> inv (fst (upd c s))"
    and del_inv: "inv s \<Longrightarrow> inv (fst (del i s))"
    and add_new_key: "inv s \<Longrightarrow> dir s (key c) = None \<Longrightarrow>
      snd (add c s) = None \<and> dir (fst (add c s)) = (dir s)(key c \<mapsto> c)"
    and add_old_key: "inv s \<Longrightarrow> dir s (key c) \<noteq> None \<Longrightarrow> snd (add c s) \<noteq> None \<and> dir (fst (add c s)) = dir s"
    and upd_old_key: "inv s \<Longrightarrow> dir s (key c) \<noteq> None \<Longrightarrow>
      snd (upd c s) = None \<and> dir (fst (upd c s)) = (dir s)(key c \<mapsto> c)"
    and upd_new_key: "inv s \<Longrightarrow> dir s (key c) = None \<Longrightarrow> snd (upd c s) \<noteq> None \<and> dir (fst (upd c s)) = dir s"
    and del_key: "inv s \<Longrightarrow> dir (fst (del i s)) = (dir s)(i := None)"
begin

lemma added_twice_fails: "inv s \<Longrightarrow> key d = key c \<Longrightarrow> snd (add d (fst (add c s))) \<noteq> None"
  using add_old_key [OF add_inv, of s c d] add_new_key [of s c] add_old_key [of s c]
  by (cases "dir s (key c)") auto

lemma deleted_then_added: "inv s \<Longrightarrow> dir (fst (add c (fst (del (key c) s)))) (key c) = Some c"
  using add_new_key [OF del_inv, of s "key c" c] del_key [of s "key c"] by simp

lemma updated_is_found: "inv s \<Longrightarrow> snd (upd c s) = None \<Longrightarrow> dir (fst (upd c s)) (key c) = Some c"
  using upd_old_key [of s c] upd_new_key [of s c] by (cases "dir s (key c)") auto

end

lemma alloc_client_simps:
  "fst (alloc_client c s) = cl_next s" "cl_clients (snd (alloc_client c s)) = cl_clients s"
  "cl_next (snd (alloc_client c s)) = Suc (cl_next s)" "cl_heap (snd (alloc_client c s)) (cl_next s) = c"
  by (simp_all add: alloc_client_def)

lemma directory_file:
  "directory (s\<lparr>cl_clients := AList.update i a (cl_clients s)\<rparr>) = (directory s)(i \<mapsto> cl_heap s a)"
  by (rule ext) (simp add: directory_def)

lemma directory_None: "directory s i = None \<longleftrightarrow> map_of (cl_clients s) i = None"
  by (simp add: directory_def)

lemma Create_new:
  assumes "map_of (cl_clients s) (client_id a s) = None"
  shows "cstore_Create a s = (s\<lparr>cl_clients := AList.update (client_id a s) a (cl_clients s)\<rparr>, None)"
  using assms by (simp add: cstore_Create_def)

interpretation clients: client_registry store_ok directory "\<lambda>c. r_id (c_role c)" add_new update_new DeleteClient
proof
  fix s c i
  assume ok: "store_ok s"
  let ?s1 = "snd (alloc_client c s)"
  note al = alloc_client_simps [of c s]
  have ok1: "store_ok ?s1" by (rule store_ok_alloc [OF ok])
  have idc: "client_id (cl_next s) ?s1 = r_id (c_role c)" by (simp add: client_id_def al)
  have dir1: "directory ?s1 = directory s" by (rule directory_alloc [OF ok])
  have new: "add_new c s = cstore_Create (cl_next s) ?s1" "update_new c s = cstore_Update (cl_next s) ?s1"
    by (simp_all add: add_new_def update_new_def AddClient_def UpdateClient_def case_prod_beta al(1))
  have known: "map_of (cl_clients ?s1) (r_id (c_role c)) = None \<longleftrightarrow> directory s (r_id (c_role c)) = None"
    by (simp add: directory_None al(2))
  have filed: "directory (?s1\<lparr>cl_clients := AList.update (r_id (c_role c)) (cl_next s) (cl_clients ?s1)\<rparr>) =
      (directory s)(r_id (c_role c) \<mapsto> c)"
    by (simp only: directory_file dir1 al(4))
  show "store_ok (fst (add_new c s))" "store_ok (fst (update_new c s))"
    unfolding new by (auto intro!: store_ok_Create store_ok_Update ok1 simp: al(3))
  show "store_ok (fst (DeleteClient i s))" by (simp add: DeleteClient_def store_ok_Delete ok)
  show "directory s (r_id (c_role c)) = None \<Longrightarrow>
      snd (add_new c s) = None \<and> directory (fst (add_new c s)) = (directory s)(r_id (c_role c) \<mapsto> c)"
    unfolding new cstore_Create_def idc known using filed by simp
  show "directory s (r_id (c_role c)) \<noteq> None \<Longrightarrow>
      snd (add_new c s) \<noteq> None \<and> directory (fst (add_new c s)) = directory s"
    unfolding new cstore_Create_def idc known using dir1 by simp
  show "directory s (r_id (c_role c)) \<noteq> None \<Longrightarrow>
      snd (update_new c s) = None \<and> directory (fst (update_new c s)) = (directory s)(r_id (c_role c) \<mapsto> c)"
    unfolding new cstore_Update_def idc known using filed by simp
  show "directory s (r_id (c_role c)) = None \<Longrightarrow>
      snd (update_new c s) \<noteq> None \<and> directory (fst (update_new c s)) = directory s"
    unfolding new cstore_Update_def idc known using dir1 by simp
  show "directory (fst (DeleteClient i s)) = (directory s)(i := None)"
    by (rule ext) (auto simp: DeleteClient_def cstore_Delete_def directory_def)
qed

lemma manager_getClient_directory:
  "manager_getClient s i =
     (if i = [] then Inl ''invalid client id ''
      else case directory s i of None \<Rightarrow> Inl ''not found'' | Some c \<Rightarrow> Inr c)"
  by (simp add: manager_getClient_def GetClient_def cstore_Get_def directory_def split: option.splits)

section \<open>Properties\<close>

text \<open>The interval of a query: when both ends are set it is not empty.\<close>

definition interval_ok :: "DClientQuery \<Rightarrow> bool" where
  "interval_ok q \<longleftrightarrow> (q_createdAfter q \<noteq> 0 \<longrightarrow> q_createdBefore q \<noteq> 0 \<longrightarrow> q_createdAfter q \<le> q_createdBefore q)"

datatype query_op = QLimit int | QWithin int int | QAfter int | QBefore int | QType int

fun query_op_run :: "query_op \<Rightarrow> DClientQuery \<Rightarrow> DClientQuery" where
  "query_op_run (QLimit n) q = q_Limit n q"
| "query_op_run (QWithin a b) q = CreatedWithin a b q"
| "query_op_run (QAfter a) q = CreatedAfter a q"
| "query_op_run (QBefore b) q = CreatedBefore b q"
| "query_op_run (QType t) q = q_Type t q"

lemma interval_ok_op: "interval_ok q \<Longrightarrow> interval_ok (query_op_run op q)"
  by (cases op) (auto simp: interval_ok_def q_Limit_def CreatedWithin_def CreatedAfter_def CreatedBefore_def q_Type_def)

text \<open>
  Whatever calls build a query of the clients, its creation interval is never empty when both ends
  are set.
\<close>

theorem query_interval_invariant: "interval_ok (fold query_op_run ops Query)"
proof -
  have "interval_ok q \<Longrightarrow> interval_ok (fold query_op_run ops q)" for q
    by (induction ops arbitrary: q) (auto intro: interval_ok_op)
  moreover have "interval_ok Query" by (simp add: interval_ok_def Query_def)
  ultimately show ?thesis by blast
qed

text \<open>
  The client manager over the in-memory store is a registry: a new client is found under its id, a
  second one with the same id is refused and changes nothing, an update of a known client replaces it, and a
  deleted client is gone.
\<close>

theorem client_manager_is_registry:
  assumes "store_ok s" and "directory s (r_id (c_role c)) = None" and "r_id (c_role c) \<noteq> []"
    and "r_id (c_role d) = r_id (c_role c)"
  shows "let s1 = fst (add_new c s) in
      manager_getClient s1 (r_id (c_role c)) = Inr c \<and> snd (add_new c s) = None \<and>
      snd (add_new d s1) \<noteq> None \<and> directory (fst (add_new d s1)) = directory s1 \<and>
      snd (update_new d s1) = None \<and> manager_getClient (fst (update_new d s1)) (r_id (c_role c)) = Inr d \<and>
      manager_getClient (fst (DeleteClient (r_id (c_role c)) s1)) (r_id (c_role c)) = Inl ''not found''"
proof -
  let ?s1 = "fst (add_new c s)"
  have ok: "store_ok ?s1" by (rule clients.add_inv [OF assms(1)])
  have s1: "snd (add_new c s) = None" "directory ?s1 = (directory s)(r_id (c_role c) \<mapsto> c)"
    using clients.add_new_key [OF assms(1,2)] by auto
  show ?thesis
    using s1 clients.add_old_key [OF ok, of d] clients.upd_old_key [OF ok, of d]
      clients.del_key [OF ok, of "r_id (c_role c)"] assms(3,4)
    by (simp add: Let_def manager_getClient_directory)
qed

theorem client_manager_is_registry_witness:
  "manager_getClient (fst (add_new (NewClient ''alice'' [] 1 ''pw'' 0) (NewInMemoryStore (\<lambda>_. NewAnonymousClient) 0))) ''alice'' =
     Inr (NewClient ''alice'' [] 1 ''pw'' 0)"
proof -
  let ?c = "NewClient ''alice'' [] 1 ''pw'' 0" and ?s = "NewInMemoryStore (\<lambda>_. NewAnonymousClient) 0"
  have "directory ?s i = None" for i by (simp add: directory_def NewInMemoryStore_def)
  moreover have "r_id (c_role ?c) = ''alice''" by (simp add: NewClient_def NewCommonRole_def)
  ultimately show ?thesis
    using client_manager_is_registry [OF store_ok_new, of "\<lambda>_. NewAnonymousClient" 0 ?c ?c] by (simp add: Let_def)
qed

end
