(* ===== verification/AccountServices.thy ===== *)
theory AccountServices
  imports Clients Services
begin

text \<open>
  The services of the server that deal with accounts: \<open>AuthService.go\<close> with its payloads under
  \<open>src/hub_server/services/auth_service\<close>, and \<open>ClientManagementService.go\<close> with \<open>Payloads.go\<close> under
  \<open>src/hub_server/services/client_management\<close>. A handler returns the request it leaves, the state it leaves,
  and its error or a panic. \<open>json.Unmarshal\<close> and \<open>json.Marshal\<close> on the payload types are the fields of the
  parameter \<open>C\<close>; log output is left out.
\<close>

section \<open>Payloads and answers\<close>

record LoginPayload =
  lp_Id :: string
  lp_Password :: string

record SignupPayload =
  sp_Id :: string
  sp_Description :: string
  sp_Password :: string

record json_codec =
  dec_token :: "string \<Rightarrow> string + string"
  dec_login :: "string \<Rightarrow> string + LoginPayload"
  dec_signup :: "string \<Rightarrow> string + SignupPayload"
  dec_role :: "string \<Rightarrow> string + RoleDescriptor"
  dec_extra :: "string \<Rightarrow> string + ClientExtraInfoDescriptor"
  dec_object :: "string \<Rightarrow> string option"
  enc_roles :: "RoleDescriptor list \<Rightarrow> string"
  enc_strings :: "string list \<Rightarrow> string"

definition MarshallLoginResponse :: "string \<Rightarrow> string" where
  "MarshallLoginResponse token = ''{'' @ quoted ''token'' @ '':'' @ quoted token @ ''}''"

text \<open>The field \<open>ids\<close> of \<open>DeleteClientsPayload\<close> is not exported, so \<open>json.Unmarshal\<close> never fills it.\<close>

definition UnmarshalDeleteClientsPayload :: "json_codec \<Rightarrow> string \<Rightarrow> string + string list" where
  "UnmarshalDeleteClientsPayload C data = (case dec_object C data of Some err \<Rightarrow> Inl err | None \<Rightarrow> Inr [])"

definition UnmarshallClientDescriptor :: "json_codec \<Rightarrow> string \<Rightarrow> string + RoleDescriptor \<times> ClientExtraInfoDescriptor" where
  "UnmarshallClientDescriptor C data =
     (case dec_role C data of
        Inl err \<Rightarrow> Inl err
      | Inr d \<Rightarrow> (case dec_extra C (rd_ExtraInfo d) of Inl err \<Rightarrow> Inl err | Inr e \<Rightarrow> Inr (d, e)))"

text \<open>The text of the only error of \<open>Resolve\<close>, and the ways of returning it or dropping it.\<close>

definition not_processing_text :: string where
  "not_processing_text = ''can not Resolve a non-processing ServiceRequest''"

definition answer_error :: "string \<Rightarrow> ServiceRequest \<Rightarrow> int \<Rightarrow> string \<Rightarrow> ServiceRequest \<times> string option go" where
  "answer_error host r code msg =
     (let (r', res) = ResolveByError host r code msg in
      (r', bind_go res (\<lambda>x. Ret (case x of Inl err \<Rightarrow> Some err | Inr e \<Rightarrow> map_option (\<lambda>_. not_processing_text) e))))"

definition answer_invalid :: "string \<Rightarrow> ServiceRequest \<Rightarrow> ServiceRequest \<times> string option go" where
  "answer_invalid host r = answer_error host r MessageTypeSvcUnauthorizedError ''invalid credential''"

definition answer :: "string \<Rightarrow> ServiceRequest \<Rightarrow> string \<Rightarrow> ServiceRequest \<times> string option go" where
  "answer host r data = (let (r', res) = ResolveByResponse host r data in (r', bind_go res (\<lambda>_. Ret None)))"

definition from_of :: "ServiceRequest \<Rightarrow> string" where
  "from_of r = m_from (sr_message r)"

definition payload_of :: "ServiceRequest \<Rightarrow> string" where
  "payload_of r = payload (sr_message r)"

definition path_param :: "params \<Rightarrow> string \<Rightarrow> string" where
  "path_param ps k = (case ps k of None \<Rightarrow> [] | Some v \<Rightarrow> v)"

section \<open>AuthService.go\<close>

definition auth_ValidateToken :: "json_codec \<Rightarrow> JWT \<Rightarrow> get_client \<Rightarrow> int \<Rightarrow> string \<Rightarrow> MemoryTokenStore \<Rightarrow> ServiceRequest \<Rightarrow>
    ServiceRequest \<times> string option go" where
  "auth_ValidateToken C J getClient now host tokens r =
     (if from_of r = [] then answer_invalid host r
      else (case dec_token C (payload_of r) of
          Inl err \<Rightarrow> (r, Ret (Some err))
        | Inr token \<Rightarrow>
            (let (clientId, err) = ValidateToken J getClient now (token_Get tokens) token in
             if err \<noteq> None \<or> from_of r \<noteq> clientId then answer_invalid host r else (r, Ret None))))"

definition auth_Login :: "json_codec \<Rightarrow> JWT \<Rightarrow> get_client \<Rightarrow> int \<Rightarrow> int \<Rightarrow> string \<Rightarrow> MemoryTokenStore \<Rightarrow> ServiceRequest \<Rightarrow>
    MemoryTokenStore \<times> ServiceRequest \<times> string option go" where
  "auth_Login C J getClient now1 now2 host tokens r =
     (if from_of r \<noteq> [] then (tokens, answer_error host r MessageTypeSvcForbiddenError ''you have already logged in'')
      else (case dec_login C (payload_of r) of
          Inl err \<Rightarrow> (tokens, r, Ret (Some err))
        | Inr m \<Rightarrow>
            (case Login J getClient now1 now2 tokens TypeHTTP (lp_Id m) (lp_Password m) of
               (tokens', Inl err) \<Rightarrow> (tokens', r, Ret (Some err))
             | (tokens', Inr token) \<Rightarrow> (tokens', answer host r (MarshallLoginResponse token)))))"

definition auth_Logout :: "string \<Rightarrow> MemoryTokenStore \<Rightarrow> ServiceRequest \<Rightarrow>
    MemoryTokenStore \<times> ServiceRequest \<times> string option go" where
  "auth_Logout host tokens r =
     (if from_of r = [] then (tokens, answer_invalid host r)
      else (case GetContext r ''token'' of
          None \<Rightarrow> (tokens, answer_invalid host r)
        | Some (CString token) \<Rightarrow>
            (case RevokeToken tokens token of
               (tokens', None) \<Rightarrow> (tokens', r, Ret None)
             | (tokens', Some err) \<Rightarrow>
                 (let (r', res) = answer host r ''token has been revoked''
                  in (tokens', r', bind_go res (\<lambda>_. Ret (Some err)))))
        | Some _ \<Rightarrow> (tokens, r, Ret (Some ''can not cast token to string''))))"

section \<open>ClientManagementService.go\<close>

type_synonym client_result = "InMemoryStore \<times> ServiceRequest \<times> string option go"

text \<open>\<open>Describe\<close> on a stored client caches the descriptor in the shared object.\<close>

definition describe_at :: "nat \<Rightarrow> InMemoryStore \<Rightarrow> RoleDescriptor \<times> InMemoryStore" where
  "describe_at a s = (let (d, c) = client_Describe (cl_heap s a) in (d, write_client a c s))"

definition SignUp :: "json_codec \<Rightarrow> string \<Rightarrow> InMemoryStore \<Rightarrow> ServiceRequest \<Rightarrow> client_result" where
  "SignUp C host s r =
     (if from_of r \<noteq> [] then (s, answer_error host r MessageTypeSvcBadRequestError ''you have already logged in'')
      else (case dec_signup C (payload_of r) of
          Inl err \<Rightarrow> (s, r, Ret (Some err))
        | Inr m \<Rightarrow>
            (let (a, s) = alloc_client (NewClient (sp_Id m) (sp_Description m) ClientTypeAuthenticated (sp_Password m) 0) s;
                 (s, err) = AddClient a s in
             if err \<noteq> None then (s, r, Ret err)
             else
               (let s = write_client a (SetCKey (cl_heap s a) ''******'') s;
                    (d, s) = describe_at a s
                in (s, answer host r (role_String d))))))"

definition client_Update :: "json_codec \<Rightarrow> string \<Rightarrow> InMemoryStore \<Rightarrow> ServiceRequest \<Rightarrow> client_result" where
  "client_Update C host s r =
     (case UnmarshallClientDescriptor C (payload_of r) of
        Inl err \<Rightarrow> (s, r, Ret (Some err))
      | Inr (roleDesc, extraDesc) \<Rightarrow>
          (if from_of r \<noteq> rd_Id roleDesc
           then (s, answer_error host r 403 (''mismatch identity from('' @ from_of r @ ''):desc('' @ rd_Id roleDesc @ '')''))
           else
             (let (a, s) = alloc_client (NewClientFromDescriptor roleDesc extraDesc) s; (s, err) = UpdateClient a s in
              if err \<noteq> None then (s, r, Ret err)
              else (let (d, s) = describe_at a s in (s, answer host r (role_String d))))))"

definition getCurrentUser :: "string \<Rightarrow> InMemoryStore \<Rightarrow> CommonClient \<times> string option" where
  "getCurrentUser i s =
     (case GetClient i s of Inl err \<Rightarrow> (NewAnonymousClient, Some err) | Inr a \<Rightarrow> (cl_heap s a, None))"

definition getMarshalledClientInfo :: "nat \<Rightarrow> bool \<Rightarrow> InMemoryStore \<Rightarrow> string \<times> InMemoryStore" where
  "getMarshalledClientInfo a isAnonymous s =
     (let (d, s) = describe_at a s; d = (if isAnonymous then d\<lparr>rd_ExtraInfo := []\<rparr> else d) in (role_String d, s))"

definition GetById :: "string \<Rightarrow> InMemoryStore \<Rightarrow> ServiceRequest \<Rightarrow> params \<Rightarrow> client_result" where
  "GetById host s r ps =
     (let myId = from_of r;
          (me, err) = (if myId \<noteq> [] then getCurrentUser myId s else (NewAnonymousClient, None)) in
      if err \<noteq> None then (s, r, Ret err)
      else
        (let clientId = path_param ps ''id'';
             isAnonymous = (\<not> (clientId = myId \<or> cType me > ClientTypeAuthenticated)) in
         case GetClient clientId s of
           Inl err \<Rightarrow> (s, r, Ret (Some err))
         | Inr a \<Rightarrow> (let (info, s) = getMarshalledClientInfo a isAnonymous s in (s, answer host r info))))"

fun delete_clients :: "string list \<Rightarrow> InMemoryStore \<Rightarrow> InMemoryStore \<times> string option" where
  "delete_clients [] s = (s, None)"
| "delete_clients (i # is) s =
     (case DeleteClient i s of (s', Some err) \<Rightarrow> (s', Some err) | (s', None) \<Rightarrow> delete_clients is s')"

definition client_Delete :: "json_codec \<Rightarrow> string \<Rightarrow> InMemoryStore \<Rightarrow> ServiceRequest \<Rightarrow> client_result" where
  "client_Delete C host s r =
     (let (me, err) = getCurrentUser (from_of r) s in
      if err \<noteq> None then (s, r, Ret err)
      else if cType me < ClientTypeManager
        then (s, answer_error host r MessageTypeSvcBadRequestError ''you are not authorized to delete clients'')
      else (case UnmarshalDeleteClientsPayload C (payload_of r) of
          Inl err \<Rightarrow> (s, r, Ret (Some err))
        | Inr ids \<Rightarrow>
            (case delete_clients ids s of
               (s', Some err) \<Rightarrow> (s', r, Ret (Some err))
             | (s', None) \<Rightarrow> (s', answer host r ''ok''))))"

fun describe_all :: "nat list \<Rightarrow> InMemoryStore \<Rightarrow> RoleDescriptor list \<times> InMemoryStore" where
  "describe_all [] s = ([], s)"
| "describe_all (a # as) s = (let (d, s) = describe_at a s; (ds, s) = describe_all as s in (d # ds, s))"

definition client_GetAll :: "json_codec \<Rightarrow> string \<Rightarrow> InMemoryStore \<Rightarrow> ServiceRequest \<Rightarrow> client_result" where
  "client_GetAll C host s r =
     (let myId = from_of r in
      if myId = [] then (s, answer_error host r MessageTypeSvcBadRequestError ''invalid identity'')
      else
        (let (me, err) = getCurrentUser myId s in
         if err \<noteq> None then (s, r, Ret err)
         else if cType me < ClientTypeManager
           then (s, answer_error host r MessageTypeSvcBadRequestError ''insufficient privilege'')
         else (case GetAllClients s of
             Inl err \<Rightarrow> (s, r, Ret (Some err))
           | Inr all \<Rightarrow> (let (ds, s) = describe_all all s in (s, answer host r (enc_roles C ds))))))"

definition TypeString :: "nat \<Rightarrow> string" where
  "TypeString ty =
     (if ty = 0 then ''TCP'' else if ty = 1 then ''WS'' else if ty = 2 then ''UDP'' else if ty = 3 then ''RTC''
      else if ty = 4 then ''HTTP'' else [])"

definition conn_String :: "WsConnection \<Rightarrow> string" where
  "conn_String c =
     ''{'' @ quoted ''type'' @ '':'' @ quoted (TypeString (w_type c)) @ '','' @ quoted ''address'' @ '':'' @ quoted (w_addr c) @ ''}''"

text \<open>A \<open>nil\<close> connection panics.\<close>

fun conn_strings :: "(nat \<Rightarrow> WsConnection) \<Rightarrow> nat option list \<Rightarrow> string list go" where
  "conn_strings h [] = Ret []"
| "conn_strings h (None # cs) = Panic"
| "conn_strings h (Some c # cs) =
     bind_go (conn_strings h cs) (\<lambda>ss. Ret (conn_String (h c) # ss))"

definition GetConnections :: "json_codec \<Rightarrow> string \<Rightarrow> ConnectionManagerModule \<Rightarrow> InMemoryStore \<Rightarrow>
    ServiceRequest \<Rightarrow> params \<Rightarrow> ServiceRequest \<times> string option go" where
  "GetConnections C host m s r ps =
     (let fr = from_of r; clientId = path_param ps ''id'' in
      if fr = [] then answer_error host r MessageTypeSvcBadRequestError ''invalid credential: you need to login to check connections''
      else
        (let (me, err) = getCurrentUser fr s in
         if err \<noteq> None then (r, Ret err)
         else if \<not> (fr = clientId \<or> cType me > ClientTypeAuthenticated)
           then answer_error host r MessageTypeSvcBadRequestError ''insufficient privilege: you do not have access to such information''
         else (case conn_strings (heap m) (GetConnectionsByClientId m clientId) of
             Panic \<Rightarrow> (r, Panic)
           | Ret ss \<Rightarrow> answer host r (enc_strings C ss))))"

section \<open>Init\<close>

datatype auth_handler = AValidateToken | ALogin | ALogout

datatype client_handler = CSignUp | CUpdate | CGetById | CGetAll | CGetConnections | CDelete

definition ServiceAccessTypeSocket :: int where [simp]: "ServiceAccessTypeSocket = 1"
definition ServiceAccessTypeBoth :: int where [simp]: "ServiceAccessTypeBoth = 2"
definition ServiceExecutionBoth :: int where [simp]: "ServiceExecutionBoth = 2"

text \<open>The entries of a built handler map, in the order of the lists.\<close>

definition hm_entries :: "'h RequestHandlerMap \<Rightarrow> (int \<times> string \<times> 'h) list" where
  "hm_entries b = concat (map (\<lambda>(ty, m). map (\<lambda>(uri, h). (ty, uri, h)) m) b)"

definition auth_Init :: "RoleDescriptor \<Rightarrow> int \<Rightarrow> (nat \<Rightarrow> ServiceRequest) \<Rightarrow> auth_handler NativeService \<times> string option" where
  "auth_Init host now reqs =
     RegisterRoutes
       (hm_entries (hm_Post (hm_Post (hm_Post [] ''/login'' ALogin) ''/token'' AValidateToken) ''/logout'' ALogout))
       (NewNativeService host now reqs ''auth'' ''basic auth services'' ServiceTypeInternal ServiceAccessTypeBoth ServiceExecutionSync)"

definition client_Init :: "RoleDescriptor \<Rightarrow> int \<Rightarrow> (nat \<Rightarrow> ServiceRequest) \<Rightarrow> client_handler NativeService \<times> string option" where
  "client_Init host now reqs =
     RegisterRoutes
       (hm_entries (hm_Delete (hm_Get (hm_Get (hm_Get (hm_Put (hm_Post [] ''/signup'' CSignUp) ''/'' CUpdate)
          ''/:id'' CGetById) ''/'' CGetAll) ''/:id/conn'' CGetConnections) ''/'' CDelete))
       (NewNativeService host now reqs ''clients'' ''client information management'' ServiceTypeInternal ServiceAccessTypeBoth
          ServiceExecutionBoth)"

section \<open>Lemmas\<close>

text \<open>A request that a handler is working on: not answered yet.\<close>

definition open_request :: "ServiceRequest \<Rightarrow> bool" where
  "open_request r \<longleftrightarrow> req_ok r \<and> sr_status r = ServiceRequestStatusProcessing \<and> sr_barrier r \<noteq> None"

definition answered :: "ServiceRequest \<times> string option go \<Rightarrow> Message \<Rightarrow> bool" where
  "answered x m \<longleftrightarrow> snd x = Ret None \<and> Response (fst x) = Some (Ret m)"

lemma answer_answered:
  assumes "open_request r"
  shows "answered (answer host r data)
    (NewMessage (m_id (sr_message r)) host (from_of r) (m_uri (sr_message r)) MessageTypeSvcResponseOK data)"
  using assms Resolve_responds [of r]
  by (auto simp: open_request_def answered_def answer_def ResolveByResponse_def from_of_def Let_def case_prod_beta)

lemma answer_error_answered:
  assumes "open_request r" and "400 \<le> code" and "code \<le> 500"
  shows "answered (answer_error host r code msg)
    (NewMessage (m_id (sr_message r)) host (from_of r) (m_uri (sr_message r)) code (assembleErrorMessageData msg))"
  using assms Resolve_responds [of r]
  by (auto simp: open_request_def answered_def answer_error_def ResolveByError_def from_of_def Let_def case_prod_beta)

lemma open_request_blocks: "open_request r \<Longrightarrow> Response r = None"
  by (auto simp: open_request_def req_ok_def Response_def barrier_Get_def)

text \<open>A write to a stored client is an update of its entry, since an address is filed under one id.\<close>

lemma directory_write:
  assumes "store_ok s" and "map_of (cl_clients s) i = Some a"
  shows "directory (write_client a c s) = (directory s)(i \<mapsto> c)"
proof
  fix k
  show "directory (write_client a c s) k = ((directory s)(i \<mapsto> c)) k"
  proof (cases "map_of (cl_clients s) k")
    case (Some b)
    then have "b = a \<Longrightarrow> k = i" using store_ok_below(1) [OF assms(1)] assms(2) by metis
    then show ?thesis using Some assms(2) by (cases "k = i") (auto simp: directory_def write_client_def simp del: map_of_eq_Some_iff)
  qed (use assms(2) in \<open>auto simp: directory_def write_client_def\<close>)
qed

lemma client_Describe_keeps [simp]:
  "c_role (snd (client_Describe c)) = c_role c" "cKey (snd (client_Describe c)) = cKey c"
  "cType (snd (client_Describe c)) = cType c" "pScope (snd (client_Describe c)) = pScope c"
  by (simp_all add: client_Describe_def Let_def split: option.splits)

lemma describe_at_eq:
  "describe_at a s = (fst (client_Describe (cl_heap s a)), write_client a (snd (client_Describe (cl_heap s a))) s)"
  by (simp add: describe_at_def case_prod_beta)

lemma cl_heap_write [simp]: "cl_heap (write_client a c s) a = c" "cl_clients (write_client a c s) = cl_clients s"
  by (simp_all add: write_client_def)

text \<open>Filing a new client under its id gives its address back.\<close>

lemma AddClient_new:
  assumes "store_ok s" and "directory s (r_id (c_role c)) = None"
  shows "\<exists>s1. AddClient (cl_next s) (snd (alloc_client c s)) = (s1, None) \<and> store_ok s1 \<and>
    map_of (cl_clients s1) (r_id (c_role c)) = Some (cl_next s) \<and> cl_heap s1 (cl_next s) = c \<and>
    directory s1 = (directory s)(r_id (c_role c) \<mapsto> c)"
proof -
  let ?s1 = "fst (add_new c s)"
  have eq: "add_new c s = AddClient (cl_next s) (snd (alloc_client c s))"
    by (simp add: add_new_def case_prod_beta alloc_client_simps)
  have new: "snd (add_new c s) = None" "directory ?s1 = (directory s)(r_id (c_role c) \<mapsto> c)"
    using clients.add_new_key [OF assms] by auto
  have "map_of (cl_clients s) (r_id (c_role c)) = None" using assms(2) by (simp add: directory_None)
  then have "map_of (cl_clients ?s1) (r_id (c_role c)) = Some (cl_next s)" "cl_heap ?s1 (cl_next s) = c"
    by (simp_all add: eq AddClient_def cstore_Create_def client_id_def alloc_client_simps)
  then show ?thesis using new clients.add_inv [OF assms(1), of c] eq by (metis prod.collapse)
qed

text \<open>The account that \<open>SignUp\<close> leaves in the store.\<close>

definition signed_up :: "SignupPayload \<Rightarrow> CommonClient" where
  "signed_up m = snd (client_Describe (SetCKey (NewClient (sp_Id m) (sp_Description m) ClientTypeAuthenticated (sp_Password m) 0) ''******''))"

lemma signed_up_fields [simp]: "cKey (signed_up m) = ''******''" "r_id (c_role (signed_up m)) = sp_Id m"
  "cType (signed_up m) = ClientTypeAuthenticated"
  by (simp_all add: signed_up_def SetCKey_def NewClient_def NewCommonRole_def)

lemma SignUp_store:
  assumes ok: "store_ok s" and "from_of r = []" and "dec_signup C (payload_of r) = Inr m" and "directory s (sp_Id m) = None"
  shows "directory (fst (SignUp C host s r)) = (directory s)(sp_Id m \<mapsto> signed_up m)"
proof -
  let ?c = "NewClient (sp_Id m) (sp_Description m) ClientTypeAuthenticated (sp_Password m) 0"
  have c: "r_id (c_role ?c) = sp_Id m" by (simp add: NewClient_def NewCommonRole_def)
  obtain s1 where s1: "AddClient (cl_next s) (snd (alloc_client ?c s)) = (s1, None)" "store_ok s1"
    "map_of (cl_clients s1) (sp_Id m) = Some (cl_next s)" "cl_heap s1 (cl_next s) = ?c"
    "directory s1 = (directory s)(sp_Id m \<mapsto> ?c)"
    using AddClient_new [OF ok, of ?c] assms(4) unfolding c by blast
  let ?s2 = "write_client (cl_next s) (SetCKey ?c ''******'') s1"
  have "store_ok ?s2" using s1 by (intro store_ok_write) (simp_all add: SetCKey_def)
  then have "directory (write_client (cl_next s) (signed_up m) ?s2) = (directory s)(sp_Id m \<mapsto> signed_up m)"
    using directory_write [of ?s2 "sp_Id m" "cl_next s"] directory_write [OF s1(2,3)] s1(3,5) by simp
  then show ?thesis using assms s1(1,4)
    by (simp add: SignUp_def case_prod_beta alloc_client_simps describe_at_eq signed_up_def)
qed

lemma UpdateClient_known:
  assumes "store_ok s" and "directory s (r_id (c_role c)) \<noteq> None"
  shows "\<exists>s1. UpdateClient (cl_next s) (snd (alloc_client c s)) = (s1, None) \<and> store_ok s1 \<and>
    map_of (cl_clients s1) (r_id (c_role c)) = Some (cl_next s) \<and> cl_heap s1 (cl_next s) = c \<and>
    directory s1 = (directory s)(r_id (c_role c) \<mapsto> c)"
proof -
  let ?s1 = "fst (update_new c s)"
  have eq: "update_new c s = UpdateClient (cl_next s) (snd (alloc_client c s))"
    by (simp add: update_new_def case_prod_beta alloc_client_simps)
  have new: "snd (update_new c s) = None" "directory ?s1 = (directory s)(r_id (c_role c) \<mapsto> c)"
    using clients.upd_old_key [OF assms] by auto
  have "map_of (cl_clients s) (r_id (c_role c)) \<noteq> None" using assms(2) by (simp add: directory_None)
  then have "map_of (cl_clients ?s1) (r_id (c_role c)) = Some (cl_next s)" "cl_heap ?s1 (cl_next s) = c"
    by (simp_all add: eq UpdateClient_def cstore_Update_def client_id_def alloc_client_simps)
  then show ?thesis using new clients.upd_inv [OF assms(1), of c] eq by (metis prod.collapse)
qed

lemma UpdateClient_unknown:
  assumes "store_ok s" and "directory s (r_id (c_role c)) = None"
  shows "UpdateClient (cl_next s) (snd (alloc_client c s)) = (snd (alloc_client c s), Some ''not found'')"
  using assms by (simp add: UpdateClient_def cstore_Update_def client_id_def alloc_client_simps directory_None)

lemma NewClientFromDescriptor_fields [simp]:
  "r_id (c_role (NewClientFromDescriptor d e)) = rd_Id d" "cType (NewClientFromDescriptor d e) = ei_CType e"
  "cKey (NewClientFromDescriptor d e) = ei_CKey e" "pScope (NewClientFromDescriptor d e) = ei_PScope e"
  by (simp_all add: NewClientFromDescriptor_def NewClientByDescriptor_def NewClient_def NewCommonRole_def)

text \<open>The store after an update by its own client.\<close>

lemma client_Update_own:
  assumes "store_ok s" and "UnmarshallClientDescriptor C (payload_of r) = Inr (d, e)" and "rd_Id d = from_of r"
  shows "directory (fst (client_Update C host s r)) =
    (if directory s (from_of r) = None then directory s
     else (directory s)(from_of r \<mapsto> snd (client_Describe (NewClientFromDescriptor d e))))"
proof (cases "directory s (from_of r)")
  case None
  then show ?thesis using assms UpdateClient_unknown [OF assms(1), of "NewClientFromDescriptor d e"]
    by (simp add: client_Update_def case_prod_beta alloc_client_simps(1) directory_alloc)
next
  case (Some c0)
  let ?c = "NewClientFromDescriptor d e"
  have "directory s (r_id (c_role ?c)) \<noteq> None" using Some assms(3) by simp
  from UpdateClient_known [OF assms(1) this]
  obtain s1 where s1: "UpdateClient (cl_next s) (snd (alloc_client ?c s)) = (s1, None)" "store_ok s1"
    "map_of (cl_clients s1) (from_of r) = Some (cl_next s)" "cl_heap s1 (cl_next s) = ?c"
    "directory s1 = (directory s)(from_of r \<mapsto> ?c)" using assms(3) by auto
  show ?thesis using assms Some s1 directory_write [OF s1(2,3)]
    by (simp add: client_Update_def case_prod_beta alloc_client_simps(1) describe_at_eq)
qed

text \<open>The handler of the service, on tokens that are not changed while it runs, and the routes it is registered for.\<close>

definition auth_caller :: "json_codec \<Rightarrow> JWT \<Rightarrow> get_client \<Rightarrow> int \<Rightarrow> int \<Rightarrow> string \<Rightarrow> MemoryTokenStore \<Rightarrow> auth_handler caller" where
  "auth_caller C J getClient now1 now2 host tokens h r ps qs =
     (case h of
        AValidateToken \<Rightarrow> auth_ValidateToken C J getClient now1 host tokens r
      | ALogin \<Rightarrow> snd (auth_Login C J getClient now1 now2 host tokens r)
      | ALogout \<Rightarrow> snd (auth_Logout host tokens r))"

lemma auth_routes:
  "map_of (ns_handler (fst (auth_Init host now reqs))) ''/auth/token'' = Some [(MessageTypeServicePostRequest, AValidateToken)]"
  "map_of (ns_handler (fst (auth_Init host now reqs))) ''/auth/login'' = Some [(MessageTypeServicePostRequest, ALogin)]"
  "map_of (ns_handler (fst (auth_Init host now reqs))) ''/auth/logout'' = Some [(MessageTypeServicePostRequest, ALogout)]"
  by (simp_all add: auth_Init_def hm_entries_def hm_Post_def hm_Add_def RegisterRoute_def NewNativeService_def NewService_def
      ServicePrefix_def shorten_def HasPrefix_def TrimPrefix_def default_Register_def NewDefaultServiceHandler_def Let_def)

lemma open_request_select:
  assumes "open_request r" and "map_of h pat = Some [(messageType (sr_message r), f)]" and "req_routed r pat ps qs conn"
  shows "default_Handle call h r = call f r ps qs"
  using assms select_handler_branches [of r h _ pat] default_Handle_select [OF assms(3), of call h]
  by (auto simp: open_request_def)

section \<open>Concrete accounts and requests\<close>

definition sample_codec :: json_codec where
  "sample_codec =
     \<lparr>dec_token = (\<lambda>_. Inr sample_token), dec_login = (\<lambda>_. Inr \<lparr>lp_Id = ''alice'', lp_Password = ''pw''\<rparr>),
      dec_signup = (\<lambda>_. Inr \<lparr>sp_Id = ''carol'', sp_Description = [], sp_Password = ''secret''\<rparr>),
      dec_role = (\<lambda>_. Inr \<lparr>rd_Id = ''alice'', rd_Description = [], rd_RoleType = ''Client'', rd_ExtraInfo = [], rd_Address = []\<rparr>),
      dec_extra = (\<lambda>_. Inr \<lparr>ei_PScope = 31, ei_CKey = ''pw'', ei_CType = ClientTypeRoot\<rparr>),
      dec_object = (\<lambda>_. None), enc_roles = (\<lambda>_. []), enc_strings = (\<lambda>_. [])\<rparr>"

definition account_request :: "string \<Rightarrow> string \<Rightarrow> ServiceRequest" where
  "account_request f u =
     (NewServiceRequest (NewMessage ''1'' f [] u MessageTypeServicePostRequest []))
       \<lparr>sr_status := ServiceRequestStatusProcessing,
        sr_context := Some [''uri_pattern'' \<mapsto> CString u, ''path_params'' \<mapsto> CParams [''id'' \<mapsto> ''bob''],
          ''query_params'' \<mapsto> CParams Map.empty]\<rparr>"

lemma account_request_facts [simp]:
  "open_request (account_request f u)" "from_of (account_request f u) = f"
  "req_routed (account_request f u) u [''id'' \<mapsto> ''bob''] Map.empty None"
  "messageType (sr_message (account_request f u)) = MessageTypeServicePostRequest"
  "m_id (sr_message (account_request f u)) = ''1''" "m_uri (sr_message (account_request f u)) = u"
  by (simp_all add: account_request_def open_request_def from_of_def req_routed_def GetContext_def NewServiceRequest_def
      NewMessage_def req_ok_def NewStatefulBarrier_def NewWaitLock_def)

definition sample_accounts :: InMemoryStore where
  "sample_accounts =
     fst (add_new (NewClient ''bob'' [] ClientTypeManager ''b'' 0)
       (fst (add_new (NewClient ''alice'' [] ClientTypeAuthenticated ''pw'' 0) (NewInMemoryStore (\<lambda>_. NewAnonymousClient) 0))))"

lemma sample_accounts_facts:
  "store_ok sample_accounts"
  "directory sample_accounts = [''alice'' \<mapsto> NewClient ''alice'' [] ClientTypeAuthenticated ''pw'' 0,
     ''bob'' \<mapsto> NewClient ''bob'' [] ClientTypeManager ''b'' 0]"
proof -
  let ?s0 = "NewInMemoryStore (\<lambda>_. NewAnonymousClient) 0" and ?a = "NewClient ''alice'' [] ClientTypeAuthenticated ''pw'' 0"
    and ?b = "NewClient ''bob'' [] ClientTypeManager ''b'' 0"
  have ids: "r_id (c_role ?a) = ''alice''" "r_id (c_role ?b) = ''bob''" by (simp_all add: NewClient_def NewCommonRole_def)
  have d0: "directory ?s0 = Map.empty" by (simp add: fun_eq_iff directory_def NewInMemoryStore_def)
  have ok1: "store_ok (fst (add_new ?a ?s0))" by (rule clients.add_inv [OF store_ok_new])
  have d1: "directory (fst (add_new ?a ?s0)) = [''alice'' \<mapsto> ?a]"
    using clients.add_new_key [OF store_ok_new, of "\<lambda>_. NewAnonymousClient" 0 ?a] ids d0 by simp
  show "store_ok sample_accounts" unfolding sample_accounts_def by (rule clients.add_inv [OF ok1])
  show "directory sample_accounts = [''alice'' \<mapsto> ?a, ''bob'' \<mapsto> ?b]"
    using clients.add_new_key [OF ok1, of ?b] ids d1 by (simp add: sample_accounts_def)
qed

section \<open>Properties\<close>

text \<open>
  The account that a sign-up leaves in the in-memory store has the mask of the answer as its key: logging
  in with the chosen password is refused, and the mask logs anybody in.
\<close>

theorem signup_overwrites_password:
  assumes "store_ok s" and "from_of r = []" and "dec_signup C (payload_of r) = Inr m"
    and "sp_Id m \<noteq> []" and "directory s (sp_Id m) = None" and "sp_Password m \<noteq> ''******''"
    and "s' = fst (SignUp C host s r)"
  shows "Login J (manager_getClient s') now1 now2 tokens ty (sp_Id m) (sp_Password m) = (tokens, Inl ''invalid id or password'') \<and>
    (\<exists>tokens' token. Login J (manager_getClient s') now1 now2 tokens ty (sp_Id m) ''******'' = (tokens', Inr token))"
proof -
  have "manager_getClient s' (sp_Id m) = Inr (signed_up m)"
    using SignUp_store [OF assms(1-3,5), of host] assms(4,7) by (simp add: manager_getClient_directory)
  then show ?thesis using assms(6)
    by (auto simp: Login_def getClientAndCheckCredential_def case_prod_beta)
qed

theorem signup_overwrites_password_witness:
  "snd (Login sample_jwt (manager_getClient (fst (SignUp sample_codec ''hub'' sample_accounts (account_request [] ''/clients/signup''))))
     0 0 [] TypeHTTP ''carol'' ''secret'') = Inl ''invalid id or password''"
  using signup_overwrites_password [OF sample_accounts_facts(1), of "account_request [] ''/clients/signup''" sample_codec
      "\<lparr>sp_Id = ''carol'', sp_Description = [], sp_Password = ''secret''\<rparr>" _ "''hub''" sample_jwt 0 0 "[]" TypeHTTP]
  by (simp add: sample_codec_def sample_accounts_facts(2))

text \<open>
  \<open>GetById\<close> answers with the descriptor of the wanted client, and with its extra information, which holds
  its key and privileges, only for the client itself and for callers above the plain authenticated type.
\<close>

theorem client_detail_is_protected:
  assumes "open_request r" and "from_of r \<noteq> []" and "manager_getClient s (from_of r) = Inr me"
    and "ps ''id'' = Some i" and "manager_getClient s i = Inr c"
  shows "\<exists>d. answered (snd (GetById host s r ps))
      (NewMessage (m_id (sr_message r)) host (from_of r) (m_uri (sr_message r)) MessageTypeSvcResponseOK (role_String d)) \<and>
    d = (if i = from_of r \<or> cType me > ClientTypeAuthenticated then fst (client_Describe c)
         else (fst (client_Describe c))\<lparr>rd_ExtraInfo := []\<rparr>)"
proof -
  obtain a where a: "GetClient i s = Inr a" "cl_heap s a = c"
    using assms(5) by (auto simp: manager_getClient_def split: sum.splits)
  have me: "getCurrentUser (from_of r) s = (me, None)"
    using assms(3) by (auto simp: manager_getClient_def getCurrentUser_def split: sum.splits)
  show ?thesis using answer_answered [OF assms(1), of host] assms(2,4) a me
    by (auto simp: GetById_def path_param_def getMarshalledClientInfo_def describe_at_eq Let_def)
qed

theorem client_detail_is_protected_witness:
  "\<exists>d. answered (snd (GetById ''hub'' sample_accounts (account_request ''alice'' ''/clients/:id'') [''id'' \<mapsto> ''bob'']))
     (NewMessage ''1'' ''hub'' ''alice'' ''/clients/:id'' MessageTypeSvcResponseOK (role_String d)) \<and> rd_ExtraInfo d = []"
proof -
  let ?a = "NewClient ''alice'' [] ClientTypeAuthenticated ''pw'' 0" and ?b = "NewClient ''bob'' [] ClientTypeManager ''b'' 0"
  have "\<not> cType ?a > ClientTypeAuthenticated" by (simp add: NewClient_def)
  then show ?thesis
    using client_detail_is_protected [of "account_request ''alice'' ''/clients/:id''" sample_accounts ?a
        "[''id'' \<mapsto> ''bob'']" "''bob''" ?b "''hub''"]
    by (auto simp: manager_getClient_directory sample_accounts_facts(2))
qed

text \<open>
  \<open>Update\<close> changes no account but the sender's, and of that it takes every field from the payload, the client
  type and the privileges included.
\<close>

theorem client_update_is_own:
  assumes "store_ok s" and "i \<noteq> from_of r"
  shows "directory (fst (client_Update C host s r)) i = directory s i \<and>
    (UnmarshallClientDescriptor C (payload_of r) = Inr (d, e) \<and> rd_Id d = from_of r \<and> directory s (from_of r) \<noteq> None \<longrightarrow>
      (\<exists>c. directory (fst (client_Update C host s r)) (from_of r) = Some c \<and>
        cType c = ei_CType e \<and> cKey c = ei_CKey e \<and> pScope c = ei_PScope e))"
proof (cases "UnmarshallClientDescriptor C (payload_of r)")
  case (Inl err)
  then show ?thesis by (simp add: client_Update_def)
next
  case (Inr de)
  obtain d' e' where de: "de = (d', e')" by (cases de)
  show ?thesis
  proof (cases "rd_Id d' = from_of r")
    case True
    from client_Update_own [OF assms(1), of C r d' e' host] True Inr de assms(2) show ?thesis by auto
  next
    case False
    then show ?thesis using Inr de by (auto simp: client_Update_def)
  qed
qed

theorem client_update_is_own_witness:
  "\<exists>c. directory (fst (client_Update sample_codec ''hub'' sample_accounts (account_request ''alice'' ''/clients''))) ''alice'' = Some c \<and>
     cType c = ClientTypeRoot"
proof -
  let ?d = "\<lparr>rd_Id = ''alice'', rd_Description = [], rd_RoleType = ''Client'', rd_ExtraInfo = [], rd_Address = []\<rparr>"
    and ?e = "\<lparr>ei_PScope = 31, ei_CKey = ''pw'', ei_CType = ClientTypeRoot\<rparr>"
  have "UnmarshallClientDescriptor sample_codec p = Inr (?d, ?e)" for p
    by (simp add: sample_codec_def UnmarshallClientDescriptor_def)
  then show ?thesis
    using client_update_is_own [OF sample_accounts_facts(1), of "''bob''" "account_request ''alice'' ''/clients''" sample_codec "''hub''" ?d ?e]
    by (auto simp: sample_accounts_facts(2))
qed

text \<open>
  A request to delete clients never deletes one: whatever its payload says, the store is unchanged, and a
  manager whose payload is well-formed is told that it worked.
\<close>

theorem delete_request_deletes_nobody:
  "fst (client_Delete C host s r) = s \<and>
   (open_request r \<and> manager_getClient s (from_of r) = Inr me \<and> cType me \<ge> ClientTypeManager \<and>
      dec_object C (payload_of r) = None \<longrightarrow>
    answered (snd (client_Delete C host s r))
      (NewMessage (m_id (sr_message r)) host (from_of r) (m_uri (sr_message r)) MessageTypeSvcResponseOK ''ok''))"
  using answer_answered [of r host "''ok''"]
  by (auto simp: client_Delete_def UnmarshalDeleteClientsPayload_def getCurrentUser_def manager_getClient_def Let_def
      split: sum.splits option.splits)

theorem delete_request_deletes_nobody_witness:
  "answered (snd (client_Delete sample_codec ''hub'' sample_accounts (account_request ''bob'' ''/clients'')))
     (NewMessage ''1'' ''hub'' ''bob'' ''/clients'' MessageTypeSvcResponseOK ''ok'')"
proof -
  let ?b = "NewClient ''bob'' [] ClientTypeManager ''b'' 0"
  have "cType ?b \<ge> ClientTypeManager" by (simp add: NewClient_def)
  moreover have "dec_object sample_codec p = None" for p by (simp add: sample_codec_def)
  ultimately show ?thesis
    using delete_request_deletes_nobody [of sample_codec "''hub''" sample_accounts "account_request ''bob'' ''/clients''" ?b]
    by (simp add: manager_getClient_directory sample_accounts_facts(2))
qed

text \<open>
  A login with the right key over the route \<open>/auth/login\<close> is answered with a token, and validating that token
  against the store the login leaves is the parsing of the token.
\<close>

theorem login_request_is_answered:
  assumes "open_request r" and "req_routed r ''/auth/login'' ps qs conn"
    and "messageType (sr_message r) = MessageTypeServicePostRequest" and "from_of r = []"
    and "dec_login C (payload_of r) = Inr p" and "getClient (lp_Id p) = Inr client" and "cKey client = lp_Password p"
    and "tokens' = fst (auth_Login C J getClient now1 now2 host tokens r)"
  shows "\<exists>token. answered (default_Handle (auth_caller C J getClient now1 now2 host tokens) (ns_handler (fst (auth_Init srv t reqs))) r)
      (NewMessage (m_id (sr_message r)) host [] (m_uri (sr_message r)) MessageTypeSvcResponseOK (MarshallLoginResponse token)) \<and>
    (token = [] \<or> ValidateToken J getClient now (token_Get tokens') token = parseToken J getClient now token)"
proof -
  let ?ttl = "if cType client = ClientTypeService then ServiceTokenTtl else SyncConnTtl"
  let ?token = "SignToken J now1 (r_id (c_role client)) (cKey client) ?ttl"
  have login: "Login J getClient now1 now2 tokens TypeHTTP (lp_Id p) (lp_Password p) =
      (token_Put now2 tokens ?token (r_id (c_role client)) ?ttl, Inr ?token)"
    using assms(6,7) by (simp add: Login_def getClientAndCheckCredential_def loginAndCacheToken_def IsAsyncType_def Let_def)
  have tokens': "tokens' = token_Put now2 tokens ?token (r_id (c_role client)) ?ttl"
    using assms(4,5,8) login by (simp add: auth_Login_def)
  have "default_Handle (auth_caller C J getClient now1 now2 host tokens) (ns_handler (fst (auth_Init srv t reqs))) r =
      answer host r (MarshallLoginResponse ?token)"
    using open_request_select [OF assms(1) _ assms(2), of _ ALogin] auth_routes(2) assms(3-5) login
    by (simp add: auth_caller_def auth_Login_def)
  moreover have "?token = [] \<or> ValidateToken J getClient now (token_Get tokens') ?token = parseToken J getClient now ?token"
    by (simp add: ValidateToken_memory tokens' token_Put_def)
  ultimately show ?thesis using answer_answered [OF assms(1), of host "MarshallLoginResponse ?token"] assms(4) by auto
qed

theorem login_request_is_answered_witness:
  "\<exists>token. answered (default_Handle (auth_caller sample_codec sample_jwt sample_client 0 0 ''hub'' [])
       (ns_handler (fst (auth_Init undefined 0 undefined))) (account_request [] ''/auth/login''))
     (NewMessage ''1'' ''hub'' [] ''/auth/login'' MessageTypeSvcResponseOK (MarshallLoginResponse token))"
proof -
  let ?a = "NewClient ''alice'' [] ClientTypeAuthenticated ''pw'' 0" and ?r = "account_request [] ''/auth/login''"
    and ?p = "\<lparr>lp_Id = ''alice'', lp_Password = ''pw''\<rparr>"
  have "cKey ?a = ''pw''" by (simp add: NewClient_def)
  moreover have "dec_login sample_codec x = Inr ?p" for x by (simp add: sample_codec_def)
  moreover have "sample_client ''alice'' = Inr ?a" by (simp add: sample_client_def)
  ultimately show ?thesis
    using login_request_is_answered [of ?r "[''id'' \<mapsto> ''bob'']" Map.empty None sample_codec ?p sample_client ?a
        "fst (auth_Login sample_codec sample_jwt sample_client 0 0 ''hub'' [] ?r)" sample_jwt 0 0 "''hub''" "[]" undefined 0 undefined 0]
    by auto
qed

text \<open>
  A token check that succeeds is never answered: after the executor has run the handler of \<open>/auth/token\<close> the
  request is as it was, so whoever waits for its response waits for ever.
\<close>

theorem valid_token_check_never_answers:
  assumes "open_request r" and "req_routed r ''/auth/token'' ps qs conn"
    and "messageType (sr_message r) = MessageTypeServicePostRequest" and "from_of r \<noteq> []"
    and "dec_token C (payload_of r) = Inr token"
    and "ValidateToken J getClient now1 (token_Get tokens) token = (from_of r, None)"
  shows "internal_Execute host (auth_caller C J getClient now1 now2 host tokens) (ns_handler (fst (auth_Init srv t reqs))) r =
      (r, Ret ()) \<and> Response r = None"
proof -
  have "default_Handle (auth_caller C J getClient now1 now2 host tokens) (ns_handler (fst (auth_Init srv t reqs))) r = (r, Ret None)"
    using open_request_select [OF assms(1) _ assms(2), of _ AValidateToken] auth_routes(1) assms(3-6)
    by (simp add: auth_caller_def auth_ValidateToken_def)
  then show ?thesis using open_request_blocks [OF assms(1)] by (simp add: internal_Execute_def)
qed

theorem valid_token_check_never_answers_witness:
  "Response (account_request ''alice'' ''/auth/token'') = None \<and>
   internal_Execute ''hub'' (auth_caller sample_codec sample_jwt sample_client 5 5 ''hub'' sample_store)
     (ns_handler (fst (auth_Init undefined 0 undefined))) (account_request ''alice'' ''/auth/token'') =
     (account_request ''alice'' ''/auth/token'', Ret ())"
proof -
  note sample_token_validates
  moreover have "dec_token sample_codec p = Inr sample_token" for p by (simp add: sample_codec_def)
  ultimately show ?thesis
    using valid_token_check_never_answers [of "account_request ''alice'' ''/auth/token''" "[''id'' \<mapsto> ''bob'']" Map.empty None
        sample_codec sample_token sample_jwt sample_client 5 sample_store "''hub''" 5 undefined 0 undefined] by simp
qed

end
