(* ===== verification/RelayManagement.thy ===== *)
theory RelayManagement
  imports AccountServices ServiceManager
begin

text \<open>
  The services of the server that deal with relayed services, messages and the status of the hub:
  \<open>ServiceManagementService.go\<close>, \<open>MessagingService.go\<close> and \<open>StatusService.go\<close> under \<open>src/hub_server/services\<close>.

  The handlers work on the service manager, whose services live in a heap; the object that the pool of
  \<open>ServiceManagementService\<close> hands out is the address \<open>a\<close>. What the services know of the machine, the clock, the
  connections and JSON is the parameter \<open>E\<close>. An error is a text or the error value of the module that returned it.
  An event listener runs in a goroutine of its own, so a panic in it ends the process: here the handler panics.
\<close>

section \<open>ServiceDescriptor\<close>

definition marshallStringField :: "string \<Rightarrow> string \<Rightarrow> string" where
  "marshallStringField k v = quoted k @ '':'' @ quoted v"

definition marshallObjField :: "string \<Rightarrow> string \<Rightarrow> string" where
  "marshallObjField k v = quoted k @ '':'' @ v"

definition marshallArrStringField :: "string \<Rightarrow> string list \<Rightarrow> string" where
  "marshallArrStringField k vs =
     [CHR 0x22] @ k @ [CHR 0x22] @ '':['' @
     concat (map (\<lambda>i. quoted (vs ! i) @ (if i \<noteq> length vs - 1 then '','' else [])) [0..<length vs]) @ '']''"

definition marshallNumberField :: "string \<Rightarrow> int \<Rightarrow> string" where
  "marshallNumberField k v = quoted k @ '':'' @ sprintf_d v"

text \<open>\<open>String\<close> of a descriptor; the format of its creation time is the parameter \<open>ft\<close>.\<close>

definition descriptor_String :: "(int \<Rightarrow> string) \<Rightarrow> ServiceDescriptor \<Rightarrow> string" where
  "descriptor_String ft d =
     ''{'' @ marshallStringField ''id'' (sd_Id d) @ '','' @ marshallStringField ''description'' (sd_Description d) @ '','' @
     marshallObjField ''hostInfo'' (role_String (sd_HostInfo d)) @ '','' @ marshallObjField ''provider'' (role_String (sd_Provider d)) @ '','' @
     marshallArrStringField ''serviceUris'' (sd_ServiceUris d) @ '','' @ marshallStringField ''cTime'' (ft (sd_CTime d)) @ '','' @
     marshallNumberField ''serviceType'' (sd_ServiceType d) @ '','' @ marshallNumberField ''accessType'' (sd_AccessType d) @ '','' @
     marshallNumberField ''executionType'' (sd_ExecutionType d) @ '','' @ marshallNumberField ''status'' (sd_Status d) @ ''}''"

section \<open>ServiceManagementService.go\<close>

record 'c relay_env =
  re_host :: RoleDescriptor
  re_now :: int
  re_reqs :: "nat \<Rightarrow> ServiceRequest"
  re_live :: "'c \<Rightarrow> bool"
  re_address :: "'c \<Rightarrow> string"
  re_getConn :: "string \<Rightarrow> 'c option"
  re_connString :: "'c \<Rightarrow> string"
  re_decService :: "string \<Rightarrow> string + ServiceDescriptor"
  re_encService :: "ServiceDescriptor \<Rightarrow> string"
  re_encServices :: "ServiceDescriptor list \<Rightarrow> string"
  re_formatTime :: "int \<Rightarrow> string"

datatype svc_fail = FText string | FManager sm_error | FService svc_error

type_synonym svc_answer = "ServiceRequest \<times> svc_fail option go"

definition lift_fail :: "ServiceRequest \<times> string option go \<Rightarrow> svc_answer" where
  "lift_fail x = (fst x, bind_go (snd x) (\<lambda>e. Ret (map_option FText e)))"

definition answer_ack :: "string \<Rightarrow> ServiceRequest \<Rightarrow> svc_answer" where
  "answer_ack host r = (let (r', res) = ResolveByAck host r in (r', bind_go res (\<lambda>_. Ret None)))"

text \<open>The assertion \<open>.(bool)\<close> panics unless the connection middleware has set the value.\<close>

definition validateClientConnection :: "ServiceRequest \<Rightarrow> string option go" where
  "validateClientConnection r =
     (case GetContext r ''is_sync_conn'' of
        Some (CBool True) \<Rightarrow> Ret (Some ''connection type not supported'')
      | Some (CBool False) \<Rightarrow> Ret (if from_of r = [] then Some ''invalid credential'' else None)
      | _ \<Rightarrow> Panic)"

definition GetServiceById :: "'c relay_env \<Rightarrow> ('h, 'c) ServiceManagerModule \<Rightarrow> ServiceRequest \<Rightarrow> params \<Rightarrow> svc_answer" where
  "GetServiceById E m r ps =
     (let host = rd_Id (re_host E); i = path_param ps ''id'' in
      if i = [] then lift_fail (answer_error host r MessageTypeSvcBadRequestError ''invalid id path param'')
      else (case GetService m i of
          None \<Rightarrow> lift_fail (answer_error host r MessageTypeSvcNotFoundError (''can not find service by id '' @ i))
        | Some a \<Rightarrow> lift_fail (answer host r (re_encService E (Describe (re_host E) (sm_service m a))))))"

text \<open>A service pool object is initialised for the provider.\<close>

definition createRelayService :: "'c relay_env \<Rightarrow> RoleDescriptor \<Rightarrow> ServiceDescriptor \<Rightarrow> 'c RelayService" where
  "createRelayService E provider d =
     relay_Init (re_host E) (re_now E) (re_reqs E) d provider
       (NewRelayServiceRequestExecutor (re_live E) (rd_Id (re_host E)) (sd_Id d) (rd_Id provider))"

fun restore_services :: "'c relay_env \<Rightarrow> RoleDescriptor \<Rightarrow> nat list \<Rightarrow> ('h, 'c) ServiceManagerModule \<Rightarrow>
    ('h, 'c) ServiceManagerModule \<times> svc_fail option go" where
  "restore_services E owner [] m = (m, Ret None)"
| "restore_services E owner (a # as) m =
     (case sm_heap m a of
        INative n \<Rightarrow> (m, Panic)
      | IRelay s \<Rightarrow>
          (case RestoreExternally (re_live E) (re_host E) owner s of
             (s', Some err) \<Rightarrow> (m\<lparr>sm_heap := (sm_heap m)(a := IRelay s')\<rparr>, Ret (Some (FService err)))
           | (s', None) \<Rightarrow> restore_services E owner as (m\<lparr>sm_heap := (sm_heap m)(a := IRelay s')\<rparr>)))"

definition client_descriptor :: "InMemoryStore \<Rightarrow> nat \<Rightarrow> RoleDescriptor" where
  "client_descriptor clients c = fst (client_Describe (cl_heap clients c))"

definition tryToRestoreDeadServicesFromReconnectedClient :: "'c relay_env \<Rightarrow> InMemoryStore \<Rightarrow> string \<Rightarrow>
    ('h, 'c) ServiceManagerModule \<Rightarrow> ('h, 'c) ServiceManagerModule \<times> svc_fail option go" where
  "tryToRestoreDeadServicesFromReconnectedClient E clients clientId m =
     (case GetClientWithErrOnNotFound clientId clients of
        Inl err \<Rightarrow> (m, Ret (Some (FText err)))
      | Inr c \<Rightarrow> restore_services E (client_descriptor clients c) (getServicesByClientId m clientId) m)"

text \<open>The handler of \<open>EventServiceNewProvider\<close> drops the error; the event carries what \<open>RegisterService\<close> puts into it.\<close>

definition onServiceNewProvider :: "'c relay_env \<Rightarrow> InMemoryStore \<Rightarrow> string \<Rightarrow> ('h, 'c) ServiceManagerModule \<Rightarrow>
    ('h, 'c) ServiceManagerModule \<times> unit go" where
  "onServiceNewProvider E clients clientId m =
     (let (m', res) = tryToRestoreDeadServicesFromReconnectedClient E clients clientId m
      in (m', bind_go res (\<lambda>_. Ret ())))"

definition onClientConnectionGone :: "string \<Rightarrow> ('h, 'c) ServiceManagerModule \<Rightarrow> ('h, 'c) ServiceManagerModule" where
  "onClientConnectionGone clientId m = UnregisterAllServicesFromClientId clientId m"

fun kill_services :: "nat list \<Rightarrow> ('h, 'c) ServiceManagerModule \<Rightarrow> ('h, 'c) ServiceManagerModule \<times> unit go" where
  "kill_services [] m = (m, Ret ())"
| "kill_services (a # as) m =
     (case svc_Kill (sm_service m a) of
        (s, Panic) \<Rightarrow> (set_service a s m, Panic)
      | (s, Ret _) \<Rightarrow> kill_services as (set_service a s m))"

definition onClientUnexpectedClosure :: "string \<Rightarrow> ('h, 'c) ServiceManagerModule \<Rightarrow> ('h, 'c) ServiceManagerModule \<times> unit go" where
  "onClientUnexpectedClosure clientId m = kill_services (getServicesByClientId m clientId) m"

definition svc_RegisterService :: "'c relay_env \<Rightarrow> InMemoryStore \<Rightarrow> nat \<Rightarrow> ('h, 'c) ServiceManagerModule \<Rightarrow> ServiceRequest \<Rightarrow>
    ('h, 'c) ServiceManagerModule \<times> svc_answer" where
  "svc_RegisterService E clients a m r =
     (let host = rd_Id (re_host E) in
      case validateClientConnection r of
        Panic \<Rightarrow> (m, r, Panic)
      | Ret (Some err) \<Rightarrow> (m, r, Ret (Some (FText err)))
      | Ret None \<Rightarrow>
          (case re_decService E (payload_of r) of
             Inl err \<Rightarrow> (m, r, Ret (Some (FText err)))
           | Inr d \<Rightarrow>
               (case GetClientWithErrOnNotFound (rd_Id (sd_Provider d)) clients of
                  Inl err \<Rightarrow> (m, r, Ret (Some (FText err)))
                | Inr c \<Rightarrow>
                    (if HasService m (sd_Id d)
                     then (case onServiceNewProvider E clients (sd_Id d) m of
                         (m', Panic) \<Rightarrow> (m', r, Panic)
                       | (m', Ret _) \<Rightarrow> (m', answer_ack host r))
                     else
                       (let m1 = m\<lparr>sm_heap := (sm_heap m)(a := IRelay (createRelayService E (client_descriptor clients c) d))\<rparr>;
                            (m2, err) = registerService host (sd_Id d) a m1 in
                        case err of
                          Some e \<Rightarrow> (m2, r, Ret (Some (FManager e)))
                        | None \<Rightarrow> (m2, answer_ack host r))))))"

definition svc_UnregisterService :: "'c relay_env \<Rightarrow> ('h, 'c) ServiceManagerModule \<Rightarrow> ServiceRequest \<Rightarrow>
    ('h, 'c) ServiceManagerModule \<times> svc_answer" where
  "svc_UnregisterService E m r =
     (let fail = (\<lambda>e. (m, r, Ret (Some e))) in
      case validateClientConnection r of
        Panic \<Rightarrow> (m, r, Panic)
      | Ret (Some err) \<Rightarrow> fail (FText err)
      | Ret None \<Rightarrow>
          (case re_decService E (payload_of r) of
             Inl err \<Rightarrow> fail (FText err)
           | Inr d \<Rightarrow>
               (if rd_Id (sd_Provider d) \<noteq> from_of r
                then fail (FText (''descriptor provider id('' @ rd_Id (sd_Provider d) @ '') does not match client id('' @ from_of r @ '')''))
                else (case GetService m (sd_Id d) of
                    None \<Rightarrow> fail (FManager (ENoSuchService (sd_Id d)))
                  | Some s \<Rightarrow>
                      (let pid = rd_Id (svc_provider (sm_service m s)) in
                       if pid \<noteq> from_of r
                       then fail (FText (''actual service provider id('' @ pid @ '') does not match client id('' @ from_of r @ '')''))
                       else (case unregisterService (sd_Id d) m of
                           (m', Some e) \<Rightarrow> (m', r, Ret (Some (FManager e)))
                         | (m', None) \<Rightarrow> (m', answer_ack (rd_Id (re_host E)) r)))))))"

definition svc_UpdateService :: "'c relay_env \<Rightarrow> ('h, 'c) ServiceManagerModule \<Rightarrow> ServiceRequest \<Rightarrow>
    ('h, 'c) ServiceManagerModule \<times> svc_answer" where
  "svc_UpdateService E m r =
     (case validateClientConnection r of
        Panic \<Rightarrow> (m, r, Panic)
      | Ret (Some err) \<Rightarrow> (m, lift_fail (answer_invalid (rd_Id (re_host E)) r))
      | Ret None \<Rightarrow>
          (case re_decService E (payload_of r) of
             Inl err \<Rightarrow> (m, r, Ret (Some (FText err)))
           | Inr d \<Rightarrow>
               (if rd_Id (sd_Provider d) \<noteq> from_of r
                then (m, r, Ret (Some (FText (''descriptor provider id('' @ rd_Id (sd_Provider d) @
                  '') does not match client id('' @ from_of r @ '')''))))
                else (case UpdateService (re_host E) d m of
                    Panic \<Rightarrow> (m, r, Panic)
                  | Ret (m', Some e) \<Rightarrow> (m', r, Ret (Some (FManager e)))
                  | Ret (m', None) \<Rightarrow> (m', answer_ack (rd_Id (re_host E)) r)))))"

definition GetServiceByClientId :: "'c relay_env \<Rightarrow> InMemoryStore \<Rightarrow> ('h, 'c) ServiceManagerModule \<Rightarrow> ServiceRequest \<Rightarrow> params \<Rightarrow>
    svc_answer" where
  "GetServiceByClientId E clients m r ps =
     (let clientId = path_param ps ''clientId'' in
      if clientId = [] then (r, Ret (Some (FText ''parameter [:clientId] is missing'')))
      else (case GetClientWithErrOnNotFound clientId clients of
          Inl err \<Rightarrow> (r, Ret (Some (FText err)))
        | Inr _ \<Rightarrow> lift_fail (answer (rd_Id (re_host E)) r
            (re_encServices E (map (\<lambda>a. Describe (re_host E) (sm_service m a)) (getServicesByClientId m clientId))))))"

definition GetAllRelayServices :: "'c relay_env \<Rightarrow> ('h, 'c) ServiceManagerModule \<Rightarrow> ServiceRequest \<Rightarrow> svc_answer" where
  "GetAllRelayServices E m r =
     lift_fail (answer (rd_Id (re_host E)) r (re_encServices E (DescribeAllRelayServices (re_host E) m)))"

text \<open>The assertion to \<open>IRelayService\<close> panics on a native service, that on the address on a value that is no string.\<close>

definition UpdateServiceProviderConnection :: "'c relay_env \<Rightarrow> ('h, 'c) ServiceManagerModule \<Rightarrow> ServiceRequest \<Rightarrow>
    ('h, 'c) ServiceManagerModule \<times> svc_answer" where
  "UpdateServiceProviderConnection E m r =
     (let host = rd_Id (re_host E) in
      case validateClientConnection r of
        Panic \<Rightarrow> (m, r, Panic)
      | Ret (Some err) \<Rightarrow> (m, lift_fail (answer_invalid host r))
      | Ret None \<Rightarrow>
          (let addr = GetContext r ''address'' in
           if addr = None \<or> addr = Some (CString []) then (m, r, Ret (Some (FText ''invalid provider address'')))
           else (case re_decService E (payload_of r) of
               Inl err \<Rightarrow> (m, r, Ret (Some (FText err)))
             | Inr d \<Rightarrow>
                 (case GetService m (sd_Id d) of
                    None \<Rightarrow> (m, lift_fail (answer_error host r MessageTypeSvcNotFoundError (''can not find service by id '' @ sd_Id d)))
                  | Some s \<Rightarrow>
                      (let pid = rd_Id (svc_provider (sm_service m s)) in
                       if pid \<noteq> from_of r
                       then (m, lift_fail (answer_error host r MessageTypeSvcForbiddenError
                          (''client '' @ from_of r @ '' is not the provider for service '' @ pid)))
                       else (case (sm_heap m s, addr) of
                           (IRelay rs, Some (CString ad)) \<Rightarrow>
                             (case relay_UpdateProviderConnection (re_address E) (re_getConn E) ad rs of
                                (rs', Some err) \<Rightarrow> (m\<lparr>sm_heap := (sm_heap m)(s := IRelay rs')\<rparr>, r, Ret (Some (FService err)))
                              | (rs', None) \<Rightarrow> (m\<lparr>sm_heap := (sm_heap m)(s := IRelay rs')\<rparr>,
                                  lift_fail (answer host r (descriptor_String (re_formatTime E) d))))
                         | _ \<Rightarrow> (m, r, Panic)))))))"

definition assembleConnJsonArr :: "('c \<Rightarrow> string) \<Rightarrow> 'c list \<Rightarrow> string" where
  "assembleConnJsonArr str conns =
     ''['' @ concat (map (\<lambda>i. if i = length conns - 1 then str (conns ! i) else str (conns ! i) @ '','') [0..<length conns]) @ '']''"

definition GetServiceProviderConnections :: "'c relay_env \<Rightarrow> InMemoryStore \<Rightarrow> ('h, 'c) ServiceManagerModule \<Rightarrow> ServiceRequest \<Rightarrow>
    params \<Rightarrow> svc_answer" where
  "GetServiceProviderConnections E clients m r ps =
     (let host = rd_Id (re_host E); sid = path_param ps ''id'' in
      if from_of r = [] then lift_fail (answer_invalid host r)
      else if sid = [] then lift_fail (answer_error host r MessageTypeSvcBadRequestError ''invalid service id'')
      else (case GetService m sid of
          None \<Rightarrow> lift_fail (answer_error host r MessageTypeSvcNotFoundError (''can not find service by id ['' @ sid @ '']''))
        | Some s \<Rightarrow>
            (if serviceType (sm_service m s) \<noteq> ServiceTypeProxy
             then lift_fail (answer_error host r MessageTypeSvcBadRequestError (''service ['' @ svc_id (sm_service m s) @ ''] is not a relay service''))
             else (case GetClient (from_of r) clients of
                 Inl err \<Rightarrow> (r, Ret (Some (FText err)))
               | Inr c \<Rightarrow>
                   (if rd_Id (svc_provider (sm_service m s)) \<noteq> from_of r \<and> cType (cl_heap clients c) < ClientTypeManager
                    then lift_fail (answer_invalid host r)
                    else (case sm_heap m s of
                        INative _ \<Rightarrow> (r, Panic)
                      | IRelay rs \<Rightarrow> lift_fail (answer host r (assembleConnJsonArr (re_connString E) (GetProviderConnections rs)))))))))"

datatype service_handler = SGetServiceById | SRegisterService | SUnregisterService | SUpdateService | SGetAllRelayServices
  | SGetServiceByClientId | SUpdateServiceProviderConnection | SGetServiceProviderConnections

definition service_initRoutes :: "service_handler RequestHandlerMap" where
  "service_initRoutes =
     hm_Get (hm_Patch (hm_Get (hm_Get (hm_Put (hm_Delete (hm_Post (hm_Get [] ''/:id'' SGetServiceById)
       ''/register'' SRegisterService) ''/unregister'' SUnregisterService) ''/update'' SUpdateService)
       ''/services'' SGetAllRelayServices) ''/clients/:clientId'' SGetServiceByClientId)
       ''/providers'' SUpdateServiceProviderConnection) ''/:id/providers'' SGetServiceProviderConnections"

definition service_Init :: "RoleDescriptor \<Rightarrow> int \<Rightarrow> (nat \<Rightarrow> ServiceRequest) \<Rightarrow> service_handler NativeService \<times> string option" where
  "service_Init host now reqs =
     RegisterRoutes (hm_entries service_initRoutes)
       (NewNativeService host now reqs ''services'' ''relay management service'' ServiceTypeInternal ServiceAccessTypeSocket ServiceExecutionSync)"

section \<open>MessagingService.go\<close>

text \<open>
  The loop over the connections of a client: a \<open>nil\<close> connection panics, \<open>Send\<close> disposes of the message, and the
  callback keeps the last error. The result is what was handed to each connection, the message afterwards, and
  the error.
\<close>

fun send_loop :: "(nat \<Rightarrow> Message \<Rightarrow> string option) \<Rightarrow> nat option list \<Rightarrow> Message \<Rightarrow> string option \<Rightarrow>
    ((nat \<times> Message) list \<times> Message \<times> string option) go" where
  "send_loop wr [] m err = Ret ([], m, err)"
| "send_loop wr (None # cs) m err = Panic"
| "send_loop wr (Some c # cs) m err =
     bind_go (send_loop wr cs (Dispose m) (case wr c m of None \<Rightarrow> err | Some e \<Rightarrow> Some e))
       (\<lambda>(outs, m', err'). Ret ((c, m) # outs, m', err'))"

definition sendToClient :: "(nat \<Rightarrow> Message \<Rightarrow> string option) \<Rightarrow> ConnectionManagerModule \<Rightarrow> string \<Rightarrow> Message \<Rightarrow>
    ((nat \<times> Message) list \<times> Message \<times> string option) go" where
  "sendToClient wr cm i m =
     (let conns = GetConnectionsByClientId cm i in
      if conns = [] then Ret ([], m, Some (''unable to send message to '' @ i @ '' because the client is not online''))
      else bind_go (send_loop wr conns m None) (\<lambda>(outs, m', _). Ret (outs, m', None)))"

text \<open>\<open>Send\<close>: the error that the callback stores is overwritten by the \<open>nil\<close> that \<open>sendToClient\<close> returns.\<close>

definition msg_Send :: "string \<Rightarrow> (nat \<Rightarrow> Message \<Rightarrow> string option) \<Rightarrow> ConnectionManagerModule \<Rightarrow> InMemoryStore \<Rightarrow> ServiceRequest \<Rightarrow>
    (nat \<times> Message) list \<times> svc_answer" where
  "msg_Send host wr cm clients r =
     (case GetClientWithErrOnNotFound (from_of r) clients of
        Inl err \<Rightarrow> ([], r, Ret (Some (FText err)))
      | Inr _ \<Rightarrow>
          (case sendToClient wr cm (from_of r) (sr_message r) of
             Panic \<Rightarrow> ([], r, Panic)
           | Ret (outs, m', err) \<Rightarrow>
               (let r' = r\<lparr>sr_message := m'\<rparr> in
                case err of Some e \<Rightarrow> (outs, r', Ret (Some (FText e))) | None \<Rightarrow> (outs, answer_ack host r'))))"

fun broadcast_loop :: "(nat \<Rightarrow> Message \<Rightarrow> string option) \<Rightarrow> ConnectionManagerModule \<Rightarrow> string list \<Rightarrow> Message \<Rightarrow> string \<Rightarrow>
    ((nat \<times> Message) list \<times> Message \<times> string) go" where
  "broadcast_loop wr cm [] m errs = Ret ([], m, errs)"
| "broadcast_loop wr cm (i # is) m errs =
     bind_go (sendToClient wr cm i m) (\<lambda>(outs, m', err).
     bind_go (broadcast_loop wr cm is m' (case err of None \<Rightarrow> errs | Some e \<Rightarrow> errs @ e @ [CHR 0x0A]))
       (\<lambda>(outs', m'', errs'). Ret (outs @ outs', m'', errs')))"

definition msg_Broadcast :: "string \<Rightarrow> (nat \<Rightarrow> Message \<Rightarrow> string option) \<Rightarrow> ConnectionManagerModule \<Rightarrow> InMemoryStore \<Rightarrow>
    ServiceRequest \<Rightarrow> (nat \<times> Message) list \<times> svc_answer" where
  "msg_Broadcast host wr cm clients r =
     (case broadcast_loop wr cm (map (\<lambda>(i, a). client_id a clients) (cl_clients clients)) (sr_message r) [] of
        Panic \<Rightarrow> ([], r, Panic)
      | Ret (outs, m', errs) \<Rightarrow>
          (let r' = r\<lparr>sr_message := m'\<rparr> in
           if errs \<noteq> [] then (outs, r', Ret (Some (FText errs))) else (outs, answer_ack host r')))"

section \<open>StatusService.go\<close>

definition GetStatus_answer :: "string \<Rightarrow> string + string \<Rightarrow> ServiceRequest \<Rightarrow> svc_answer" where
  "GetStatus_answer host stat r =
     (if from_of r = [] then lift_fail (answer_invalid host r)
      else (case stat of Inl err \<Rightarrow> (r, Ret (Some (FText err))) | Inr json \<Rightarrow> lift_fail (answer host r json)))"

definition GetAllInternalServices :: "'c relay_env \<Rightarrow> ('h, 'c) ServiceManagerModule \<Rightarrow> ServiceRequest \<Rightarrow> svc_answer" where
  "GetAllInternalServices E m r =
     (if from_of r = [] then lift_fail (answer_invalid (rd_Id (re_host E)) r)
      else lift_fail (answer (rd_Id (re_host E)) r (re_encServices E (DescribeAllServices (re_host E) m))))"

definition GetInfo :: "RoleDescriptor \<Rightarrow> ServiceRequest \<Rightarrow> svc_answer" where
  "GetInfo host r = lift_fail (answer (rd_Id host) r (role_String host))"

section \<open>Lemmas\<close>

definition ack_of :: "string \<Rightarrow> ServiceRequest \<Rightarrow> Message" where
  "ack_of host r = NewACKMessage (m_id (sr_message r)) host (from_of r) (m_uri (sr_message r))"

definition acked :: "string \<Rightarrow> ServiceRequest \<Rightarrow> svc_answer \<Rightarrow> bool" where
  "acked host r x \<longleftrightarrow> snd x = Ret None \<and> Response (fst x) = Some (Ret (ack_of host r))"

lemma answer_ack_acked: "open_request r \<Longrightarrow> acked host r (answer_ack host r)"
  using Resolve_responds [of r "ack_of host r"]
  by (auto simp: acked_def open_request_def answer_ack_def ResolveByAck_def ack_of_def from_of_def Let_def case_prod_beta)

lemma open_request_message: "open_request (r\<lparr>sr_message := m\<rparr>) = open_request r"
  by (auto simp: open_request_def req_ok_def split: option.splits)

text \<open>A request over a connection that can serve relayed services, from a known sender.\<close>

definition socket_request :: "ServiceRequest \<Rightarrow> bool" where
  "socket_request r \<longleftrightarrow> GetContext r ''is_sync_conn'' = Some (CBool False) \<and> from_of r \<noteq> []"

lemma validate_socket: "socket_request r \<Longrightarrow> validateClientConnection r = Ret None"
  by (simp add: socket_request_def validateClientConnection_def)

lemma count_new_service:
  assumes "map_of (serviceMap m) (svc_id (sm_service m a)) = None" and "rd_Id (svc_provider (sm_service m a)) = cid"
  shows "serviceCountByClientId (m\<lparr>serviceMap := AList.update (svc_id (sm_service m a)) a (serviceMap m), trieTree := t\<rparr>) cid =
    Suc (serviceCountByClientId m cid)"
proof -
  have "AList.update k a al = al @ [(k, a)]" if "map_of al k = None" for k and al :: "(string \<times> nat) list"
    using that by (induction al) (auto split: if_splits)
  then show ?thesis using assms by (simp add: serviceCountByClientId_def getServicesByClientId_def)
qed

text \<open>Giving an address that is not in the map to a new object changes no count.\<close>

lemma count_other_address:
  assumes "a \<notin> snd ` set (serviceMap m)"
  shows "serviceCountByClientId (m\<lparr>sm_heap := (sm_heap m)(a := x)\<rparr>) cid = serviceCountByClientId m cid"
proof -
  have "filter (\<lambda>b. rd_Id (svc_provider (svc_base (((sm_heap m)(a := x)) b))) = cid) (map snd (serviceMap m)) =
      filter (\<lambda>b. rd_Id (svc_provider (svc_base (sm_heap m b))) = cid) (map snd (serviceMap m))"
    using assms by (intro filter_cong) auto
  then show ?thesis by (simp add: serviceCountByClientId_def getServicesByClientId_def sm_service_def)
qed

lemma createRelayService_base:
  "svc_id (rs_service (createRelayService E p d)) = sd_Id d" "svc_provider (rs_service (createRelayService E p d)) = p"
  by (simp_all add: createRelayService_def relay_Init_def NewService_def)

lemma send_loop_outs:
  "send_loop wr cs m err = Ret (outs, m', err') \<Longrightarrow>
     map (\<lambda>(c, _). Some c) outs = cs \<and> (outs = [] \<or> outs = (fst (hd outs), m) # tl outs) \<and>
     (\<forall>p \<in> set (tl outs). payload (snd p) = [])"
proof (induction wr cs m err arbitrary: outs m' err' rule: send_loop.induct)
  case (3 wr c cs m err)
  obtain o2 m2 e2 where rest: "send_loop wr cs (Dispose m) (case wr c m of None \<Rightarrow> err | Some e \<Rightarrow> Some e) = Ret (o2, m2, e2)"
    and outs: "outs = (c, m) # o2" using "3.prems" by (auto simp: bind_go_eq_Ret)
  from "3.IH" [OF rest] have ih: "map (\<lambda>(c, _). Some c) o2 = cs" "o2 = [] \<or> o2 = (fst (hd o2), Dispose m) # tl o2"
    "\<forall>p \<in> set (tl o2). payload (snd p) = []" by auto
  have "payload (snd p) = []" if "p \<in> set o2" for p
    using ih(2,3) that by (cases o2) (auto simp: Dispose_def)
  then show ?case using ih(1) outs by auto
qed auto

section \<open>A concrete server\<close>

definition sample_host :: RoleDescriptor where
  "sample_host = \<lparr>rd_Id = ''hub'', rd_Description = [], rd_RoleType = ''Server'', rd_ExtraInfo = [], rd_Address = []\<rparr>"

definition sample_service :: ServiceDescriptor where
  "sample_service =
     \<lparr>sd_Id = ''echo'', sd_Description = [], sd_HostInfo = sample_host, sd_Provider = sample_host\<lparr>rd_Id := ''bob''\<rparr>,
      sd_ServiceUris = [''/say''], sd_CTime = 0, sd_ServiceType = 1, sd_AccessType = 1, sd_ExecutionType = 1, sd_Status = 1\<rparr>"

definition relay_sample_env :: "nat relay_env" where
  "relay_sample_env =
     \<lparr>re_host = sample_host, re_now = 0, re_reqs = (\<lambda>_. account_request [] []), re_live = (\<lambda>_. True), re_address = (\<lambda>_. []),
      re_getConn = (\<lambda>_. None), re_connString = (\<lambda>_. []), re_decService = (\<lambda>_. Inr sample_service), re_encService = (\<lambda>_. []),
      re_encServices = (\<lambda>_. []), re_formatTime = (\<lambda>_. [])\<rparr>"

definition relay_request :: "string \<Rightarrow> ServiceRequest" where
  "relay_request f = (account_request f ''/services/register'')\<lparr>sr_context := Some [''is_sync_conn'' \<mapsto> CBool False]\<rparr>"

definition alice_conns :: ConnectionManagerModule where
  "alice_conns =
     \<lparr>heap = (\<lambda>_. NewWsConnection [] 1), connStore = [(''a'', 1), (''b'', 2)],
      activeClientStore = [(''alice'', [''a'', ''b''])], event_log = []\<rparr>"

lemma relay_request_facts:
  "open_request (relay_request f)" "f \<noteq> [] \<Longrightarrow> socket_request (relay_request f)" "from_of (relay_request f) = f"
  using account_request_facts(1,2) [of f "''/services/register''"]
  by (auto simp: relay_request_def open_request_def req_ok_def socket_request_def GetContext_def from_of_def
      split: option.splits)

lemma sample_bob: "\<exists>c. GetClientWithErrOnNotFound ''bob'' sample_accounts = Inr c \<and> rd_Id (client_descriptor sample_accounts c) = ''bob''"
proof -
  have "manager_getClient sample_accounts ''bob'' = Inr (NewClient ''bob'' [] ClientTypeManager ''b'' 0)"
    by (simp add: manager_getClient_directory sample_accounts_facts(2))
  then show ?thesis
    by (auto simp: manager_getClient_def GetClientWithErrOnNotFound_def client_descriptor_def client_Describe_def NewClient_def
        NewCommonRole_def Let_def split: sum.splits)
qed

lemma sample_no_echo: "GetClientWithErrOnNotFound ''echo'' sample_accounts = Inl ''not found''"
proof -
  have "directory sample_accounts ''echo'' = None" by (simp add: sample_accounts_facts(2))
  then show ?thesis
    by (simp add: GetClientWithErrOnNotFound_def GetClient_def cstore_Get_def directory_None)
qed

section \<open>Properties\<close>

text \<open>
  Registering a relayed service. A registration over a socket for a service that is not known and a provider that
  is a known client files the service under its id, owned by that provider, and is acknowledged, however many
  services the provider already has and whoever the sender is: the limit per client is asked for the id of the
  service instead.
\<close>

theorem relay_registration_ignores_quota:
  assumes "open_request r" and "socket_request r" and "re_decService E (payload_of r) = Inr d"
    and "GetClientWithErrOnNotFound (rd_Id (sd_Provider d)) clients = Inr c"
    and "\<not> HasService m (sd_Id d)" and "a \<notin> snd ` set (serviceMap m)"
    and "serviceCountByClientId m (sd_Id d) < MaxServicePerClient"
    and "svc_RegisterService E clients a m r = (m', res)"
  shows "acked (rd_Id (re_host E)) r res \<and> GetService m' (sd_Id d) = Some a \<and>
    svc_provider (sm_service m' a) = client_descriptor clients c \<and>
    serviceCountByClientId m' (rd_Id (client_descriptor clients c)) =
      Suc (serviceCountByClientId m (rd_Id (client_descriptor clients c)))"
proof -
  let ?p = "client_descriptor clients c"
  let ?s = "createRelayService E ?p d"
  let ?m1 = "m\<lparr>sm_heap := (sm_heap m)(a := IRelay ?s)\<rparr>"
  have svc: "sm_service ?m1 a = rs_service ?s" by (simp add: sm_service_def)
  have ids: "svc_id (sm_service ?m1 a) = sd_Id d" "svc_provider (sm_service ?m1 a) = ?p"
    by (simp_all add: svc createRelayService_base)
  have count: "serviceCountByClientId ?m1 cid = serviceCountByClientId m cid" for cid
    by (rule count_other_address [OF assms(6)])
  let ?m2 = "?m1\<lparr>serviceMap := AList.update (sd_Id d) a (serviceMap ?m1),
      trieTree := register_uris a (FullServiceUris (sm_service ?m1 a)) [] (trieTree ?m1)\<rparr>"
  have "registerService (rd_Id (re_host E)) (sd_Id d) a ?m1 = (?m2, None)"
    using assms(7) count [of "sd_Id d"] ids(1) by (simp add: registerService_def Let_def)
  then have res: "m' = ?m2" "res = answer_ack (rd_Id (re_host E)) r"
    using assms(3-5,8) validate_socket [OF assms(2)] by (auto simp: svc_RegisterService_def Let_def)
  have "map_of (serviceMap ?m1) (svc_id (sm_service ?m1 a)) = None"
    using assms(5) ids(1) by (simp add: HasService_def GetService_def)
  from count_new_service [OF this, of "rd_Id ?p"] count [of "rd_Id ?p"] ids
  have "serviceCountByClientId ?m2 (rd_Id ?p) = Suc (serviceCountByClientId m (rd_Id ?p))" by simp
  then show ?thesis using res answer_ack_acked [OF assms(1)] ids by (simp add: GetService_def)
qed

theorem relay_registration_ignores_quota_witness:
  "\<exists>m' res. svc_RegisterService relay_sample_env sample_accounts 0 (sm_Init (\<lambda>_. undefined :: (unit, nat) IService)) (relay_request ''alice'') = (m', res) \<and>
     GetService m' ''echo'' = Some 0 \<and> serviceCountByClientId m' ''bob'' = 1"
proof -
  let ?m = "sm_Init (\<lambda>_. undefined :: (unit, nat) IService)"
  obtain c where c: "GetClientWithErrOnNotFound ''bob'' sample_accounts = Inr c" "rd_Id (client_descriptor sample_accounts c) = ''bob''"
    using sample_bob by blast
  obtain m' res where run: "svc_RegisterService relay_sample_env sample_accounts 0 ?m (relay_request ''alice'') = (m', res)"
    by (cases "svc_RegisterService relay_sample_env sample_accounts 0 ?m (relay_request ''alice'')")
  have d: "re_decService relay_sample_env p = Inr sample_service" "sd_Id sample_service = ''echo''"
    "rd_Id (sd_Provider sample_service) = ''bob''" for p
    by (simp_all add: relay_sample_env_def sample_service_def)
  have m: "\<not> HasService ?m i" "serviceMap ?m = []" "serviceCountByClientId ?m i = 0" for i
    by (simp_all add: HasService_def GetService_def sm_Init_def serviceCountByClientId_def getServicesByClientId_def)
  show ?thesis
    using relay_registration_ignores_quota [OF relay_request_facts(1) relay_request_facts(2) d(1) _ _ _ _ run, of c] run c d m by simp
qed

text \<open>
  C35. Only its provider can take a service away: a request of anybody else to unregister it leaves the service
  manager as it was and does not acknowledge anything.
\<close>

theorem only_provider_unregisters:
  assumes "re_decService E (payload_of r) = Inr d" and "GetService m (sd_Id d) = Some s"
    and "rd_Id (svc_provider (sm_service m s)) \<noteq> from_of r"
    and "svc_UnregisterService E m r = (m', r', res)"
  shows "m' = m \<and> r' = r \<and> res \<noteq> Ret None"
  using assms by (auto simp: svc_UnregisterService_def Let_def split: go.splits option.splits if_splits)

theorem only_provider_unregisters_witness:
  "\<exists>m r' res. GetService m ''echo'' = Some 0 \<and>
     svc_UnregisterService relay_sample_env m (relay_request ''alice'') = (m :: (unit, nat) ServiceManagerModule, r', res) \<and> res \<noteq> Ret None"
proof -
  let ?s = "createRelayService relay_sample_env (sample_host\<lparr>rd_Id := ''bob''\<rparr>) sample_service"
  let ?m = "(sm_Init (\<lambda>_. IRelay ?s))\<lparr>serviceMap := [(''echo'', 0)]\<rparr> :: (unit, nat) ServiceManagerModule"
  have d: "re_decService relay_sample_env p = Inr sample_service" "sd_Id sample_service = ''echo''" for p
    by (simp_all add: relay_sample_env_def sample_service_def)
  obtain m' r' res where run: "svc_UnregisterService relay_sample_env ?m (relay_request ''alice'') = (m', r', res)"
    by (cases "svc_UnregisterService relay_sample_env ?m (relay_request ''alice'')") auto
  have "GetService ?m ''echo'' = Some 0" "rd_Id (svc_provider (sm_service ?m 0)) = ''bob''"
    by (simp_all add: GetService_def sm_service_def sm_Init_def createRelayService_base)
  with only_provider_unregisters [OF d(1) _ _ run, of 0] run d(2) relay_request_facts(3) [of "''alice''"] show ?thesis by auto
qed

text \<open>
  A second provider of a known service is acknowledged and nothing more: the event carries the id of the service
  where its handler expects the id of a client, so unless a client has that id nothing is restored.
\<close>

theorem second_provider_is_ignored:
  assumes "open_request r" and "socket_request r" and "re_decService E (payload_of r) = Inr d"
    and "GetClientWithErrOnNotFound (rd_Id (sd_Provider d)) clients = Inr c" and "HasService m (sd_Id d)"
    and "GetClientWithErrOnNotFound (sd_Id d) clients = Inl err"
    and "svc_RegisterService E clients a m r = (m', res)"
  shows "m' = m \<and> acked (rd_Id (re_host E)) r res"
  using assms(3-7) validate_socket [OF assms(2)] answer_ack_acked [OF assms(1), of "rd_Id (re_host E)"]
  by (auto simp: svc_RegisterService_def onServiceNewProvider_def tryToRestoreDeadServicesFromReconnectedClient_def Let_def)

theorem second_provider_is_ignored_witness:
  "\<exists>m res. GetService m ''echo'' = Some 0 \<and>
     svc_RegisterService relay_sample_env sample_accounts 1 m (relay_request ''bob'') = (m :: (unit, nat) ServiceManagerModule, res) \<and>
     acked ''hub'' (relay_request ''bob'') res"
proof -
  let ?m = "(sm_Init (\<lambda>_. undefined))\<lparr>serviceMap := [(''echo'', 0)]\<rparr> :: (unit, nat) ServiceManagerModule"
  obtain c where c: "GetClientWithErrOnNotFound ''bob'' sample_accounts = Inr c" using sample_bob by blast
  obtain m' res where run: "svc_RegisterService relay_sample_env sample_accounts 1 ?m (relay_request ''bob'') = (m', res)"
    by (cases "svc_RegisterService relay_sample_env sample_accounts 1 ?m (relay_request ''bob'')")
  have d: "re_decService relay_sample_env p = Inr sample_service" "sd_Id sample_service = ''echo''"
    "rd_Id (sd_Provider sample_service) = ''bob''" "rd_Id (re_host relay_sample_env) = ''hub''" for p
    by (simp_all add: relay_sample_env_def sample_service_def sample_host_def)
  have "HasService ?m ''echo''" "GetService ?m ''echo'' = Some 0" by (simp_all add: HasService_def GetService_def)
  with second_provider_is_ignored [OF relay_request_facts(1) relay_request_facts(2) d(1) _ _ _ run, of c "''not found''"]
    run c d sample_no_echo show ?thesis by (intro exI [of _ ?m] exI [of _ res]) simp
qed

text \<open>
  A message that a client sends goes to the connections of that client itself, each once and whatever receiver it
  names, and only the first of them gets the payload.
\<close>

theorem Send_goes_back_to_sender:
  assumes "msg_Send host wr cm clients r = (outs, r', res)" and "res \<noteq> Panic" and "outs \<noteq> []"
  shows "map (\<lambda>(c, _). Some c) outs = GetConnectionsByClientId cm (from_of r) \<and> snd (hd outs) = sr_message r \<and>
    (\<forall>p. p \<in> set (tl outs) \<longrightarrow> payload (snd p) = [])"
proof -
  obtain m' err where send: "send_loop wr (GetConnectionsByClientId cm (from_of r)) (sr_message r) None = Ret (outs, m', err)"
    using assms
    by (auto simp: msg_Send_def sendToClient_def Let_def bind_go_eq_Ret split: sum.splits go.splits option.splits if_splits)
  from send_loop_outs [OF this] assms(3) show ?thesis by (cases outs) auto
qed

theorem Send_goes_back_to_sender_witness:
  "\<exists>outs x. msg_Send ''hub'' (\<lambda>_ _. None)
       alice_conns
       sample_accounts (account_request ''alice'' ''/message/send'') = (outs, x) \<and> map fst outs = [1, 2] \<and> payload (snd (outs ! 1)) = []"
proof -
  let ?cm = alice_conns
  let ?r = "account_request ''alice'' ''/message/send''"
  let ?x = "msg_Send ''hub'' (\<lambda>_ _. None) ?cm sample_accounts ?r"
  have conns: "GetConnectionsByClientId ?cm ''alice'' = [Some 1, Some 2]"
    by (simp add: alice_conns_def GetConnectionsByClientId_def active_Get_def Set_GetAll_def conn_Get_def)
  have "manager_getClient sample_accounts ''alice'' = Inr (NewClient ''alice'' [] ClientTypeAuthenticated ''pw'' 0)"
    by (simp add: manager_getClient_directory sample_accounts_facts(2))
  then obtain c where "GetClientWithErrOnNotFound ''alice'' sample_accounts = Inr c"
    by (auto simp: manager_getClient_def GetClientWithErrOnNotFound_def split: sum.splits)
  then have x: "fst ?x = [(1, sr_message ?r), (2, Dispose (sr_message ?r))]" "snd (snd ?x) \<noteq> Panic"
    using conns answer_ack_acked [of "?r\<lparr>sr_message := Dispose (sr_message ?r)\<rparr>" "''hub''"]
    by (simp_all add: msg_Send_def sendToClient_def Let_def acked_def open_request_message)
  obtain outs r' res where run: "msg_Send ''hub'' (\<lambda>_ _. None) ?cm sample_accounts ?r = (outs, r', res)"
    by (cases ?x) auto
  from Send_goes_back_to_sender [OF this] x run show ?thesis by auto
qed

end
