(* ===== verification/JobPool.thy ===== *)
theory JobPool
  imports Prelude
begin

text \<open>
  \<open>src/common/timed\<close>: the pool of timed jobs. Part one holds the operations of the pool, each call a
  function; \<open>transitJobStatus\<close> and \<open>Cancel\<close> call each other, so they carry a fuel and return \<open>None\<close>
  when it is used up. Part two interleaves the goroutines of the jobs with callers of \<open>Cancel\<close> as a
  step relation in which a call on the pool is one step, and part three holds the properties: the
  recursion ends on every pool between two calls and not on a pool that stores a finished job.
\<close>

section \<open>The pool and its operations\<close>

definition JobStatusWaiting :: int where "JobStatusWaiting = 0"
definition JobStatusRunning :: int where "JobStatusRunning = 1"
definition JobStatusDone :: int where "JobStatusDone = 2"
definition JobStatusTerminating :: int where "JobStatusTerminating = 4"
definition EvictPolicyCancelLast :: int where "EvictPolicyCancelLast = 0"
definition MinPoolSize :: int where "MinPoolSize = 16"
definition MaxPoolSize :: int where "MaxPoolSize = 1024 * 8"

lemmas job_consts = JobStatusWaiting_def JobStatusRunning_def JobStatusDone_def JobStatusTerminating_def
  EvictPolicyCancelLast_def MinPoolSize_def MaxPoolSize_def

datatype executor_strategy = timeoutExecutorStrategy | intervalExecutorStrategy

record Job =
  executor :: executor_strategy
  uuid :: int
  Status :: int

definition NewJob :: "int \<Rightarrow> executor_strategy \<Rightarrow> Job" where
  "NewJob u e = \<lparr>executor = e, uuid = u, Status = JobStatusWaiting\<rparr>"

record JobPool =
  jobMap :: "(int \<times> Job) list"
  maxSize :: int
  evictPolicy :: int

definition NewJobPool :: "int \<Rightarrow> JobPool" where
  "NewJobPool m =
     \<lparr>jobMap = [],
      maxSize = (if m < MinPoolSize then MinPoolSize else if m > MaxPoolSize then MaxPoolSize else m),
      evictPolicy = 0\<rparr>"

definition jobpool_Size :: "JobPool \<Rightarrow> int" where
  "jobpool_Size p = int (length (jobMap p))"

definition HasJob :: "int \<Rightarrow> JobPool \<Rightarrow> bool" where
  "HasJob u p \<longleftrightarrow> map_of (jobMap p) u \<noteq> None"

definition GetStatus :: "int \<Rightarrow> JobPool \<Rightarrow> int" where
  "GetStatus u p = (case map_of (jobMap p) u of None \<Rightarrow> JobStatusDone | Some j \<Rightarrow> Status j)"

text \<open>\<open>setStatus\<close> writes through the pointer of the map, which is \<open>nil\<close> for an unknown job.\<close>

definition job_setStatus :: "int \<Rightarrow> int \<Rightarrow> JobPool \<Rightarrow> JobPool go" where
  "job_setStatus u st p =
     (case map_of (jobMap p) u of
        None \<Rightarrow> Panic
      | Some j \<Rightarrow> Ret (p\<lparr>jobMap := AList.update u (j\<lparr>Status := st\<rparr>) (jobMap p)\<rparr>))"

text \<open>The eviction strategies: the pool knows one, and calling an unregistered one calls \<open>nil\<close>.\<close>

definition evict_strategy :: "int \<Rightarrow> JobPool \<Rightarrow> JobPool go" where
  "evict_strategy u p =
     (if evictPolicy p = EvictPolicyCancelLast then Ret (p\<lparr>jobMap := AList.delete u (jobMap p)\<rparr>)
      else Panic)"

text \<open>The table of the transitions: \<open>None\<close> for a transition without a handler.\<close>

definition transit_strategy :: "int \<Rightarrow> (int \<Rightarrow> JobPool \<Rightarrow> JobPool go) option" where
  "transit_strategy k =
     (if k \<in> {1, 4, 14, 10} then Some (\<lambda>u p. Ret p)
      else if k \<in> {2, 12, 42} then Some evict_strategy
      else None)"

fun transitJobStatus :: "nat \<Rightarrow> int \<Rightarrow> int \<Rightarrow> JobPool \<Rightarrow> JobPool go option"
  and job_Cancel :: "nat \<Rightarrow> int \<Rightarrow> JobPool \<Rightarrow> (bool \<times> JobPool) go option" where
  "transitJobStatus 0 u st p = None"
| "transitJobStatus (Suc n) u st p =
     (let fromStatus = GetStatus u p in
      if fromStatus = st then Some (Ret p)
      else (case transit_strategy (fromStatus * 10 + st) of
          None \<Rightarrow> map_option (\<lambda>r. bind_go r (\<lambda>(b, q). Ret q)) (job_Cancel n u p)
        | Some h \<Rightarrow> Some (bind_go (job_setStatus u st p) (h u))))"
| "job_Cancel 0 u p = None"
| "job_Cancel (Suc n) u p =
     (if \<not> HasJob u p then Some (Ret (False, p))
      else map_option (\<lambda>r. bind_go r (\<lambda>q. Ret (True, q))) (transitJobStatus n u JobStatusTerminating p))"

definition transitWithTerminateCheck :: "nat \<Rightarrow> int \<Rightarrow> int \<Rightarrow> JobPool \<Rightarrow> (bool \<times> JobPool) go option" where
  "transitWithTerminateCheck n u st p =
     (if GetStatus u p = JobStatusTerminating
      then map_option (\<lambda>r. bind_go r (\<lambda>q. Ret (False, q))) (transitJobStatus n u JobStatusDone p)
      else map_option (\<lambda>r. bind_go r (\<lambda>q. Ret (True, q))) (transitJobStatus n u st p))"

text \<open>
  \<open>scheduleJob\<close> without the start of the executor: the answer and the pool. The identifier comes from
  the clock and a random number, so it is an argument.
\<close>

definition scheduleJob :: "executor_strategy \<Rightarrow> int \<Rightarrow> JobPool \<Rightarrow> int \<times> JobPool" where
  "scheduleJob e u p =
     (if jobpool_Size p \<ge> maxSize p then (- 1, p)
      else (u, p\<lparr>jobMap := AList.update u (NewJob u e) (jobMap p)\<rparr>))"

section \<open>Goroutines of the jobs\<close>

text \<open>
  Where the goroutine of a job is: not scheduled, asleep, inside the job function, returned. The count
  of the starts of a job is kept for the statements.
\<close>

datatype job_pc = JIdle | JSleep executor_strategy | JBody executor_strategy | JFinished

record jobs_state =
  js_pool :: JobPool
  js_pc :: "int \<Rightarrow> job_pc"
  js_runs :: "int \<Rightarrow> nat"

definition jobs_init :: "int \<Rightarrow> jobs_state" where
  "jobs_init m = \<lparr>js_pool = NewJobPool m, js_pc = (\<lambda>_. JIdle), js_runs = (\<lambda>_. 0)\<rparr>"

text \<open>
  The steps. A job is scheduled under an identifier that was not used before; it wakes up and starts
  its function or gives up; the function of a timeout job returns, that of an interval job returns
  and the goroutine sleeps again or gives up; somebody cancels a job.
\<close>

inductive jobs_step :: "jobs_state \<Rightarrow> jobs_state \<Rightarrow> bool" where
  schedule: "js_pc s u = JIdle \<Longrightarrow> jobpool_Size (js_pool s) < maxSize (js_pool s) \<Longrightarrow>
    jobs_step s (s\<lparr>js_pool := snd (scheduleJob e u (js_pool s)), js_pc := (js_pc s)(u := JSleep e)\<rparr>)"
| start: "js_pc s u = JSleep e \<Longrightarrow>
    transitWithTerminateCheck n u JobStatusRunning (js_pool s) = Some (Ret (True, p)) \<Longrightarrow>
    jobs_step s (s\<lparr>js_pool := p, js_pc := (js_pc s)(u := JBody e), js_runs := (js_runs s)(u := Suc (js_runs s u))\<rparr>)"
| give_up: "js_pc s u = JSleep e \<Longrightarrow>
    transitWithTerminateCheck n u JobStatusRunning (js_pool s) = Some (Ret (False, p)) \<Longrightarrow>
    jobs_step s (s\<lparr>js_pool := p, js_pc := (js_pc s)(u := JFinished)\<rparr>)"
| timeout_done: "js_pc s u = JBody timeoutExecutorStrategy \<Longrightarrow>
    transitJobStatus n u JobStatusDone (js_pool s) = Some (Ret p) \<Longrightarrow>
    jobs_step s (s\<lparr>js_pool := p, js_pc := (js_pc s)(u := JFinished)\<rparr>)"
| interval_again: "js_pc s u = JBody intervalExecutorStrategy \<Longrightarrow>
    transitWithTerminateCheck n u JobStatusWaiting (js_pool s) = Some (Ret (True, p)) \<Longrightarrow>
    jobs_step s (s\<lparr>js_pool := p, js_pc := (js_pc s)(u := JSleep intervalExecutorStrategy)\<rparr>)"
| interval_done: "js_pc s u = JBody intervalExecutorStrategy \<Longrightarrow>
    transitWithTerminateCheck n u JobStatusWaiting (js_pool s) = Some (Ret (False, p)) \<Longrightarrow>
    jobs_step s (s\<lparr>js_pool := p, js_pc := (js_pc s)(u := JFinished)\<rparr>)"
| cancel: "job_Cancel n u (js_pool s) = Some (Ret (b, p)) \<Longrightarrow> jobs_step s (s\<lparr>js_pool := p\<rparr>)"

inductive_cases jobs_stepE: "jobs_step s s'"

definition jobs_reach :: "int \<Rightarrow> jobs_state \<Rightarrow> bool" where
  "jobs_reach m s \<longleftrightarrow> jobs_step\<^sup>*\<^sup>* (jobs_init m) s"

section \<open>The recursion of transitJobStatus and job_Cancel\<close>

text \<open>A pool between two calls: no stored job is done, and the eviction policy is the known one.\<close>

definition live_status :: "int \<Rightarrow> bool" where
  "live_status st \<longleftrightarrow> st \<in> {JobStatusWaiting, JobStatusRunning, JobStatusTerminating}"

definition job_status :: "int \<Rightarrow> bool" where
  "job_status st \<longleftrightarrow> live_status st \<or> st = JobStatusDone"

definition jobpool_ok :: "JobPool \<Rightarrow> bool" where
  "jobpool_ok p \<longleftrightarrow> distinct (map fst (jobMap p)) \<and> evictPolicy p = EvictPolicyCancelLast \<and>
     (\<forall>j \<in> ran (map_of (jobMap p)). live_status (Status j))"

text \<open>What a transition makes of the status of a live job: the new status, or \<open>None\<close> when the job leaves.\<close>

definition job_next :: "int \<Rightarrow> int \<Rightarrow> int option" where
  "job_next f st =
     (if f = st then Some f
      else if st = JobStatusDone then None
      else if f \<noteq> JobStatusTerminating then Some st
      else Some JobStatusTerminating)"

definition job_after :: "int \<Rightarrow> Job option \<Rightarrow> Job option" where
  "job_after st oj =
     (case oj of None \<Rightarrow> None | Some j \<Rightarrow> map_option (\<lambda>f. j\<lparr>Status := f\<rparr>) (job_next (Status j) st))"

lemma jobpool_ok_status: "jobpool_ok p \<Longrightarrow> map_of (jobMap p) u = Some j \<Longrightarrow> live_status (Status j)"
  using ranI [of "map_of (jobMap p)" u j] by (auto simp: jobpool_ok_def simp del: map_of_eq_Some_iff)

lemma ran_upd_sub: "b \<in> ran (m(k := v)) \<Longrightarrow> b \<in> ran m \<or> v = Some b"
  by (auto simp: ran_def split: if_splits)

lemma jobpool_ok_upd:
  assumes "jobpool_ok p" and "live_status (Status j)"
  shows "jobpool_ok (p\<lparr>jobMap := AList.update u j (jobMap p)\<rparr>)"
  using assms by (auto simp: jobpool_ok_def simp del: map_of_alist_update
      simp add: AList.update_conv' dest!: ran_upd_sub)

lemma jobpool_ok_del: "jobpool_ok p \<Longrightarrow> jobpool_ok (p\<lparr>jobMap := AList.delete u (jobMap p)\<rparr>)"
  by (auto simp: jobpool_ok_def dest!: ran_upd_sub)

lemma job_setStatus_Some:
  "map_of (jobMap p) u = Some j \<Longrightarrow>
   job_setStatus u st p = Ret (p\<lparr>jobMap := AList.update u (j\<lparr>Status := st\<rparr>) (jobMap p)\<rparr>)"
  by (simp add: job_setStatus_def)

definition transit_result :: "int \<Rightarrow> int \<Rightarrow> JobPool \<Rightarrow> JobPool \<Rightarrow> bool" where
  "transit_result u st p q \<longleftrightarrow> jobpool_ok q \<and> maxSize q = maxSize p \<and>
     map_of (jobMap q) = (map_of (jobMap p))(u := job_after st (map_of (jobMap p) u))"

text \<open>The table read by status: leaving a live status for \<open>JobStatusDone\<close> evicts, the other entries only write.\<close>

lemma strategy_evict: "live_status f \<Longrightarrow> transit_strategy (f * 10 + JobStatusDone) = Some evict_strategy"
  by (auto simp: live_status_def transit_strategy_def job_consts)

lemma strategy_write:
  assumes "live_status f" and "f \<noteq> st"
    and "st = JobStatusTerminating \<or> st \<in> {JobStatusWaiting, JobStatusRunning} \<and> f \<noteq> JobStatusTerminating"
  shows "transit_strategy (f * 10 + st) = Some (\<lambda>u p. Ret p)"
  using assms by (auto simp: live_status_def transit_strategy_def job_consts)

lemma strategy_none:
  "st \<in> {JobStatusWaiting, JobStatusRunning} \<Longrightarrow> transit_strategy (JobStatusTerminating * 10 + st) = None"
  "job_status st \<Longrightarrow> transit_strategy (JobStatusDone * 10 + st) = None"
  by (auto simp: transit_strategy_def job_status_def live_status_def job_consts)

text \<open>The status changes that have a handler: one recursion level is enough.\<close>

lemma transit_handled:
  assumes p: "jobpool_ok p" and j: "map_of (jobMap p) u = Some j"
    and st: "st = JobStatusTerminating \<or> st = JobStatusDone \<or>
      st \<in> {JobStatusWaiting, JobStatusRunning} \<and> Status j \<noteq> JobStatusTerminating"
  shows "\<exists>q. transitJobStatus (Suc n) u st p = Some (Ret q) \<and> transit_result u st p q"
proof -
  note live = jobpool_ok_status [OF p j]
  have get: "GetStatus u p = Status j" using j by (simp add: GetStatus_def)
  consider "Status j = st" | "st \<noteq> Status j" "st = JobStatusDone" | "st \<noteq> Status j" "st \<noteq> JobStatusDone" by blast
  then show ?thesis
  proof cases
    case 1
    then have "map_of (jobMap p) = (map_of (jobMap p))(u \<mapsto> j\<lparr>Status := st\<rparr>)"
      using j by (simp add: fun_upd_idem)
    then show ?thesis using p j 1
      by (auto simp: transit_result_def job_after_def job_next_def get)
  next
    case 2
    let ?q = "p\<lparr>jobMap := AList.delete u (AList.update u (j\<lparr>Status := st\<rparr>) (jobMap p))\<rparr>"
    have "jobpool_ok ?q" using jobpool_ok_del [OF p, of u] p by (auto simp: jobpool_ok_def)
    then have "transit_result u st p ?q" using 2 j
      by (simp add: transit_result_def job_after_def job_next_def)
    moreover have "transitJobStatus (Suc n) u st p = Some (Ret ?q)"
      using 2 p strategy_evict [OF live]
      by (simp add: get job_setStatus_Some [OF j] evict_strategy_def jobpool_ok_def)
    ultimately show ?thesis by blast
  next
    case 3
    let ?q = "p\<lparr>jobMap := AList.update u (j\<lparr>Status := st\<rparr>) (jobMap p)\<rparr>"
    have "jobpool_ok ?q" using st 3 by (intro jobpool_ok_upd p) (auto simp: live_status_def)
    then have "transit_result u st p ?q" using 3 j st
      by (auto simp: transit_result_def job_after_def job_next_def)
    moreover have "transitJobStatus (Suc n) u st p = Some (Ret ?q)"
      using 3 st strategy_write [OF live, of st] by (auto simp: get job_setStatus_Some [OF j])
    ultimately show ?thesis by blast
  qed
qed

lemma job_Cancel_ok:
  assumes p: "jobpool_ok p"
  shows "\<exists>q. job_Cancel (Suc (Suc n)) u p = Some (Ret (HasJob u p, q)) \<and>
    transit_result u JobStatusTerminating p q"
proof (cases "map_of (jobMap p) u")
  case None
  then show ?thesis using p by (auto simp: HasJob_def transit_result_def job_after_def fun_upd_idem)
next
  case (Some j)
  from transit_handled [OF p Some, of JobStatusTerminating n] Some
  show ?thesis by (auto simp: HasJob_def)
qed

lemma transit_ok:
  assumes p: "jobpool_ok p" and st: "job_status st"
  shows "\<exists>q. transitJobStatus (Suc (Suc (Suc n))) u st p = Some (Ret q) \<and> transit_result u st p q"
proof (cases "map_of (jobMap p) u")
  case None
  have "transitJobStatus (Suc (Suc (Suc n))) u st p = Some (Ret p)"
    using None strategy_none(2) [OF st] by (simp add: GetStatus_def HasJob_def)
  then show ?thesis using p None by (auto simp: transit_result_def job_after_def fun_upd_idem)
next
  case (Some j)
  show ?thesis
  proof (cases "st \<in> {JobStatusWaiting, JobStatusRunning} \<and> Status j = JobStatusTerminating")
    case False
    then show ?thesis using transit_handled [OF p Some, of st "Suc (Suc n)"] st
      by (auto simp: job_status_def live_status_def)
  next
    case True
    obtain q where "job_Cancel (Suc (Suc n)) u p = Some (Ret (HasJob u p, q))"
      and q: "transit_result u JobStatusTerminating p q" using job_Cancel_ok [OF p] by blast
    then have "transitJobStatus (Suc (Suc (Suc n))) u st p = Some (Ret q)"
      using True Some strategy_none(1) [of st] by (auto simp: GetStatus_def job_consts)
    moreover have "transit_result u st p q" using q True Some
      by (auto simp: transit_result_def job_after_def job_next_def job_consts)
    ultimately show ?thesis by blast
  qed
qed

text \<open>More fuel does not change a result.\<close>

lemma fuel_mono:
  "transitJobStatus n u st p = Some r \<Longrightarrow> transitJobStatus (n + k) u st p = Some r"
  "job_Cancel n u p = Some r' \<Longrightarrow> job_Cancel (n + k) u p = Some r'"
  by (induction n u st p and n u p arbitrary: r and r' rule: transitJobStatus_job_Cancel.induct)
    (auto simp: Let_def split: if_splits option.splits)

text \<open>Hence, on such a pool, a call that returns has the result that enough fuel gives.\<close>

lemma transit_returns:
  assumes "jobpool_ok p" and "job_status st" and "transitJobStatus n u st p = Some r"
  shows "\<exists>q. r = Ret q \<and> transit_result u st p q"
  using transit_ok [OF assms(1,2), of n u] fuel_mono(1) [OF assms(3), of 3]
  by (auto simp: numeral_3_eq_3)

lemma job_Cancel_returns:
  assumes "jobpool_ok p" and "job_Cancel n u p = Some r"
  shows "\<exists>q. r = Ret (HasJob u p, q) \<and> transit_result u JobStatusTerminating p q"
  using job_Cancel_ok [OF assms(1), of n u] fuel_mono(2) [OF assms(2), of 2]
  by (auto simp: numeral_2_eq_2)

lemma check_returns:
  assumes "jobpool_ok p" and "job_status st" and "transitWithTerminateCheck n u st p = Some (Ret (b, q))"
  shows "b = (GetStatus u p \<noteq> JobStatusTerminating) \<and>
    transit_result u (if b then st else JobStatusDone) p q"
proof -
  have "job_status JobStatusDone" by (simp add: job_status_def)
  with assms show ?thesis
    by (auto simp: transitWithTerminateCheck_def bind_go_eq_Ret split: if_splits dest: transit_returns)
qed

section \<open>Invariant of the interleavings\<close>

text \<open>The status of a job and the place of its goroutine agree.\<close>

fun pc_status :: "job_pc \<Rightarrow> Job option \<Rightarrow> bool" where
  "pc_status JIdle oj = (oj = None)"
| "pc_status JFinished oj = (oj = None)"
| "pc_status (JSleep e) (Some j) = (Status j = JobStatusWaiting \<or> Status j = JobStatusTerminating)"
| "pc_status (JBody e) (Some j) = (Status j = JobStatusRunning \<or> Status j = JobStatusTerminating)"
| "pc_status _ None = False"

definition jobs_ok :: "jobs_state \<Rightarrow> bool" where
  "jobs_ok s \<longleftrightarrow> jobpool_ok (js_pool s) \<and> (\<forall>u. pc_status (js_pc s u) (map_of (jobMap (js_pool s)) u))"

lemma transit_result_other: "transit_result u st p q \<Longrightarrow> v \<noteq> u \<Longrightarrow> map_of (jobMap q) v = map_of (jobMap p) v"
  by (simp add: transit_result_def)

lemma transit_result_self:
  "transit_result u st p q \<Longrightarrow> map_of (jobMap q) u = job_after st (map_of (jobMap p) u)"
  by (simp add: transit_result_def)

text \<open>A step of the goroutine of \<open>u\<close> through a transition keeps the invariant.\<close>

lemma jobs_ok_transit:
  assumes "jobs_ok s" and "transit_result u st (js_pool s) p"
    and "pc_status pc (job_after st (map_of (jobMap (js_pool s)) u))"
  shows "jobs_ok (s\<lparr>js_pool := p, js_pc := (js_pc s)(u := pc)\<rparr>)"
  using assms by (auto simp: jobs_ok_def transit_result_def)

lemma jobs_ok_runs [simp]: "jobs_ok (s\<lparr>js_runs := r\<rparr>) = jobs_ok s"
  by (simp add: jobs_ok_def)

lemma jobs_ok_pool: "jobs_ok s \<Longrightarrow> jobpool_ok (js_pool s)"
  by (simp add: jobs_ok_def)

lemma jobs_ok_pc: "jobs_ok s \<Longrightarrow> pc_status (js_pc s u) (map_of (jobMap (js_pool s)) u)"
  by (simp add: jobs_ok_def)

lemma pc_status_Some:
  "pc_status pc oj \<Longrightarrow> pc = JSleep e \<or> pc = JBody e \<Longrightarrow> \<exists>j. oj = Some j \<and> live_status (Status j)"
  by (cases "(pc, oj)" rule: pc_status.cases) (auto simp: live_status_def)

lemma after_Terminating: "pc_status pc oj \<Longrightarrow> pc_status pc (job_after JobStatusTerminating oj)"
  by (cases "(pc, oj)" rule: pc_status.cases) (auto simp: job_after_def job_next_def job_consts)

lemma after_Done: "pc_status pc oj \<Longrightarrow> pc = JSleep e \<or> pc = JBody e \<Longrightarrow> job_after JobStatusDone oj = None"
  by (drule pc_status_Some) (auto simp: job_after_def job_next_def live_status_def job_consts)

text \<open>The check of the executors: the goroutine goes on to the wanted status, or ends and its job is gone.\<close>

lemma check_step:
  assumes s: "jobs_ok s" and pc: "js_pc s u = JSleep e \<or> js_pc s u = JBody e"
    and st: "st \<in> {JobStatusWaiting, JobStatusRunning}"
    and ret: "transitWithTerminateCheck n u st (js_pool s) = Some (Ret (b, p))"
  shows "jobs_ok (s\<lparr>js_pool := p, js_pc := (js_pc s)(u := if \<not> b then JFinished
     else if st = JobStatusRunning then JBody e else JSleep e)\<rparr>)"
proof -
  obtain j where j: "map_of (jobMap (js_pool s)) u = Some j" and live: "live_status (Status j)"
    using pc_status_Some [OF jobs_ok_pc [OF s] pc] by blast
  have "job_status st" using st by (auto simp: job_status_def live_status_def)
  from check_returns [OF jobs_ok_pool [OF s] this ret]
  have b: "b = (Status j \<noteq> JobStatusTerminating)"
    and r: "transit_result u (if b then st else JobStatusDone) (js_pool s) p"
    using j by (auto simp: GetStatus_def)
  show ?thesis
  proof (cases b)
    case False
    then show ?thesis
      using jobs_ok_transit [OF s r, of JFinished] after_Done [OF jobs_ok_pc [OF s] pc] by simp
  next
    case True
    then have "job_after st (Some j) = Some (j\<lparr>Status := st\<rparr>)"
      using b st by (auto simp: job_after_def job_next_def job_consts)
    then show ?thesis
      using jobs_ok_transit [OF s r] True j st by (auto simp: job_consts)
  qed
qed

lemma live_statuses [simp]:
  "live_status JobStatusWaiting" "live_status JobStatusRunning" "live_status JobStatusTerminating"
  "job_status JobStatusDone"
  by (simp_all add: live_status_def job_status_def)

lemma jobs_ok_step: "jobs_step s s' \<Longrightarrow> jobs_ok s \<Longrightarrow> jobs_ok s'"
proof (induction rule: jobs_step.induct)
  case (schedule s u e)
  have "jobpool_ok (snd (scheduleJob e u (js_pool s)))"
    using jobs_ok_pool [OF schedule.prems] by (auto simp: scheduleJob_def NewJob_def intro!: jobpool_ok_upd)
  then show ?case using schedule by (auto simp: jobs_ok_def scheduleJob_def NewJob_def)
next
  case (start s u e n p)
  from check_step [OF start.prems, of u e, OF _ _ start.hyps(2)] start.hyps(1) show ?case
    by (simp add: jobs_ok_def)
next
  case (give_up s u e n p)
  from check_step [OF give_up.prems, of u e, OF _ _ give_up.hyps(2)] give_up.hyps(1) show ?case by simp
next
  case (timeout_done s u n p)
  have "transit_result u JobStatusDone (js_pool s) p"
    using transit_returns [OF jobs_ok_pool [OF timeout_done.prems] _ timeout_done.hyps(2)] by simp
  from jobs_ok_transit [OF timeout_done.prems this, of JFinished] timeout_done.hyps(1)
    after_Done [OF jobs_ok_pc [OF timeout_done.prems], of u] show ?case by simp
next
  case (interval_again s u n p)
  from check_step [OF interval_again.prems, of u intervalExecutorStrategy, OF _ _ interval_again.hyps(2)]
    interval_again.hyps(1) show ?case by (simp add: job_consts)
next
  case (interval_done s u n p)
  from check_step [OF interval_done.prems, of u intervalExecutorStrategy, OF _ _ interval_done.hyps(2)]
    interval_done.hyps(1) show ?case by simp
next
  case (cancel n u s b p)
  have "transit_result u JobStatusTerminating (js_pool s) p"
    using job_Cancel_returns [OF jobs_ok_pool [OF cancel.prems] cancel.hyps] by simp
  from jobs_ok_transit [OF cancel.prems this after_Terminating [OF jobs_ok_pc [OF cancel.prems]]] show ?case
    by (simp add: fun_upd_idem)
qed

text \<open>The number of stored jobs is the number of known identifiers, which no transition raises.\<close>

lemma jobpool_Size_card: "jobpool_ok p \<Longrightarrow> jobpool_Size p = int (card (dom (map_of (jobMap p))))"
  using distinct_card [of "map fst (jobMap p)"]
  by (simp add: jobpool_Size_def jobpool_ok_def dom_map_of_conv_image_fst)

lemma transit_result_size:
  assumes "jobpool_ok p" and "transit_result u st p q"
  shows "jobpool_Size q \<le> jobpool_Size p"
proof -
  have "dom (map_of (jobMap q)) \<subseteq> dom (map_of (jobMap p))"
    using assms(2) by (auto simp: transit_result_def job_after_def split: option.splits if_splits)
  then have "card (dom (map_of (jobMap q))) \<le> card (dom (map_of (jobMap p)))"
    by (intro card_mono finite_dom_map_of)
  then show ?thesis using assms by (simp add: jobpool_Size_card transit_result_def)
qed

lemma schedule_size:
  "jobpool_ok p \<Longrightarrow> jobpool_Size p < maxSize p \<Longrightarrow> jobpool_Size (snd (scheduleJob e u p)) \<le> maxSize p"
proof -
  assume p: "jobpool_ok p" and room: "jobpool_Size p < maxSize p"
  have "length (AList.update u j al) \<le> Suc (length al)" for j and al :: "(int \<times> Job) list"
    by (induction al) auto
  from this [of "NewJob u e" "jobMap p"] show ?thesis using room
    by (auto simp: jobpool_Size_def scheduleJob_def)
qed

definition within_size :: "JobPool \<Rightarrow> bool" where
  "within_size p \<longleftrightarrow> jobpool_Size p \<le> maxSize p \<and> MinPoolSize \<le> maxSize p \<and> maxSize p \<le> MaxPoolSize"

lemma within_size_transit:
  "jobpool_ok p \<Longrightarrow> within_size p \<Longrightarrow> transit_result u st p q \<Longrightarrow> within_size q"
  using transit_result_size [of p u st q] by (simp add: within_size_def transit_result_def)

lemma within_size_check:
  assumes "jobpool_ok p" and "within_size p" and "transitWithTerminateCheck n u st p = Some (Ret (b, q))" and "job_status st"
  shows "within_size q"
  using check_returns [OF assms(1,4,3)] within_size_transit [OF assms(1,2)] by blast

lemma within_size_step: "jobs_step s s' \<Longrightarrow> jobs_ok s \<Longrightarrow> within_size (js_pool s) \<Longrightarrow> within_size (js_pool s')"
proof (induction rule: jobs_step.induct)
  case (schedule s u e)
  then show ?case using schedule_size [OF jobs_ok_pool [OF schedule.prems(1)], of e u]
    by (simp add: within_size_def scheduleJob_def)
next
  case (timeout_done s u n p)
  then show ?case
    using transit_returns [OF jobs_ok_pool [OF timeout_done.prems(1)] _ timeout_done.hyps(2)]
      within_size_transit [OF jobs_ok_pool [OF timeout_done.prems(1)]] by simp
next
  case (cancel n u s b p)
  have "transit_result u JobStatusTerminating (js_pool s) p"
    using job_Cancel_returns [OF jobs_ok_pool [OF cancel.prems(1)] cancel.hyps] by simp
  from within_size_transit [OF jobs_ok_pool [OF cancel.prems(1)] cancel.prems(2) this] show ?case by simp
qed (auto intro: within_size_check [OF jobs_ok_pool] simp: job_status_def)

lemma jobs_reach_ok:
  assumes "jobs_reach m s"
  shows "jobs_ok s \<and> within_size (js_pool s)"
  using assms unfolding jobs_reach_def
proof (induction rule: rtranclp_induct)
  case base
  show ?case
    by (auto simp: jobs_init_def jobs_ok_def jobpool_ok_def NewJobPool_def within_size_def jobpool_Size_def job_consts)
next
  case (step s s')
  then show ?case using jobs_ok_step within_size_step by blast
qed

text \<open>A job that is cancelled or gone does not start again.\<close>

definition job_stopped :: "int \<Rightarrow> jobs_state \<Rightarrow> bool" where
  "job_stopped u s \<longleftrightarrow> js_pc s u \<noteq> JIdle \<and>
     (case map_of (jobMap (js_pool s)) u of None \<Rightarrow> True | Some j \<Rightarrow> Status j = JobStatusTerminating)"

lemma stopped_after:
  assumes "case oj of None \<Rightarrow> True | Some j \<Rightarrow> Status j = JobStatusTerminating"
  shows "case job_after st oj of None \<Rightarrow> True | Some j \<Rightarrow> Status j = JobStatusTerminating"
  using assms by (auto simp: job_after_def job_next_def split: option.splits)

lemma stopped_transit:
  assumes "job_stopped u s" and "transit_result v st (js_pool s) p" and "pc \<noteq> JIdle"
  shows "job_stopped u (s\<lparr>js_pool := p, js_pc := (js_pc s)(v := pc)\<rparr>)"
  using assms stopped_after [of "map_of (jobMap (js_pool s)) u" st]
  by (cases "v = u") (auto simp: job_stopped_def transit_result_def)

lemma stopped_check:
  assumes "job_stopped u s" and "jobs_ok s" and "job_status st"
    and "transitWithTerminateCheck n v st (js_pool s) = Some (Ret (b, p))" and "pc \<noteq> JIdle"
  shows "job_stopped u (s\<lparr>js_pool := p, js_pc := (js_pc s)(v := pc)\<rparr>)"
  using check_returns [OF jobs_ok_pool [OF assms(2)] assms(3,4)] stopped_transit [OF assms(1) _ assms(5)] by blast

lemma stopped_not_started:
  assumes "job_stopped u s" and "jobs_ok s" and "js_pc s u = JSleep e"
    and "transitWithTerminateCheck n u JobStatusRunning (js_pool s) = Some (Ret (b, p))"
  shows "\<not> b"
proof -
  obtain j where "map_of (jobMap (js_pool s)) u = Some j"
    using pc_status_Some [OF jobs_ok_pc [OF assms(2)]] assms(3) by blast
  then have "GetStatus u (js_pool s) = JobStatusTerminating"
    using assms(1) by (simp add: job_stopped_def GetStatus_def)
  then show ?thesis using check_returns [OF jobs_ok_pool [OF assms(2)] _ assms(4)] by (simp add: job_status_def)
qed

lemma stopped_step:
  "jobs_step s s' \<Longrightarrow> jobs_ok s \<Longrightarrow> job_stopped u s \<Longrightarrow> job_stopped u s' \<and> js_runs s' u = js_runs s u"
proof (induction rule: jobs_step.induct)
  case (schedule s v e)
  then show ?case by (auto simp: job_stopped_def scheduleJob_def)
next
  case (start s v e n p)
  then have "v \<noteq> u" using stopped_not_started [of u s e n True p] by blast
  moreover have "job_stopped u (s\<lparr>js_pool := p, js_pc := (js_pc s)(v := JBody e)\<rparr>)"
    using stopped_check [OF start.prems(2,1) _ start.hyps(2)] by (simp add: job_status_def)
  ultimately show ?case by (simp add: job_stopped_def)
next
  case (timeout_done s v n p)
  then show ?case
    using transit_returns [OF jobs_ok_pool [OF timeout_done.prems(1)] _ timeout_done.hyps(2)]
      stopped_transit [OF timeout_done.prems(2)] by auto
next
  case (cancel n v s b p)
  have "transit_result v JobStatusTerminating (js_pool s) p"
    using job_Cancel_returns [OF jobs_ok_pool [OF cancel.prems(1)] cancel.hyps] by simp
  then show ?case using cancel.prems(2) stopped_after [of "map_of (jobMap (js_pool s)) u" JobStatusTerminating]
    by (cases "v = u") (auto simp: job_stopped_def transit_result_def)
qed (auto intro: stopped_check [where st = JobStatusRunning] stopped_check [where st = JobStatusWaiting]
    simp: job_status_def)

lemma stopped_steps:
  assumes "jobs_step\<^sup>*\<^sup>* s s'" and "jobs_ok s" and "job_stopped u s"
  shows "jobs_ok s' \<and> job_stopped u s' \<and> js_runs s' u = js_runs s u"
  using assms by (induction rule: rtranclp_induct) (auto dest: stopped_step jobs_ok_step)

lemma cancelled_stopped:
  assumes "jobs_ok s" and "job_Cancel n u (js_pool s) = Some (Ret (True, p))"
  shows "job_stopped u (s\<lparr>js_pool := p\<rparr>)"
proof -
  have has: "HasJob u (js_pool s)" and r: "transit_result u JobStatusTerminating (js_pool s) p"
    using job_Cancel_returns [OF jobs_ok_pool [OF assms(1)] assms(2)] by auto
  then have "js_pc s u \<noteq> JIdle" using jobs_ok_pc [OF assms(1), of u] by (auto simp: HasJob_def)
  with r show ?thesis
    by (auto simp: job_stopped_def transit_result_def job_after_def job_next_def job_consts split: option.splits)
qed

text \<open>A run: a timeout job and an interval job are scheduled; the interval job starts.\<close>

definition job_run :: jobs_state where
  "job_run =
     \<lparr>js_pool = \<lparr>jobMap = [(7, \<lparr>executor = timeoutExecutorStrategy, uuid = 7, Status = 0\<rparr>),
          (9, \<lparr>executor = intervalExecutorStrategy, uuid = 9, Status = 1\<rparr>)], maxSize = 16, evictPolicy = 0\<rparr>,
      js_pc = (\<lambda>_. JIdle)(7 := JSleep timeoutExecutorStrategy, 9 := JBody intervalExecutorStrategy),
      js_runs = (\<lambda>_. 0)(9 := 1)\<rparr>"

lemma job_run_reach: "jobs_reach 5 job_run"
proof -
  let ?p = "\<lambda>st. \<lparr>jobMap = [(7, \<lparr>executor = timeoutExecutorStrategy, uuid = 7, Status = 0\<rparr>),
      (9, \<lparr>executor = intervalExecutorStrategy, uuid = 9, Status = st\<rparr>)], maxSize = 16, evictPolicy = 0\<rparr>"
  let ?s = "\<lparr>js_pool = ?p 0,
      js_pc = (\<lambda>_. JIdle)(7 := JSleep timeoutExecutorStrategy, 9 := JSleep intervalExecutorStrategy),
      js_runs = (\<lambda>_. 0)\<rparr>"
  note evals = jobs_init_def NewJobPool_def scheduleJob_def NewJob_def jobpool_Size_def job_consts
  have "jobs_step\<^sup>*\<^sup>* (jobs_init 5) (jobs_init 5)" by simp
  from rtranclp.rtrancl_into_rtrancl [OF this jobs_step.schedule [of _ 7 timeoutExecutorStrategy]]
  have "jobs_step\<^sup>*\<^sup>* (jobs_init 5) \<lparr>js_pool = \<lparr>jobMap = [(7, \<lparr>executor = timeoutExecutorStrategy, uuid = 7, Status = 0\<rparr>)],
      maxSize = 16, evictPolicy = 0\<rparr>, js_pc = (\<lambda>_. JIdle)(7 := JSleep timeoutExecutorStrategy), js_runs = (\<lambda>_. 0)\<rparr>"
    by (simp add: evals)
  from rtranclp.rtrancl_into_rtrancl [OF this jobs_step.schedule [of _ 9 intervalExecutorStrategy]]
  have s: "jobs_step\<^sup>*\<^sup>* (jobs_init 5) ?s" by (simp add: evals)
  have "transitWithTerminateCheck 1 9 JobStatusRunning (?p 0) = Some (Ret (True, ?p 1))"
    by (simp add: transitWithTerminateCheck_def GetStatus_def transit_strategy_def job_setStatus_def job_consts)
  then have "jobs_step ?s job_run"
    using jobs_step.start [of ?s 9 intervalExecutorStrategy 1 "?p 1"] by (simp add: job_run_def)
  from rtranclp.rtrancl_into_rtrancl [OF s this] show ?thesis by (simp add: jobs_reach_def)
qed

section \<open>Properties\<close>



text \<open>
  C34. The recursion of \<open>transitJobStatus\<close> and \<open>Cancel\<close> through each other ends on every pool between two
  calls, without a panic: three levels are enough for any wanted status and two for a cancellation.
\<close>

theorem job_pool_calls_end:
  assumes "jobs_reach m s" and "job_status st"
  shows "(\<exists>q. \<forall>n. transitJobStatus (n + 3) u st (js_pool s) = Some (Ret q)) \<and>
    (\<exists>q. \<forall>n. job_Cancel (n + 2) u (js_pool s) = Some (Ret (HasJob u (js_pool s), q)))"
proof -
  have p: "jobpool_ok (js_pool s)" using jobs_reach_ok [OF assms(1)] jobs_ok_pool by blast
  obtain q where q: "transitJobStatus 3 u st (js_pool s) = Some (Ret q)"
    using transit_ok [OF p assms(2), of 0 u] by (auto simp: numeral_3_eq_3)
  obtain r where r: "job_Cancel 2 u (js_pool s) = Some (Ret (HasJob u (js_pool s), r))"
    using job_Cancel_ok [OF p, of 0 u] by (auto simp: numeral_2_eq_2)
  have "transitJobStatus (n + 3) u st (js_pool s) = Some (Ret q)"
    and "job_Cancel (n + 2) u (js_pool s) = Some (Ret (HasJob u (js_pool s), r))" for n
    using fuel_mono(1) [OF q, of n] fuel_mono(2) [OF r, of n] by (simp_all add: add.commute)
  then show ?thesis by blast
qed

theorem job_pool_calls_end_witness:
  "\<exists>q. \<forall>n. job_Cancel (n + 2) 9 (js_pool job_run) = Some (Ret (True, q))"
  using job_pool_calls_end [OF job_run_reach, of JobStatusDone 9] by (simp add: HasJob_def job_run_def)

text \<open>
  A job whose cancellation was accepted never starts again, whatever the goroutines and other callers
  do afterwards.
\<close>

theorem cancelled_job_never_starts:
  assumes "jobs_reach m s" and "job_Cancel n u (js_pool s) = Some (Ret (True, p))"
    and "jobs_step\<^sup>*\<^sup>* (s\<lparr>js_pool := p\<rparr>) s'"
  shows "js_runs s' u = js_runs s u"
proof -
  have ok: "jobs_ok s" using jobs_reach_ok [OF assms(1)] by simp
  from stopped_steps [OF assms(3) jobs_ok_step [OF jobs_step.cancel [OF assms(2)] ok] cancelled_stopped [OF ok assms(2)]]
  show ?thesis by simp
qed

theorem cancelled_job_never_starts_witness:
  "\<exists>p. job_Cancel 2 7 (js_pool job_run) = Some (Ret (True, p)) \<and>
     {s'. jobs_step\<^sup>*\<^sup>* (job_run\<lparr>js_pool := p\<rparr>) s'} \<subseteq> {s'. js_runs s' 7 = 0}"
proof -
  obtain p where p: "job_Cancel 2 7 (js_pool job_run) = Some (Ret (True, p))"
    by (simp add: job_run_def numeral_2_eq_2 HasJob_def GetStatus_def transit_strategy_def job_setStatus_def job_consts)
  have "js_runs s' 7 = 0" if "jobs_step\<^sup>*\<^sup>* (job_run\<lparr>js_pool := p\<rparr>) s'" for s'
    using cancelled_job_never_starts [OF job_run_reach p that] by (simp add: job_run_def)
  with p show ?thesis by auto
qed

text \<open>
  While one goroutine is between the store of the status and the eviction of \<open>transitJobStatus\<close>, the map
  holds a job that is done. A cancellation of it then calls itself through \<open>transitJobStatus\<close> until the
  job is gone: no fuel is enough.
\<close>

theorem done_job_cancel_recurses:
  assumes "map_of (jobMap p) u = Some j" and "Status j = JobStatusDone"
  shows "job_Cancel n u p = None \<and> transitJobStatus n u JobStatusTerminating p = None"
proof (induction n)
  case (Suc n)
  then show ?case using assms strategy_none(2) [of JobStatusTerminating]
    by (auto simp: HasJob_def GetStatus_def job_status_def) (auto simp: job_consts)
qed simp

end
