(* ===== verification/LinkedList.thy ===== *)
theory LinkedList
  imports Prelude
begin

text \<open>
  \<open>src/common/data_structures/LinkedList.go\<close>: the doubly linked list over an explicit store of nodes.
  An address is a number, a pointer is an optional address, and the next free address models
  allocation. A list that is safe takes its lock around each access, so sequentially the locks are
  the identity and are left out. \<open>Get\<close>, \<open>Remove\<close>, \<open>Poll\<close> and the others return \<open>None\<close> for \<open>nil\<close>. The
  second half relates the store to a HOL list and shows which operations implement the list
  operations they are named after.
\<close>

section \<open>Nodes and lists\<close>

record 'a listNode =
  ln_prev :: "nat option"
  ln_next :: "nat option"
  ln_val :: 'a

record 'a LinkedList =
  ll_head :: "nat option"
  ll_tail :: "nat option"
  ll_size :: int
  ll_safe :: bool
  ll_comparator :: "('a \<Rightarrow> 'a \<Rightarrow> int) option"
  ll_heap :: "nat \<Rightarrow> 'a listNode"
  ll_fresh :: nat

definition defaultComparator :: "'a \<Rightarrow> 'a \<Rightarrow> int" where
  "defaultComparator a b = (if a = b then 0 else 1)"

text \<open>A new list, on a store whose addresses below \<open>f\<close> are in use.\<close>

definition NewLinkedList :: "bool \<Rightarrow> (nat \<Rightarrow> 'a listNode) \<Rightarrow> nat \<Rightarrow> 'a LinkedList" where
  "NewLinkedList safe h f =
     \<lparr>ll_head = None, ll_tail = None, ll_size = 0, ll_safe = safe, ll_comparator = None, ll_heap = h, ll_fresh = f\<rparr>"

definition list_Head :: "'a LinkedList \<Rightarrow> 'a option" where
  "list_Head l = map_option (\<lambda>a. ln_val (ll_heap l a)) (ll_head l)"

definition list_Tail :: "'a LinkedList \<Rightarrow> 'a option" where
  "list_Tail l = map_option (\<lambda>a. ln_val (ll_heap l a)) (ll_tail l)"

definition isValidIndex :: "int \<Rightarrow> bool \<Rightarrow> 'a LinkedList \<Rightarrow> bool" where
  "isValidIndex i validateForInsert l \<longleftrightarrow>
     (let upperBound = (if validateForInsert then ll_size l + 1 else ll_size l)
      in ll_size l \<noteq> 0 \<and> i \<ge> 0 \<and> i < upperBound)"

text \<open>The walk of \<open>getNode\<close>: \<open>offset\<close> steps from a node; a step from \<open>nil\<close> panics.\<close>

primrec node_walk :: "('a listNode \<Rightarrow> nat option) \<Rightarrow> (nat \<Rightarrow> 'a listNode) \<Rightarrow> nat \<Rightarrow> nat option \<Rightarrow> nat option go" where
  "node_walk dir h 0 cur = Ret cur"
| "node_walk dir h (Suc n) cur = (case cur of None \<Rightarrow> Panic | Some a \<Rightarrow> node_walk dir h n (dir (h a)))"

definition getNode :: "int \<Rightarrow> 'a LinkedList \<Rightarrow> nat option go" where
  "getNode i l =
     (if \<not> isValidIndex i False l then Ret None
      else if i = 0 then Ret (ll_head l)
      else if i = ll_size l - 1 then Ret (ll_tail l)
      else (let fromHead = (i \<le> ll_size l div 2);
                offset = (if fromHead then i else ll_size l - i + 1)
            in if fromHead then node_walk ln_next (ll_heap l) (nat offset) (ll_head l)
               else node_walk ln_prev (ll_heap l) (nat offset) (ll_tail l)))"

definition initFirstNode :: "'a \<Rightarrow> 'a LinkedList \<Rightarrow> 'a LinkedList" where
  "initFirstNode v l =
     (let n = ll_fresh l in
      l\<lparr>ll_heap := (ll_heap l)(n := \<lparr>ln_prev = None, ln_next = None, ln_val = v\<rparr>), ll_fresh := Suc n,
        ll_head := Some n, ll_tail := Some n, ll_size := ll_size l + 1\<rparr>)"

text \<open>Writes through a pointer that the code has compared with \<open>nil\<close>.\<close>

definition set_next :: "nat option \<Rightarrow> nat option \<Rightarrow> (nat \<Rightarrow> 'a listNode) \<Rightarrow> nat \<Rightarrow> 'a listNode" where
  "set_next p v h = (case p of None \<Rightarrow> h | Some a \<Rightarrow> h(a := (h a)\<lparr>ln_next := v\<rparr>))"

definition set_prev :: "nat option \<Rightarrow> nat option \<Rightarrow> (nat \<Rightarrow> 'a listNode) \<Rightarrow> nat \<Rightarrow> 'a listNode" where
  "set_prev p v h = (case p of None \<Rightarrow> h | Some a \<Rightarrow> h(a := (h a)\<lparr>ln_prev := v\<rparr>))"

definition insertBeforeNode :: "nat option \<Rightarrow> 'a \<Rightarrow> 'a LinkedList \<Rightarrow> nat option \<times> 'a LinkedList" where
  "insertBeforeNode node v l =
     (case node of
        None \<Rightarrow> (None, l)
      | Some a \<Rightarrow>
          (let n = ll_fresh l;
               h1 = (ll_heap l)(n := \<lparr>ln_prev = ln_prev (ll_heap l a), ln_next = Some a, ln_val = v\<rparr>);
               h2 = set_next (ln_prev (h1 a)) (Some n) h1;
               h3 = set_prev (Some a) (Some n) h2
           in (Some n, l\<lparr>ll_heap := h3, ll_fresh := Suc n, ll_size := ll_size l + 1\<rparr>)))"

definition insertAfterNode :: "nat option \<Rightarrow> 'a \<Rightarrow> 'a LinkedList \<Rightarrow> nat option \<times> 'a LinkedList" where
  "insertAfterNode node v l =
     (case node of
        None \<Rightarrow> (None, l)
      | Some a \<Rightarrow>
          (let n = ll_fresh l;
               h1 = (ll_heap l)(n := \<lparr>ln_prev = Some a, ln_next = ln_next (ll_heap l a), ln_val = v\<rparr>);
               h2 = set_prev (ln_next (h1 a)) (Some n) h1;
               h3 = set_next (Some a) (Some n) h2
           in (Some n, l\<lparr>ll_heap := h3, ll_fresh := Suc n, ll_size := ll_size l + 1\<rparr>)))"

definition list_Append :: "'a \<Rightarrow> 'a LinkedList \<Rightarrow> 'a LinkedList go" where
  "list_Append v l =
     (if ll_tail l = None then Ret (initFirstNode v l)
      else if ll_size l = 1
        then (let n = ll_fresh l;
                  h1 = (ll_heap l)(n := \<lparr>ln_prev = ll_head l, ln_next = None, ln_val = v\<rparr>)
              in case ll_head l of
                   None \<Rightarrow> Panic
                 | Some a \<Rightarrow> Ret (l\<lparr>ll_heap := set_next (Some a) (Some n) h1, ll_fresh := Suc n, ll_tail := Some n,
                     ll_size := ll_size l + 1\<rparr>))
      else (let (newTail, l') = insertAfterNode (ll_tail l) v l in Ret (l'\<lparr>ll_tail := newTail\<rparr>)))"

definition list_Prepend :: "'a \<Rightarrow> 'a LinkedList \<Rightarrow> 'a LinkedList go" where
  "list_Prepend v l =
     (if ll_head l = None then Ret (initFirstNode v l)
      else if ll_size l = 1
        then (let n = ll_fresh l;
                  h1 = (ll_heap l)(n := \<lparr>ln_prev = None, ln_next = ll_tail l, ln_val = v\<rparr>)
              in case ll_tail l of
                   None \<Rightarrow> Panic
                 | Some a \<Rightarrow> Ret (l\<lparr>ll_heap := set_prev (Some a) (Some n) h1, ll_fresh := Suc n, ll_head := Some n,
                     ll_size := ll_size l + 1\<rparr>))
      else (let (newHead, l') = insertBeforeNode (ll_head l) v l in Ret (l'\<lparr>ll_head := newHead\<rparr>)))"

definition list_insert :: "int \<Rightarrow> 'a \<Rightarrow> 'a LinkedList \<Rightarrow> (bool \<times> 'a LinkedList) go" where
  "list_insert i v l =
     (if ll_size l = 0 \<and> i = 0 then Ret (True, initFirstNode v l)
      else if \<not> isValidIndex i True l then Ret (False, l)
      else if i < ll_size l then bind_go (getNode i l) (\<lambda>node. Ret (True, snd (insertBeforeNode node v l)))
      else bind_go (list_Append v l) (\<lambda>l'. Ret (True, l')))"

definition list_Get :: "int \<Rightarrow> 'a LinkedList \<Rightarrow> 'a option go" where
  "list_Get i l = bind_go (getNode i l) (\<lambda>node. Ret (map_option (\<lambda>a. ln_val (ll_heap l a)) node))"

definition removeOnNode :: "nat option \<Rightarrow> 'a LinkedList \<Rightarrow> 'a LinkedList" where
  "removeOnNode node l =
     (case node of
        None \<Rightarrow> l
      | Some a \<Rightarrow>
          (let h1 = set_next (ln_prev (ll_heap l a)) (ln_next (ll_heap l a)) (ll_heap l);
               h2 = set_prev (ln_next (h1 a)) (ln_prev (h1 a)) h1
           in l\<lparr>ll_heap := h2, ll_size := ll_size l - 1\<rparr>))"

definition list_Remove :: "int \<Rightarrow> 'a LinkedList \<Rightarrow> ('a option \<times> 'a LinkedList) go" where
  "list_Remove i l =
     bind_go (getNode i l) (\<lambda>node.
       let l' = removeOnNode node l in Ret (map_option (\<lambda>a. ln_val (ll_heap l' a)) node, l'))"

definition list_Poll :: "'a LinkedList \<Rightarrow> 'a option \<times> 'a LinkedList" where
  "list_Poll l =
     (let node = ll_head l; l' = removeOnNode node l in
      case node of
        None \<Rightarrow> (None, l')
      | Some a \<Rightarrow> (Some (ln_val (ll_heap l' a)), l'\<lparr>ll_head := ln_next (ll_heap l' a)\<rparr>))"

definition list_Pop :: "'a LinkedList \<Rightarrow> 'a option \<times> 'a LinkedList" where
  "list_Pop l =
     (let node = ll_tail l; l' = removeOnNode node l in
      case node of
        None \<Rightarrow> (None, l')
      | Some a \<Rightarrow> (Some (ln_val (ll_heap l' a)), l'\<lparr>ll_tail := ln_prev (ll_heap l' a)\<rparr>))"

text \<open>The loop of \<open>ForEach\<close> with a callback that changes a state; on a cyclic store it does not return.\<close>

partial_function (option) forEach_loop ::
  "('a \<Rightarrow> int \<Rightarrow> 's \<Rightarrow> 's) \<Rightarrow> (nat \<Rightarrow> 'a listNode) \<Rightarrow> nat option \<Rightarrow> int \<Rightarrow> 's \<Rightarrow> 's option" where
  "forEach_loop cb h cur counter s =
     (case cur of
        None \<Rightarrow> Some s
      | Some a \<Rightarrow> forEach_loop cb h (ln_next (h a)) (counter + 1) (cb (ln_val (h a)) counter s))"

definition list_ForEach :: "('a \<Rightarrow> int \<Rightarrow> 's \<Rightarrow> 's) \<Rightarrow> 'a LinkedList \<Rightarrow> 's \<Rightarrow> 's option" where
  "list_ForEach cb l s = forEach_loop cb (ll_heap l) (ll_head l) 0 s"

text \<open>\<open>Map\<close> appends to a list in a store of its own.\<close>

definition list_Map :: "('a \<Rightarrow> int \<Rightarrow> 'b) \<Rightarrow> (nat \<Rightarrow> 'b listNode) \<Rightarrow> 'a LinkedList \<Rightarrow> 'b LinkedList go option" where
  "list_Map f h0 l =
     list_ForEach (\<lambda>v i r. bind_go r (list_Append (f v i))) l (Ret (NewLinkedList True h0 0))"

definition list_ToSlice :: "'a LinkedList \<Rightarrow> 'a option list go option" where
  "list_ToSlice l =
     (if ll_size l < 0 then Some Panic
      else list_ForEach
        (\<lambda>v i r. bind_go r (\<lambda>slice. if i < int (length slice) then Ret (slice[nat i := Some v]) else Panic))
        l (Ret (replicate (nat (ll_size l)) None)))"

definition list_Search :: "'a \<Rightarrow> ('a \<Rightarrow> 'a \<Rightarrow> int) \<Rightarrow> 'a LinkedList \<Rightarrow> int option" where
  "list_Search v cmp l = list_ForEach (\<lambda>x i index. if cmp x v = 0 then i else index) l (- 1)"

definition list_IndexOf :: "'a \<Rightarrow> 'a LinkedList \<Rightarrow> int option" where
  "list_IndexOf v l =
     (case ll_comparator l of Some c \<Rightarrow> list_Search v c l | None \<Rightarrow> list_Search v defaultComparator l)"

definition list_Has :: "'a \<Rightarrow> 'a LinkedList \<Rightarrow> bool option" where
  "list_Has v l = map_option (\<lambda>i. i \<noteq> - 1) (list_IndexOf v l)"

definition SetSafe :: "'a LinkedList \<Rightarrow> 'a LinkedList" where
  "SetSafe l = l\<lparr>ll_safe := True\<rparr>"

definition SetUnsafe :: "'a LinkedList \<Rightarrow> 'a LinkedList" where
  "SetUnsafe l = l\<lparr>ll_safe := False\<rparr>"

section \<open>The list a store represents\<close>

text \<open>The first address of a list of addresses and the last one, with the pointer used when there is none.\<close>

fun first_of :: "nat list \<Rightarrow> nat option \<Rightarrow> nat option" where
  "first_of [] q = q"
| "first_of (a # as) q = Some a"

fun last_of :: "nat option \<Rightarrow> nat list \<Rightarrow> nat option" where
  "last_of p [] = p"
| "last_of p (a # as) = last_of (Some a) as"

text \<open>A doubly linked segment: entered from \<open>p\<close>, left to \<open>q\<close>.\<close>

fun seg :: "(nat \<Rightarrow> 'a listNode) \<Rightarrow> nat option \<Rightarrow> nat list \<Rightarrow> nat option \<Rightarrow> bool" where
  "seg h p [] q = True"
| "seg h p (a # as) q =
     (ln_prev (h a) = p \<and> ln_next (h a) = first_of as q \<and> seg h (Some a) as q)"

definition vals :: "(nat \<Rightarrow> 'a listNode) \<Rightarrow> nat list \<Rightarrow> 'a list" where
  "vals h as = map (\<lambda>a. ln_val (h a)) as"

definition wf_list :: "'a LinkedList \<Rightarrow> nat list \<Rightarrow> bool" where
  "wf_list l as \<longleftrightarrow> seg (ll_heap l) None as None \<and> distinct as \<and> (\<forall>a \<in> set as. a < ll_fresh l) \<and>
     ll_head l = first_of as None \<and> ll_tail l = last_of None as \<and> ll_size l = int (length as)"

definition represents :: "'a LinkedList \<Rightarrow> 'a list \<Rightarrow> bool" where
  "represents l xs \<longleftrightarrow> (\<exists>as. wf_list l as \<and> xs = vals (ll_heap l) as)"

lemma first_of_append [simp]: "first_of (as @ bs) q = first_of as (first_of bs q)"
  by (cases as) auto

lemma last_of_append [simp]: "last_of p (as @ bs) = last_of (last_of p as) bs"
  by (induction as arbitrary: p) auto

lemma first_of_eq_None [simp]: "first_of as None = None \<longleftrightarrow> as = []"
  by (cases as) auto

lemma last_of_eq_None [simp]: "last_of p as = None \<longleftrightarrow> as = [] \<and> p = None"
  by (induction as arbitrary: p) auto

lemma last_of_Some: "last_of p as = Some a \<Longrightarrow> as = [] \<and> p = Some a \<or> (\<exists>bs. as = bs @ [a])"
  by (cases as rule: rev_cases) auto

lemma first_of_Some: "first_of as q = Some a \<Longrightarrow> as = [] \<and> q = Some a \<or> (\<exists>bs. as = a # bs)"
  by (cases as) auto

lemma seg_append [simp]:
  "seg h p (as @ bs) q \<longleftrightarrow> seg h p as (first_of bs q) \<and> seg h (last_of p as) bs q"
  by (induction as arbitrary: p) auto

text \<open>Writes outside a segment, and writes of the pointers at its two ends.\<close>

lemma seg_frame [simp]: "a \<notin> set as \<Longrightarrow> seg (h(a := n)) p as q = seg h p as q"
  by (induction as arbitrary: p) auto

lemma vals_frame [simp]: "a \<notin> set as \<Longrightarrow> vals (h(a := n)) as = vals h as"
  by (auto simp: vals_def)

lemma vals_simps [simp]: "vals h [] = []" "vals h (a # as) = ln_val (h a) # vals h as"
  "vals h (as @ bs) = vals h as @ vals h bs" "length (vals h as) = length as"
  by (simp_all add: vals_def)

lemma vals_link [simp]:
  "vals (h(a := (h a)\<lparr>ln_next := p\<rparr>)) as = vals h as" "vals (h(a := (h a)\<lparr>ln_prev := p\<rparr>)) as = vals h as"
  by (simp_all add: vals_def)

lemma vals_set_next [simp]: "vals (set_next p q h) as = vals h as"
  by (simp add: set_next_def split: option.splits)

lemma vals_set_prev [simp]: "vals (set_prev p q h) as = vals h as"
  by (simp add: set_prev_def split: option.splits)

lemma seg_set_next_outside: "p = None \<or> the p \<notin> set as \<Longrightarrow> seg (set_next p v h) q as r = seg h q as r"
  by (auto simp: set_next_def split: option.splits)

lemma seg_set_prev_outside: "p = None \<or> the p \<notin> set as \<Longrightarrow> seg (set_prev p v h) q as r = seg h q as r"
  by (auto simp: set_prev_def split: option.splits)

text \<open>Redirecting the way out of a segment, and the way into it.\<close>

lemma seg_redirect_out:
  assumes "seg h p as q" and "distinct as"
  shows "seg (set_next (last_of None as) r h) p as r"
  using assms by (cases as rule: rev_cases) (auto simp: set_next_def)

lemma seg_redirect_in:
  assumes "seg h p as q" and "distinct as"
  shows "seg (set_prev (first_of as None) r h) r as q"
  using assms by (cases as) (auto simp: set_prev_def)

lemma last_of_mem: "last_of None as = Some a \<Longrightarrow> a \<in> set as"
  by (cases as rule: rev_cases) auto

lemma first_of_mem: "first_of as None = Some a \<Longrightarrow> a \<in> set as"
  by (cases as) auto

section \<open>Insertion and removal of a node\<close>

definition link_in :: "nat list \<Rightarrow> nat \<Rightarrow> 'a \<Rightarrow> nat list \<Rightarrow> (nat \<Rightarrow> 'a listNode) \<Rightarrow> nat \<Rightarrow> 'a listNode" where
  "link_in as n v bs h =
     set_prev (first_of bs None) (Some n) (set_next (last_of None as) (Some n)
       (h(n := \<lparr>ln_prev = last_of None as, ln_next = first_of bs None, ln_val = v\<rparr>)))"

definition link_out :: "nat list \<Rightarrow> nat list \<Rightarrow> (nat \<Rightarrow> 'a listNode) \<Rightarrow> nat \<Rightarrow> 'a listNode" where
  "link_out as bs h =
     set_prev (first_of bs None) (last_of None as) (set_next (last_of None as) (first_of bs None) h)"

lemma set_next_other: "p \<noteq> Some a \<Longrightarrow> set_next p v h a = h a"
  by (auto simp: set_next_def split: option.splits)

lemma set_prev_other: "p \<noteq> Some a \<Longrightarrow> set_prev p v h a = h a"
  by (auto simp: set_prev_def split: option.splits)

lemma seg_link_in:
  assumes s: "seg h None (as @ bs) None" and d: "distinct (as @ bs)" and n: "n \<notin> set (as @ bs)"
  shows "seg (link_in as n v bs h) None (as @ n # bs) None"
    and "vals (link_in as n v bs h) (as @ n # bs) = vals h as @ v # vals h bs"
proof -
  let ?h1 = "h(n := \<lparr>ln_prev = last_of None as, ln_next = first_of bs None, ln_val = v\<rparr>)"
  let ?h2 = "set_next (last_of None as) (Some n) ?h1"
  have as: "seg ?h1 None as (first_of bs None)" and bs: "seg ?h1 (last_of None as) bs None" using s n by auto
  have out: "first_of bs None \<noteq> Some a" if "a \<in> set as \<or> a = n" for a using that d n by (cases bs) auto
  have out': "last_of None as \<noteq> Some a" if "a \<in> set bs \<or> a = n" for a
    using that d n last_of_mem [of as a] by auto
  have "seg ?h2 None as (Some n)" using seg_redirect_out [OF as] d by simp
  moreover have "first_of bs None = None \<or> the (first_of bs None) \<notin> set as" using d by (cases bs) auto
  ultimately have 1: "seg (link_in as n v bs h) None as (Some n)"
    by (simp add: link_in_def seg_set_prev_outside)
  have "seg ?h2 (last_of None as) bs None" using bs out'
    by (subst seg_set_next_outside) (cases "last_of None as", auto)
  from seg_redirect_in [OF this, of "Some n"] have 2: "seg (link_in as n v bs h) (Some n) bs None"
    using d by (simp add: link_in_def)
  have n': "link_in as n v bs h n = \<lparr>ln_prev = last_of None as, ln_next = first_of bs None, ln_val = v\<rparr>"
    using out out' by (simp add: link_in_def set_prev_other set_next_other)
  show "seg (link_in as n v bs h) None (as @ n # bs) None" using 1 2 n' by simp
  show "vals (link_in as n v bs h) (as @ n # bs) = vals h as @ v # vals h bs"
    using n' n by (simp add: link_in_def)
qed

lemma seg_link_out:
  assumes s: "seg h None (as @ a # bs) None" and d: "distinct (as @ a # bs)"
  shows "seg (link_out as bs h) None (as @ bs) None" and "vals (link_out as bs h) cs = vals h cs"
    and "link_out as bs h a = h a"
proof -
  have as: "seg h None as (Some a)" and bs: "seg h (Some a) bs None" using s by auto
  have out: "first_of bs None \<noteq> Some c" if "c \<in> set as \<or> c = a" for c using that d by (cases bs) auto
  have out': "last_of None as \<noteq> Some c" if "c \<in> set bs \<or> c = a" for c
    using that d last_of_mem [of as c] by auto
  let ?h1 = "set_next (last_of None as) (first_of bs None) h"
  have "seg ?h1 None as (first_of bs None)" using seg_redirect_out [OF as] d by simp
  moreover have "first_of bs None = None \<or> the (first_of bs None) \<notin> set as" using d by (cases bs) auto
  ultimately have 1: "seg (link_out as bs h) None as (first_of bs None)"
    by (simp add: link_out_def seg_set_prev_outside)
  have "seg ?h1 (Some a) bs None" using bs out'
    by (subst seg_set_next_outside) (cases "last_of None as", auto)
  from seg_redirect_in [OF this, of "last_of None as"] have 2: "seg (link_out as bs h) (last_of None as) bs None"
    using d by (simp add: link_out_def)
  show "seg (link_out as bs h) None (as @ bs) None" using 1 2 by simp
  show "vals (link_out as bs h) cs = vals h cs" by (simp add: link_out_def)
  show "link_out as bs h a = h a" using out out' by (simp add: link_out_def set_prev_other set_next_other)
qed

text \<open>The node operations of the code are these two, for a node of the list.\<close>

lemma wf_list_links:
  assumes "wf_list l (as @ a # bs)"
  shows "ln_prev (ll_heap l a) = last_of None as" and "ln_next (ll_heap l a) = first_of bs None"
    and "a \<noteq> ll_fresh l"
  using assms by (auto simp: wf_list_def)

lemma insertBeforeNode_eq:
  assumes "wf_list l (as @ a # bs)"
  shows "insertBeforeNode (Some a) v l =
    (Some (ll_fresh l), l\<lparr>ll_heap := link_in as (ll_fresh l) v (a # bs) (ll_heap l), ll_fresh := Suc (ll_fresh l),
       ll_size := ll_size l + 1\<rparr>)"
  using wf_list_links [OF assms] by (simp add: insertBeforeNode_def link_in_def Let_def)

lemma insertAfterNode_eq:
  assumes "wf_list l (as @ a # bs)"
  shows "insertAfterNode (Some a) v l =
    (Some (ll_fresh l), l\<lparr>ll_heap := link_in (as @ [a]) (ll_fresh l) v bs (ll_heap l), ll_fresh := Suc (ll_fresh l),
       ll_size := ll_size l + 1\<rparr>)"
proof -
  have d: "a \<noteq> ll_fresh l" "a \<notin> set bs" "ll_fresh l \<notin> set bs" using assms by (auto simp: wf_list_def)
  then have "first_of bs None \<noteq> Some a" by (cases bs) auto
  then have "set_next (Some a) q (set_prev (first_of bs None) r h) = set_prev (first_of bs None) r (set_next (Some a) q h)"
    for q r and h :: "nat \<Rightarrow> 'a listNode"
    by (auto simp: set_next_def set_prev_def fun_upd_twist split: option.splits)
  then show ?thesis using wf_list_links [OF assms] d by (simp add: insertAfterNode_def link_in_def Let_def)
qed

lemma removeOnNode_eq:
  assumes "wf_list l (as @ a # bs)"
  shows "removeOnNode (Some a) l = l\<lparr>ll_heap := link_out as bs (ll_heap l), ll_size := ll_size l - 1\<rparr>"
proof -
  have "a \<notin> set as" using assms by (auto simp: wf_list_def)
  then have "set_next (last_of None as) q (ll_heap l) a = ll_heap l a" for q
    by (intro set_next_other) (auto dest: last_of_mem)
  then show ?thesis using wf_list_links [OF assms] by (simp add: removeOnNode_def link_out_def Let_def)
qed

text \<open>The list after the insertion or the removal of a node, given its two ends.\<close>

lemma wf_link_in:
  assumes "wf_list l (as @ bs)"
    and "hd' = first_of (as @ ll_fresh l # bs) None" and "tl' = last_of None (as @ ll_fresh l # bs)"
  shows "wf_list (l\<lparr>ll_heap := link_in as (ll_fresh l) v bs (ll_heap l), ll_fresh := Suc (ll_fresh l),
      ll_size := ll_size l + 1, ll_head := hd', ll_tail := tl'\<rparr>) (as @ ll_fresh l # bs)"
  using assms seg_link_in(1) [of "ll_heap l" as bs "ll_fresh l" v] by (auto simp: wf_list_def less_SucI)

lemma wf_link_out:
  assumes "wf_list l (as @ a # bs)"
    and "hd' = first_of (as @ bs) None" and "tl' = last_of None (as @ bs)"
  shows "wf_list (l\<lparr>ll_heap := link_out as bs (ll_heap l), ll_size := ll_size l - 1, ll_head := hd', ll_tail := tl'\<rparr>)
      (as @ bs)"
  using assms seg_link_out(1) [of "ll_heap l" as a bs] by (auto simp: wf_list_def)

section \<open>Nodes by index\<close>

lemma node_walk_next:
  "seg h p as q \<Longrightarrow> k < length as \<Longrightarrow> node_walk ln_next h k (first_of as None) = Ret (Some (as ! k))"
proof (induction k arbitrary: p as)
  case 0
  then show ?case by (cases as) auto
next
  case (Suc k)
  then obtain a bs where as: "as = a # bs" by (cases as) auto
  with Suc.prems have "bs \<noteq> []" by auto
  then show ?case using Suc.IH [of "Some a" bs] Suc.prems as by (cases bs) auto
qed

lemma node_walk_prev:
  "seg h None as q \<Longrightarrow> k < length as \<Longrightarrow> node_walk ln_prev h k (last_of None as) = Ret (Some (as ! (length as - 1 - k)))"
proof (induction k arbitrary: as q)
  case 0
  then show ?case by (cases as rule: rev_cases) auto
next
  case (Suc k)
  then obtain a bs where as: "as = bs @ [a]" by (cases as rule: rev_cases) auto
  then show ?case using Suc.IH [of bs "Some a"] Suc.prems as by (auto simp: nth_append)
qed

text \<open>The index of the node that \<open>getNode\<close> finds for a valid index.\<close>

definition found_index :: "nat \<Rightarrow> nat \<Rightarrow> nat" where
  "found_index n i = (if i = 0 \<or> i = n - 1 \<or> i \<le> n div 2 then i else i - 2)"

lemma found_index_less: "i < n \<Longrightarrow> found_index n i < n"
  by (auto simp: found_index_def)

lemma getNode_valid:
  assumes "wf_list l as" and "i < length as"
  shows "getNode (int i) l = Ret (Some (as ! found_index (length as) i))"
proof -
  have size: "ll_size l = int (length as)" and s: "seg (ll_heap l) None as None"
    and ends: "ll_head l = first_of as None" "ll_tail l = last_of None as"
    using assms(1) by (auto simp: wf_list_def)
  have valid: "isValidIndex (int i) False l" using assms(2) size by (auto simp: isValidIndex_def)
  have half: "int i \<le> int (length as) div 2 \<longleftrightarrow> i \<le> length as div 2" by linarith
  have last: "int i = int (length as) - 1 \<longleftrightarrow> i = length as - 1" using assms(2) by linarith
  consider "i = 0" | "i \<noteq> 0" "i = length as - 1" | "i \<noteq> 0" "i \<noteq> length as - 1" "i \<le> length as div 2"
    | "i \<noteq> 0" "i \<noteq> length as - 1" "\<not> i \<le> length as div 2" by blast
  then show ?thesis
  proof cases
    case 1
    then show ?thesis using valid ends node_walk_next [OF s, of 0] assms(2) by (simp add: getNode_def found_index_def)
  next
    case 2
    moreover have "as \<noteq> []" using assms(2) by auto
    ultimately show ?thesis using valid ends node_walk_prev [OF s, of 0] size last
      by (simp add: getNode_def found_index_def)
  next
    case 3
    then show ?thesis using valid ends node_walk_next [OF s, of i] assms(2) size half last
      by (simp add: getNode_def found_index_def Let_def)
  next
    case 4
    have "nat (int (length as) - int i + 1) = length as - i + 1" using assms(2) by linarith
    moreover have "length as - i + 1 < length as" and "length as - 1 - (length as - i + 1) = i - 2"
      using 4 assms(2) by linarith+
    ultimately show ?thesis using 4 valid ends node_walk_prev [OF s, of "length as - i + 1"] size half last
      by (simp add: getNode_def found_index_def Let_def)
  qed
qed

lemma getNode_invalid: "wf_list l as \<Longrightarrow> i < 0 \<or> int (length as) \<le> i \<Longrightarrow> getNode i l = Ret None"
  by (auto simp: getNode_def isValidIndex_def wf_list_def Let_def)

lemma vals_nth: "i < length as \<Longrightarrow> vals h as ! i = ln_val (h (as ! i))"
  by (simp add: vals_def)

section \<open>Traversal\<close>

lemma forEach_loop_seg:
  "seg h p as None \<Longrightarrow>
   forEach_loop cb h (first_of as None) k s =
     Some (fold (\<lambda>(v, i) s. cb v i s) (zip (vals h as) (map (\<lambda>i. k + int i) [0..<length as])) s)"
proof (induction as arbitrary: p k s)
  case Nil
  then show ?case by (simp add: forEach_loop.simps)
next
  case (Cons a as)
  have "map (\<lambda>i. k + int i) [0..<Suc (length as)] = k # map (\<lambda>i. k + 1 + int i) [0..<length as]"
    by (simp add: upt_conv_Cons map_Suc_upt [symmetric] algebra_simps del: upt_Suc)
  then show ?case using Cons.IH [of "Some a" "k + 1"] Cons.prems
    by (subst forEach_loop.simps) (simp del: upt_Suc)
qed

definition indexed :: "'a list \<Rightarrow> ('a \<times> int) list" where
  "indexed xs = zip xs (map int [0..<length xs])"

lemma ForEach_represents:
  assumes "represents l xs"
  shows "list_ForEach cb l s = Some (fold (\<lambda>(v, i) s. cb v i s) (indexed xs) s)"
  using assms forEach_loop_seg [of "ll_heap l" None _ cb 0 s]
  by (auto simp: represents_def wf_list_def list_ForEach_def indexed_def)

lemma indexed_snoc: "indexed (xs @ [x]) = indexed xs @ [(x, int (length xs))]"
  by (simp add: indexed_def)

lemma indexed_Nil [simp]: "indexed [] = []"
  by (simp add: indexed_def)

section \<open>The operations as operations on lists\<close>

lemma representsI: "wf_list l as \<Longrightarrow> vals (ll_heap l) as = xs \<Longrightarrow> represents l xs"
  by (auto simp: represents_def)

lemma representsE:
  assumes "represents l xs"
  obtains as where "wf_list l as" and "vals (ll_heap l) as = xs" and "length as = length xs"
  using assms by (auto simp: represents_def)

lemma link_in_represents:
  assumes "wf_list l (as @ bs)"
    and "hd' = first_of (as @ ll_fresh l # bs) None" and "tl' = last_of None (as @ ll_fresh l # bs)"
  shows "represents (l\<lparr>ll_heap := link_in as (ll_fresh l) v bs (ll_heap l), ll_fresh := Suc (ll_fresh l),
      ll_size := ll_size l + 1, ll_head := hd', ll_tail := tl'\<rparr>) (vals (ll_heap l) as @ v # vals (ll_heap l) bs)"
proof (rule representsI [OF wf_link_in [OF assms]])
  have "seg (ll_heap l) None (as @ bs) None" and "distinct (as @ bs)" and "ll_fresh l \<notin> set (as @ bs)"
    using assms(1) by (auto simp: wf_list_def)
  from seg_link_in(2) [OF this] show "vals (ll_heap (l\<lparr>ll_heap := link_in as (ll_fresh l) v bs (ll_heap l),
      ll_fresh := Suc (ll_fresh l), ll_size := ll_size l + 1, ll_head := hd', ll_tail := tl'\<rparr>)) (as @ ll_fresh l # bs)
    = vals (ll_heap l) as @ v # vals (ll_heap l) bs" by simp
qed

lemma link_out_represents:
  assumes "wf_list l (as @ a # bs)"
    and "hd' = first_of (as @ bs) None" and "tl' = last_of None (as @ bs)"
  shows "represents (l\<lparr>ll_heap := link_out as bs (ll_heap l), ll_size := ll_size l - 1, ll_head := hd', ll_tail := tl'\<rparr>)
      (vals (ll_heap l) as @ vals (ll_heap l) bs)"
proof (rule representsI [OF wf_link_out [OF assms]])
  have "seg (ll_heap l) None (as @ a # bs) None" "distinct (as @ a # bs)"
    using assms(1) by (auto simp: wf_list_def)
  from seg_link_out(2) [OF this] show "vals (ll_heap (l\<lparr>ll_heap := link_out as bs (ll_heap l),
      ll_size := ll_size l - 1, ll_head := hd', ll_tail := tl'\<rparr>)) (as @ bs)
    = vals (ll_heap l) as @ vals (ll_heap l) bs" by simp
qed

lemma link_out_self: "wf_list l (as @ a # bs) \<Longrightarrow> link_out as bs (ll_heap l) a = ll_heap l a"
  using seg_link_out(3) [of "ll_heap l" as a bs] by (simp add: wf_list_def)

lemma initFirstNode_represents: "represents l [] \<Longrightarrow> represents (initFirstNode v l) [v]"
  by (rule representsI [of _ "[ll_fresh l]"])
    (auto simp: initFirstNode_def represents_def wf_list_def vals_def Let_def)

lemma Append_represents:
  assumes "represents l xs"
  shows "\<exists>l'. list_Append v l = Ret l' \<and> represents l' (xs @ [v])"
proof -
  obtain as where wf: "wf_list l as" and xs: "vals (ll_heap l) as = xs" "length as = length xs"
    by (rule representsE [OF assms])
  show ?thesis
  proof (cases as rule: rev_cases)
    case Nil
    then show ?thesis using wf xs initFirstNode_represents [of l v] assms
      by (auto simp: list_Append_def wf_list_def)
  next
    case (snoc bs a)
    let ?l' = "l\<lparr>ll_heap := link_in as (ll_fresh l) v [] (ll_heap l), ll_fresh := Suc (ll_fresh l),
      ll_size := ll_size l + 1, ll_head := first_of (as @ [ll_fresh l]) None, ll_tail := Some (ll_fresh l)\<rparr>"
    have tl: "ll_tail l = Some a" and hd: "ll_head l = first_of as None" using wf snoc by (auto simp: wf_list_def)
    have "list_Append v l = Ret ?l'"
    proof (cases bs)
      case Nil
      then show ?thesis using wf snoc by (auto simp: list_Append_def wf_list_def link_in_def set_prev_def Let_def)
    next
      case (Cons b cs)
      then have "ll_size l \<noteq> 1" using wf snoc by (simp add: wf_list_def)
      then show ?thesis using tl hd snoc Cons insertAfterNode_eq [of l bs a "[]" v] wf
        by (simp add: list_Append_def)
    qed
    moreover have "represents ?l' (xs @ [v])" using link_in_represents [of l as "[]" _ _ v] wf xs by simp
    ultimately show ?thesis by blast
  qed
qed

lemma Prepend_represents:
  assumes "represents l xs"
  shows "\<exists>l'. list_Prepend v l = Ret l' \<and> represents l' (v # xs)"
proof -
  obtain as where wf: "wf_list l as" and xs: "vals (ll_heap l) as = xs" "length as = length xs"
    by (rule representsE [OF assms])
  show ?thesis
  proof (cases as)
    case Nil
    then show ?thesis using wf xs initFirstNode_represents [of l v] assms
      by (auto simp: list_Prepend_def wf_list_def)
  next
    case (Cons a bs)
    let ?l' = "l\<lparr>ll_heap := link_in [] (ll_fresh l) v as (ll_heap l), ll_fresh := Suc (ll_fresh l),
      ll_size := ll_size l + 1, ll_head := Some (ll_fresh l), ll_tail := last_of None (ll_fresh l # as)\<rparr>"
    have tl: "ll_tail l = last_of None as" and hd: "ll_head l = Some a" using wf Cons by (auto simp: wf_list_def)
    have "list_Prepend v l = Ret ?l'"
    proof (cases bs)
      case Nil
      then show ?thesis using wf Cons by (auto simp: list_Prepend_def wf_list_def link_in_def set_next_def Let_def)
    next
      case (Cons b cs)
      then have "ll_size l \<noteq> 1" using wf \<open>as = a # bs\<close> by (simp add: wf_list_def)
      then show ?thesis using tl hd \<open>as = a # bs\<close> insertBeforeNode_eq [of l "[]" a bs v] wf
        by (simp add: list_Prepend_def)
    qed
    moreover have "represents ?l' (v # xs)" using link_in_represents [of l "[]" as _ _ v] wf xs by simp
    ultimately show ?thesis by blast
  qed
qed

lemma Get_represents:
  assumes "represents l xs"
  shows "list_Get i l =
    Ret (if 0 \<le> i \<and> i < int (length xs) then Some (xs ! found_index (length xs) (nat i)) else None)"
proof -
  obtain as where wf: "wf_list l as" and xs: "vals (ll_heap l) as = xs" "length as = length xs"
    by (rule representsE [OF assms])
  show ?thesis
  proof (cases "0 \<le> i \<and> i < int (length xs)")
    case True
    then have i: "nat i < length as" "int (nat i) = i" using xs(2) by linarith+
    have "xs ! found_index (length as) (nat i) = ln_val (ll_heap l (as ! found_index (length as) (nat i)))"
      using vals_nth [OF found_index_less [OF i(1)], of "ll_heap l"] by (simp add: xs(1))
    then show ?thesis using getNode_valid [OF wf i(1)] by (simp add: list_Get_def i(2) True xs(2))
  next
    case False
    then show ?thesis using getNode_invalid [OF wf, of i] xs(2) by (auto simp: list_Get_def)
  qed
qed

text \<open>Splitting the addresses at the node that is found.\<close>

lemma split_at:
  assumes "wf_list l as" and "vals (ll_heap l) as = xs" and "j < length as"
  shows "wf_list l (take j as @ as ! j # drop (Suc j) as)"
    and "vals (ll_heap l) (take j as) = take j xs" and "vals (ll_heap l) (drop (Suc j) as) = drop (Suc j) xs"
    and "ln_val (ll_heap l (as ! j)) = xs ! j"
proof -
  show "wf_list l (take j as @ as ! j # drop (Suc j) as)" using assms by (simp add: id_take_nth_drop [symmetric])
  show "vals (ll_heap l) (take j as) = take j xs" "vals (ll_heap l) (drop (Suc j) as) = drop (Suc j) xs"
    using assms(2) by (auto simp: vals_def take_map drop_map)
  show "ln_val (ll_heap l (as ! j)) = xs ! j" using vals_nth [OF assms(3), of "ll_heap l"] by (simp add: assms(2))
qed

lemma Insert_represents:
  assumes "represents l xs" and "i < length xs" and "j = found_index (length xs) i" and "0 < j"
  shows "\<exists>l'. list_insert (int i) v l = Ret (True, l') \<and> represents l' (take j xs @ v # drop j xs)"
proof -
  obtain as where wf: "wf_list l as" and xs: "vals (ll_heap l) as = xs" "length as = length xs"
    by (rule representsE [OF assms(1)])
  have j: "j < length as" using assms found_index_less xs(2) by simp
  note at = split_at [OF wf xs(1) j]
  let ?l' = "l\<lparr>ll_heap := link_in (take j as) (ll_fresh l) v (as ! j # drop (Suc j) as) (ll_heap l),
    ll_fresh := Suc (ll_fresh l), ll_size := ll_size l + 1\<rparr>"
  have size: "ll_size l = int (length xs)" using wf xs(2) by (simp add: wf_list_def)
  have "getNode (int i) l = Ret (Some (as ! j))" using getNode_valid [OF wf, of i] assms(2,3) xs(2) by simp
  then have "list_insert (int i) v l = Ret (True, ?l')"
    using size assms(2) by (auto simp: list_insert_def isValidIndex_def insertBeforeNode_eq [OF at(1)])
  moreover have ends: "ll_head l = first_of (take j as @ ll_fresh l # as ! j # drop (Suc j) as) None"
    "ll_tail l = last_of None (take j as @ ll_fresh l # as ! j # drop (Suc j) as)"
    using at(1) assms(4) j by (cases "take j as"; auto simp: wf_list_def)+
  have "represents (?l'\<lparr>ll_head := ll_head l, ll_tail := ll_tail l\<rparr>) (take j xs @ v # xs ! j # drop (Suc j) xs)"
    using link_in_represents [OF at(1) ends] at(2-4) by simp
  then have "represents ?l' (take j xs @ v # drop j xs)"
    using j xs(2) by (simp add: Cons_nth_drop_Suc)
  ultimately show ?thesis by blast
qed

lemma Insert_end_represents:
  assumes "represents l xs"
  shows "\<exists>l'. list_insert (int (length xs)) v l = Ret (True, l') \<and> represents l' (xs @ [v])"
proof (cases "xs = []")
  case True
  then show ?thesis using assms initFirstNode_represents [of l v]
    by (auto simp: list_insert_def represents_def wf_list_def vals_def)
next
  case False
  then have "ll_size l = int (length xs)" and "length xs \<noteq> 0"
    using assms by (auto simp: represents_def wf_list_def)
  then show ?thesis using Append_represents [OF assms, of v] by (auto simp: list_insert_def isValidIndex_def)
qed

lemma Remove_represents:
  assumes "represents l xs" and "i < length xs" and "j = found_index (length xs) i"
    and "0 < j" and "j < length xs - 1"
  shows "\<exists>l'. list_Remove (int i) l = Ret (Some (xs ! j), l') \<and> represents l' (take j xs @ drop (Suc j) xs)"
proof -
  obtain as where wf: "wf_list l as" and xs: "vals (ll_heap l) as = xs" "length as = length xs"
    by (rule representsE [OF assms(1)])
  have j: "j < length as" using assms(5) xs(2) by simp
  note at = split_at [OF wf xs(1) j]
  let ?l' = "l\<lparr>ll_heap := link_out (take j as) (drop (Suc j) as) (ll_heap l), ll_size := ll_size l - 1\<rparr>"
  have ends: "ll_head l = first_of (take j as @ drop (Suc j) as) None"
    "ll_tail l = last_of None (take j as @ drop (Suc j) as)"
    using at(1) assms(4,5) xs(2) by (cases "take j as"; cases "drop (Suc j) as"; auto simp: wf_list_def)+
  have "getNode (int i) l = Ret (Some (as ! j))" using getNode_valid [OF wf, of i] assms(2,3) xs(2) by simp
  then have "list_Remove (int i) l = Ret (Some (xs ! j), ?l')"
    using at(4) by (simp add: list_Remove_def removeOnNode_eq [OF at(1)] link_out_self [OF at(1)])
  moreover have "represents ?l' (take j xs @ drop (Suc j) xs)" using link_out_represents [OF at(1) ends] at(2,3) by simp
  ultimately show ?thesis by blast
qed

lemma Poll_represents:
  assumes "represents l (x # y # xs)"
  shows "\<exists>l'. list_Poll l = (Some x, l') \<and> represents l' (y # xs)"
proof -
  obtain as where wf: "wf_list l as" and xs: "vals (ll_heap l) as = x # y # xs" by (rule representsE [OF assms])
  then obtain a b bs where as: "as = a # b # bs" by (cases as; cases "tl as") (auto simp: vals_def)
  have wf': "wf_list l ([] @ a # b # bs)" using wf as by simp
  let ?l' = "l\<lparr>ll_heap := link_out [] (b # bs) (ll_heap l), ll_size := ll_size l - 1, ll_head := Some b\<rparr>"
  have out: "represents (l\<lparr>ll_heap := link_out [] (b # bs) (ll_heap l), ll_size := ll_size l - 1,
      ll_head := Some b, ll_tail := ll_tail l\<rparr>) (vals (ll_heap l) [] @ vals (ll_heap l) (b # bs))"
    using wf as by (intro link_out_represents [OF wf']) (simp_all add: wf_list_def)
  have "list_Poll l = (Some x, ?l')"
    using wf as xs link_out_self [OF wf'] wf_list_links(2) [OF wf'] removeOnNode_eq [OF wf']
    by (simp add: list_Poll_def wf_list_def Let_def)
  moreover have "represents ?l' (y # xs)" using out xs as by simp
  ultimately show ?thesis by blast
qed

lemma Pop_represents:
  assumes "represents l (xs @ [y, x])"
  shows "\<exists>l'. list_Pop l = (Some x, l') \<and> represents l' (xs @ [y])"
proof -
  obtain as where wf: "wf_list l as" and xs: "vals (ll_heap l) as = xs @ [y, x]" by (rule representsE [OF assms])
  have "length as = length xs + 2" using xs by (metis length_append length_Cons list.size(3) numeral_2_eq_2 vals_simps(4))
  then obtain a cs where as: "as = cs @ [a]" and "length cs = length xs + 1" by (cases as rule: rev_cases) auto
  then obtain b bs where cs: "cs = bs @ [b]" by (cases cs rule: rev_cases) auto
  have wf': "wf_list l ((bs @ [b]) @ a # [])" using wf as cs by simp
  let ?l' = "l\<lparr>ll_heap := link_out (bs @ [b]) [] (ll_heap l), ll_size := ll_size l - 1, ll_tail := Some b\<rparr>"
  have out: "represents (l\<lparr>ll_heap := link_out (bs @ [b]) [] (ll_heap l), ll_size := ll_size l - 1,
      ll_head := ll_head l, ll_tail := Some b\<rparr>) (vals (ll_heap l) (bs @ [b]) @ vals (ll_heap l) [])"
    using wf as cs by (intro link_out_represents [OF wf']; cases bs; simp add: wf_list_def)
  have "list_Pop l = (Some x, ?l')"
    using wf as cs xs link_out_self [OF wf'] wf_list_links(1) [OF wf'] removeOnNode_eq [OF wf']
    by (simp add: list_Pop_def wf_list_def Let_def)
  moreover have "represents ?l' (xs @ [y])" using out xs as cs by simp
  ultimately show ?thesis by blast
qed

section \<open>Building a list by appending\<close>

text \<open>What a client that fills a list relies on.\<close>

locale appendable =
  fixes rep :: "'l \<Rightarrow> 'a list \<Rightarrow> bool" and append_op :: "'a \<Rightarrow> 'l \<Rightarrow> 'l go"
  assumes append_rep: "rep l xs \<Longrightarrow> \<exists>l'. append_op v l = Ret l' \<and> rep l' (xs @ [v])"
begin

lemma append_all: "rep l xs \<Longrightarrow> \<exists>l'. fold_go append_op ys l = Ret l' \<and> rep l' (xs @ ys)"
proof (induction ys arbitrary: l xs)
  case (Cons y ys)
  obtain l1 where "append_op y l = Ret l1" "rep l1 (xs @ [y])" using append_rep [OF Cons.prems] by blast
  then show ?case using Cons.IH [of l1 "xs @ [y]"] by auto
qed simp

lemma fold_bind_append:
  "fold (\<lambda>x r. bind_go r (append_op (f x))) ys r = bind_go r (fold_go append_op (map f ys))"
  by (induction ys arbitrary: r) (simp_all add: bind_go_assoc fold_go_Cons fold_go_Nil)

end

interpretation ll: appendable represents list_Append
  by unfold_locales (rule Append_represents)

lemma NewLinkedList_represents: "represents (NewLinkedList safe h f) []"
  by (rule representsI [of _ "[]"]) (auto simp: wf_list_def NewLinkedList_def)

lemma Map_represents:
  assumes "represents l xs"
  shows "\<exists>l'. list_Map f h0 l = Some (Ret l') \<and> represents l' (map (\<lambda>(v, i). f v i) (indexed xs))"
proof -
  have eq: "(\<lambda>(v, i) r. bind_go r (list_Append (f v i))) =
      (\<lambda>p r. bind_go r (list_Append ((\<lambda>(v, i). f v i) p)))"
    by (auto simp: fun_eq_iff)
  have "list_Map f h0 l =
      Some (fold_go list_Append (map (\<lambda>(v, i). f v i) (indexed xs)) (NewLinkedList True h0 0))"
    by (simp add: list_Map_def ForEach_represents [OF assms] eq ll.fold_bind_append)
  with ll.append_all [OF NewLinkedList_represents] show ?thesis by auto
qed

text \<open>\<open>ToSlice\<close> fills the slice from the left.\<close>

lemma fill_slice:
  "fold (\<lambda>(v, i) r. bind_go r (\<lambda>slice. if i < int (length slice) then Ret (slice[nat i := Some v]) else Panic))
     (indexed xs) (Ret (replicate (length xs + k) None)) = Ret (map Some xs @ replicate k None)"
proof (induction xs arbitrary: k rule: rev_induct)
  case (snoc x xs)
  from snoc [of "Suc k"] show ?case by (simp add: indexed_snoc list_update_append)
qed simp

lemma ToSlice_represents:
  assumes "represents l xs"
  shows "list_ToSlice l = Some (Ret (map Some xs))"
proof -
  have "ll_size l = int (length xs)" using assms by (auto simp: represents_def wf_list_def)
  then show ?thesis using fill_slice [of xs 0] by (simp add: list_ToSlice_def ForEach_represents [OF assms])
qed

text \<open>\<open>Search\<close> goes on after a match, so it finds the last one.\<close>

lemma Search_represents:
  assumes "represents l xs"
  shows "list_Search v cmp l =
    Some (fold (\<lambda>(x, i) index. if cmp x v = 0 then i else index) (indexed xs) (- 1))"
  by (simp add: list_Search_def ForEach_represents [OF assms])

lemma last_match:
  "(let r = fold (\<lambda>(x, i) index. if cmp x v = 0 then i else index) (indexed xs) (- 1) in
    (r = - 1 \<and> (\<forall>x \<in> set xs. cmp x v \<noteq> 0)) \<or>
    (\<exists>k < length xs. r = int k \<and> cmp (xs ! k) v = 0 \<and> (\<forall>m. k < m \<and> m < length xs \<longrightarrow> cmp (xs ! m) v \<noteq> 0)))"
proof (induction xs rule: rev_induct)
  case (snoc x xs)
  show ?case
  proof (cases "cmp x v = 0")
    case True
    then show ?thesis by (auto simp: indexed_snoc nth_append Let_def intro!: exI [of _ "length xs"])
  next
    case False
    then show ?thesis using snoc
      by (auto simp: indexed_snoc nth_append Let_def less_Suc_eq)
  qed
qed simp

text \<open>Every list is represented by some store, and without a comparator.\<close>

lemma comparator_Append: "list_Append v l = Ret l' \<Longrightarrow> ll_comparator l' = ll_comparator l"
  by (auto simp: list_Append_def initFirstNode_def insertAfterNode_def Let_def split: if_splits option.splits)

lemma comparator_append_all: "fold_go list_Append ys l = Ret l' \<Longrightarrow> ll_comparator l' = ll_comparator l"
  by (induction ys arbitrary: l) (auto simp: bind_go_eq_Ret dest: comparator_Append)

lemma sample_list: "\<exists>l. represents l xs \<and> ll_comparator l = None"
proof -
  obtain l where l: "fold_go list_Append xs (NewLinkedList True undefined 0) = Ret l" "represents l xs"
    using ll.append_all [OF NewLinkedList_represents [of True undefined 0], of xs] by auto
  from comparator_append_all [OF l(1)] l(2) show ?thesis by (auto simp: NewLinkedList_def)
qed

section \<open>Properties\<close>

text \<open>
  C36. The list implements a double-ended queue with at least one element left: appending, prepending,
  polling and popping on a store that represents a list give a store that represents the list with the
  element added or taken at that end.
\<close>

theorem linked_list_is_deque:
  assumes "represents l (x # xs @ [y])"
  shows "(\<exists>l'. list_Append v l = Ret l' \<and> represents l' (x # xs @ [y, v])) \<and>
    (\<exists>l'. list_Prepend v l = Ret l' \<and> represents l' (v # x # xs @ [y])) \<and>
    (\<exists>l'. list_Poll l = (Some x, l') \<and> represents l' (xs @ [y])) \<and>
    (\<exists>l'. list_Pop l = (Some y, l') \<and> represents l' (x # xs))"
proof (intro conjI)
  show "\<exists>l'. list_Append v l = Ret l' \<and> represents l' (x # xs @ [y, v])"
    using Append_represents [OF assms, of v] by simp
  show "\<exists>l'. list_Prepend v l = Ret l' \<and> represents l' (v # x # xs @ [y])"
    using Prepend_represents [OF assms, of v] by simp
  show "\<exists>l'. list_Poll l = (Some x, l') \<and> represents l' (xs @ [y])"
    using assms Poll_represents [of l x] by (cases xs) auto
  show "\<exists>l'. list_Pop l = (Some y, l') \<and> represents l' (x # xs)"
    using assms Pop_represents [of l _ _ y] by (cases xs rule: rev_cases) (auto, metis append.left_neutral, metis append_Cons)
qed

theorem linked_list_is_deque_witness:
  "\<exists>l l' :: int LinkedList. represents l [1, 2, 3] \<and> list_Poll l = (Some 1, l') \<and> represents l' [2, 3]"
proof -
  obtain l :: "int LinkedList" where "represents l (1 # [2] @ [3])" using sample_list by force
  with linked_list_is_deque [OF this] show ?thesis by auto
qed

text \<open>
  Traversal: \<open>ToSlice\<close> returns the elements in order, \<open>Map\<close> a list of the images, and \<open>IndexOf\<close>, on a
  list without a comparator, the position of the last occurrence or -1.
\<close>

theorem linked_list_traversal:
  assumes "represents l xs" and "ll_comparator l = None"
  shows "list_ToSlice l = Some (Ret (map Some xs)) \<and>
    (\<exists>l'. list_Map (\<lambda>v i. f v) h0 l = Some (Ret l') \<and> list_ToSlice l' = Some (Ret (map (\<lambda>v. Some (f v)) xs))) \<and>
    (\<exists>r. list_IndexOf v l = Some r \<and>
      (r = - 1 \<and> v \<notin> set xs \<or>
       (\<exists>k < length xs. r = int k \<and> xs ! k = v \<and> v \<notin> set (drop (Suc k) xs))))"
proof (intro conjI)
  show "list_ToSlice l = Some (Ret (map Some xs))" by (rule ToSlice_represents [OF assms(1)])
  have "map (\<lambda>(v, i). f v) (indexed xs) = map f (map fst (indexed xs))" by (simp add: case_prod_beta)
  then have "map (\<lambda>(v, i). f v) (indexed xs) = map f xs" by (simp add: indexed_def)
  with Map_represents [OF assms(1), of "\<lambda>v i. f v" h0]
  show "\<exists>l'. list_Map (\<lambda>v i. f v) h0 l = Some (Ret l') \<and> list_ToSlice l' = Some (Ret (map (\<lambda>v. Some (f v)) xs))"
    using ToSlice_represents by fastforce
  let ?r = "fold (\<lambda>(x, i) index. if defaultComparator x v = 0 then i else index) (indexed xs) (- 1)"
  have "list_IndexOf v l = Some ?r"
    using assms(2) Search_represents [OF assms(1)] by (simp add: list_IndexOf_def)
  moreover have "v \<notin> set (drop (Suc k) xs)" if "\<forall>m. k < m \<and> m < length xs \<longrightarrow> xs ! m \<noteq> v" for k
    using that by (auto simp: in_set_conv_nth)
  ultimately show "\<exists>r. list_IndexOf v l = Some r \<and> (r = - 1 \<and> v \<notin> set xs \<or>
      (\<exists>k < length xs. r = int k \<and> xs ! k = v \<and> v \<notin> set (drop (Suc k) xs)))"
    using last_match [of defaultComparator v xs]
    by (auto simp: defaultComparator_def Let_def split: if_splits)
qed

theorem linked_list_traversal_witness:
  "\<exists>l :: int LinkedList. represents l [1, 2, 3] \<and> list_ToSlice l = Some (Ret [Some 1, Some 2, Some 3])"
proof -
  obtain l :: "int LinkedList" where l: "represents l [1, 2, 3]" "ll_comparator l = None" using sample_list by force
  with linked_list_traversal [OF l, of "\<lambda>v. v" undefined 0] show ?thesis by auto
qed

text \<open>
  Access by index. A valid index up to half the size, or the last one, is looked up, inserted before
  and, inside the list, removed at as it should; any other valid index \<open>i\<close> beyond the half reads the
  element \<open>i - 2\<close>. An invalid index reads nothing.
\<close>

theorem linked_list_by_index:
  assumes "represents l xs" and "i < length xs"
  shows "list_Get (int i) l =
      Ret (Some (if i = 0 \<or> i = length xs - 1 \<or> i \<le> length xs div 2 then xs ! i else xs ! (i - 2))) \<and>
    list_Get (int (length xs + k)) l = Ret None \<and> list_Get (- 1 - int k) l = Ret None \<and>
    (0 < i \<and> (i = length xs - 1 \<or> i \<le> length xs div 2) \<longrightarrow>
      (\<exists>l'. list_insert (int i) v l = Ret (True, l') \<and> represents l' (take i xs @ v # drop i xs))) \<and>
    (0 < i \<and> i < length xs - 1 \<and> i \<le> length xs div 2 \<longrightarrow>
      (\<exists>l'. list_Remove (int i) l = Ret (Some (xs ! i), l') \<and> represents l' (take i xs @ drop (Suc i) xs)))"
proof (intro conjI impI)
  show "list_Get (int i) l =
      Ret (Some (if i = 0 \<or> i = length xs - 1 \<or> i \<le> length xs div 2 then xs ! i else xs ! (i - 2)))"
    using Get_represents [OF assms(1), of "int i"] assms(2) by (simp add: found_index_def)
  show "list_Get (int (length xs + k)) l = Ret None" "list_Get (- 1 - int k) l = Ret None"
    using Get_represents [OF assms(1)] by simp_all
  assume i: "0 < i \<and> (i = length xs - 1 \<or> i \<le> length xs div 2)"
  then show "\<exists>l'. list_insert (int i) v l = Ret (True, l') \<and> represents l' (take i xs @ v # drop i xs)"
    using Insert_represents [OF assms, of i v] by (auto simp: found_index_def)
next
  assume "0 < i \<and> i < length xs - 1 \<and> i \<le> length xs div 2"
  then show "\<exists>l'. list_Remove (int i) l = Ret (Some (xs ! i), l') \<and> represents l' (take i xs @ drop (Suc i) xs)"
    using Remove_represents [OF assms, of i] by (auto simp: found_index_def)
qed

theorem linked_list_by_index_witness:
  "\<exists>l l' :: int LinkedList. represents l [10, 11, 12, 13, 14] \<and> list_Get 3 l = Ret (Some 11) \<and>
     list_Remove 2 l = Ret (Some 12, l') \<and> represents l' [10, 11, 13, 14]"
proof -
  obtain l :: "int LinkedList" where l: "represents l [10, 11, 12, 13, 14]" using sample_list by blast
  have "list_Get 3 l = Ret (Some 11)" using linked_list_by_index [OF l, of 3 0 0] by simp
  moreover have "\<exists>l'. list_Remove 2 l = Ret (Some 12, l') \<and> represents l' [10, 11, 13, 14]"
    using linked_list_by_index [OF l, of 2 0 0] by simp
  ultimately show ?thesis using l by blast
qed

text \<open>
  A list that was polled empty keeps its stale tail: an element appended afterwards cannot be polled,
  and the second one panics.
\<close>

theorem polled_empty_list_breaks:
  assumes "represents l [x]"
  shows "\<exists>l1 l2. list_Poll l = (Some x, l1) \<and> ll_size l1 = 0 \<and> list_Append v l1 = Ret l2 \<and>
    fst (list_Poll l2) = None \<and> list_Append w l2 = Panic"
proof -
  obtain as where wf: "wf_list l as" and xs: "vals (ll_heap l) as = [x]" by (rule representsE [OF assms])
  then obtain a where as: "as = [a]" by (cases as; cases "tl as") (auto simp: vals_def)
  with wf xs show ?thesis
    by (auto simp: wf_list_def list_Poll_def removeOnNode_def list_Append_def insertAfterNode_def
        set_next_def set_prev_def Let_def)
qed

theorem polled_empty_list_breaks_witness:
  "\<exists>l l1 l2 :: int LinkedList. represents l [1] \<and> list_Poll l = (Some 1, l1) \<and>
     list_Append 2 l1 = Ret l2 \<and> list_Append 3 l2 = Panic"
proof -
  obtain l :: "int LinkedList" where l: "represents l [1]" using sample_list by blast
  with polled_empty_list_breaks [OF l, of 2 3] show ?thesis by blast
qed

end
