(* ===== verification/AsyncPool.thy ===== *)
theory AsyncPool
  imports Prelude
begin

text \<open>
  \<open>src/common/async/async.go\<close>: the pool of workers on which the server runs its tasks. Every operation is a function
  on the state of the pool, for a caller that runs alone. The interleavings are a step relation over the same state: a
  goroutine is the rest of its program, and one step is one section under the lock, one operation on the channel or one
  return from a wait. The wait group is its counter. A task is a value; it runs between the increment and the decrement of
  the busy count. A panic ends the process.
\<close>

section \<open>The pool\<close>

definition IDLE :: nat where "IDLE = 0"
definition RUNNING :: nat where "RUNNING = 1"
definition TERMINATING :: nat where "TERMINATING = 2"
definition TERMINATED :: nat where "TERMINATED = 3"

lemmas pool_status_defs = IDLE_def RUNNING_def TERMINATING_def TERMINATED_def

definition getInRangeInt :: "int \<Rightarrow> int \<Rightarrow> int \<Rightarrow> int" where
  "getInRangeInt value mn mx = (if value < mn then mn else if value > mx then mx else value)"

text \<open>A worker before its start, in the loop, with a task taken, in a task, and after the loop.\<close>

datatype 't worker = WNew | WLoop | WGot 't | WTask 't | WExited

record 't AsyncPool =
  p_status :: nat
  p_channel :: "'t list"
  p_capacity :: int
  p_closed :: bool
  p_cancelled :: bool
  p_totWorkers :: int
  p_startedWorkers :: int
  p_busyWorkers :: int
  p_waitGroup :: int
  p_workers :: "nat \<Rightarrow> 't worker"

definition NewAsyncPool :: "int \<Rightarrow> int \<Rightarrow> 't AsyncPool" where
  "NewAsyncPool maxPoolSize workerSize =
     \<lparr>p_status = IDLE, p_channel = [], p_capacity = getInRangeInt maxPoolSize 16 2048, p_closed = False, p_cancelled = False,
      p_totWorkers = getInRangeInt workerSize 2 1024, p_startedWorkers = 0, p_busyWorkers = 0, p_waitGroup = 0,
      p_workers = (\<lambda>_. WNew)\<rparr>"

definition pool_setStatus :: "nat \<Rightarrow> 't AsyncPool \<Rightarrow> 't AsyncPool" where
  "pool_setStatus st p = (if st < 4 then p\<lparr>p_status := st\<rparr> else p)"

definition HasStarted :: "'t AsyncPool \<Rightarrow> bool" where
  "HasStarted p \<longleftrightarrow> p_status p > IDLE"

text \<open>The section of \<open>tryAddAndRunWorker\<close> under the write lock, and the call.\<close>

definition addWorker :: "'t AsyncPool \<Rightarrow> 't AsyncPool" where
  "addWorker p =
     (if p_startedWorkers p < p_totWorkers p
      then p\<lparr>p_waitGroup := p_waitGroup p + 1, p_workers := (p_workers p)(nat (p_startedWorkers p) := WLoop),
             p_startedWorkers := p_startedWorkers p + 1\<rparr>
      else p)"

definition tryAddAndRunWorker :: "'t AsyncPool \<Rightarrow> 't AsyncPool" where
  "tryAddAndRunWorker p = (if p_status p > RUNNING then p else addWorker p)"

text \<open>\<open>start\<close>; the second component says whether a goroutine for \<open>initWorker\<close> is started.\<close>

definition pool_start :: "'t AsyncPool \<Rightarrow> 't AsyncPool \<times> bool" where
  "pool_start p = (if p_status p > IDLE then (p, False) else (pool_setStatus RUNNING p, True))"

definition NumBusyWorkers :: "'t AsyncPool \<Rightarrow> int" where
  "NumBusyWorkers p = (if p_status p = RUNNING then p_busyWorkers p else 0)"

definition NumPendingTasks :: "'t AsyncPool \<Rightarrow> int" where
  "NumPendingTasks p = (if p_status p = RUNNING then int (length (p_channel p)) else 0)"

definition IncreaseWorkerSizeTo :: "int \<Rightarrow> 't AsyncPool \<Rightarrow> 't AsyncPool \<times> bool" where
  "IncreaseWorkerSizeTo n p = (if n > p_totWorkers p then (p\<lparr>p_totWorkers := n\<rparr>, True) else (p, False))"

text \<open>
  \<open>schedule\<close> up to the send: the pool, whether \<open>initWorker\<close> was started, and whether the task is to be sent at all.
\<close>

definition pool_schedule :: "'t AsyncPool \<Rightarrow> 't AsyncPool \<times> bool \<times> bool" where
  "pool_schedule p =
     (if p_status p > RUNNING then (p, False, False)
      else
        (let (p, started) = (if p_status p = IDLE then pool_start p else (p, False));
             p = (if NumBusyWorkers p = p_startedWorkers p then tryAddAndRunWorker p else p)
         in (p, started, True)))"

text \<open>
  One round of the loop of \<open>runWorker\<close>. The \<open>break\<close> in a case of the \<open>select\<close> leaves the \<open>select\<close>, so the loop goes on
  after every case: \<open>stays_in_loop\<close> says of each whether it does.
\<close>

datatype select_case = TakeTask | ChannelClosed | ContextDone

definition select_ready :: "select_case \<Rightarrow> 't AsyncPool \<Rightarrow> bool" where
  "select_ready c p =
     (case c of
        TakeTask \<Rightarrow> p_channel p \<noteq> []
      | ChannelClosed \<Rightarrow> p_closed p \<and> p_channel p = []
      | ContextDone \<Rightarrow> p_cancelled p)"

definition stays_in_loop :: "select_case \<Rightarrow> bool" where
  "stays_in_loop c = (case c of TakeTask \<Rightarrow> True | ChannelClosed \<Rightarrow> True | ContextDone \<Rightarrow> True)"

definition worker_take :: "nat \<Rightarrow> 't AsyncPool \<Rightarrow> 't AsyncPool" where
  "worker_take i p = p\<lparr>p_channel := tl (p_channel p), p_workers := (p_workers p)(i := WGot (hd (p_channel p)))\<rparr>"

definition worker_begin :: "nat \<Rightarrow> 't \<Rightarrow> 't AsyncPool \<Rightarrow> 't AsyncPool" where
  "worker_begin i t p = p\<lparr>p_busyWorkers := p_busyWorkers p + 1, p_workers := (p_workers p)(i := WTask t)\<rparr>"

definition worker_finish :: "nat \<Rightarrow> 't AsyncPool \<Rightarrow> 't AsyncPool" where
  "worker_finish i p = p\<lparr>p_busyWorkers := p_busyWorkers p - 1, p_workers := (p_workers p)(i := WLoop)\<rparr>"

definition worker_exit :: "nat \<Rightarrow> 't AsyncPool \<Rightarrow> 't AsyncPool" where
  "worker_exit i p = p\<lparr>p_waitGroup := p_waitGroup p - 1, p_workers := (p_workers p)(i := WExited)\<rparr>"

text \<open>\<open>Stop\<close> up to its wait. Closing the channel a second time panics.\<close>

definition pool_Stop :: "'t AsyncPool \<Rightarrow> 't AsyncPool go" where
  "pool_Stop p =
     (if \<not> HasStarted p then Ret p
      else if p_closed p then Panic
      else Ret (pool_setStatus TERMINATING (p\<lparr>p_closed := True, p_cancelled := True\<rparr>)))"

section \<open>Interleavings\<close>

text \<open>
  What a goroutine has still to do: a caller of \<open>schedule\<close> with its task, \<open>initWorker\<close> (\<open>None\<close> where the call of
  \<open>tryAddAndRunWorker\<close> is its), a caller of \<open>IncreaseWorkerSizeTo\<close>, a caller of \<open>Stop\<close>.
\<close>

datatype 't goroutine =
    SchedStatus 't | StartStatus 't | StartSet 't
  | BusyStatus 't | BusyRead 't | StartedRead 't int
  | AddStatus "'t option" | AddWrite "'t option"
  | Sending 't
  | InitWait | InitSet
  | SizeCheck int | SizeSet int
  | StopCheck | StopClose | StopCancel | StopSet | StopWait

fun after_add :: "'t option \<Rightarrow> 't goroutine list" where
  "after_add (Some t) = [Sending t]"
| "after_add None = [InitWait]"

text \<open>\<open>None\<close> is a step that has to wait. The list is the rest of the goroutine and the goroutine it starts, if any.\<close>

fun g_step :: "'t goroutine \<Rightarrow> 't AsyncPool \<Rightarrow> ('t AsyncPool \<times> 't goroutine list) go option" where
  "g_step (SchedStatus t) p =
     Some (Ret (p, if p_status p = IDLE then [StartStatus t] else if p_status p > RUNNING then [] else [BusyStatus t]))"
| "g_step (StartStatus t) p = Some (Ret (p, if p_status p > IDLE then [BusyStatus t] else [StartSet t]))"
| "g_step (StartSet t) p = Some (Ret (pool_setStatus RUNNING p, [BusyStatus t, AddStatus None]))"
| "g_step (BusyStatus t) p = Some (Ret (p, if p_status p = RUNNING then [BusyRead t] else [StartedRead t 0]))"
| "g_step (BusyRead t) p = Some (Ret (p, [StartedRead t (p_busyWorkers p)]))"
| "g_step (StartedRead t b) p = Some (Ret (p, if b = p_startedWorkers p then [AddStatus (Some t)] else [Sending t]))"
| "g_step (AddStatus c) p = Some (Ret (p, if p_status p > RUNNING then after_add c else [AddWrite c]))"
| "g_step (AddWrite c) p = Some (Ret (addWorker p, after_add c))"
| "g_step (Sending t) p =
     (if p_closed p then Some Panic
      else if int (length (p_channel p)) < p_capacity p then Some (Ret (p\<lparr>p_channel := p_channel p @ [t]\<rparr>, []))
      else None)"
| "g_step InitWait p = (if p_waitGroup p = 0 then Some (Ret (p, [InitSet])) else None)"
| "g_step InitSet p = Some (Ret (pool_setStatus TERMINATED p, []))"
| "g_step (SizeCheck n) p = Some (Ret (p, if n > p_totWorkers p then [SizeSet n] else []))"
| "g_step (SizeSet n) p = Some (Ret (p\<lparr>p_totWorkers := n\<rparr>, []))"
| "g_step StopCheck p = Some (Ret (p, if HasStarted p then [StopClose] else []))"
| "g_step StopClose p = (if p_closed p then Some Panic else Some (Ret (p\<lparr>p_closed := True\<rparr>, [StopCancel])))"
| "g_step StopCancel p = Some (Ret (p\<lparr>p_cancelled := True\<rparr>, [StopSet]))"
| "g_step StopSet p = Some (Ret (pool_setStatus TERMINATING p, [StopWait]))"
| "g_step StopWait p = (if p_waitGroup p = 0 then Some (Ret (p, [])) else None)"

text \<open>A worker's next step, and whether it has one.\<close>

inductive worker_step :: "nat \<Rightarrow> 't AsyncPool \<Rightarrow> 't AsyncPool \<Rightarrow> bool" where
  ws_take: "p_workers p i = WLoop \<Longrightarrow> select_ready TakeTask p \<Longrightarrow> worker_step i p (worker_take i p)"
| ws_begin: "p_workers p i = WGot t \<Longrightarrow> worker_step i p (worker_begin i t p)"
| ws_finish: "p_workers p i = WTask t \<Longrightarrow> worker_step i p (worker_finish i p)"
| ws_leave: "p_workers p i = WLoop \<Longrightarrow> select_ready c p \<Longrightarrow> \<not> stays_in_loop c \<Longrightarrow> worker_step i p (worker_exit i p)"

text \<open>
  The process: the pool, its goroutines, whether a panic has ended it; and, for the statements, the tasks sent and taken
  so far and the largest limit on the workers so far.
\<close>

record 't pool_state =
  ps_pool :: "'t AsyncPool"
  ps_goroutines :: "'t goroutine list"
  ps_crashed :: bool
  ps_sent :: "'t list"
  ps_taken :: "'t list"
  ps_peak :: int

definition pool_init :: "int \<Rightarrow> int \<Rightarrow> 't pool_state" where
  "pool_init mp ws =
     (let p = NewAsyncPool mp ws
      in \<lparr>ps_pool = p, ps_goroutines = [], ps_crashed = False, ps_sent = [], ps_taken = [], ps_peak = p_totWorkers p\<rparr>)"

fun sent_by :: "'t goroutine \<Rightarrow> 't list" where
  "sent_by (Sending t) = [t]"
| "sent_by _ = []"

definition replace_at :: "nat \<Rightarrow> 'a list \<Rightarrow> 'a list \<Rightarrow> 'a list" where
  "replace_at i ys xs = take i xs @ ys @ drop (Suc i) xs"

definition is_entry :: "'t goroutine \<Rightarrow> bool" where
  "is_entry g = (case g of SchedStatus _ \<Rightarrow> True | SizeCheck _ \<Rightarrow> True | StopCheck \<Rightarrow> True | _ \<Rightarrow> False)"

inductive pool_step :: "'t pool_state \<Rightarrow> 't pool_state \<Rightarrow> bool" where
  call: "\<not> ps_crashed s \<Longrightarrow> is_entry g \<Longrightarrow> pool_step s (s\<lparr>ps_goroutines := ps_goroutines s @ [g]\<rparr>)"
| run: "\<not> ps_crashed s \<Longrightarrow> i < length (ps_goroutines s) \<Longrightarrow>
    g_step (ps_goroutines s ! i) (ps_pool s) = Some (Ret (p, gs)) \<Longrightarrow>
    pool_step s (s\<lparr>ps_pool := p, ps_goroutines := replace_at i gs (ps_goroutines s),
      ps_sent := ps_sent s @ sent_by (ps_goroutines s ! i), ps_peak := max (ps_peak s) (p_totWorkers p)\<rparr>)"
| crash: "\<not> ps_crashed s \<Longrightarrow> i < length (ps_goroutines s) \<Longrightarrow>
    g_step (ps_goroutines s ! i) (ps_pool s) = Some Panic \<Longrightarrow> pool_step s (s\<lparr>ps_crashed := True\<rparr>)"
| work: "\<not> ps_crashed s \<Longrightarrow> worker_step i (ps_pool s) p \<Longrightarrow>
    pool_step s (s\<lparr>ps_pool := p,
      ps_taken := ps_taken s @ take (length (p_channel (ps_pool s)) - length (p_channel p)) (p_channel (ps_pool s))\<rparr>)"

definition pool_reach :: "int \<Rightarrow> int \<Rightarrow> 't pool_state \<Rightarrow> bool" where
  "pool_reach mp ws s \<longleftrightarrow> pool_step\<^sup>*\<^sup>* (pool_init mp ws) s"

text \<open>A caller of \<open>schedule\<close> that runs alone, as long as its next step does not wait (nine steps at most).\<close>

fun run_alone :: "nat \<Rightarrow> 't goroutine \<Rightarrow> 't AsyncPool \<Rightarrow> ('t AsyncPool \<times> 't goroutine list) go" where
  "run_alone 0 g p = Ret (p, [g])"
| "run_alone (Suc n) g p =
     (case g of Sending _ \<Rightarrow> Ret (p, [g]) | StopWait \<Rightarrow> Ret (p, [g]) | _ \<Rightarrow>
       (case g_step g p of
          None \<Rightarrow> Ret (p, [g])
        | Some Panic \<Rightarrow> Panic
        | Some (Ret (p', [])) \<Rightarrow> Ret (p', [])
        | Some (Ret (p', g' # spawned)) \<Rightarrow>
            (case run_alone n g' p' of Ret (p'', rest) \<Rightarrow> Ret (p'', rest @ spawned) | r \<Rightarrow> r)))"

section \<open>Invariant\<close>

text \<open>The workers inside a task.\<close>

definition working :: "'t AsyncPool \<Rightarrow> nat set" where
  "working p = {i. \<exists>t. p_workers p i = WTask t}"

definition pool_wf :: "'t AsyncPool \<Rightarrow> bool" where
  "pool_wf p \<longleftrightarrow>
     0 \<le> p_startedWorkers p \<and> 2 \<le> p_totWorkers p \<and> p_waitGroup p = p_startedWorkers p \<and>
     (\<forall>i. p_workers p i = WNew \<longleftrightarrow> p_startedWorkers p \<le> int i) \<and> (\<forall>i. p_workers p i \<noteq> WExited) \<and>
     p_busyWorkers p = int (card (working p)) \<and> int (length (p_channel p)) \<le> p_capacity p \<and>
     (p_status p > RUNNING \<longrightarrow> p_closed p) \<and> (p_channel p \<noteq> [] \<longrightarrow> p_startedWorkers p > 0)"

text \<open>What holds of the pool while a goroutine is at a point of its program.\<close>

definition served :: "'t AsyncPool \<Rightarrow> bool" where
  "served p \<longleftrightarrow> p_startedWorkers p > 0 \<or> p_closed p"

fun g_ok :: "'t AsyncPool \<Rightarrow> 't goroutine \<Rightarrow> bool" where
  "g_ok p (StartedRead t b) \<longleftrightarrow> 0 \<le> b \<and> b \<le> p_startedWorkers p"
| "g_ok p (Sending t) \<longleftrightarrow> served p"
| "g_ok p InitWait \<longleftrightarrow> served p"
| "g_ok p InitSet \<longleftrightarrow> p_closed p"
| "g_ok p (SizeSet n) \<longleftrightarrow> 2 \<le> n"
| "g_ok p StopCancel \<longleftrightarrow> p_closed p"
| "g_ok p StopSet \<longleftrightarrow> p_closed p"
| "g_ok p _ \<longleftrightarrow> True"

lemma working_bound:
  assumes "pool_wf p"
  shows "working p \<subseteq> {..<nat (p_startedWorkers p)}"
proof
  fix i assume "i \<in> working p"
  then have "p_workers p i \<noteq> WNew" by (auto simp: working_def)
  then have "\<not> p_startedWorkers p \<le> int i" using assms by (simp add: pool_wf_def)
  then show "i \<in> {..<nat (p_startedWorkers p)}" by simp
qed

lemma working_finite: "pool_wf p \<Longrightarrow> finite (working p)"
  by (rule finite_subset [OF working_bound]) simp_all

lemma busy_bounds:
  assumes "pool_wf p"
  shows "0 \<le> p_busyWorkers p" and "p_busyWorkers p \<le> p_startedWorkers p"
  using assms card_mono [OF _ working_bound [OF assms]] by (auto simp: pool_wf_def)

lemma pool_wf_status [wf_intros]: "pool_wf p \<Longrightarrow> (st > RUNNING \<Longrightarrow> p_closed p) \<Longrightarrow> pool_wf (pool_setStatus st p)"
  by (auto simp: pool_wf_def pool_setStatus_def working_def)

lemma pool_wf_add [wf_intros]:
  assumes "pool_wf p"
  shows "pool_wf (addWorker p)"
proof (cases "p_startedWorkers p < p_totWorkers p")
  case True
  let ?i = "nat (p_startedWorkers p)"
  have started: "0 \<le> p_startedWorkers p" and i: "p_workers p ?i = WNew" using assms by (auto simp: pool_wf_def)
  have "working (addWorker p) = working p" using True i by (auto simp: addWorker_def working_def)
  moreover have "p_startedWorkers p \<le> int k \<longleftrightarrow> k = ?i \<or> p_startedWorkers p + 1 \<le> int k" for k using started by auto
  ultimately show ?thesis using assms True by (auto simp: pool_wf_def addWorker_def)
qed (use assms in \<open>simp add: addWorker_def\<close>)

lemma addWorker_served: "pool_wf p \<Longrightarrow> p_startedWorkers (addWorker p) > 0"
  by (auto simp: pool_wf_def addWorker_def)

lemma not_new: "pool_wf p \<Longrightarrow> p_workers p i \<noteq> WNew \<Longrightarrow> \<not> p_startedWorkers p \<le> int i"
  by (simp add: pool_wf_def)

lemma pool_wf_take [wf_intros]:
  assumes "pool_wf p" and "p_workers p i = WLoop" and "p_channel p \<noteq> []"
  shows "pool_wf (worker_take i p)"
proof -
  have "working (worker_take i p) = working p" using assms(2) by (auto simp: working_def worker_take_def)
  then show ?thesis using assms not_new [OF assms(1), of i] by (auto simp: pool_wf_def worker_take_def)
qed

lemma pool_wf_begin [wf_intros]:
  assumes "pool_wf p" and "p_workers p i = WGot t"
  shows "pool_wf (worker_begin i t p)"
proof -
  have i: "i \<notin> working p" and w: "working (worker_begin i t p) = insert i (working p)"
    using assms(2) by (auto simp: working_def worker_begin_def)
  have "card (working (worker_begin i t p)) = Suc (card (working p))"
    unfolding w using i working_finite [OF assms(1)] by simp
  then show ?thesis using assms not_new [OF assms(1), of i] by (auto simp: pool_wf_def worker_begin_def)
qed

lemma pool_wf_finish [wf_intros]:
  assumes "pool_wf p" and "p_workers p i = WTask t"
  shows "pool_wf (worker_finish i p)"
proof -
  have i: "i \<in> working p" and w: "working (worker_finish i p) = working p - {i}"
    using assms(2) by (auto simp: working_def worker_finish_def)
  have "card (working p) = Suc (card (working (worker_finish i p)))"
    unfolding w using i card_Suc_Diff1 [OF working_finite [OF assms(1)]] by simp
  then show ?thesis using assms not_new [OF assms(1), of i] by (auto simp: pool_wf_def worker_finish_def)
qed

lemma stays [simp]: "stays_in_loop c"
  by (cases c) (simp_all add: stays_in_loop_def)

lemma worker_step_wf: "worker_step i p p' \<Longrightarrow> pool_wf p \<Longrightarrow> pool_wf p'"
  by (induction rule: worker_step.induct) (auto intro: wf_intros simp: select_ready_def)

text \<open>A worker leaves what the goroutines rely on.\<close>

lemma worker_step_frame:
  assumes "worker_step i p p'"
  shows "p_startedWorkers p' = p_startedWorkers p" "p_closed p' = p_closed p" "p_totWorkers p' = p_totWorkers p"
    and "p_channel p = take (length (p_channel p) - length (p_channel p')) (p_channel p) @ p_channel p'"
  using assms by (induction rule: worker_step.induct)
    (auto simp: worker_take_def worker_begin_def worker_finish_def worker_exit_def select_ready_def neq_Nil_conv)

lemma g_ok_mono: "g_ok p g \<Longrightarrow> p_startedWorkers p \<le> p_startedWorkers p' \<Longrightarrow> (p_closed p \<Longrightarrow> p_closed p') \<Longrightarrow> g_ok p' g"
  by (cases g) (auto simp: served_def)

lemma status_keep [simp]:
  "p_startedWorkers (pool_setStatus st p) = p_startedWorkers p" "p_closed (pool_setStatus st p) = p_closed p"
  "p_channel (pool_setStatus st p) = p_channel p" "p_totWorkers (pool_setStatus st p) = p_totWorkers p"
  by (simp_all add: pool_setStatus_def)

lemma addWorker_keep [simp]:
  "p_closed (addWorker p) = p_closed p" "p_channel (addWorker p) = p_channel p" "p_totWorkers (addWorker p) = p_totWorkers p"
  by (simp_all add: addWorker_def)

lemma addWorker_mono: "p_startedWorkers p \<le> p_startedWorkers (addWorker p)"
  by (simp add: addWorker_def)

lemma g_step_frame:
  assumes "g_step g p = Some (Ret (p', gs))"
  shows "p_startedWorkers p \<le> p_startedWorkers p'" "p_closed p \<Longrightarrow> p_closed p'" "p_channel p' = p_channel p @ sent_by g"
    and "p_startedWorkers p' \<le> max (p_startedWorkers p) (p_totWorkers p')"
  using assms by (cases g; auto simp: addWorker_mono split: if_splits; simp add: addWorker_def)+

lemma pool_wf_send [wf_intros]:
  "pool_wf p \<Longrightarrow> p_startedWorkers p > 0 \<Longrightarrow> int (length (p_channel p)) < p_capacity p \<Longrightarrow>
   pool_wf (p\<lparr>p_channel := p_channel p @ [t]\<rparr>)"
  by (simp add: pool_wf_def working_def)

lemma pool_wf_upd [wf_intros]:
  "pool_wf p \<Longrightarrow> 2 \<le> n \<Longrightarrow> pool_wf (p\<lparr>p_totWorkers := n\<rparr>)"
  "pool_wf p \<Longrightarrow> pool_wf (p\<lparr>p_closed := True\<rparr>)" "pool_wf p \<Longrightarrow> pool_wf (p\<lparr>p_cancelled := True\<rparr>)"
  by (simp_all add: pool_wf_def working_def)

lemma g_step_wf: "g_step g p = Some (Ret (p', gs)) \<Longrightarrow> pool_wf p \<Longrightarrow> g_ok p g \<Longrightarrow> pool_wf p'"
  by (cases g) (auto intro!: wf_intros simp: served_def split: if_splits)

lemma g_step_ok:
  assumes "g_step g p = Some (Ret (p', gs))" and "pool_wf p" and "g_ok p g"
  shows "list_all (g_ok p') gs"
proof -
  have add: "list_all (g_ok q) (after_add c)" if "served q" for c and q :: "'a AsyncPool" using that by (cases c) auto
  have "served p" if "p_status p > RUNNING" using that assms(2) by (simp add: pool_wf_def served_def)
  moreover have "served (addWorker p)" using addWorker_served [OF assms(2)] by (simp add: served_def)
  moreover have "2 \<le> p_totWorkers p" "0 \<le> p_startedWorkers p" using assms(2) by (simp_all add: pool_wf_def)
  moreover have "p_waitGroup p = 0 \<Longrightarrow> served p \<Longrightarrow> p_closed p" using assms(2) by (simp add: pool_wf_def served_def)
  ultimately show ?thesis using assms(1,3) busy_bounds [OF assms(2)] add
    by (cases g) (auto simp: served_def split: if_splits)
qed

definition pool_inv :: "'t pool_state \<Rightarrow> bool" where
  "pool_inv s \<longleftrightarrow>
     pool_wf (ps_pool s) \<and> list_all (g_ok (ps_pool s)) (ps_goroutines s) \<and>
     ps_sent s = ps_taken s @ p_channel (ps_pool s) \<and>
     p_startedWorkers (ps_pool s) \<le> ps_peak s \<and> p_totWorkers (ps_pool s) \<le> ps_peak s"

lemma list_all_replace_at: "list_all P xs \<Longrightarrow> list_all P ys \<Longrightarrow> list_all P (replace_at i ys xs)"
  by (auto simp: replace_at_def list_all_iff dest: in_set_takeD in_set_dropD)

lemma pool_inv_step: "pool_step s s' \<Longrightarrow> pool_inv s \<Longrightarrow> pool_inv s'"
proof (induction rule: pool_step.induct)
  case (call s g)
  then show ?case by (auto simp: pool_inv_def is_entry_def split: goroutine.splits)
next
  case (run s i p gs)
  let ?g = "ps_goroutines s ! i"
  have ok: "g_ok (ps_pool s) ?g" and wf: "pool_wf (ps_pool s)" using run by (auto simp: pool_inv_def list_all_length)
  have "g_ok p g" if "g_ok (ps_pool s) g" for g
    using that g_step_frame(1) [OF run.hyps(3)] g_step_frame(2) [OF run.hyps(3)] by (rule g_ok_mono)
  then have "list_all (g_ok p) (ps_goroutines s)" using run.prems by (simp add: pool_inv_def list_all_iff)
  then have "list_all (g_ok p) (replace_at i gs (ps_goroutines s))"
    using g_step_ok [OF run.hyps(3) wf ok] by (rule list_all_replace_at)
  then show ?case using run.prems g_step_wf [OF run.hyps(3) wf ok] g_step_frame(3,4) [OF run.hyps(3)]
    by (auto simp: pool_inv_def)
next
  case (crash s i)
  then show ?case by (simp add: pool_inv_def)
next
  case (work s i p)
  note frame = worker_step_frame [OF work.hyps(2)]
  have "g_ok p g" if "g_ok (ps_pool s) g" for g using that by (rule g_ok_mono) (simp_all add: frame(1,2))
  then have "list_all (g_ok p) (ps_goroutines s)" using work.prems by (simp add: pool_inv_def list_all_iff)
  moreover have "ps_sent s = (ps_taken s @ take (length (p_channel (ps_pool s)) - length (p_channel p)) (p_channel (ps_pool s)))
      @ p_channel p"
    using work.prems frame(4) by (simp add: pool_inv_def)
  ultimately show ?case using work.prems worker_step_wf [OF work.hyps(2)] by (simp add: pool_inv_def frame(1-3))
qed

lemma pool_inv_init: "pool_inv (pool_init mp ws)"
  by (auto simp: pool_inv_def pool_wf_def pool_init_def NewAsyncPool_def working_def getInRangeInt_def Let_def pool_status_defs)

lemma pool_steps_inv: "pool_step\<^sup>*\<^sup>* s s' \<Longrightarrow> pool_inv s \<Longrightarrow> pool_inv s'"
  by (induction rule: rtranclp_induct) (auto intro: pool_inv_step)

lemma pool_reach_inv: "pool_reach mp ws s \<Longrightarrow> pool_inv s"
  unfolding pool_reach_def by (rule pool_steps_inv [OF _ pool_inv_init])

lemma started_mono: "pool_step s s' \<Longrightarrow> p_startedWorkers (ps_pool s) \<le> p_startedWorkers (ps_pool s')"
proof (induction rule: pool_step.induct)
  case (run s i p gs)
  then show ?case using g_step_frame(1) by simp
next
  case (work s i p)
  then show ?case using worker_step_frame(1) [OF work.hyps(2)] by simp
qed simp_all

lemma started_steps_mono: "pool_step\<^sup>*\<^sup>* s s' \<Longrightarrow> p_startedWorkers (ps_pool s) \<le> p_startedWorkers (ps_pool s')"
  by (induction rule: rtranclp_induct) (auto dest: started_mono)

text \<open>The goroutines at the given positions move, one after the other.\<close>

fun moves :: "nat list \<Rightarrow> 't pool_state \<Rightarrow> 't pool_state" where
  "moves [] s = s"
| "moves (i # is) s =
     (if \<not> ps_crashed s \<and> i < length (ps_goroutines s)
      then (case g_step (ps_goroutines s ! i) (ps_pool s) of
          Some (Ret (p, gs)) \<Rightarrow> moves is (s\<lparr>ps_pool := p, ps_goroutines := replace_at i gs (ps_goroutines s),
            ps_sent := ps_sent s @ sent_by (ps_goroutines s ! i), ps_peak := max (ps_peak s) (p_totWorkers p)\<rparr>)
        | _ \<Rightarrow> s)
      else s)"

lemma moves_steps: "pool_step\<^sup>*\<^sup>* s (moves is s)"
proof (induction "is" s rule: moves.induct)
  case (2 i "is" s)
  show ?case
  proof (cases "\<not> ps_crashed s \<and> i < length (ps_goroutines s)")
    case True
    show ?thesis
    proof (cases "g_step (ps_goroutines s ! i) (ps_pool s)")
      case (Some r)
      then show ?thesis
        using True "2.IH" by (cases r) (auto intro: converse_rtranclp_into_rtranclp run)
    qed (use True in simp)
  qed auto
qed simp

lemma called_reach: "is_entry g \<Longrightarrow> pool_reach mp ws (moves is ((pool_init mp ws)\<lparr>ps_goroutines := [g]\<rparr>))"
  unfolding pool_reach_def
  by (rule converse_rtranclp_into_rtranclp [OF _ moves_steps]) (use call [of "pool_init mp ws" g] in \<open>simp add: pool_init_def Let_def\<close>)

text \<open>A worker that has started can move whenever a task waits in the channel.\<close>

lemma worker_can_move:
  assumes "pool_wf p" and "int i < p_startedWorkers p" and "p_channel p \<noteq> []"
  shows "\<exists>p'. worker_step i p p'"
proof (cases "p_workers p i")
  case WLoop
  then show ?thesis using assms(3) ws_take [of p i] by (auto simp: select_ready_def)
next
  case (WGot t)
  then have "worker_step i p (worker_begin i t p)" by (rule ws_begin)
  then show ?thesis by (rule exI)
next
  case (WTask t)
  then have "worker_step i p (worker_finish i p)" by (rule ws_finish)
  then show ?thesis by (rule exI)
qed (use assms in \<open>auto simp: pool_wf_def\<close>)

section \<open>Properties\<close>



text \<open>
  A pool whose first worker has started cannot be stopped: no worker ever leaves its loop, so the wait of \<open>Stop\<close>
  does not end, nor that of \<open>initWorker\<close>, whatever happens afterwards.
\<close>

theorem pool_Stop_never_returns:
  assumes "pool_reach mp ws s" and "p_startedWorkers (ps_pool s) > 0" and "pool_step\<^sup>*\<^sup>* s s'"
  shows "g_step StopWait (ps_pool s') = None \<and> g_step InitWait (ps_pool s') = None"
proof -
  have "pool_inv s'" using pool_steps_inv [OF assms(3) pool_reach_inv [OF assms(1)]] .
  then show ?thesis using started_steps_mono [OF assms(3)] assms(2) by (simp add: pool_inv_def pool_wf_def)
qed

theorem pool_Stop_never_returns_witness:
  "let s = moves (replicate 9 0) ((pool_init 0 0)\<lparr>ps_goroutines := [SchedStatus (7::nat)]\<rparr>);
       s' = moves [1, 1, 1, 1] (s\<lparr>ps_goroutines := ps_goroutines s @ [StopCheck]\<rparr>)
   in ps_goroutines s' = [AddStatus None, StopWait] \<and> g_step StopWait (ps_pool s') = None"
proof -
  let ?s = "moves (replicate 9 0) ((pool_init 0 0)\<lparr>ps_goroutines := [SchedStatus (7::nat)]\<rparr>)"
  let ?t = "?s\<lparr>ps_goroutines := ps_goroutines ?s @ [StopCheck]\<rparr>"
  note eval = eval_nat_numeral pool_init_def NewAsyncPool_def getInRangeInt_def Let_def replace_at_def pool_status_defs
    pool_setStatus_def addWorker_def HasStarted_def
  have "pool_reach 0 0 ?s" by (rule called_reach) (simp add: is_entry_def)
  moreover have "p_startedWorkers (ps_pool ?s) > 0" by (simp add: eval)
  moreover have "pool_step\<^sup>*\<^sup>* ?s (moves [1, 1, 1, 1] ?t)"
    by (rule converse_rtranclp_into_rtranclp [OF call moves_steps]) (simp_all add: eval is_entry_def)
  ultimately have "g_step StopWait (ps_pool (moves [1, 1, 1, 1] ?t)) = None"
    using pool_Stop_never_returns by blast
  moreover have "ps_goroutines (moves [1, 1, 1, 1] ?t) = [AddStatus None, StopWait]" by (simp add: eval)
  ultimately show ?thesis unfolding Let_def by blast
qed

text \<open>
  Run without interruption, the steps of a caller of \<open>schedule\<close> and of \<open>Stop\<close> are the calls: the pool they leave,
  the goroutine they start, the task they are about to send, the panic of a second \<open>Stop\<close>.
\<close>

theorem goroutine_steps_are_the_calls:
  "run_alone 9 (SchedStatus t) p =
     (case pool_schedule p of (p', started, ok) \<Rightarrow> Ret (p', (if ok then [Sending t] else []) @ (if started then [AddStatus None] else [])))"
  "run_alone 5 StopCheck p =
     (case pool_Stop p of Ret p' \<Rightarrow> Ret (p', if HasStarted p then [StopWait] else []) | Panic \<Rightarrow> Panic)"
  by (simp_all add: eval_nat_numeral pool_schedule_def pool_start_def NumBusyWorkers_def tryAddAndRunWorker_def Let_def
      pool_Stop_def HasStarted_def pool_setStatus_def pool_status_defs)

end
