(* ===== verification/Timers.thy ===== *)
theory Timers
  imports Prelude
begin

text \<open>
  \<open>src/common/ctimer/CTimer.go\<close> and \<open>src/hub_common/health_check/HealthCheckHandler.go\<close>.

  The fields of a timer are shared by its callers and its goroutines without a lock. Here a call of a method is one
  step, and a goroutine moves from one wait to the next: the test on entry with the three stores before the sleep,
  the tests after the sleep with the store of the status, and the end of the job. The clock is a number that only
  grows; a sleep ends at its time or later. The job is the list of the moments at which it was started.
\<close>

section \<open>CTimer.go\<close>

definition StatusIdle :: nat where [simp]: "StatusIdle = 0"
definition StatusWaiting :: nat where [simp]: "StatusWaiting = 1"
definition StatusReset :: nat where [simp]: "StatusReset = 2"
definition StatusCancelled :: nat where [simp]: "StatusCancelled = 3"
definition StatusRunning :: nat where [simp]: "StatusRunning = 4"
definition StatusRepeatWaiting :: nat where [simp]: "StatusRepeatWaiting = 5"

record CTimer =
  ct_startTime :: int
  ct_resetInterval :: int
  ct_interval :: int
  ct_status :: nat

definition NewCTimer :: "int \<Rightarrow> CTimer" where
  "NewCTimer d = \<lparr>ct_startTime = 0, ct_resetInterval = 0, ct_interval = d, ct_status = StatusIdle\<rparr>"

text \<open>
  A goroutine of the timer: whether it is the loop of \<open>repeatWaitAndRun\<close>, and where it is. \<open>AtEnter d\<close> is before
  \<open>waitAndRun(d)\<close>, \<open>Asleep w\<close> in the sleep that ends at \<open>w\<close>.
\<close>

datatype ct_pc = AtLoop | AtEnter int | Asleep int | InJob

type_synonym ct_goroutine = "bool \<times> ct_pc"

definition timer_Start :: "CTimer \<Rightarrow> ct_goroutine list" where
  "timer_Start t = (if ct_status t = StatusIdle then [(False, AtEnter (ct_interval t))] else [])"

definition timer_Repeat :: "CTimer \<Rightarrow> ct_goroutine list" where
  "timer_Repeat t = (if ct_status t = StatusIdle then [(True, AtLoop)] else [])"

definition timer_Reset :: "int \<Rightarrow> CTimer \<Rightarrow> CTimer \<times> ct_goroutine list" where
  "timer_Reset now t =
     (if ct_status t = StatusWaiting \<or> ct_status t = StatusReset
      then (t\<lparr>ct_status := StatusReset, ct_startTime := now,
              ct_resetInterval := ct_resetInterval t + (now - ct_startTime t)\<rparr>, [])
      else (t, timer_Start t))"

definition timer_Cancel :: "CTimer \<Rightarrow> CTimer" where
  "timer_Cancel t =
     (if ct_status t = StatusWaiting \<or> ct_status t = StatusRepeatWaiting \<or> ct_status t = StatusRunning
      then t\<lparr>ct_status := StatusCancelled\<rparr> else t)"

text \<open>What follows the return of \<open>waitAndRun\<close>.\<close>

definition wait_returns :: "bool \<Rightarrow> ct_goroutine list" where
  "wait_returns rep = (if rep then [(True, AtLoop)] else [])"

text \<open>
  The next step of a goroutine at time \<open>now\<close>; \<open>None\<close> while it sleeps. The last component is whether the job starts.
\<close>

fun waitAndRun_step :: "int \<Rightarrow> ct_goroutine \<Rightarrow> CTimer \<Rightarrow> (CTimer \<times> ct_goroutine list \<times> bool) option" where
  "waitAndRun_step now (rep, AtLoop) t =
     (if ct_status t = StatusCancelled then Some (t, [], False) else Some (t, [(rep, AtEnter (ct_interval t))], False))"
| "waitAndRun_step now (rep, AtEnter d) t =
     (if ct_status t = StatusCancelled then Some (t, wait_returns rep, False)
      else Some (t\<lparr>ct_resetInterval := 0, ct_startTime := now, ct_status := StatusWaiting\<rparr>, [(rep, Asleep (now + d))], False))"
| "waitAndRun_step now (rep, Asleep w) t =
     (if now < w then None
      else if ct_status t = StatusCancelled then Some (t\<lparr>ct_status := StatusIdle\<rparr>, wait_returns rep, False)
      else if ct_status t = StatusReset \<and> ct_resetInterval t > 0 then Some (t, [(rep, AtEnter (ct_resetInterval t))], False)
      else Some (t\<lparr>ct_status := StatusRunning\<rparr>, [(rep, InJob)], True))"
| "waitAndRun_step now (rep, InJob) t = Some (t\<lparr>ct_status := StatusIdle\<rparr>, wait_returns rep, False)"

record timer_state =
  ts_timer :: CTimer
  ts_now :: int
  ts_goroutines :: "ct_goroutine list"
  ts_fired :: "int list"

datatype timer_action = DoStart | DoRepeat | DoReset | DoCancel | Tick int | Go nat

text \<open>One action; \<open>None\<close> where it cannot be taken.\<close>

fun timer_do :: "timer_action \<Rightarrow> timer_state \<Rightarrow> timer_state option" where
  "timer_do DoStart s = Some (s\<lparr>ts_goroutines := ts_goroutines s @ timer_Start (ts_timer s)\<rparr>)"
| "timer_do DoRepeat s = Some (s\<lparr>ts_goroutines := ts_goroutines s @ timer_Repeat (ts_timer s)\<rparr>)"
| "timer_do DoReset s =
     (let (t, gs) = timer_Reset (ts_now s) (ts_timer s) in Some (s\<lparr>ts_timer := t, ts_goroutines := ts_goroutines s @ gs\<rparr>))"
| "timer_do DoCancel s = Some (s\<lparr>ts_timer := timer_Cancel (ts_timer s)\<rparr>)"
| "timer_do (Tick d) s = (if d < 0 then None else Some (s\<lparr>ts_now := ts_now s + d\<rparr>))"
| "timer_do (Go i) s =
     (if i < length (ts_goroutines s)
      then (case waitAndRun_step (ts_now s) (ts_goroutines s ! i) (ts_timer s) of
          None \<Rightarrow> None
        | Some (t, gs, fired) \<Rightarrow>
            Some (s\<lparr>ts_timer := t, ts_goroutines := take i (ts_goroutines s) @ gs @ drop (Suc i) (ts_goroutines s),
              ts_fired := ts_fired s @ (if fired then [ts_now s] else [])\<rparr>))
      else None)"

fun timer_run :: "timer_action list \<Rightarrow> timer_state \<Rightarrow> timer_state option" where
  "timer_run [] s = Some s"
| "timer_run (a # as) s = (case timer_do a s of None \<Rightarrow> None | Some s' \<Rightarrow> timer_run as s')"

definition timer_init :: "int \<Rightarrow> int \<Rightarrow> timer_state" where
  "timer_init d now = \<lparr>ts_timer = NewCTimer d, ts_now = now, ts_goroutines = [], ts_fired = []\<rparr>"

text \<open>Actions other than a further call of \<open>Start\<close>, \<open>Repeat\<close> or \<open>Reset\<close>.\<close>

definition quiet :: "timer_action \<Rightarrow> bool" where
  "quiet a = (case a of DoCancel \<Rightarrow> True | Tick _ \<Rightarrow> True | Go _ \<Rightarrow> True | _ \<Rightarrow> False)"

section \<open>HealthCheckHandler.go\<close>

text \<open>
  The handler: its timer once \<open>StartHealthCheck\<close> has made one, and whether the last check failed. The callbacks that
  are set are flags; the executor's result is an argument of \<open>doHealthCheck\<close>.
\<close>

definition MinimalHealthCheckInterval :: int where "MinimalHealthCheckInterval = 5"
definition MaximumHealthCheckInterval :: int where "MaximumHealthCheckInterval = 900"
definition DefaultHealthCheckInterval :: int where "DefaultHealthCheckInterval = 300"

record HealthCheckHandler =
  hc_timer :: "timer_state option"
  hc_onRetry :: bool
  hc_hasFailed :: bool
  hc_hasRestored :: bool
  hc_interval :: int

datatype health_callback = CbFailed | CbRestored

definition NewHealthCheckHandler :: "int \<Rightarrow> bool \<Rightarrow> bool \<Rightarrow> HealthCheckHandler" where
  "NewHealthCheckHandler d hasFailed hasRestored =
     \<lparr>hc_timer = None, hc_onRetry = False, hc_hasFailed = hasFailed, hc_hasRestored = hasRestored, hc_interval = d\<rparr>"

definition timer_call :: "timer_action \<Rightarrow> timer_state \<Rightarrow> timer_state" where
  "timer_call a s = (case timer_do a s of None \<Rightarrow> s | Some s' \<Rightarrow> s')"

definition StartHealthCheck :: "int \<Rightarrow> HealthCheckHandler \<Rightarrow> HealthCheckHandler" where
  "StartHealthCheck now h =
     (let s = (case hc_timer h of None \<Rightarrow> timer_init (hc_interval h) now | Some s \<Rightarrow> s\<lparr>ts_now := now\<rparr>)
      in h\<lparr>hc_timer := Some (timer_call DoRepeat s)\<rparr>)"

definition StopHealthCheck :: "HealthCheckHandler \<Rightarrow> HealthCheckHandler" where
  "StopHealthCheck h = h\<lparr>hc_timer := map_option (timer_call DoCancel) (hc_timer h)\<rparr>"

definition RestartHealthCheck :: "int \<Rightarrow> HealthCheckHandler \<Rightarrow> HealthCheckHandler" where
  "RestartHealthCheck now h = StartHealthCheck now (StopHealthCheck h)"

definition doHealthCheck :: "bool \<Rightarrow> HealthCheckHandler \<Rightarrow> HealthCheckHandler \<times> health_callback list" where
  "doHealthCheck failed h =
     (if failed then (h\<lparr>hc_onRetry := True\<rparr>, if hc_hasFailed h then [CbFailed] else [])
      else if hc_onRetry h then (h\<lparr>hc_onRetry := False\<rparr>, if hc_hasRestored h then [CbRestored] else [])
      else (h, []))"

definition UpdateHealthCheckInterval :: "int \<Rightarrow> int \<Rightarrow> HealthCheckHandler \<Rightarrow> HealthCheckHandler" where
  "UpdateHealthCheckInterval now d h =
     (let d = (if d < MinimalHealthCheckInterval then MinimalHealthCheckInterval
               else if d > MaximumHealthCheckInterval then MaximumHealthCheckInterval else d)
      in RestartHealthCheck now (h\<lparr>hc_interval := d\<rparr>))"

definition IsJobScheduled :: "HealthCheckHandler \<Rightarrow> bool" where
  "IsJobScheduled h \<longleftrightarrow> hc_timer h \<noteq> None"

definition SetHealthCheckExecutor :: "int \<Rightarrow> bool \<Rightarrow> HealthCheckHandler \<Rightarrow> HealthCheckHandler" where
  "SetHealthCheckExecutor now nonNil h =
     (if nonNil
      then (let h = (if IsJobScheduled h then StopHealthCheck h else h)
            in if IsJobScheduled h then StartHealthCheck now h else h)
      else h)"

text \<open>The callbacks of a sequence of checks.\<close>

fun checks :: "bool list \<Rightarrow> HealthCheckHandler \<Rightarrow> health_callback list list" where
  "checks [] h = []"
| "checks (f # fs) h = (let (h', cbs) = doHealthCheck f h in cbs # checks fs h')"

section \<open>Runs of a timer\<close>

lemma timer_run_append: "timer_run (as @ bs) s = (case timer_run as s of None \<Rightarrow> None | Some s' \<Rightarrow> timer_run bs s')"
  by (induction as arbitrary: s) (auto split: option.splits)

text \<open>An invariant that the quiet actions keep holds after a quiet run.\<close>

definition kept :: "(timer_state \<Rightarrow> bool) \<Rightarrow> bool" where
  "kept P \<longleftrightarrow> (\<forall>a s s'. quiet a \<longrightarrow> P s \<longrightarrow> timer_do a s = Some s' \<longrightarrow> P s')"

lemma quiet_run_inv:
  assumes "kept P" and "list_all quiet as" and "P s" and "timer_run as s = Some s'"
  shows "P s'"
  using assms(2-4)
proof (induction as arbitrary: s)
  case (Cons a as)
  then obtain s1 where s1: "timer_do a s = Some s1" "timer_run as s1 = Some s'" by (auto split: option.splits)
  then have "P s1" using assms(1) Cons.prems by (auto simp: kept_def)
  then show ?case using Cons s1 by simp
qed simp

lemma quiet_cases:
  assumes "quiet a"
  obtains "a = DoCancel" | d where "a = Tick d" | i where "a = Go i"
  using assms by (cases a) (auto simp: quiet_def)

text \<open>The states of a timer on which \<open>Repeat\<close> was called once: one goroutine, the loop.\<close>

definition repeating :: "timer_state \<Rightarrow> bool" where
  "repeating s \<longleftrightarrow> (\<exists>pc. ts_goroutines s = [(True, pc)] \<and>
     (case pc of
        AtLoop \<Rightarrow> ct_status (ts_timer s) = StatusIdle
      | AtEnter d \<Rightarrow> ct_status (ts_timer s) = StatusIdle
      | Asleep w \<Rightarrow> ct_status (ts_timer s) \<in> {StatusWaiting, StatusCancelled}
      | InJob \<Rightarrow> ct_status (ts_timer s) \<in> {StatusRunning, StatusCancelled}))"

lemma repeating_do:
  assumes "quiet a" and "repeating s" and "timer_do a s = Some s'"
  shows "repeating s'"
  using assms(1)
proof (cases rule: quiet_cases)
  case 1
  then show ?thesis using assms by (auto simp: repeating_def timer_Cancel_def split: ct_pc.splits)
next
  case (2 d)
  then show ?thesis using assms by (auto simp: repeating_def split: ct_pc.splits if_splits)
next
  case (3 i)
  obtain pc where pc: "ts_goroutines s = [(True, pc)]" using assms(2) by (auto simp: repeating_def)
  then have "i = 0" using assms(3) 3 by (auto split: if_splits)
  then show ?thesis using assms(2,3) 3 pc
    by (cases pc) (auto simp: repeating_def wait_returns_def split: if_splits)
qed

lemma repeating_kept: "kept repeating"
  using repeating_do by (auto simp: kept_def)

text \<open>Such a timer can start its job once more.\<close>

lemma go_first:
  assumes "ts_goroutines s = [g]" and "waitAndRun_step (ts_now s) g (ts_timer s) = Some (t, gs, fired)"
  shows "timer_do (Go 0) s = Some (s\<lparr>ts_timer := t, ts_goroutines := gs, ts_fired := ts_fired s @ (if fired then [ts_now s] else [])\<rparr>)"
  using assms by simp

definition fires_again :: "timer_state \<Rightarrow> bool" where
  "fires_again s \<longleftrightarrow> (\<exists>as s'. list_all quiet as \<and> timer_run as s = Some s' \<and> length (ts_fired s') > length (ts_fired s))"

lemma fires_again_step:
  assumes "quiet a" and "timer_do a s = Some s'" and "length (ts_fired s') \<ge> length (ts_fired s)" and "fires_again s'"
  shows "fires_again s"
proof -
  obtain as s'' where "list_all quiet as" "timer_run as s' = Some s''" "length (ts_fired s'') > length (ts_fired s')"
    using assms(4) by (auto simp: fires_again_def)
  then have "list_all quiet (a # as) \<and> timer_run (a # as) s = Some s'' \<and> length (ts_fired s'') > length (ts_fired s)"
    using assms(1-3) by simp
  then show ?thesis unfolding fires_again_def by blast
qed

lemma fires_asleep:
  assumes "ts_goroutines s = [(rep, Asleep w)]" and "ct_status (ts_timer s) = StatusWaiting"
  shows "fires_again s"
  unfolding fires_again_def
  by (rule exI [of _ "[Tick (max 0 (w - ts_now s)), Go 0]"]) (use assms in \<open>simp add: quiet_def\<close>)

lemma fires_enter:
  assumes "ts_goroutines s = [(rep, AtEnter d)]" and "ct_status (ts_timer s) = StatusIdle"
  shows "fires_again s"
  by (rule fires_again_step [of "Go 0"]) (use assms in \<open>auto simp: quiet_def intro!: fires_asleep\<close>)

lemma fires_loop:
  assumes "ts_goroutines s = [(True, AtLoop)]" and "ct_status (ts_timer s) = StatusIdle"
  shows "fires_again s"
  by (rule fires_again_step [of "Go 0"]) (use assms in \<open>auto simp: quiet_def intro!: fires_enter\<close>)

lemma repeating_fires_again:
  assumes "repeating s"
  shows "fires_again s"
proof -
  obtain pc where pc: "ts_goroutines s = [(True, pc)]" using assms by (auto simp: repeating_def)
  show ?thesis
  proof (cases pc)
    case (Asleep w)
    show ?thesis
    proof (cases "ct_status (ts_timer s) = StatusWaiting")
      case False
      let ?s = "s\<lparr>ts_now := ts_now s + max 0 (w - ts_now s)\<rparr>"
      have "fires_again ?s"
        by (rule fires_again_step [of "Go 0"])
          (use assms pc Asleep False in \<open>auto simp: quiet_def repeating_def wait_returns_def intro!: fires_loop\<close>)
      then show ?thesis by (rule fires_again_step [of "Tick (max 0 (w - ts_now s))", rotated 3]) (simp_all add: quiet_def)
    qed (use pc Asleep in \<open>auto intro: fires_asleep\<close>)
  next
    case InJob
    show ?thesis
      by (rule fires_again_step [of "Go 0"]) (use assms pc InJob in \<open>auto simp: quiet_def repeating_def wait_returns_def intro!: fires_loop\<close>)
  qed (use assms pc in \<open>auto simp: repeating_def intro: fires_loop fires_enter\<close>)
qed

text \<open>The states of a timer on which \<open>Start\<close> was called once, which may not run before \<open>e\<close>.\<close>

fun one_shot_at :: "int \<Rightarrow> timer_state \<Rightarrow> ct_pc \<Rightarrow> bool" where
  "one_shot_at e s AtLoop \<longleftrightarrow> False"
| "one_shot_at e s (AtEnter d) \<longleftrightarrow> ts_now s + d \<ge> e \<and> ts_fired s = []"
| "one_shot_at e s (Asleep w) \<longleftrightarrow> ts_fired s = [] \<and>
     (ct_status (ts_timer s) \<in> {StatusWaiting, StatusCancelled} \<and> w \<ge> e \<or>
      ct_status (ts_timer s) = StatusReset \<and> ct_resetInterval (ts_timer s) > 0 \<and> w + ct_resetInterval (ts_timer s) \<ge> e)"
| "one_shot_at e s InJob \<longleftrightarrow> True"

definition one_shot :: "int \<Rightarrow> timer_state \<Rightarrow> bool" where
  "one_shot e s \<longleftrightarrow> length (ts_fired s) \<le> 1 \<and> (\<forall>t \<in> set (ts_fired s). t \<ge> e) \<and>
     (ts_goroutines s = [] \<or> (\<exists>pc. ts_goroutines s = [(False, pc)] \<and> one_shot_at e s pc))"

lemma one_shot_at_Cancel: "one_shot_at e s pc \<Longrightarrow> one_shot_at e (s\<lparr>ts_timer := timer_Cancel (ts_timer s)\<rparr>) pc"
  by (cases pc) (auto simp: timer_Cancel_def)

lemma one_shot_at_Tick: "one_shot_at e s pc \<Longrightarrow> \<not> d < 0 \<Longrightarrow> one_shot_at e (s\<lparr>ts_now := ts_now s + d\<rparr>) pc"
  by (cases pc) auto

lemma one_shot_do:
  assumes "quiet a" and "one_shot e s" and "timer_do a s = Some s'"
  shows "one_shot e s'"
  using assms(1)
proof (cases rule: quiet_cases)
  case 1
  then show ?thesis using assms by (auto simp: one_shot_def intro: one_shot_at_Cancel)
next
  case (2 d)
  then show ?thesis using assms by (auto simp: one_shot_def intro: one_shot_at_Tick split: if_splits)
next
  case (3 i)
  then obtain pc where pc: "ts_goroutines s = [(False, pc)]" using assms(2,3) by (auto simp: one_shot_def split: if_splits)
  then have "i = 0" using assms(3) 3 by (auto split: if_splits)
  then show ?thesis using assms(2,3) 3 pc
    by (cases pc) (auto simp: one_shot_def wait_returns_def split: if_splits)
qed

lemma one_shot_kept: "kept (one_shot e)"
  using one_shot_do by (auto simp: kept_def)

text \<open>Without a call of \<open>Reset\<close> a timer is not reset.\<close>

lemma not_reset_do:
  assumes "quiet a" and "ct_status (ts_timer s) \<noteq> StatusReset" and "timer_do a s = Some s'"
  shows "ct_status (ts_timer s') \<noteq> StatusReset"
  using assms(1)
proof (cases rule: quiet_cases)
  case (3 i)
  obtain rep pc where "ts_goroutines s ! i = (rep, pc)" by fastforce
  then show ?thesis using 3 assms(2,3) by (cases pc) (auto split: if_splits)
qed (use assms in \<open>auto simp: timer_Cancel_def split: if_splits\<close>)

lemma not_reset_kept: "kept (\<lambda>s. ct_status (ts_timer s) \<noteq> StatusReset)"
  using not_reset_do by (auto simp: kept_def)

text \<open>Resets in the first sleep add up.\<close>

definition resets :: "int list \<Rightarrow> timer_action list" where
  "resets es = concat (map (\<lambda>e. [Tick e, DoReset]) es)"

lemma run_resets:
  assumes "list_all (\<lambda>e. e > 0) es" and "ct_status (ts_timer s) \<in> {StatusWaiting, StatusReset}"
    and "ct_startTime (ts_timer s) = ts_now s"
  shows "timer_run (resets es) s = Some (s\<lparr>ts_now := ts_now s + sum_list es,
    ts_timer := (ts_timer s)\<lparr>ct_status := (if es = [] then ct_status (ts_timer s) else StatusReset),
      ct_startTime := ts_now s + sum_list es, ct_resetInterval := ct_resetInterval (ts_timer s) + sum_list es\<rparr>\<rparr>)"
  using assms
proof (induction es arbitrary: s)
  case Nil
  then show ?case by (cases s; cases "ts_timer s") (simp add: resets_def)
next
  case (Cons e es)
  let ?s = "s\<lparr>ts_now := ts_now s + e, ts_timer := (ts_timer s)\<lparr>ct_status := StatusReset, ct_startTime := ts_now s + e,
    ct_resetInterval := ct_resetInterval (ts_timer s) + e\<rparr>\<rparr>"
  have "timer_run (resets (e # es)) s = timer_run (resets es) ?s"
    using Cons.prems by (auto simp: resets_def timer_Reset_def Let_def)
  also have "\<dots> = Some (?s\<lparr>ts_now := ts_now ?s + sum_list es,
    ts_timer := (ts_timer ?s)\<lparr>ct_status := (if es = [] then ct_status (ts_timer ?s) else StatusReset),
      ct_startTime := ts_now ?s + sum_list es, ct_resetInterval := ct_resetInterval (ts_timer ?s) + sum_list es\<rparr>\<rparr>)"
    by (rule Cons.IH) (use Cons.prems in auto)
  finally show ?case by (simp add: ac_simps)
qed

lemma sum_pos: "list_all (\<lambda>e. e > 0) es \<Longrightarrow> es \<noteq> [] \<Longrightarrow> sum_list es > (0 :: int)"
proof (induction es)
  case (Cons e es)
  then show ?case by (cases "es = []") auto
qed simp

text \<open>After a start and resets in the first sleep.\<close>

definition armed :: "int \<Rightarrow> int \<Rightarrow> int list \<Rightarrow> timer_state" where
  "armed d now es = \<lparr>ts_timer = \<lparr>ct_startTime = now + sum_list es, ct_resetInterval = sum_list es, ct_interval = d,
       ct_status = (if es = [] then StatusWaiting else StatusReset)\<rparr>,
     ts_now = now + sum_list es, ts_goroutines = [(False, Asleep (now + d))], ts_fired = []\<rparr>"

lemma run_armed:
  assumes "list_all (\<lambda>e. e > 0) es"
  shows "timer_run (DoStart # Go 0 # resets es) (timer_init d now) = Some (armed d now es)"
  using assms by (simp add: timer_init_def NewCTimer_def timer_Start_def run_resets armed_def)

lemma one_shot_armed:
  assumes "list_all (\<lambda>e. e > 0) es"
  shows "one_shot (now + sum_list es + d) (armed d now es)"
  using assms sum_pos [OF assms] by (auto simp: one_shot_def armed_def)

lemma armed_fires:
  assumes "list_all (\<lambda>e. e > 0) es" and "es \<noteq> []" and "sum_list es \<le> d"
  shows "\<exists>s. timer_run [Tick (d - sum_list es), Go 0, Go 0, Tick (sum_list es), Go 0] (armed d now es) = Some s \<and>
    ts_fired s = [now + sum_list es + d]"
  using assms sum_pos [OF assms(1,2)] by (simp add: armed_def)

text \<open>A timer cancelled in its sleep.\<close>

definition never_fires :: "timer_state \<Rightarrow> bool" where
  "never_fires s \<longleftrightarrow> ts_fired s = [] \<and>
     (ts_goroutines s = [] \<or> (\<exists>w. ts_goroutines s = [(False, Asleep w)] \<and> ct_status (ts_timer s) = StatusCancelled))"

lemma never_fires_do:
  assumes "quiet a" and "never_fires s" and "timer_do a s = Some s'"
  shows "never_fires s'"
  using assms(1)
proof (cases rule: quiet_cases)
  case (3 i)
  then have "i = 0" using assms(2,3) by (auto simp: never_fires_def split: if_splits)
  then show ?thesis using assms(2,3) 3 by (auto simp: never_fires_def wait_returns_def split: if_splits)
qed (use assms in \<open>auto simp: never_fires_def timer_Cancel_def split: if_splits\<close>)

lemma never_fires_kept: "kept never_fires"
  using never_fires_do by (auto simp: kept_def)

section \<open>Properties\<close>

text \<open>
  A timer started at \<open>now\<close> and reset any number of times during its first sleep runs its job at most once, whatever
  follows short of further starts and resets, and never before a full interval has passed since the last reset; when the
  sleeps end on time it runs the job exactly then.
\<close>

theorem timer_fires_after_last_reset:
  assumes "list_all (\<lambda>e. e > 0) es" and "list_all quiet as"
    and "timer_run ((DoStart # Go 0 # resets es) @ as) (timer_init d now) = Some s"
  shows "length (ts_fired s) \<le> 1 \<and> (\<forall>t \<in> set (ts_fired s). t \<ge> now + sum_list es + d) \<and>
    (es \<noteq> [] \<and> sum_list es \<le> d \<longrightarrow>
      (\<exists>bs s'. timer_run ((DoStart # Go 0 # resets es) @ bs) (timer_init d now) = Some s' \<and> ts_fired s' = [now + sum_list es + d]))"
proof -
  note run = timer_run_append [of "DoStart # Go 0 # resets es"] run_armed [OF assms(1)]
  have "timer_run as (armed d now es) = Some s" using assms(3) unfolding run by simp
  then have "one_shot (now + sum_list es + d) s"
    by (rule quiet_run_inv [OF one_shot_kept assms(2) one_shot_armed [OF assms(1)]])
  moreover have "\<exists>bs s'. timer_run ((DoStart # Go 0 # resets es) @ bs) (timer_init d now) = Some s' \<and>
      ts_fired s' = [now + sum_list es + d]" if "es \<noteq> []" "sum_list es \<le> d"
    unfolding run option.case using armed_fires [OF assms(1) that] by blast
  ultimately show ?thesis by (simp add: one_shot_def)
qed

theorem timer_fires_after_last_reset_witness:
  "\<exists>s. timer_run ((DoStart # Go 0 # resets [3, 4]) @ [Tick 3, Go 0, Go 0, DoCancel, Tick 7]) (timer_init 10 100) = Some s \<and>
    length (ts_fired s) \<le> 1 \<and> (\<exists>bs s'. timer_run ((DoStart # Go 0 # resets [3, 4]) @ bs) (timer_init 10 100) = Some s' \<and> ts_fired s' = [117])"
proof -
  let ?as = "[Tick 3, Go 0, Go 0, DoCancel, Tick 7]"
  obtain s where s: "timer_run ((DoStart # Go 0 # resets [3, 4]) @ ?as) (timer_init 10 100) = Some s"
    by (simp add: resets_def timer_init_def NewCTimer_def timer_Start_def timer_Reset_def)
  moreover have "list_all quiet ?as" by (simp add: quiet_def)
  ultimately have "length (ts_fired s) \<le> 1 \<and> (\<exists>bs s'. timer_run ((DoStart # Go 0 # resets [3, 4]) @ bs) (timer_init 10 100) = Some s' \<and>
      ts_fired s' = [117])"
    using timer_fires_after_last_reset [of "[3, 4]" ?as 10 100 s] by simp
  with s show ?thesis by blast
qed

text \<open>
  A timer cancelled during its first sleep never runs its job.
\<close>

theorem cancelled_timer_never_fires:
  assumes "list_all quiet as" and "list_all quiet bs"
    and "timer_run (DoStart # Go 0 # as) (timer_init d now) = Some s" and "ts_goroutines s = [(False, Asleep w)]"
    and "timer_run (DoCancel # bs) s = Some s'"
  shows "ts_fired s' = []"
proof -
  have "timer_run as (armed d now []) = Some s"
    using assms(3) timer_run_append [of "DoStart # Go 0 # resets []" as] run_armed [of "[]" d now] by (simp add: resets_def)
  then have "one_shot (now + d) s" using quiet_run_inv [OF one_shot_kept assms(1)] one_shot_armed [of "[]" now d] by fastforce
  moreover have "ct_status (ts_timer s) \<noteq> StatusReset"
    using quiet_run_inv [OF not_reset_kept assms(1) _ \<open>timer_run as (armed d now []) = Some s\<close>] by (simp add: armed_def)
  ultimately have "never_fires (s\<lparr>ts_timer := timer_Cancel (ts_timer s)\<rparr>)"
    using assms(4) by (auto simp: one_shot_def never_fires_def timer_Cancel_def)
  then have "never_fires s'" using quiet_run_inv [OF never_fires_kept assms(2)] assms(5) by simp
  then show ?thesis by (simp add: never_fires_def)
qed

theorem cancelled_timer_never_fires_witness:
  "\<exists>s s'. timer_run [DoStart, Go 0, Tick 4] (timer_init 10 100) = Some s \<and> timer_run [DoCancel, Tick 20, Go 0] s = Some s' \<and> ts_fired s' = []"
proof -
  obtain s where s: "timer_run (DoStart # Go 0 # [Tick 4]) (timer_init 10 100) = Some s" "ts_goroutines s = [(False, Asleep 110)]"
      "ct_status (ts_timer s) = StatusWaiting" "ts_now s = 104"
    by (simp add: timer_init_def NewCTimer_def timer_Start_def)
  then obtain s' where "timer_run (DoCancel # [Tick 20, Go 0]) s = Some s'" by (simp add: timer_Cancel_def)
  moreover from this have "ts_fired s' = []"
    by (rule cancelled_timer_never_fires [OF _ _ s(1,2), rotated 2]) (simp_all add: quiet_def)
  ultimately show ?thesis using s(1) by blast
qed

text \<open>
  A repeating timer cannot be cancelled: after \<open>Repeat\<close> and any calls of \<open>Cancel\<close> its loop is still there, and some
  continuation starts the job again.
\<close>

theorem repeating_timer_is_never_cancelled:
  assumes "list_all quiet as" and "timer_run (DoRepeat # as) (timer_init d now) = Some s"
  shows "length (ts_goroutines s) = 1 \<and>
    (\<exists>bs s'. list_all quiet bs \<and> timer_run bs s = Some s' \<and> length (ts_fired s') > length (ts_fired s))"
proof -
  let ?s = "(timer_init d now)\<lparr>ts_goroutines := [(True, AtLoop)]\<rparr>"
  have "timer_run as ?s = Some s" using assms(2) by (simp add: timer_init_def timer_Repeat_def NewCTimer_def)
  moreover have "repeating ?s" by (simp add: repeating_def timer_init_def NewCTimer_def)
  ultimately have "repeating s" using quiet_run_inv [OF repeating_kept assms(1)] by blast
  then show ?thesis using repeating_fires_again [of s] by (auto simp: fires_again_def repeating_def)
qed

theorem repeating_timer_is_never_cancelled_witness:
  "\<exists>s. timer_run [DoRepeat, Go 0, Go 0, Tick 3, DoCancel, Tick 7, Go 0] (timer_init 10 0) = Some s \<and>
    ct_status (ts_timer s) = StatusIdle \<and> length (ts_goroutines s) = 1 \<and> (\<exists>bs s'. timer_run bs s = Some s' \<and> length (ts_fired s') > length (ts_fired s))"
proof -
  let ?as = "[Go 0, Go 0, Tick 3, DoCancel, Tick 7, Go 0]"
  obtain s where "timer_run (DoRepeat # ?as) (timer_init 10 0) = Some s" "ct_status (ts_timer s) = StatusIdle"
    by (simp add: timer_init_def NewCTimer_def timer_Repeat_def timer_Cancel_def wait_returns_def)
  moreover have "list_all quiet ?as" by (simp add: quiet_def)
  ultimately show ?thesis using repeating_timer_is_never_cancelled [of ?as 10 0 s] by blast
qed

text \<open>
  Over any sequence of health checks the failure callback runs at every failed check, the restored callback runs at
  a successful check exactly when the check before it failed, and nothing runs otherwise.
\<close>

theorem health_check_callbacks:
  assumes "i < length fs"
  shows "checks fs (NewHealthCheckHandler d True True) ! i =
    (if fs ! i then [CbFailed] else if i > 0 \<and> fs ! (i - 1) then [CbRestored] else [])"
proof -
  have "checks fs h ! i = (if fs ! i then [CbFailed] else if (if i = 0 then hc_onRetry h else fs ! (i - 1)) then [CbRestored] else [])"
    if "hc_hasFailed h" "hc_hasRestored h" for h
    using assms that
  proof (induction fs arbitrary: i h)
    case (Cons f fs)
    let ?h = "fst (doHealthCheck f h)"
    have h: "hc_hasFailed ?h" "hc_hasRestored ?h" "hc_onRetry ?h = f" using Cons.prems by (auto simp: doHealthCheck_def)
    show ?case
    proof (cases i)
      case 0
      then show ?thesis using Cons.prems by (simp add: doHealthCheck_def Let_def)
    next
      case (Suc k)
      have "checks (f # fs) h ! i = checks fs ?h ! k" using Suc by (simp add: case_prod_beta Let_def)
      also have "\<dots> = (if fs ! k then [CbFailed] else if (if k = 0 then f else fs ! (k - 1)) then [CbRestored] else [])"
        using Cons.IH [of k ?h] Cons.prems h(1,2) Suc unfolding h(3) by simp
      finally show ?thesis using Suc by (cases k) simp_all
    qed
  qed simp
  then show ?thesis by (simp add: NewHealthCheckHandler_def)
qed

theorem health_check_callbacks_witness:
  "checks [False, True, True, False] (NewHealthCheckHandler 300 True True) ! 3 = [CbRestored]"
  using health_check_callbacks [of 3 "[False, True, True, False]" 300] by (simp add: eval_nat_numeral)

end
