(* ===== verification/HubClient.thy ===== *)
theory HubClient
  imports RelayManagement Dispatcher Timers
begin

text \<open>
  The client side of the hub, \<open>src/hub_client\<close>: the service a client offers (\<open>ClientService.go\<close>), the requests it sends
  to the server's service manager (\<open>clients/RelayServiceClient.go\<close>), the client's own service manager
  (\<open>ServiceManager.go\<close>), the handler of service requests (\<open>ClientServiceMessageHandler.go\<close>), and the service
  \<open>EchoService.go\<close>.

  The server and the network are the parameter \<open>E\<close>: \<open>ne_request\<close> gives the answer to a message sent over a connection
  and the state of the world afterwards, \<open>ne_newId\<close> the id of a drafted message. A connection is its address in the
  program. \<open>None\<close> is a \<open>nil\<close> pointer or interface; a call through it panics. Callbacks are their labels. Metering and
  log output are left out, and an operation that may panic returns what it has changed up to then only where a later
  call can see it.
\<close>

section \<open>RelayServiceClient.go\<close>

record 'w net_env =
  ne_request :: "nat \<Rightarrow> Message \<Rightarrow> 'w \<Rightarrow> (Message option \<times> string option) \<times> 'w"
  ne_newId :: "'w \<Rightarrow> string"
  ne_formatTime :: "int \<Rightarrow> string"
  ne_live :: "nat \<Rightarrow> 'w \<Rightarrow> bool"
  ne_get :: "'w \<Rightarrow> (string + nat) \<times> 'w"

definition ServerServiceManagerUri :: string where "ServerServiceManagerUri = ServicePrefix @ ''/services''"
definition ServiceManagerRegisterService :: string where "ServiceManagerRegisterService = ServerServiceManagerUri @ ''/register''"
definition ServiceManagerUnregisterService :: string where "ServiceManagerUnregisterService = ServerServiceManagerUri @ ''/unregister''"
definition ServiceManagerUpdateService :: string where "ServiceManagerUpdateService = ServerServiceManagerUri @ ''/update''"
definition ServiceManagerUpdateProvider :: string where "ServiceManagerUpdateProvider = ServerServiceManagerUri @ ''/providers''"

record RelayServiceClient =
  rc_clientId :: string
  rc_serverConn :: nat

definition rc_draftMessage :: "'w net_env \<Rightarrow> 'w \<Rightarrow> RelayServiceClient \<Rightarrow> string \<Rightarrow> int \<Rightarrow> string \<Rightarrow> Message" where
  "rc_draftMessage E w c uri ty p = DraftMessage (ne_newId E w) (rc_clientId c) [] uri ty p"

definition draftDescriptorMessageWith :: "'w net_env \<Rightarrow> 'w \<Rightarrow> RelayServiceClient \<Rightarrow> string \<Rightarrow> ServiceDescriptor \<Rightarrow> Message" where
  "draftDescriptorMessageWith E w c uri d = rc_draftMessage E w c uri MessageTypeServiceRequest (descriptor_String (ne_formatTime E) d)"

definition requestWithConn :: "'w net_env \<Rightarrow> nat \<Rightarrow> Message \<Rightarrow> 'w \<Rightarrow> string option \<times> 'w" where
  "requestWithConn E conn m w =
     (case ne_request E conn m w of
        ((Some resp, err), w') \<Rightarrow> (if IsErrorMessage resp then Some (payload resp) else err, w')
      | ((None, err), w') \<Rightarrow> (err, w'))"

definition requestMessage :: "'w net_env \<Rightarrow> RelayServiceClient \<Rightarrow> Message \<Rightarrow> 'w \<Rightarrow> string option \<times> 'w" where
  "requestMessage E c m w = requestWithConn E (rc_serverConn c) m w"

definition rc_HealthCheck :: "'w net_env \<Rightarrow> RelayServiceClient \<Rightarrow> 'w \<Rightarrow> string option \<times> 'w" where
  "rc_HealthCheck E c w = requestMessage E c (rc_draftMessage E w c [] MessageTypePing []) w"

definition rc_RegisterService :: "'w net_env \<Rightarrow> RelayServiceClient \<Rightarrow> ServiceDescriptor \<Rightarrow> 'w \<Rightarrow> string option \<times> 'w" where
  "rc_RegisterService E c d w = requestMessage E c (draftDescriptorMessageWith E w c ServiceManagerRegisterService d) w"

definition rc_UnregisterService :: "'w net_env \<Rightarrow> RelayServiceClient \<Rightarrow> ServiceDescriptor \<Rightarrow> 'w \<Rightarrow> string option \<times> 'w" where
  "rc_UnregisterService E c d w = requestMessage E c (draftDescriptorMessageWith E w c ServiceManagerUnregisterService d) w"

definition rc_UpdateService :: "'w net_env \<Rightarrow> RelayServiceClient \<Rightarrow> ServiceDescriptor \<Rightarrow> 'w \<Rightarrow> string option \<times> 'w" where
  "rc_UpdateService E c d w = requestMessage E c (draftDescriptorMessageWith E w c ServiceManagerUpdateService d) w"

definition rc_UpdateServiceProvider :: "'w net_env \<Rightarrow> RelayServiceClient \<Rightarrow> nat \<Rightarrow> ServiceDescriptor \<Rightarrow> 'w \<Rightarrow> string option \<times> 'w" where
  "rc_UpdateServiceProvider E c conn d w = requestWithConn E conn (draftDescriptorMessageWith E w c ServiceManagerUpdateProvider d) w"

section \<open>ClientService.go\<close>

definition ServiceStatusRegistered :: int where [simp]: "ServiceStatusRegistered = 1"

record 'h ClientService =
  cs_smClient :: "RelayServiceClient option"
  cs_taskQueue :: ServiceTaskQueue
  cs_id :: string
  cs_uriPrefix :: string
  cs_description :: string
  cs_serviceUris :: "string list"
  cs_handler :: "'h DefaultServiceHandler"
  cs_host :: RoleDescriptor
  cs_identity :: RoleDescriptor
  cs_serviceType :: int
  cs_accessType :: int
  cs_executionType :: int
  cs_cTime :: int
  cs_status :: int
  cs_health :: HealthCheckHandler
  cs_onFails :: "string option"
  cs_onRestored :: "string option"

definition NewClientService :: "RoleDescriptor \<Rightarrow> RelayServiceClient option \<Rightarrow> (nat \<Rightarrow> ServiceRequest) \<Rightarrow> int \<Rightarrow> string \<Rightarrow> string \<Rightarrow>
    int \<Rightarrow> int \<Rightarrow> RoleDescriptor \<Rightarrow> 'h ClientService" where
  "NewClientService identity smClient reqs now i desc aType eType server =
     \<lparr>cs_smClient = smClient, cs_taskQueue = NewServiceTaskQueue (rd_Id identity) reqs, cs_id = i,
      cs_uriPrefix = ServicePrefix @ ''/'' @ i, cs_description = desc, cs_serviceUris = [], cs_handler = NewDefaultServiceHandler,
      cs_host = server, cs_identity = identity, cs_serviceType = ServiceTypeProxy, cs_accessType = aType, cs_executionType = eType,
      cs_cTime = now, cs_status = ServiceStatusUnregistered,
      cs_health = NewHealthCheckHandler DefaultHealthCheckInterval True True, cs_onFails = None, cs_onRestored = None\<rparr>"

definition cs_FullServiceUris :: "'h ClientService \<Rightarrow> string list" where
  "cs_FullServiceUris s = map (\<lambda>uri. cs_uriPrefix s @ uri) (cs_serviceUris s)"

definition cs_SupportsUri :: "'h ClientService \<Rightarrow> string \<Rightarrow> bool" where
  "cs_SupportsUri s uri =
     (if \<not> HasPrefix uri (cs_uriPrefix s) then False
      else list_ex (HasPrefix (TrimPrefix uri (cs_uriPrefix s))) (cs_serviceUris s))"

definition matchUri :: "'h ClientService \<Rightarrow> string \<Rightarrow> string + string" where
  "matchUri s uri =
     (case find (HasPrefix (TrimPrefix uri (cs_uriPrefix s))) (cs_serviceUris s) of
        Some v \<Rightarrow> Inr v
      | None \<Rightarrow> Inl ''no matched uri_trie'')"

definition cs_Describe :: "'h ClientService \<Rightarrow> ServiceDescriptor" where
  "cs_Describe s =
     \<lparr>sd_Id = cs_id s, sd_Description = cs_description s, sd_HostInfo = cs_host s, sd_Provider = cs_identity s,
      sd_ServiceUris = cs_serviceUris s, sd_CTime = cs_cTime s, sd_ServiceType = cs_serviceType s, sd_AccessType = cs_accessType s,
      sd_ExecutionType = cs_executionType s, sd_Status = cs_status s\<rparr>"

definition NotifyHostForUpdate :: "'w net_env \<Rightarrow> 'h ClientService \<Rightarrow> 'w \<Rightarrow> string option \<times> 'w" where
  "NotifyHostForUpdate E s w =
     (if cs_status s = ServiceStatusUnregistered then (None, w)
      else (case cs_smClient s of
          Some c \<Rightarrow> rc_UpdateService E c (cs_Describe s) w
        | None \<Rightarrow> (Some ''no serviceManagerClient found'', w)))"

definition UpdateDescription :: "'w net_env \<Rightarrow> string \<Rightarrow> 'h ClientService \<Rightarrow> 'w \<Rightarrow> 'h ClientService \<times> string option \<times> 'w" where
  "UpdateDescription E desc s w =
     (case NotifyHostForUpdate E s w of
        (None, w') \<Rightarrow> (s\<lparr>cs_description := desc\<rparr>, None, w')
      | (Some err, w') \<Rightarrow> (s, Some err, w'))"

text \<open>\<open>RegisterRoute\<close> reads the last byte of the short uri, so an empty one panics.\<close>

definition cs_RegisterRoute :: "'w net_env \<Rightarrow> int \<Rightarrow> string \<Rightarrow> 'h \<Rightarrow> 'h ClientService \<Rightarrow> 'w \<Rightarrow>
    ('h ClientService \<times> string option \<times> 'w) go" where
  "cs_RegisterRoute E requestType uri handler s w =
     (let shortUri = (if HasPrefix uri (cs_uriPrefix s) then TrimPrefix uri (cs_uriPrefix s) else uri) in
      if shortUri = [] then Panic
      else
        (let shortUri = (if last shortUri = CHR ''/'' then butlast shortUri else shortUri);
             (h, err) = default_Register (cs_handler s) requestType (cs_uriPrefix s @ shortUri) handler;
             s = s\<lparr>cs_serviceUris := cs_serviceUris s @ [shortUri], cs_handler := h\<rparr> in
         case err of
           Some e \<Rightarrow> Ret (s, Some e, w)
         | None \<Rightarrow> (case NotifyHostForUpdate E s w of (e, w') \<Rightarrow> Ret (s, e, w'))))"

definition cs_UnregisterRoute :: "'w net_env \<Rightarrow> int \<Rightarrow> string \<Rightarrow> 'h ClientService \<Rightarrow> 'w \<Rightarrow>
    'h ClientService \<times> string option \<times> 'w" where
  "cs_UnregisterRoute E requestType shortUri s w =
     (let uris = cs_serviceUris s in
      case last_pos shortUri uris of
        None \<Rightarrow> (s, Some (''shortUri '' @ shortUri @ '' does not exist''), w)
      | Some i \<Rightarrow>
          (let l = length uris; uris' = uris[l - 1 := uris ! i, i := uris ! (l - 1)];
               (h, err) = default_Unregister (cs_handler s) requestType shortUri;
               s = s\<lparr>cs_serviceUris := take (l - 1) uris', cs_handler := h\<rparr> in
           case err of
             Some e \<Rightarrow> (s, Some e, w)
           | None \<Rightarrow> (case NotifyHostForUpdate E s w of (e, w') \<Rightarrow> (s, e, w'))))"

text \<open>\<open>InitHandlers\<close>; the list gives the entries in the order in which Go ranges over the two maps.\<close>

fun InitHandlers :: "'w net_env \<Rightarrow> (int \<times> string \<times> 'h) list \<Rightarrow> 'h ClientService \<Rightarrow> 'w \<Rightarrow> ('h ClientService \<times> string option \<times> 'w) go" where
  "InitHandlers E [] s w = Ret (s, None, w)"
| "InitHandlers E ((requestType, uri, handler) # rest) s w =
     (case cs_RegisterRoute E requestType uri handler s w of
        Panic \<Rightarrow> Panic
      | Ret (s', Some err, w') \<Rightarrow> Ret (s', Some err, w')
      | Ret (s', None, w') \<Rightarrow> InitHandlers E rest s' w')"

definition cs_Register :: "'w net_env \<Rightarrow> 'h ClientService \<Rightarrow> 'w \<Rightarrow> ('h ClientService \<times> string option \<times> 'w) go" where
  "cs_Register E s w =
     (case cs_smClient s of
        None \<Rightarrow> Panic
      | Some c \<Rightarrow>
          (case rc_RegisterService E c (cs_Describe s) w of
             (None, w') \<Rightarrow> Ret (s\<lparr>cs_status := ServiceStatusRegistered\<rparr>, None, w')
           | (Some err, w') \<Rightarrow> Ret (s, Some err, w')))"

definition cs_Start :: "'w net_env \<Rightarrow> int \<Rightarrow> 'h ClientService \<Rightarrow> 'w \<Rightarrow> 'h ClientService \<times> string option \<times> 'w" where
  "cs_Start E now s w =
     (if cs_status s \<noteq> ServiceStatusRegistered
      then (s, Some ''invalid status to start a service(status != ServiceStatusRegistered)'', w)
      else
        (let s = s\<lparr>cs_status := ServiceStatusStarting, cs_health := StartHealthCheck now (cs_health s)\<rparr> in
         case NotifyHostForUpdate E s w of
           (Some err, w') \<Rightarrow> (s\<lparr>cs_status := ServiceStatusRegistered\<rparr>, Some err, w')
         | (None, w') \<Rightarrow> (s\<lparr>cs_status := ServiceStatusRunning\<rparr>, None, w')))"

definition cs_Stop :: "'w net_env \<Rightarrow> 'h ClientService \<Rightarrow> 'w \<Rightarrow> ('h ClientService \<times> string option \<times> 'w) go" where
  "cs_Stop E s w =
     (if \<not> (cs_status s > ServiceStatusUnregistered \<and> cs_status s < ServiceStatusStopping)
      then Ret (s, Some ''invalid status to stop a service'', w)
      else
        (let s = s\<lparr>cs_health := StopHealthCheck (cs_health s)\<rparr> in
         case cs_smClient s of
           None \<Rightarrow> Panic
         | Some c \<Rightarrow>
             (case rc_UnregisterService E c (cs_Describe s) w of
                (Some err, w') \<Rightarrow> Ret (s, Some err, w')
              | (None, w') \<Rightarrow>
                  (let s = s\<lparr>cs_status := ServiceStatusStopping\<rparr>; s = s\<lparr>cs_taskQueue := queue_Stop (cs_taskQueue s)\<rparr>
                   in Ret (s\<lparr>cs_status := ServiceStatusUnregistered\<rparr>, None, w')))))"

definition cs_KillAllProcessingJobs :: "'h ClientService \<Rightarrow> 'h ClientService \<times> bool go" where
  "cs_KillAllProcessingJobs s = (let (q, res) = KillAll (cs_taskQueue s) in (s\<lparr>cs_taskQueue := q\<rparr>, res))"

definition cs_CancelAllPendingJobs :: "'h ClientService \<Rightarrow> 'h ClientService \<times> bool go" where
  "cs_CancelAllPendingJobs s = (let (q, res) = CancelAll (cs_taskQueue s) in (s\<lparr>cs_taskQueue := q\<rparr>, res))"

definition cs_Cancel :: "string \<Rightarrow> 'h ClientService \<Rightarrow> 'h ClientService \<times> queue_error option go" where
  "cs_Cancel messageId s = (let (q, res) = queue_Cancel (cs_taskQueue s) messageId in (s\<lparr>cs_taskQueue := q\<rparr>, res))"

text \<open>
  The two internal handlers of the health check, with the callback they call. Both test the failure callback and call
  the other one.
\<close>

definition call_restored :: "'h ClientService \<Rightarrow> string list go" where
  "call_restored s =
     (if cs_onFails s \<noteq> None then (case cs_onRestored s of None \<Rightarrow> Panic | Some cb \<Rightarrow> Ret [cb]) else Ret [])"

definition onHealthCheckFailedInternalHandler :: "'h ClientService \<Rightarrow> 'h ClientService \<times> string list go" where
  "onHealthCheckFailedInternalHandler s =
     (let (s, res) = cs_KillAllProcessingJobs (s\<lparr>cs_status := ServiceStatusDead\<rparr>)
      in (s, bind_go res (\<lambda>_. call_restored s)))"

definition onHealthCheckRestoredInternalHandler :: "'h ClientService \<Rightarrow> 'h ClientService \<times> string list go" where
  "onHealthCheckRestoredInternalHandler s =
     (let s = s\<lparr>cs_status := ServiceStatusRunning\<rparr> in (s, call_restored s))"

text \<open>One run of the health check timer's job.\<close>

definition cs_healthCheckJob :: "'w net_env \<Rightarrow> 'h ClientService \<Rightarrow> 'w \<Rightarrow> ('h ClientService \<times> string list go) \<times> 'w" where
  "cs_healthCheckJob E s w =
     (case cs_smClient s of
        None \<Rightarrow> ((s, Panic), w)
      | Some c \<Rightarrow>
          (let (err, w') = rc_HealthCheck E c w; (h, cbs) = doHealthCheck (err \<noteq> None) (cs_health s);
               s' = s\<lparr>cs_health := h\<rparr> in
           (case cbs of
              [] \<Rightarrow> (s', Ret [])
            | CbFailed # _ \<Rightarrow> onHealthCheckFailedInternalHandler s'
            | CbRestored # _ \<Rightarrow> onHealthCheckRestoredInternalHandler s', w')))"

definition cs_ResolveByAck :: "'h ClientService \<Rightarrow> ServiceRequest \<Rightarrow> ServiceRequest \<times> req_error option go" where
  "cs_ResolveByAck s r =
     (let m = sr_message r in Resolve r (Some (NewACKMessage (m_id m) (rd_Id (cs_identity s)) (m_from m) (m_uri m))))"

definition cs_ResolveByResponse :: "RoleDescriptor \<Rightarrow> ServiceRequest \<Rightarrow> string \<Rightarrow> ServiceRequest \<times> req_error option go" where
  "cs_ResolveByResponse identity r responseData =
     (let m = sr_message r in
      Resolve r (Some (NewMessage (m_id m) (rd_Id identity) (m_from m) (m_uri m) MessageTypeSvcResponseOK responseData)))"

definition cs_ResolveByError :: "RoleDescriptor \<Rightarrow> ServiceRequest \<Rightarrow> int \<Rightarrow> string \<Rightarrow> ServiceRequest \<times> (string + req_error option) go" where
  "cs_ResolveByError identity r errType msg =
     (if errType < 400 \<or> errType > 500 then (r, Ret (Inl ''invalid error code''))
      else
        (let m = sr_message r;
             (r', res) = Resolve r (Some (NewMessage (m_id m) (rd_Id identity) (m_from m) (m_uri m) errType (assembleErrorMessageData msg)))
         in (r', bind_go res (\<lambda>e. Ret (Inr e)))))"

definition cs_ResolveByInvalidCredential :: "RoleDescriptor \<Rightarrow> ServiceRequest \<Rightarrow> ServiceRequest \<times> (string + req_error option) go" where
  "cs_ResolveByInvalidCredential identity r = cs_ResolveByError identity r MessageTypeSvcUnauthorizedError ''invalid credential''"

text \<open>\<open>Handle\<close>: the request goes into the queue; a synchronous service then waits for the response.\<close>

definition cs_Handle_schedule :: "nat \<Rightarrow> 'h ClientService \<Rightarrow> 'h ClientService" where
  "cs_Handle_schedule a s = s\<lparr>cs_taskQueue := fst (queue_Schedule (cs_taskQueue s) a)\<rparr>"

definition cs_Handle_result :: "nat \<Rightarrow> 'h ClientService \<Rightarrow> Message option go option" where
  "cs_Handle_result a s =
     (if cs_executionType s = ServiceExecutionSync
      then (case Response (requests (cs_taskQueue s) a) of
          None \<Rightarrow> None
        | Some Panic \<Rightarrow> Some Panic
        | Some (Ret m) \<Rightarrow> Some (Ret (Some m)))
      else Some (Ret None))"

section \<open>ServiceManager.go\<close>

record 'h ClientServiceManager =
  cm_trie :: "nat TrieTree"
  cm_services :: "(string \<times> nat) list"
  cm_heap :: "nat \<Rightarrow> 'h ClientService"
  cm_conns :: "nat option list"
  cm_client :: RelayServiceClient

text \<open>The loop over the services under the read lock; its errors are only logged.\<close>

definition update_providers_of :: "'w net_env \<Rightarrow> nat \<Rightarrow> 'h ClientServiceManager \<Rightarrow> 'w \<Rightarrow> 'w" where
  "update_providers_of E conn m w =
     fold (\<lambda>(i, a) w. snd (rc_UpdateServiceProvider E (cm_client m) conn (cs_Describe (cm_heap m a)) w)) (cm_services m) w"

text \<open>The first place without a live connection takes the new one; otherwise it is dropped.\<close>

fun put_conn :: "(nat \<Rightarrow> bool) \<Rightarrow> nat \<Rightarrow> nat option list \<Rightarrow> nat option list" where
  "put_conn live conn [] = []"
| "put_conn live conn (c # cs) =
     (if (case c of None \<Rightarrow> True | Some d \<Rightarrow> \<not> live d) then Some conn # cs else c # put_conn live conn cs)"

definition produceConnection :: "'w net_env \<Rightarrow> 'h ClientServiceManager \<Rightarrow> 'w \<Rightarrow> 'h ClientServiceManager \<times> string option \<times> 'w" where
  "produceConnection E m w =
     (case ne_get E w of
        (Inl err, w') \<Rightarrow> (m, Some err, w')
      | (Inr conn, w') \<Rightarrow>
          (let w'' = update_providers_of E conn m w'
           in (m\<lparr>cm_conns := put_conn (\<lambda>c. ne_live E c w'') conn (cm_conns m)\<rparr>, None, w'')))"

fun produce_connections :: "'w net_env \<Rightarrow> nat \<Rightarrow> 'h ClientServiceManager \<Rightarrow> 'w \<Rightarrow> 'h ClientServiceManager \<times> string option \<times> 'w" where
  "produce_connections E 0 m w = (m, None, w)"
| "produce_connections E (Suc n) m w =
     (case produceConnection E m w of
        (m', Some err, w') \<Rightarrow> (m', Some err, w')
      | (m', None, w') \<Rightarrow> produce_connections E n m' w')"

definition initServiceConnections :: "'w net_env \<Rightarrow> nat \<Rightarrow> 'h ClientServiceManager \<Rightarrow> 'w \<Rightarrow> 'h ClientServiceManager \<times> string option \<times> 'w" where
  "initServiceConnections E maxActiveCount m w =
     produce_connections E maxActiveCount (m\<lparr>cm_conns := replicate maxActiveCount None\<rparr>) w"

text \<open>\<open>NewServiceManager\<close>; an error of the connections is a panic.\<close>

definition NewServiceManager :: "'w net_env \<Rightarrow> nat \<Rightarrow> string \<Rightarrow> nat \<Rightarrow> (nat \<Rightarrow> 'h ClientService) \<Rightarrow> 'w \<Rightarrow> ('h ClientServiceManager \<times> 'w) go" where
  "NewServiceManager E maxActiveCount clientId primaryConn h w =
     (case initServiceConnections E maxActiveCount \<lparr>cm_trie = NewTrieTree, cm_services = [], cm_heap = h, cm_conns = [],
         cm_client = \<lparr>rc_clientId = clientId, rc_serverConn = primaryConn\<rparr>\<rparr> w of
        (m, Some err, w') \<Rightarrow> Panic
      | (m, None, w') \<Rightarrow> Ret (m, w'))"

fun update_conns :: "'w net_env \<Rightarrow> RelayServiceClient \<Rightarrow> ServiceDescriptor \<Rightarrow> nat option list \<Rightarrow> 'w \<Rightarrow> 'w go" where
  "update_conns E c d [] w = Ret w"
| "update_conns E c d (None # cs) w = Panic"
| "update_conns E c d (Some conn # cs) w = update_conns E c d cs (snd (rc_UpdateServiceProvider E c conn d w))"

definition updateServiceProviders :: "'w net_env \<Rightarrow> 'h ClientService \<Rightarrow> 'h ClientServiceManager \<Rightarrow> 'w \<Rightarrow> 'w go" where
  "updateServiceProviders E s m w = update_conns E (cm_client m) (cs_Describe s) (cm_conns m) w"

text \<open>The loop that adds the routes; a failure removes the routes added so far and the failed one.\<close>

fun add_routes :: "nat \<Rightarrow> string list \<Rightarrow> string list \<Rightarrow> nat TrieTree \<Rightarrow> nat TrieTree \<times> trie_error option" where
  "add_routes a [] added t = (t, None)"
| "add_routes a (uri # uris) added t =
     (case Add t uri (Some a) True of
        (t', Some err) \<Rightarrow> (fold (\<lambda>u t. fst (Remove t u)) (uri # added) t', Some err)
      | (t', None) \<Rightarrow> add_routes a uris (uri # added) t')"

datatype cm_error = CMText string | CMRoute trie_error

text \<open>
  \<open>RegisterService\<close> for the service object at the address \<open>a\<close>. \<open>ini\<close> is the \<open>Init\<close> of that object.
\<close>

definition cm_RegisterService :: "'w net_env \<Rightarrow> ('h ClientService \<Rightarrow> 'w \<Rightarrow> ('h ClientService \<times> string option \<times> 'w) go) \<Rightarrow> nat \<Rightarrow>
    'h ClientServiceManager \<Rightarrow> 'w \<Rightarrow> ('h ClientServiceManager \<times> cm_error option \<times> 'w) go" where
  "cm_RegisterService E ini a m w =
     (case ini (cm_heap m a) w of
        Panic \<Rightarrow> Panic
      | Ret (s, Some err, w) \<Rightarrow> Ret (m\<lparr>cm_heap := (cm_heap m)(a := s)\<rparr>, Some (CMText err), w)
      | Ret (s, None, w) \<Rightarrow>
          (let m = m\<lparr>cm_heap := (cm_heap m)(a := s)\<rparr> in
           if map_of (cm_services m) (cs_id s) \<noteq> None then Ret (m, Some (CMText ''service already registered''), w)
           else
             (let (t, err) = add_routes a (cs_FullServiceUris s) [] (cm_trie m);
                  m = m\<lparr>cm_services := AList.update (cs_id s) a (cm_services m), cm_trie := t\<rparr> in
              case err of
                Some e \<Rightarrow> Ret (m, Some (CMRoute e), w)
              | None \<Rightarrow>
                  (case cs_Register E s w of
                     Panic \<Rightarrow> Panic
                   | Ret (s, Some e, w) \<Rightarrow> Ret (m\<lparr>cm_heap := (cm_heap m)(a := s)\<rparr>, Some (CMText e), w)
                   | Ret (s, None, w) \<Rightarrow>
                       (case updateServiceProviders E s m w of
                          Panic \<Rightarrow> Panic
                        | Ret w \<Rightarrow> Ret (m\<lparr>cm_heap := (cm_heap m)(a := s)\<rparr>, None, w))))))"

text \<open>\<open>UnregisterService\<close> for the object at \<open>a\<close>: it removes the short uris, not the full ones.\<close>

definition cm_UnregisterService :: "'w net_env \<Rightarrow> nat \<Rightarrow> 'h ClientServiceManager \<Rightarrow> 'w \<Rightarrow>
    ('h ClientServiceManager \<times> cm_error option \<times> 'w) go" where
  "cm_UnregisterService E a m w =
     (let i = cs_id (cm_heap m a) in
      if map_of (cm_services m) i = None then Ret (m, Some (CMText ''service does not exist''), w)
      else (case cs_Stop E (cm_heap m a) w of
          Panic \<Rightarrow> Panic
        | Ret (s, _, w') \<Rightarrow>
            Ret (m\<lparr>cm_heap := (cm_heap m)(a := s), cm_trie := fold (\<lambda>u t. fst (Remove t u)) (cs_serviceUris s) (cm_trie m),
                   cm_services := AList.delete i (cm_services m)\<rparr>, None, w')))"

text \<open>The loop of \<open>UnregisterAllServices\<close>, over the services in the order of the \<open>range\<close>.\<close>

fun cm_unregister_all :: "'w net_env \<Rightarrow> nat list \<Rightarrow> 'h ClientServiceManager \<Rightarrow> 'w \<Rightarrow> ('h ClientServiceManager \<times> 'w) go" where
  "cm_unregister_all E [] m w = Ret (m, w)"
| "cm_unregister_all E (a # as) m w =
     (case cs_Stop E (cm_heap m a) w of
        Panic \<Rightarrow> Panic
      | Ret (s, _, w') \<Rightarrow>
          cm_unregister_all E as
            (m\<lparr>cm_heap := (cm_heap m)(a := s), cm_trie := fold (\<lambda>u t. fst (Remove t u)) (cs_serviceUris s) (cm_trie m),
               cm_services := AList.delete (cs_id s) (cm_services m)\<rparr>) w')"

definition cm_UnregisterAllServices :: "'w net_env \<Rightarrow> 'h ClientServiceManager \<Rightarrow> 'w \<Rightarrow> ('h ClientServiceManager \<times> 'w) go" where
  "cm_UnregisterAllServices E m w = cm_unregister_all E (map snd (cm_services m)) m w"

definition cm_GetServiceById :: "'h ClientServiceManager \<Rightarrow> string \<Rightarrow> nat option" where
  "cm_GetServiceById m i = map_of (cm_services m) i"

definition cm_MatchServiceByUri :: "'h ClientServiceManager \<Rightarrow> string \<Rightarrow> trie_error + nat MatchContext" where
  "cm_MatchServiceByUri m uri = Match (cm_trie m) uri"

text \<open>
  The maintenance worker on the events it receives: a closed connection goes back to the pool (\<open>put\<close> is the effect of
  \<open>Put\<close>) and a new one is produced. The flag tells that the worker has returned.
\<close>

datatype maintain_event = ContextDone | Unfit nat

fun maintainConnectionWorker :: "'w net_env \<Rightarrow> (nat \<Rightarrow> 'w \<Rightarrow> 'w) \<Rightarrow> maintain_event list \<Rightarrow> 'h ClientServiceManager \<Rightarrow> 'w \<Rightarrow>
    ('h ClientServiceManager \<times> 'w \<times> bool) go" where
  "maintainConnectionWorker E put [] m w = Ret (m, w, False)"
| "maintainConnectionWorker E put (ContextDone # es) m w = bind_go (cm_UnregisterAllServices E m w) (\<lambda>(m', w'). Ret (m', w', True))"
| "maintainConnectionWorker E put (Unfit conn # es) m w =
     (case produceConnection E m (put conn w) of
        (m', Some err, w') \<Rightarrow> Ret (m', w', True)
      | (m', None, w') \<Rightarrow> maintainConnectionWorker E put es m' w')"

section \<open>Client.go\<close>

definition StartService :: "'w net_env \<Rightarrow> int \<Rightarrow> string \<Rightarrow> 'h ClientServiceManager \<Rightarrow> 'w \<Rightarrow>
    'h ClientServiceManager \<times> string option \<times> 'w" where
  "StartService E now i m w =
     (case cm_GetServiceById m i of
        None \<Rightarrow> (m, Some (''service '' @ i @ '' has not been registered yet''), w)
      | Some a \<Rightarrow> (case cs_Start E now (cm_heap m a) w of (s, e, w') \<Rightarrow> (m\<lparr>cm_heap := (cm_heap m)(a := s)\<rparr>, e, w')))"

definition StopService :: "'w net_env \<Rightarrow> string \<Rightarrow> 'h ClientServiceManager \<Rightarrow> 'w \<Rightarrow>
    ('h ClientServiceManager \<times> string option \<times> 'w) go" where
  "StopService E i m w =
     (case cm_GetServiceById m i of
        None \<Rightarrow> Ret (m, Some (''service '' @ i @ '' has not been registered yet''), w)
      | Some a \<Rightarrow>
          (case cs_Stop E (cm_heap m a) w of
             Panic \<Rightarrow> Panic
           | Ret (s, e, w') \<Rightarrow> Ret (m\<lparr>cm_heap := (cm_heap m)(a := s)\<rparr>, e, w')))"

section \<open>ClientServiceMessageHandler.go\<close>

text \<open>
  The pool runs the first task of a service with \<open>ClientServiceExecutor\<close>; a panic ends the process.
\<close>

definition cs_run_task :: "'h caller \<Rightarrow> 'h ClientService \<Rightarrow> 'h ClientService go" where
  "cs_run_task call s =
     (let q = cs_taskQueue s; identity = rd_Id (cs_identity s) in
      case tasks q of
        [] \<Rightarrow> Ret s
      | a # _ \<Rightarrow>
          (if \<not> UnProcessableServiceRequestMap (sr_status (requests q a)) \<and> executor q \<and>
             snd (client_Execute identity call (cs_handler s) (TransitStatus (requests q a) ServiceRequestStatusProcessing)) = Panic
           then Panic
           else bind_go (run_task (\<lambda>a reqs. reqs(a := fst (client_Execute identity call (cs_handler s) (reqs a)))) q)
             (\<lambda>q'. Ret (s\<lparr>cs_taskQueue := q'\<rparr>))))"

fun cs_drain :: "'h caller \<Rightarrow> nat \<Rightarrow> 'h ClientService \<Rightarrow> 'h ClientService go" where
  "cs_drain call 0 s = Ret s"
| "cs_drain call (Suc n) s = bind_go (cs_run_task call s) (cs_drain call n)"

definition cs_Handle :: "'h caller \<Rightarrow> nat \<Rightarrow> ServiceRequest \<Rightarrow> 'h ClientService \<Rightarrow> ('h ClientService \<times> Message option go) run" where
  "cs_Handle call a r s =
     (let q = cs_taskQueue s; s = s\<lparr>cs_taskQueue := q\<lparr>requests := (requests q)(a := r)\<rparr>\<rparr>; s = cs_Handle_schedule a s in
      if cs_executionType s = ServiceExecutionSync
      then (case cs_drain call (length (tasks (cs_taskQueue s))) s of
          Panic \<Rightarrow> Crashed
        | Ret s' \<Rightarrow> (case cs_Handle_result a s' of None \<Rightarrow> Blocked | Some res \<Rightarrow> Finished (s', res)))
      else Finished (s, Ret None))"

definition ConnectionTypeMiddleware :: "nat \<Rightarrow> ServiceRequest \<Rightarrow> ServiceRequest go" where
  "ConnectionTypeMiddleware connType r =
     SetContext r ''connection_type'' (CUint8 connType)"

text \<open>
  \<open>Handle\<close> for a message on a connection; \<open>a\<close> is the address of the new request. When the trie has no route the text
  of its error (the parameter \<open>text\<close>) is sent back. The result is the manager, the connection and the error returned.
\<close>

definition client_handle_request :: "(trie_error \<Rightarrow> string) \<Rightarrow> writer \<Rightarrow> 'h caller \<Rightarrow> string \<Rightarrow> nat \<Rightarrow> Message \<Rightarrow> out_conn \<Rightarrow>
    'h ClientServiceManager \<Rightarrow> ('h ClientServiceManager \<times> out_conn \<times> string option go) run" where
  "client_handle_request text write call identity a m c cm =
     (case cm_MatchServiceByUri cm (m_uri m) of
        Inl err \<Rightarrow>
          (case conn_Send write (Some (NewInternalErrorMessage (m_id m) identity (m_from m) (m_uri m) (text err))) c of
             (c', res) \<Rightarrow> Finished (cm, c', res))
      | Inr ctx \<Rightarrow>
          (case Value ctx of
             None \<Rightarrow> Finished (cm, c, Panic)
           | Some s \<Rightarrow>
               (case bind_go (registerRequestMetaContext (NewServiceRequest m) ctx) (ConnectionTypeMiddleware (ci_type (oc_info c))) of
                  Panic \<Rightarrow> Finished (cm, c, Panic)
                | Ret r \<Rightarrow>
                    (case cs_Handle call a r (cm_heap cm s) of
                       Blocked \<Rightarrow> Blocked
                     | Crashed \<Rightarrow> Crashed
                     | Finished (x, Panic) \<Rightarrow> Finished (cm, c, Panic)
                     | Finished (x, Ret response) \<Rightarrow>
                         (let q = cs_taskQueue x;
                              x = x\<lparr>cs_taskQueue := q\<lparr>requests := (requests q)(a := Free (requests q a))\<rparr>\<rparr>;
                              (c', res) = conn_Send write response c
                          in Finished (cm\<lparr>cm_heap := (cm_heap cm)(s := x)\<rparr>, c', res))))))"

section \<open>EchoService.go\<close>

definition EchoServiceID :: string where "EchoServiceID = ''echo''"
definition EchoServiceRouteEcho :: string where "EchoServiceRouteEcho = ''/echo''"

datatype client_fn = FnEcho | FnFileGet | FnFileList | FnHttpRequest

definition echo_Init :: "'w net_env \<Rightarrow> RoleDescriptor \<Rightarrow> RelayServiceClient option \<Rightarrow> (nat \<Rightarrow> ServiceRequest) \<Rightarrow> int \<Rightarrow> RoleDescriptor \<Rightarrow> 'w \<Rightarrow>
    (client_fn ClientService \<times> string option \<times> 'w) go" where
  "echo_Init E identity smClient reqs now server w =
     cs_RegisterRoute E MessageTypeServiceGetRequest EchoServiceRouteEcho FnEcho
       (NewClientService identity smClient reqs now EchoServiceID ''simply echo messages'' ServiceAccessTypeBoth ServiceExecutionSync server) w"

definition Echo :: "RoleDescriptor \<Rightarrow> ServiceRequest \<Rightarrow> ServiceRequest \<times> string option go" where
  "Echo identity r =
     (case cs_ResolveByResponse identity r (payload (sr_message r)) of (r', res) \<Rightarrow> (r', bind_go res (\<lambda>_. Ret None)))"

end
