(* ===== verification/HubClientFacts.thy ===== *)
theory HubClientFacts
  imports HubClient
begin

text \<open>
  What the client side guarantees: the routes a service registers, the way of a request from the connection to the
  handler and back, the agreement of the client's routes with the server's, the life cycle of a service, and what is
  left after a service was stopped or unregistered.
\<close>

section \<open>Routes\<close>

definition cs_routes :: "'h ClientService \<Rightarrow> string \<Rightarrow> int \<Rightarrow> 'h option" where
  "cs_routes s uri ty = (case map_of (cs_handler s) uri of None \<Rightarrow> None | Some m \<Rightarrow> map_of m ty)"

text \<open>The short uri under which a route is kept.\<close>

definition cs_short :: "'h ClientService \<Rightarrow> string \<Rightarrow> string" where
  "cs_short s uri = (let u = (if HasPrefix uri (cs_uriPrefix s) then TrimPrefix uri (cs_uriPrefix s) else uri) in
     if u \<noteq> [] \<and> last u = CHR ''/'' then butlast u else u)"

definition route_named :: "'h ClientService \<Rightarrow> string \<Rightarrow> bool" where
  "route_named s uri \<longleftrightarrow> uri \<noteq> [] \<and> uri \<noteq> cs_uriPrefix s"

lemma route_named_trim:
  "route_named s uri \<Longrightarrow> (if HasPrefix uri (cs_uriPrefix s) then TrimPrefix uri (cs_uriPrefix s) else uri) \<noteq> []"
  by (auto simp: route_named_def HasPrefix_def TrimPrefix_def prefix_def)

lemma cs_RegisterRoute_new:
  assumes "100 \<le> ty" "ty \<le> 200" and "cs_status s = ServiceStatusUnregistered" and "route_named s uri"
  shows "\<exists>s'. cs_RegisterRoute E ty uri h s w = Ret (s', None, w) \<and>
    cs_serviceUris s' = cs_serviceUris s @ [cs_short s uri] \<and> cs_uriPrefix s' = cs_uriPrefix s \<and> cs_id s' = cs_id s \<and>
    cs_status s' = cs_status s \<and> cs_taskQueue s' = cs_taskQueue s \<and> cs_executionType s' = cs_executionType s \<and>
    cs_smClient s' = cs_smClient s \<and> cs_identity s' = cs_identity s \<and>
    (\<forall>u t. cs_routes s' u t = (if u = cs_uriPrefix s @ cs_short s uri \<and> t = ty then Some h else cs_routes s u t))"
  using assms(1-3) route_named_trim [OF assms(4)]
  by (auto simp: cs_RegisterRoute_def default_Register_def NotifyHostForUpdate_def cs_routes_def cs_short_def Let_def
      split: option.splits)

section \<open>The client's table of routes\<close>

lemma add_routes_table:
  assumes "trie_ok (root t)" and "list_all uri_pattern_ok uris" and "add_routes a uris added t = (t', None)"
  shows "trie_ok (root t') \<and> routes t' = (\<lambda>u. if u \<in> set uris then Some (a, u) else routes t u)"
  using assms
proof (induction uris arbitrary: added t)
  case (Cons uri uris)
  obtain t1 where add: "Add t uri (Some a) True = (t1, None)" and rest: "add_routes a uris (uri # added) t1 = (t', None)"
    using Cons.prems(3) by (auto split: prod.splits option.splits)
  have t1: "trie_ok (root t1)" "routes t1 = (\<lambda>u. if u = uri then Some (a, u) else routes t u)"
    using trie_ok_Add [OF Cons.prems(1), of uri "Some a" True] Cons.prems(2) add routes_Add [of t uri a True]
    by (auto simp: fun_eq_iff uri_pattern_ok_def plain_path_def)
  show ?case using Cons.IH [OF t1(1) _ rest] Cons.prems(2) t1(2) by (auto simp: fun_eq_iff)
qed simp

lemma Match_routes:
  assumes "uri_pattern_ok u" and "routes t u = Some (a, pat)"
  shows "Match t u = Inr \<lparr>UriPattern = pat, QueryParams = Map.empty, PathParams = Map.empty, Value = Some a\<rparr>"
proof -
  have "plain_path u" "u \<noteq> []" using assms(1) by (auto simp: uri_pattern_ok_def plain_path_def)
  then show ?thesis using assms(2) by (simp add: Match_plain routes_def matchByPath_routes)
qed

lemma cm_RegisterService_done:
  assumes "cm_RegisterService E ini a m w = Ret (m', None, w')"
  obtains s t w1 w2 where "ini (cm_heap m a) w = Ret (s, None, w1)" "add_routes a (cs_FullServiceUris s) [] (cm_trie m) = (t, None)"
    "cm_trie m' = t" "cm_heap m' a = s\<lparr>cs_status := ServiceStatusRegistered\<rparr>" "cm_services m' = AList.update (cs_id s) a (cm_services m)"
    "map_of (cm_services m) (cs_id s) = None"
proof -
  obtain s w1 where s: "ini (cm_heap m a) w = Ret (s, None, w1)" "map_of (cm_services m) (cs_id s) = None"
    using assms by (auto simp: cm_RegisterService_def Let_def split: go.splits option.splits prod.splits if_splits)
  obtain t where t: "add_routes a (cs_FullServiceUris s) [] (cm_trie m) = (t, None)"
    using assms s by (auto simp: cm_RegisterService_def Let_def split: go.splits option.splits prod.splits if_splits)
  obtain s' w2 where reg: "cs_Register E s w1 = Ret (s', None, w2)"
    using assms s t by (auto simp: cm_RegisterService_def Let_def split: go.splits option.splits prod.splits if_splits)
  then have s': "s' = s\<lparr>cs_status := ServiceStatusRegistered\<rparr>"
    by (auto simp: cs_Register_def split: option.splits prod.splits)
  show thesis
    by (rule that [OF s(1) t]) (use assms s t reg s' in \<open>auto simp: cm_RegisterService_def Let_def split: go.splits\<close>)
qed

section \<open>From the connection to the handler and back\<close>

text \<open>A service that waits for its answers and has no work.\<close>

definition client_idle :: "'h ClientService \<Rightarrow> string \<Rightarrow> bool" where
  "client_idle s i \<longleftrightarrow> cs_executionType s = ServiceExecutionSync \<and> executor (cs_taskQueue s) \<and> tasks (cs_taskQueue s) = [] \<and>
     \<not> queue_Has (cs_taskQueue s) i"

text \<open>A handler answers every request that is being processed and still open.\<close>

definition answers_open :: "'h caller \<Rightarrow> 'h \<Rightarrow> params \<Rightarrow> params \<Rightarrow> (Message \<Rightarrow> Message) \<Rightarrow> bool" where
  "answers_open call f ps qs reply \<longleftrightarrow>
     (\<forall>r. sr_status r = ServiceRequestStatusProcessing \<longrightarrow> sr_barrier r = Some NewStatefulBarrier \<longrightarrow>
       call f r ps qs = (fst (Resolve r (Some (reply (sr_message r)))), Ret None))"

lemma client_Execute_answers:
  assumes "req_routed r pat ps qs conn" and "map_of h pat = Some m" and "map_of m (messageType (sr_message r)) = Some f"
    and "answers_open call f ps qs reply" and "sr_status r = ServiceRequestStatusProcessing"
    and "sr_barrier r = Some NewStatefulBarrier"
  shows "\<exists>r'. client_Execute identity call h r = (r', Ret ()) \<and> Response r' = Some (Ret (reply (sr_message r)))"
proof -
  have ok: "req_ok r" using assms(5,6) by (simp add: req_ok_def NewStatefulBarrier_def NewWaitLock_def)
  have "select_handler h b pat r = (r, Ret (Some f))" for b
    by (subst select_handler_branches [OF ok assms(5)]) (simp_all add: assms(2,3,6) del: map_of_eq_Some_iff)
  then have "default_Handle call h r = call f r ps qs" by (simp add: default_Handle_select [OF assms(1)])
  then show ?thesis using assms(4-6) Resolve_responds [OF ok assms(5), of "reply (sr_message r)"]
    by (simp add: client_Execute_def answers_open_def)
qed

lemma cs_Handle_idle:
  assumes "client_idle s (m_id (sr_message r))" and "sr_status r = ServiceRequestStatusQueued"
    and "client_Execute (rd_Id (cs_identity s)) call (cs_handler s) (r\<lparr>sr_status := ServiceRequestStatusProcessing\<rparr>) = (r', Ret ())"
    and "Response r' = Some (Ret resp)"
  shows "\<exists>s'. cs_Handle call a r s = Finished (s', Ret (Some resp))"
proof -
  let ?q = "cs_taskQueue s"
  let ?q1 = "?q\<lparr>requests := (requests ?q)(a := r)\<rparr>"
  let ?exec = "\<lambda>a reqs. reqs(a := fst (client_Execute (rd_Id (cs_identity s)) call (cs_handler s) (reqs a)))"
  have sched: "queue_Schedule ?q1 a = (?q1\<lparr>requestSet := AList.update (m_id (sr_message r)) a (requestSet ?q), tasks := [a]\<rparr>, True)"
    using assms(1) by (simp add: queue_Schedule_def client_idle_def queue_Has_def req_id_def)
  obtain q' where "run_task ?exec (fst (queue_Schedule ?q1 a)) = Ret q'" "requests q' = (requests ?q)(a := r')"
    using assms(1-3)
    by (auto simp: sched run_task_def Let_def UnProcessableServiceRequestMap_def client_idle_def TransitStatus_def
        setStatus_def queue_Remove_def)
  then show ?thesis using assms
    by (simp add: cs_Handle_def cs_Handle_schedule_def sched client_idle_def cs_run_task_def Let_def
        UnProcessableServiceRequestMap_def TransitStatus_def setStatus_def cs_Handle_result_def)
qed

lemma ConnectionTypeMiddleware_routed:
  "\<exists>r. bind_go (registerRequestMetaContext (NewServiceRequest m) ctx) (ConnectionTypeMiddleware ty) = Ret r \<and> sr_message r = m \<and>
     sr_status r = ServiceRequestStatusQueued \<and> sr_barrier r = Some NewStatefulBarrier \<and>
     req_routed r (UriPattern ctx) (PathParams ctx) (QueryParams ctx) (Some ty)"
  unfolding registerRequestMetaContext_New
  by (simp add: ConnectionTypeMiddleware_def SetContext_def routed_request_def NewServiceRequest_def req_routed_def GetContext_def)

lemma client_handle_executed:
  assumes "cm_MatchServiceByUri cm (m_uri m) = Inr ctx" and "Value ctx = Some s" and "client_idle (cm_heap cm s) (m_id m)"
    and "\<And>r. req_routed r (UriPattern ctx) (PathParams ctx) (QueryParams ctx) (Some (ci_type (oc_info c))) \<Longrightarrow> sr_message r = m \<Longrightarrow>
      sr_status r = ServiceRequestStatusProcessing \<Longrightarrow> sr_barrier r = Some NewStatefulBarrier \<Longrightarrow>
      \<exists>r'. client_Execute (rd_Id (cs_identity (cm_heap cm s))) call (cs_handler (cm_heap cm s)) r = (r', Ret ()) \<and> Response r' = Some (Ret resp)"
    and "\<And>x. wr x = None" and "\<not> oc_open c"
  shows "\<exists>cm' c'. client_handle_request text wr call identity a m c cm = Finished (cm', c', Ret None) \<and> oc_out c' = oc_out c @ [resp]"
proof -
  obtain r where r: "bind_go (registerRequestMetaContext (NewServiceRequest m) ctx) (ConnectionTypeMiddleware (ci_type (oc_info c))) = Ret r"
      "sr_message r = m" "sr_status r = ServiceRequestStatusQueued" "sr_barrier r = Some NewStatefulBarrier"
      "req_routed r (UriPattern ctx) (PathParams ctx) (QueryParams ctx) (Some (ci_type (oc_info c)))"
    using ConnectionTypeMiddleware_routed by metis
  let ?r = "r\<lparr>sr_status := ServiceRequestStatusProcessing\<rparr>" and ?s = "cm_heap cm s"
  have "req_routed ?r (UriPattern ctx) (PathParams ctx) (QueryParams ctx) (Some (ci_type (oc_info c)))"
    using r(5) by (simp add: req_routed_def GetContext_def)
  then obtain r' where r': "client_Execute (rd_Id (cs_identity ?s)) call (cs_handler ?s) ?r = (r', Ret ())" "Response r' = Some (Ret resp)"
    using assms(4) [of ?r] r(2,4) by auto
  obtain s' where s': "cs_Handle call a r ?s = Finished (s', Ret (Some resp))"
    using cs_Handle_idle [OF _ r(3) r'] assms(3) r(2) by auto
  obtain o' where "conn_Send wr (Some resp) c = (c\<lparr>oc_open := o', oc_out := oc_out c @ [resp]\<rparr>, Ret None)"
    using conn_Send_writes [of "wr", OF assms(5,6)] by blast
  then show ?thesis using assms(1,2) r(1) s' by (simp add: client_handle_request_def Let_def)
qed

lemma client_handle_routed:
  assumes "cm_MatchServiceByUri cm (m_uri m) = Inr ctx" and "Value ctx = Some s"
    and "cs_routes (cm_heap cm s) (UriPattern ctx) (messageType m) = Some f"
    and "answers_open call f (PathParams ctx) (QueryParams ctx) reply" and "client_idle (cm_heap cm s) (m_id m)"
    and "\<And>x. wr x = None" and "\<not> oc_open c"
  shows "\<exists>cm' c'. client_handle_request text wr call identity a m c cm = Finished (cm', c', Ret None) \<and> oc_out c' = oc_out c @ [reply m]"
proof (rule client_handle_executed [OF assms(1,2,5)])
  fix r assume r: "req_routed r (UriPattern ctx) (PathParams ctx) (QueryParams ctx) (Some (ci_type (oc_info c)))" "sr_message r = m"
    "sr_status r = ServiceRequestStatusProcessing" "sr_barrier r = Some NewStatefulBarrier"
  obtain hs where "map_of (cs_handler (cm_heap cm s)) (UriPattern ctx) = Some hs" "map_of hs (messageType (sr_message r)) = Some f"
    using assms(3) r(2) by (auto simp: cs_routes_def split: option.splits)
  from client_Execute_answers [OF r(1) this assms(4) r(3,4)] r(2)
  show "\<exists>r'. client_Execute (rd_Id (cs_identity (cm_heap cm s))) call (cs_handler (cm_heap cm s)) r = (r', Ret ()) \<and>
      Response r' = Some (Ret (reply m))" by simp
qed (use assms(6,7) in auto)

section \<open>Properties\<close>


text \<open>A hub that acknowledges every request, for the examples.\<close>

definition sample_net :: "Message list net_env" where
  "sample_net = \<lparr>ne_request = (\<lambda>conn m w. ((Some (NewACKMessage (m_id m) ''hub'' (m_from m) (m_uri m)), None), w @ [m])),
     ne_newId = (\<lambda>w. ''m''), ne_formatTime = (\<lambda>_. ''now''), ne_live = (\<lambda>_ _. True), ne_get = (\<lambda>w. (Inr 7, w))\<rparr>"

definition sample_identity :: RoleDescriptor where
  "sample_identity = \<lparr>rd_Id = ''bob'', rd_Description = [], rd_RoleType = ''client'', rd_ExtraInfo = [], rd_Address = []\<rparr>"

definition sample_relay_client :: RelayServiceClient where
  "sample_relay_client = \<lparr>rc_clientId = ''bob'', rc_serverConn = 1\<rparr>"

definition sample_echo :: "client_fn ClientService" where
  "sample_echo = (NewClientService sample_identity (Some sample_relay_client) (\<lambda>_. NewServiceRequest sample_message) 0 ''mirror'' [] ServiceAccessTypeBoth ServiceExecutionSync sample_identity)
    \<lparr>cs_serviceUris := [''/echo''], cs_handler := [(''/mirror/echo'', [(MessageTypeServiceGetRequest, FnEcho)])]\<rparr>"

definition sample_client_manager :: "client_fn ClientServiceManager" where
  "sample_client_manager = \<lparr>cm_trie = NewTrieTree, cm_services = [], cm_heap = (\<lambda>_. sample_echo), cm_conns = [Some 7], cm_client = sample_relay_client\<rparr>"

definition echo_caller :: "client_fn caller" where
  "echo_caller f r ps qs = Echo sample_identity r"

lemma Echo_answers:
  "answers_open echo_caller FnEcho ps qs (\<lambda>m. NewMessage (m_id m) ''bob'' (m_from m) (m_uri m) MessageTypeSvcResponseOK (payload m))"
  by (simp add: answers_open_def echo_caller_def Echo_def cs_ResolveByResponse_def request_defs NewStatefulBarrier_def NewWaitLock_def
      sample_identity_def Let_def)

lemma sample_registered:
  "\<exists>t w. add_routes 0 [''/mirror/echo''] [] NewTrieTree = (t, None) \<and>
     cm_RegisterService sample_net (\<lambda>_ w. Ret (sample_echo, None, w)) 0 sample_client_manager [] =
       Ret (sample_client_manager\<lparr>cm_trie := t, cm_services := [(''mirror'', 0)],
         cm_heap := (cm_heap sample_client_manager)(0 := sample_echo\<lparr>cs_status := ServiceStatusRegistered\<rparr>)\<rparr>, None, w)"
proof -
  have "snd (add_routes 0 [''/mirror/echo''] [] NewTrieTree) = None" by code_simp
  then obtain t where t: "add_routes 0 [''/mirror/echo''] [] NewTrieTree = (t, None)" by (metis prod.collapse)
  have uris: "cs_FullServiceUris sample_echo = [''/mirror/echo'']" "cs_id sample_echo = ''mirror''"
    "cs_smClient sample_echo = Some sample_relay_client"
    by (simp_all add: cs_FullServiceUris_def sample_echo_def NewClientService_def ServicePrefix_def)
  show ?thesis using t
    by (simp add: cm_RegisterService_def uris sample_client_manager_def Let_def cs_Register_def rc_RegisterService_def requestMessage_def
        requestWithConn_def sample_net_def NewACKMessage_def NewMessage_def IsErrorMessage_def updateServiceProviders_def)
qed



lemma sample_echo_uris:
  "cs_FullServiceUris sample_echo = [''/mirror/echo'']" "cs_id sample_echo = ''mirror''" "cs_uriPrefix sample_echo = ''/mirror''"
  "rd_Id (sd_Provider (cs_Describe sample_echo)) = ''bob''" "sd_Id (cs_Describe sample_echo) = ''mirror''"
  by (simp_all add: cs_FullServiceUris_def sample_echo_def NewClientService_def ServicePrefix_def cs_Describe_def sample_identity_def)


text \<open>
  The echo service of the client cannot be set up: its only route is the prefix of the service, which leaves an empty
  short uri, and \<open>RegisterRoute\<close> reads the last byte of it.
\<close>

theorem echo_service_panics: "echo_Init E identity smClient reqs now server w = Panic"
  by (simp add: echo_Init_def cs_RegisterRoute_def NewClientService_def EchoServiceRouteEcho_def EchoServiceID_def ServicePrefix_def
      HasPrefix_def TrimPrefix_def)

section \<open>The life of a service\<close>

text \<open>What happens to a service: calls of its methods and runs of the job of its health check.\<close>

inductive cs_reach :: "'w net_env \<Rightarrow> 'h ClientService \<Rightarrow> bool" for E where
  new: "cs_reach E (NewClientService identity smClient reqs now i desc aType eType server)"
| route: "cs_reach E s \<Longrightarrow> cs_RegisterRoute E ty uri h s w = Ret (s', e, w') \<Longrightarrow> cs_reach E s'"
| unroute: "cs_reach E s \<Longrightarrow> cs_UnregisterRoute E ty uri s w = (s', e, w') \<Longrightarrow> cs_reach E s'"
| describe: "cs_reach E s \<Longrightarrow> UpdateDescription E d s w = (s', e, w') \<Longrightarrow> cs_reach E s'"
| register: "cs_reach E s \<Longrightarrow> cs_Register E s w = Ret (s', e, w') \<Longrightarrow> cs_reach E s'"
| start: "cs_reach E s \<Longrightarrow> cs_Start E now s w = (s', e, w') \<Longrightarrow> cs_reach E s'"
| stop: "cs_reach E s \<Longrightarrow> cs_Stop E s w = Ret (s', e, w') \<Longrightarrow> cs_reach E s'"
| health: "cs_reach E s \<Longrightarrow> IsJobScheduled (cs_health s) \<Longrightarrow> cs_healthCheckJob E s w = ((s', Ret cbs), w') \<Longrightarrow> cs_reach E s'"
| queue: "cs_reach E s \<Longrightarrow> executor q = executor (cs_taskQueue s) \<Longrightarrow> cs_reach E (s\<lparr>cs_taskQueue := q\<rparr>)"

definition cs_ok :: "'h ClientService \<Rightarrow> bool" where
  "cs_ok s \<longleftrightarrow> cs_status s \<in> {ServiceStatusUnregistered, ServiceStatusRegistered, ServiceStatusRunning, ServiceStatusDead} \<and>
     cs_uriPrefix s = ServicePrefix @ ''/'' @ cs_id s \<and>
     (cs_status s \<in> {ServiceStatusRunning, ServiceStatusDead} \<longrightarrow> IsJobScheduled (cs_health s))"

lemma scheduled_keep [simp]:
  "IsJobScheduled (StartHealthCheck now h)" "IsJobScheduled (StopHealthCheck h) = IsJobScheduled h"
  "IsJobScheduled (fst (doHealthCheck b h)) = IsJobScheduled h"
  by (auto simp: IsJobScheduled_def StartHealthCheck_def StopHealthCheck_def doHealthCheck_def Let_def)

lemma cs_KillAll_fields [simp]:
  "cs_status (fst (cs_KillAllProcessingJobs s)) = cs_status s" "cs_uriPrefix (fst (cs_KillAllProcessingJobs s)) = cs_uriPrefix s"
  "cs_id (fst (cs_KillAllProcessingJobs s)) = cs_id s" "cs_health (fst (cs_KillAllProcessingJobs s)) = cs_health s"
  by (simp_all add: cs_KillAllProcessingJobs_def case_prod_beta)

lemma cs_healthCheckJob_ok:
  assumes "cs_ok s" and "IsJobScheduled (cs_health s)"
  shows "cs_ok (fst (fst (cs_healthCheckJob E s w)))"
proof (cases "cs_smClient s")
  case (Some c)
  have h: "IsJobScheduled (fst (doHealthCheck b (cs_health s)))" for b using assms(2) by simp
  show ?thesis using Some assms(1) h
    by (auto simp: cs_ok_def cs_healthCheckJob_def onHealthCheckFailedInternalHandler_def onHealthCheckRestoredInternalHandler_def
        case_prod_beta Let_def split: list.splits health_callback.splits)
qed (use assms in \<open>simp add: cs_healthCheckJob_def\<close>)

lemma cs_reach_ok: "cs_reach E s \<Longrightarrow> cs_ok s"
proof (induction rule: cs_reach.induct)
  case (health s w s' cbs w')
  then show ?case using cs_healthCheckJob_ok [of s E w] by simp
next
  case (start s now w s' e w')
  then show ?case by (auto simp: cs_ok_def cs_Start_def Let_def split: prod.splits option.splits if_splits)
next
  case (stop s w s' e w')
  then show ?case by (auto simp: cs_ok_def cs_Stop_def Let_def split: prod.splits option.splits if_splits)
next
  case (route s ty uri h w s' e w')
  then show ?case by (auto simp: cs_ok_def cs_RegisterRoute_def Let_def split: prod.splits option.splits if_splits)
next
  case (unroute s ty uri w s' e w')
  then show ?case by (auto simp: cs_ok_def cs_UnregisterRoute_def Let_def split: prod.splits option.splits if_splits)
qed (auto simp: cs_ok_def NewClientService_def UpdateDescription_def cs_Register_def split: prod.splits option.splits)

text \<open>
  C28. The life cycle of a client service. Between calls a service is unregistered, registered, running or dead, and it is
  running or dead only if its health check has been started. Only a registered service starts; a start that the hub
  confirms makes it running and one that the hub refuses leaves it registered. A stop that the hub confirms leaves it
  unregistered and without executor.
\<close>

theorem client_service_life_cycle:
  assumes "cs_reach E s"
  shows "cs_status s \<in> {ServiceStatusUnregistered, ServiceStatusRegistered, ServiceStatusRunning, ServiceStatusDead} \<and>
    (cs_status s \<in> {ServiceStatusRunning, ServiceStatusDead} \<longrightarrow> IsJobScheduled (cs_health s)) \<and>
    (case cs_Start E now s w of
       (s', None, w') \<Rightarrow> cs_status s = ServiceStatusRegistered \<and> cs_status s' = ServiceStatusRunning
     | (s', Some e, w') \<Rightarrow> cs_status s' = cs_status s) \<and>
    (case cs_Stop E s w of
       Panic \<Rightarrow> cs_smClient s = None
     | Ret (s', None, w') \<Rightarrow> cs_status s \<noteq> ServiceStatusUnregistered \<and> cs_status s' = ServiceStatusUnregistered \<and> \<not> executor (cs_taskQueue s')
     | Ret (s', Some e, w') \<Rightarrow> cs_status s' = cs_status s)"
proof -
  have "cs_ok s" using assms by (rule cs_reach_ok)
  moreover have "case cs_Start E now s w of
       (s', None, w') \<Rightarrow> cs_status s = ServiceStatusRegistered \<and> cs_status s' = ServiceStatusRunning
     | (s', Some e, w') \<Rightarrow> cs_status s' = cs_status s"
    by (auto simp: cs_Start_def Let_def split: prod.splits option.splits)
  moreover have "case cs_Stop E s w of
       Panic \<Rightarrow> cs_smClient s = None
     | Ret (s', None, w') \<Rightarrow> cs_status s \<noteq> ServiceStatusUnregistered \<and> cs_status s' = ServiceStatusUnregistered \<and> \<not> executor (cs_taskQueue s')
     | Ret (s', Some e, w') \<Rightarrow> cs_status s' = cs_status s"
    by (auto simp: cs_Stop_def Let_def queue_Stop_def split: prod.splits option.splits)
  ultimately show ?thesis by (auto simp: cs_ok_def)
qed

theorem client_service_life_cycle_witness:
  "\<exists>(s :: client_fn ClientService) w. cs_reach sample_net s \<and> cs_status s = ServiceStatusRunning \<and> IsJobScheduled (cs_health s) \<and>
    (case cs_Stop sample_net s w of Ret (s', None, _) \<Rightarrow> cs_status s' = ServiceStatusUnregistered | _ \<Rightarrow> False)"
proof -
  let ?n = "NewClientService sample_identity (Some sample_relay_client) (\<lambda>_. NewServiceRequest sample_message) 0 ''mirror'' [] 2 1 sample_identity
    :: client_fn ClientService"
  note net = rc_RegisterService_def rc_UpdateService_def rc_UnregisterService_def requestMessage_def requestWithConn_def sample_net_def
    NewACKMessage_def NewMessage_def IsErrorMessage_def NotifyHostForUpdate_def
  let ?s1 = "?n\<lparr>cs_status := ServiceStatusRegistered\<rparr>"
  let ?s2 = "?s1\<lparr>cs_status := ServiceStatusRunning, cs_health := StartHealthCheck 0 (cs_health ?s1)\<rparr>"
  have fields: "cs_smClient ?n = Some sample_relay_client" "cs_status ?n = ServiceStatusUnregistered" by (simp_all add: NewClientService_def)
  have "cs_reach sample_net ?n" by (rule cs_reach.new)
  moreover obtain w1 where "cs_Register sample_net ?n [] = Ret (?s1, None, w1)" by (simp add: cs_Register_def fields net)
  ultimately have "cs_reach sample_net ?s1" by (rule cs_reach.register)
  moreover obtain w2 where "cs_Start sample_net 0 ?s1 [] = (?s2, None, w2)" by (simp add: cs_Start_def fields net)
  ultimately have reach: "cs_reach sample_net ?s2" by (rule cs_reach.start)
  have "\<exists>s' w3. cs_Stop sample_net ?s2 [] = Ret (s', None, w3)" by (simp add: cs_Stop_def fields net)
  moreover have "cs_status ?s2 = ServiceStatusRunning" by simp
  ultimately have "\<exists>s :: client_fn ClientService. cs_reach sample_net s \<and> cs_status s = ServiceStatusRunning \<and> (\<exists>s' w3. cs_Stop sample_net s [] = Ret (s', None, w3))"
    using reach by blast
  then obtain s :: "client_fn ClientService" where s: "cs_reach sample_net s" "cs_status s = ServiceStatusRunning" "\<exists>s' w3. cs_Stop sample_net s [] = Ret (s', None, w3)"
    by blast
  then obtain s' w3 where stop: "cs_Stop sample_net s [] = Ret (s', None, w3)" by blast
  note life = client_service_life_cycle [OF s(1), of 0 "[]"]
  have "IsJobScheduled (cs_health s)" "cs_status s' = ServiceStatusUnregistered" using life s(2) stop by auto
  then have "case cs_Stop sample_net s [] of Ret (s', None, _) \<Rightarrow> cs_status s' = ServiceStatusUnregistered | _ \<Rightarrow> False"
    using stop by simp
  then show ?thesis using s(1,2) \<open>IsJobScheduled (cs_health s)\<close> by blast
qed

text \<open>
  A stopped service comes back to life. The timer of the health check outlives \<open>Stop\<close>, and its callbacks do not look at
  the status: after one failed and one successful check the stopped service is running again, without executor, so that
  the first request it takes ends the process.
\<close>

theorem stopped_client_service_revives:
  assumes "cs_Stop E s w = Ret (s1, None, w1)" and "requestSet (cs_taskQueue s1) = []"
    and "cs_onFails s1 = None" and "hc_hasFailed (cs_health s1)" and "hc_hasRestored (cs_health s1)" and "cs_smClient s1 = Some c"
    and "rc_HealthCheck E c w1 = (Some err, w2)" and "rc_HealthCheck E c w2 = (None, w3)"
  shows "\<exists>s2 s3. cs_healthCheckJob E s1 w1 = ((s2, Ret []), w2) \<and> cs_healthCheckJob E s2 w2 = ((s3, Ret []), w3) \<and>
    cs_status s3 = ServiceStatusRunning \<and> \<not> executor (cs_taskQueue s3) \<and>
    run_task exec (cs_taskQueue s3\<lparr>tasks := a # ts, requests := (requests (cs_taskQueue s3))(a := NewServiceRequest m)\<rparr>) = Panic"
proof -
  have q: "\<not> executor (cs_taskQueue s1)" using assms(1) by (auto simp: cs_Stop_def Let_def queue_Stop_def split: if_splits option.splits prod.splits)
  have kill: "KillAll (cs_taskQueue s1) = (cs_taskQueue s1, Ret False)" using assms(2) by (simp add: KillAll_def)
  let ?s2 = "s1\<lparr>cs_health := (cs_health s1)\<lparr>hc_onRetry := True\<rparr>, cs_status := ServiceStatusDead\<rparr>"
  have job1: "cs_healthCheckJob E s1 w1 = ((?s2, Ret []), w2)"
    using assms(3-7) kill by (simp add: cs_healthCheckJob_def doHealthCheck_def onHealthCheckFailedInternalHandler_def
        cs_KillAllProcessingJobs_def call_restored_def)
  let ?s3 = "?s2\<lparr>cs_health := (cs_health ?s2)\<lparr>hc_onRetry := False\<rparr>, cs_status := ServiceStatusRunning\<rparr>"
  have "cs_healthCheckJob E ?s2 w2 = ((?s3, Ret []), w3)"
    using assms(3-8) by (simp add: cs_healthCheckJob_def doHealthCheck_def onHealthCheckRestoredInternalHandler_def call_restored_def)
  then show ?thesis using job1 q
    by (intro exI [of _ ?s2] exI [of _ ?s3]) (simp add: run_task_def Let_def UnProcessableServiceRequestMap_def NewServiceRequest_def)
qed

text \<open>A hub that fails the second request.\<close>

definition flaky_net :: "nat net_env" where
  "flaky_net = \<lparr>ne_request = (\<lambda>conn m w. ((None, if w = 1 then Some ''down'' else None), w + 1)), ne_newId = (\<lambda>w. ''m''),
     ne_formatTime = (\<lambda>_. ''now''), ne_live = (\<lambda>_ _. True), ne_get = (\<lambda>w. (Inr 7, w))\<rparr>"

theorem stopped_client_service_revives_witness:
  "\<exists>s1 s2 s3. cs_Stop flaky_net (sample_echo\<lparr>cs_status := ServiceStatusRegistered\<rparr>) 0 = Ret (s1, None, 1) \<and>
    cs_healthCheckJob flaky_net s1 1 = ((s2, Ret []), 2) \<and> cs_healthCheckJob flaky_net s2 2 = ((s3, Ret []), 3) \<and>
    cs_status s3 = ServiceStatusRunning"
proof -
  let ?s = "sample_echo\<lparr>cs_status := ServiceStatusRegistered\<rparr>"
  let ?s1 = "?s\<lparr>cs_health := StopHealthCheck (cs_health ?s), cs_taskQueue := queue_Stop (cs_taskQueue ?s), cs_status := ServiceStatusUnregistered\<rparr>"
  note net = rc_UnregisterService_def rc_HealthCheck_def requestMessage_def requestWithConn_def flaky_net_def
  have fields: "cs_smClient sample_echo = Some sample_relay_client" "cs_onFails sample_echo = None" "requestSet (cs_taskQueue sample_echo) = []"
    "hc_hasFailed (cs_health sample_echo)" "hc_hasRestored (cs_health sample_echo)"
    by (simp_all add: sample_echo_def NewClientService_def NewServiceTaskQueue_def NewHealthCheckHandler_def)
  have stop: "cs_Stop flaky_net ?s 0 = Ret (?s1, None, 1)" by (simp add: cs_Stop_def fields net)
  have checks: "rc_HealthCheck flaky_net sample_relay_client 1 = (Some ''down'', 2)" "rc_HealthCheck flaky_net sample_relay_client 2 = (None, 3)"
    by (simp_all add: net)
  have s1: "requestSet (cs_taskQueue ?s1) = []" "cs_onFails ?s1 = None" "hc_hasFailed (cs_health ?s1)" "hc_hasRestored (cs_health ?s1)"
    "cs_smClient ?s1 = Some sample_relay_client"
    by (simp_all add: fields queue_Stop_def StopHealthCheck_def)
  show ?thesis using stop stopped_client_service_revives [OF stop s1 checks] by blast
qed

text \<open>A client with two services.\<close>

definition two_services :: "client_fn ClientServiceManager" where
  "two_services = sample_client_manager
    \<lparr>cm_trie := fst (add_routes 1 [''/files/list''] [] (fst (add_routes 0 [''/mirror/echo''] [] NewTrieTree))),
     cm_services := [(''mirror'', 0), (''files'', 1)],
     cm_heap := (\<lambda>a. if a = 0 then sample_echo\<lparr>cs_status := ServiceStatusRegistered\<rparr>
       else sample_echo\<lparr>cs_id := ''files'', cs_uriPrefix := ''/files'', cs_serviceUris := [''/list''], cs_status := ServiceStatusRegistered\<rparr>)\<rparr>"

definition offers :: "'h ClientServiceManager \<Rightarrow> string \<Rightarrow> nat \<Rightarrow> bool" where
  "offers m uri a = (case cm_MatchServiceByUri m uri of Inl _ \<Rightarrow> False | Inr ctx \<Rightarrow> Value ctx = Some a)"

text \<open>
  Unregistering a service at the client asks the trie to remove its short uris instead of its full ones. Such a path is
  not in the trie, and the removal then takes away the node above the missing segment: here the routes of every other
  service, which stays registered.
\<close>

theorem client_unregister_wipes_routes:
  "offers two_services ''/files/list'' 1 \<and>
   (\<exists>cm w. cm_UnregisterService sample_net 0 two_services [] = Ret (cm, None, w) \<and> cm_GetServiceById cm ''files'' = Some 1 \<and>
     \<not> offers cm ''/files/list'' 1)"
proof -
  let ?t = "fst (add_routes 1 [''/files/list''] [] (fst (add_routes 0 [''/mirror/echo''] [] (NewTrieTree :: nat TrieTree))))"
  have before: "case Match ?t ''/files/list'' of Inl _ \<Rightarrow> False | Inr ctx \<Rightarrow> Value ctx = Some 1" by code_simp
  have after: "\<not> (case Match (fst (Remove ?t ''/echo'')) ''/files/list'' of Inl _ \<Rightarrow> False | Inr ctx \<Rightarrow> Value ctx = Some 1)" by code_simp
  have fields: "cs_id sample_echo = ''mirror''" "cs_serviceUris sample_echo = [''/echo'']" "cs_smClient sample_echo = Some sample_relay_client"
    by (simp_all add: sample_echo_def NewClientService_def)
  obtain s w where stop: "cs_Stop sample_net (cm_heap two_services 0) [] = Ret (s, None, w)" "cs_serviceUris s = [''/echo'']"
    by (simp add: two_services_def cs_Stop_def fields rc_UnregisterService_def requestMessage_def requestWithConn_def sample_net_def
        NewACKMessage_def NewMessage_def IsErrorMessage_def)
  have two: "cs_id (cm_heap two_services 0) = ''mirror''" "cm_services two_services = [(''mirror'', 0), (''files'', 1)]"
    "cm_trie two_services = ?t" by (simp_all add: two_services_def fields)
  have un: "cm_UnregisterService sample_net 0 two_services [] = Ret (two_services\<lparr>cm_heap := (cm_heap two_services)(0 := s),
      cm_trie := fst (Remove ?t ''/echo''), cm_services := [(''files'', 1)]\<rparr>, None, w)"
    by (simp only: cm_UnregisterService_def two stop Let_def) (simp add: stop)
  show ?thesis using before after un by (simp only: offers_def cm_MatchServiceByUri_def two) (simp add: cm_GetServiceById_def)
qed

end
