(* ===== verification/Notifications.thy ===== *)
theory Notifications
  imports Prelude "HOL-Library.Multiset"
begin

text \<open>
  The emitter of \<open>src/common/notification/Notification.go\<close>; \<open>src/hub_common/notification/MessageNotifications.go\<close> is the
  same code with messages as payload.

  The listeners of an event are a slice: an array in a store, shared by every copy of the slice, and a length. \<open>Off\<close>
  compares code pointers, which all wrappers made by \<open>Once\<close> have in common; a listener is therefore its code pointer
  with the object it closes over, or the wrapper number \<open>k\<close> of \<open>Once\<close>. A \<open>nil\<close> slice and a missing key are both \<open>None\<close>:
  no operation tells them apart. \<open>Notify\<close> is a run of steps: the loop reads its slice element by element while the
  goroutines it has started call their listeners. A call of \<open>On\<close> or \<open>Off\<close> is one step.
\<close>

section \<open>The emitter\<close>

definition DefaultMaxListeners :: nat where "DefaultMaxListeners = 256"

datatype listener = Plain nat nat | OnceWrapper nat

text \<open>\<open>reflect.ValueOf(f).Pointer()\<close>.\<close>

fun code_pointer :: "listener \<Rightarrow> nat" where
  "code_pointer (Plain c obj) = Suc c"
| "code_pointer (OnceWrapper k) = 0"

record emitter =
  em_listeners :: "string \<rightharpoonup> nat \<times> nat"
  em_arrays :: "nat \<Rightarrow> nat \<Rightarrow> listener"
  em_next :: nat
  em_max :: nat

definition em_New :: "int \<Rightarrow> emitter" where
  "em_New n =
     \<lparr>em_listeners = Map.empty, em_arrays = (\<lambda>_ _. Plain 0 0), em_next = 0,
      em_max = (if n < 1 \<or> n > int DefaultMaxListeners then DefaultMaxListeners else nat n)\<rparr>"

definition getMessageListeners :: "emitter \<Rightarrow> string \<Rightarrow> listener list" where
  "getMessageListeners e ev =
     (case em_listeners e ev of None \<Rightarrow> [] | Some (a, n) \<Rightarrow> map (em_arrays e a) [0..<n])"

text \<open>
  The array is made with room for \<open>em_max\<close> listeners, so \<open>append\<close> writes into it. The result says whether the listener was
  refused.
\<close>

definition addMessageListener :: "string \<Rightarrow> listener \<Rightarrow> emitter \<Rightarrow> emitter \<times> bool" where
  "addMessageListener ev l e =
     (case em_listeners e ev of
        None \<Rightarrow>
          (e\<lparr>em_arrays := (em_arrays e)(em_next e := (em_arrays e (em_next e))(0 := l)),
             em_listeners := (em_listeners e)(ev \<mapsto> (em_next e, 1)), em_next := em_next e + 1\<rparr>, False)
      | Some (a, n) \<Rightarrow>
          (if n \<ge> em_max e then (e, True)
           else
             (e\<lparr>em_arrays := (em_arrays e)(a := (em_arrays e a)(n := l)),
                em_listeners := (em_listeners e)(ev \<mapsto> (a, n + 1))\<rparr>, False)))"

text \<open>\<open>None\<close> is the result -1.\<close>

definition indexOfMessageListener :: "string \<Rightarrow> listener \<Rightarrow> emitter \<Rightarrow> nat option" where
  "indexOfMessageListener ev l e =
     (case em_listeners e ev of
        None \<Rightarrow> None
      | Some (a, n) \<Rightarrow> find (\<lambda>i. code_pointer (em_arrays e a i) = code_pointer l) [0..<n])"

definition MessageListenerCount :: "emitter \<Rightarrow> string \<Rightarrow> nat" where
  "MessageListenerCount e ev = (case em_listeners e ev of None \<Rightarrow> 0 | Some (a, n) \<Rightarrow> n)"

text \<open>\<open>append(s[:i], s[i+1:]...)\<close> moves the elements after \<open>i\<close> inside the array.\<close>

definition removeIthMessageListener :: "string \<Rightarrow> nat option \<Rightarrow> emitter \<Rightarrow> emitter" where
  "removeIthMessageListener ev idx e =
     (if idx = None \<or> MessageListenerCount e ev = 0 then e
      else (case em_listeners e ev of
          None \<Rightarrow> e
        | Some (a, n) \<Rightarrow>
            (if n = 0 then e
             else if n = 1 then e\<lparr>em_listeners := (em_listeners e)(ev := None)\<rparr>
             else
               (let i = the idx; arr = em_arrays e a in
                e\<lparr>em_arrays := (em_arrays e)(a := (\<lambda>j. if i \<le> j \<and> j < n - 1 then arr (j + 1) else arr j)),
                  em_listeners := (em_listeners e)(ev \<mapsto> (a, n - 1))\<rparr>))))"

definition HasEvent :: "emitter \<Rightarrow> string \<Rightarrow> bool" where
  "HasEvent e ev \<longleftrightarrow> em_listeners e ev \<noteq> None"

definition em_On :: "string \<Rightarrow> listener \<Rightarrow> emitter \<Rightarrow> emitter \<times> bool" where
  "em_On ev l e = addMessageListener ev l e"

definition em_Off :: "string \<Rightarrow> listener \<Rightarrow> emitter \<Rightarrow> emitter" where
  "em_Off ev l e =
     (if \<not> HasEvent e ev then e else removeIthMessageListener ev (indexOfMessageListener ev l e) e)"

definition em_OffAll :: "string \<Rightarrow> emitter \<Rightarrow> emitter" where
  "em_OffAll ev e = (if \<not> HasEvent e ev then e else e\<lparr>em_listeners := (em_listeners e)(ev := None)\<rparr>)"

section \<open>Once and Notify\<close>

text \<open>
  A goroutine of \<open>Notify\<close>: before it calls its listener, before the \<open>Off\<close> of a wrapper that has called its inner listener,
  before the store of \<open>hasFired\<close>. The inner listener of wrapper \<open>k\<close> is \<open>no_inner k\<close>; \<open>no_calls\<close> lists the plain listeners
  called so far. \<open>no_loop\<close> is the array and length that \<open>Notify\<close> read and the index of its loop.
\<close>

datatype notify_goroutine = Call listener | WrapperOff nat | WrapperSet nat

record notifier =
  no_emitter :: emitter
  no_event :: string
  no_inner :: "nat \<Rightarrow> listener"
  no_fired :: "nat \<Rightarrow> bool"
  no_loop :: "(nat \<times> nat \<times> nat) option"
  no_running :: "notify_goroutine list"
  no_calls :: "listener list"

definition em_Once :: "nat \<Rightarrow> listener \<Rightarrow> notifier \<Rightarrow> notifier \<times> bool" where
  "em_Once k l s =
     (let (e, refused) = addMessageListener (no_event s) (OnceWrapper k) (no_emitter s)
      in (s\<lparr>no_emitter := e, no_inner := (no_inner s)(k := l), no_fired := (no_fired s)(k := False)\<rparr>, refused))"

text \<open>\<open>Notify\<close> up to its loop.\<close>

definition Notify_begin :: "notifier \<Rightarrow> notifier" where
  "Notify_begin s =
     (case em_listeners (no_emitter s) (no_event s) of
        None \<Rightarrow> s
      | Some (a, n) \<Rightarrow> s\<lparr>no_loop := Some (a, n, 0)\<rparr>)"

fun notify_step :: "notify_goroutine \<Rightarrow> notifier \<Rightarrow> notifier \<times> notify_goroutine list" where
  "notify_step (Call (Plain c obj)) s = (s\<lparr>no_calls := no_calls s @ [Plain c obj]\<rparr>, [])"
| "notify_step (Call (OnceWrapper k)) s =
     (if no_fired s k then (s\<lparr>no_emitter := em_Off (no_event s) (OnceWrapper k) (no_emitter s)\<rparr>, [])
      else (s\<lparr>no_calls := no_calls s @ [no_inner s k]\<rparr>, [WrapperOff k]))"
| "notify_step (WrapperOff k) s =
     (s\<lparr>no_emitter := em_Off (no_event s) (OnceWrapper k) (no_emitter s)\<rparr>, [WrapperSet k])"
| "notify_step (WrapperSet k) s = (s\<lparr>no_fired := (no_fired s)(k := True)\<rparr>, [])"

datatype notify_action = NextListener | Run nat

definition notify_do :: "notify_action \<Rightarrow> notifier \<Rightarrow> notifier option" where
  "notify_do x s =
     (case x of
        NextListener \<Rightarrow>
          (case no_loop s of
             Some (a, n, i) \<Rightarrow>
               (if i < n then Some (s\<lparr>no_loop := Some (a, n, i + 1), no_running := no_running s @ [Call (em_arrays (no_emitter s) a i)]\<rparr>)
                else None)
           | None \<Rightarrow> None)
      | Run j \<Rightarrow>
          (if j < length (no_running s)
           then (let (s', gs) = notify_step (no_running s ! j) s
                 in Some (s'\<lparr>no_running := take j (no_running s) @ gs @ drop (Suc j) (no_running s)\<rparr>))
           else None))"

fun notify_run :: "notify_action list \<Rightarrow> notifier \<Rightarrow> notifier option" where
  "notify_run [] s = Some s"
| "notify_run (x # xs) s = (case notify_do x s of None \<Rightarrow> None | Some s' \<Rightarrow> notify_run xs s')"

text \<open>\<open>Notify\<close> returns: the loop is over and the wait group is at zero.\<close>

definition Notify_done :: "notifier \<Rightarrow> bool" where
  "Notify_done s \<longleftrightarrow> (case no_loop s of None \<Rightarrow> True | Some (a, n, i) \<Rightarrow> i = n) \<and> no_running s = []"

section \<open>The interface of an event bus\<close>

text \<open>What the users of an emitter rely on: each event has its own list of listeners.\<close>

locale event_bus =
  fixes listeners :: "'e \<Rightarrow> string \<Rightarrow> 'l list"
    and on :: "string \<Rightarrow> 'l \<Rightarrow> 'e \<Rightarrow> 'e"
    and off :: "string \<Rightarrow> 'l \<Rightarrow> 'e \<Rightarrow> 'e"
    and ok :: "'e \<Rightarrow> bool"
    and full :: "'e \<Rightarrow> string \<Rightarrow> bool"
    and same :: "'l \<Rightarrow> 'l \<Rightarrow> bool"
  assumes on_ok: "ok e \<Longrightarrow> ok (on ev l e)"
    and off_ok: "ok e \<Longrightarrow> ok (off ev l e)"
    and listeners_on: "ok e \<Longrightarrow> \<not> full e ev \<Longrightarrow> listeners (on ev l e) ev' = (if ev' = ev then listeners e ev @ [l] else listeners e ev')"
    and listeners_off: "ok e \<Longrightarrow> listeners (off ev l e) ev' =
      (if ev' = ev then (case List.extract (same l) (listeners e ev) of None \<Rightarrow> listeners e ev | Some (xs, _, ys) \<Rightarrow> xs @ ys)
       else listeners e ev')"
    and same_refl: "same l l"
begin

text \<open>A listener unlike the others can be added and taken away again.\<close>

lemma on_off:
  assumes "ok e" and "\<not> full e ev" and "list_all (\<lambda>x. \<not> same l x) (listeners e ev)"
  shows "listeners (off ev l (on ev l e)) ev' = listeners e ev'"
proof -
  have "List.extract (same l) (listeners e ev @ [l]) = Some (listeners e ev, l, [])"
    using assms(3) same_refl by (auto simp: extract_Some_iff list_all_iff)
  then show ?thesis using assms by (simp add: listeners_off on_ok listeners_on)
qed

end

section \<open>The emitter is an event bus\<close>

definition em_ok :: "emitter \<Rightarrow> bool" where
  "em_ok e \<longleftrightarrow> 1 \<le> em_max e \<and>
     (\<forall>ev a n. em_listeners e ev = Some (a, n) \<longrightarrow> 1 \<le> n \<and> n \<le> em_max e \<and> a < em_next e) \<and>
     (\<forall>ev ev' a n n'. em_listeners e ev = Some (a, n) \<longrightarrow> em_listeners e ev' = Some (a, n') \<longrightarrow> ev = ev')"

definition em_full :: "emitter \<Rightarrow> string \<Rightarrow> bool" where
  "em_full e ev \<longleftrightarrow> MessageListenerCount e ev \<ge> em_max e"

definition same_code :: "listener \<Rightarrow> listener \<Rightarrow> bool" where
  "same_code l x \<longleftrightarrow> code_pointer x = code_pointer l"

lemma em_ok_New: "em_ok (em_New n)"
  by (auto simp: em_ok_def em_New_def DefaultMaxListeners_def)

lemma em_ok_bound: "em_ok e \<Longrightarrow> em_listeners e ev = Some (a, n) \<Longrightarrow> 1 \<le> n \<and> n \<le> em_max e \<and> a < em_next e"
  by (auto simp: em_ok_def)

lemma em_ok_disjoint: "em_ok e \<Longrightarrow> em_listeners e ev = Some (a, n) \<Longrightarrow> em_listeners e ev' = Some (a, n') \<Longrightarrow> ev' = ev"
  unfolding em_ok_def by blast

lemma em_ok_cases:
  assumes "em_ok e" and "em_max e' = em_max e" and "em_next e \<le> em_next e'"
    and other: "\<And>ev'. ev' \<noteq> ev \<Longrightarrow> em_listeners e' ev' = em_listeners e ev'"
    and own: "\<And>a n. em_listeners e' ev = Some (a, n) \<Longrightarrow> 1 \<le> n \<and> n \<le> em_max e \<and> a < em_next e'"
    and fresh: "\<And>a n. em_listeners e' ev = Some (a, n) \<Longrightarrow> em_next e \<le> a \<or> (\<exists>n'. em_listeners e ev = Some (a, n'))"
  shows "em_ok e'"
  unfolding em_ok_def
proof (intro conjI allI impI)
  show "1 \<le> em_max e'" using assms(1,2) by (simp add: em_ok_def)
next
  fix ev1 a n
  assume l: "em_listeners e' ev1 = Some (a, n)"
  have "1 \<le> n \<and> n \<le> em_max e \<and> a < em_next e'"
  proof (cases "ev1 = ev")
    case False
    then have "em_listeners e ev1 = Some (a, n)" using l other by simp
    then show ?thesis using em_ok_bound [OF assms(1)] assms(3) by (meson less_le_trans)
  qed (use own l in simp)
  then show "1 \<le> n" "n \<le> em_max e'" "a < em_next e'" using assms(2) by auto
next
  fix ev1 ev2 a n1 n2
  assume l: "em_listeners e' ev1 = Some (a, n1)" "em_listeners e' ev2 = Some (a, n2)"
  have key: False if "ev' \<noteq> ev" "em_listeners e' ev' = Some (a, n')" "em_listeners e' ev = Some (a, n)" for ev' n n'
  proof -
    have old: "em_listeners e ev' = Some (a, n')" using that other by simp
    then have "a < em_next e" using em_ok_bound [OF assms(1) old] by simp
    moreover have "em_next e \<le> a \<or> (\<exists>m. em_listeners e ev = Some (a, m))" by (rule fresh [OF that(3)])
    ultimately obtain m where "em_listeners e ev = Some (a, m)" by auto
    then show False using em_ok_disjoint [OF assms(1) _ old, of ev m] that(1) by simp
  qed
  show "ev1 = ev2"
  proof (rule ccontr)
    assume ne: "ev1 \<noteq> ev2"
    consider "ev1 = ev" | "ev2 = ev" | "ev1 \<noteq> ev" "ev2 \<noteq> ev" by blast
    then show False
    proof cases
      case 1
      then show False using key [of ev2 n2 n1] l ne by simp
    next
      case 2
      then show False using key [of ev1 n1 n2] l ne by simp
    next
      case 3
      then have "em_listeners e ev1 = Some (a, n1)" "em_listeners e ev2 = Some (a, n2)" using l other by simp_all
      then show False using em_ok_disjoint [OF assms(1), of ev1 a n1 ev2 n2] ne by simp
    qed
  qed
qed

lemma em_ok_On:
  assumes "em_ok e"
  shows "em_ok (fst (em_On ev l e))"
proof (cases "em_listeners e ev")
  case None
  have "1 \<le> em_max e" using assms by (simp add: em_ok_def)
  then show ?thesis using None
    by (intro em_ok_cases [OF assms, of _ ev]) (auto simp: em_On_def addMessageListener_def)
next
  case (Some an)
  then show ?thesis using assms em_ok_bound [OF assms, of ev "fst an" "snd an"]
    by (cases an, intro em_ok_cases [OF assms, of _ ev]) (auto simp: em_On_def addMessageListener_def split: if_splits)
qed

text \<open>What \<open>Off\<close> does to the slice of its event, by the index it finds.\<close>

lemma em_Off_eq:
  assumes "em_listeners e ev = Some (a, n)"
  shows "em_Off ev l e =
    (case find (\<lambda>i. same_code l (em_arrays e a i)) [0..<n] of
       None \<Rightarrow> e
     | Some i \<Rightarrow>
         (if n = 1 then e\<lparr>em_listeners := (em_listeners e)(ev := None)\<rparr>
          else e\<lparr>em_arrays := (em_arrays e)(a := (\<lambda>j. if i \<le> j \<and> j < n - 1 then em_arrays e a (j + 1) else em_arrays e a j)),
                 em_listeners := (em_listeners e)(ev \<mapsto> (a, n - 1))\<rparr>))"
proof (cases "n = 0")
  case False
  then show ?thesis using assms
    by (simp add: em_Off_def HasEvent_def removeIthMessageListener_def indexOfMessageListener_def MessageListenerCount_def
        same_code_def Let_def split: option.split)
qed (use assms in \<open>simp add: em_Off_def HasEvent_def removeIthMessageListener_def indexOfMessageListener_def\<close>)

lemma em_Off_absent: "em_listeners e ev = None \<Longrightarrow> em_Off ev l e = e"
  by (simp add: em_Off_def HasEvent_def)

lemma em_ok_Off:
  assumes "em_ok e"
  shows "em_ok (em_Off ev l e)"
proof (cases "em_listeners e ev")
  case (Some an)
  obtain a n where an: "an = (a, n)" by (cases an)
  have here: "em_listeners e ev = Some (a, n)" using Some an by simp
  have "1 \<le> n" "n \<le> em_max e" "a < em_next e" using em_ok_bound [OF assms here] by auto
  note bound = this
  show ?thesis
  proof (cases "find (\<lambda>i. same_code l (em_arrays e a i)) [0..<n]")
    case (Some i)
    then have "em_max (em_Off ev l e) = em_max e" "em_next (em_Off ev l e) = em_next e"
      "em_listeners (em_Off ev l e) = (em_listeners e)(ev := if n = 1 then None else Some (a, n - 1))"
      by (simp_all add: em_Off_eq [OF here])
    then show ?thesis using bound here
      by (intro em_ok_cases [OF assms, of _ ev]) (auto split: if_splits)
  qed (simp add: em_Off_eq [OF here] assms)
qed (simp add: em_Off_absent assms)

lemma listeners_On:
  assumes "em_ok e" and "\<not> em_full e ev"
  shows "getMessageListeners (fst (em_On ev l e)) ev' =
    (if ev' = ev then getMessageListeners e ev @ [l] else getMessageListeners e ev')"
proof (cases "em_listeners e ev")
  case None
  have "b \<noteq> em_next e" if "em_listeners e ev' = Some (b, m)" for b m
    using em_ok_bound [OF assms(1) that] by simp
  then show ?thesis using None
    by (auto simp: em_On_def addMessageListener_def getMessageListeners_def split: option.split)
next
  case (Some an)
  obtain a n where an: "an = (a, n)" by (cases an)
  have here: "em_listeners e ev = Some (a, n)" using Some an by simp
  have n: "n < em_max e" using assms(2) here by (simp add: em_full_def MessageListenerCount_def)
  have "b \<noteq> a" if "em_listeners e ev' = Some (b, m)" "ev' \<noteq> ev" for b m
    using em_ok_disjoint [OF assms(1) here, of ev' m] that by blast
  then show ?thesis using here n
    by (auto simp: em_On_def addMessageListener_def getMessageListeners_def split: option.split)
qed

text \<open>Removal by index in an array is removal from the list.\<close>

lemma shift_list:
  assumes "i < n"
  shows "map (\<lambda>j. if i \<le> j \<and> j < n - 1 then arr (j + 1) else arr j) [0..<n - 1] =
    take i (map arr [0..<n]) @ drop (Suc i) (map arr [0..<n])"
  using assms by (intro nth_equalityI) (auto simp: nth_append)

lemma extract_index:
  assumes "find (\<lambda>i. P (arr i)) [0..<n] = Some i"
  shows "i < n" and "List.extract P (map arr [0..<n]) = Some (take i (map arr [0..<n]), arr i, drop (Suc i) (map arr [0..<n]))"
proof -
  show i: "i < n" using assms by (auto simp: find_Some_iff)
  have "P (arr i)" "\<forall>j < i. \<not> P (arr j)" using assms by (auto simp: find_Some_iff)
  moreover have "map arr [0..<n] = take i (map arr [0..<n]) @ arr i # drop (Suc i) (map arr [0..<n])"
    using i id_take_nth_drop [of i "map arr [0..<n]"] by simp
  moreover have "x \<in> set (take i (map arr [0..<n])) \<longleftrightarrow> (\<exists>j < i. x = arr j)" for x
    using i by (auto simp: take_map)
  ultimately show "List.extract P (map arr [0..<n]) = Some (take i (map arr [0..<n]), arr i, drop (Suc i) (map arr [0..<n]))"
    by (auto simp: extract_Some_iff)
qed

lemma extract_none: "find (\<lambda>i. P (arr i)) [0..<n] = None \<Longrightarrow> List.extract P (map arr [0..<n]) = None"
  by (auto simp: find_None_iff extract_None_iff)

lemma listeners_Off_other:
  assumes "em_ok e" and "ev' \<noteq> ev"
  shows "getMessageListeners (em_Off ev l e) ev' = getMessageListeners e ev'"
proof (cases "em_listeners e ev")
  case (Some an)
  obtain a n where an: "an = (a, n)" by (cases an)
  have "b \<noteq> a" if "em_listeners e ev' = Some (b, m)" for b m
    using em_ok_disjoint [OF assms(1), of ev a n ev' m] that Some an assms(2) by blast
  then show ?thesis using assms(2)
    by (auto simp: em_Off_eq [OF Some [unfolded an]] getMessageListeners_def split: option.split)
qed (simp add: em_Off_absent)

lemma listeners_Off:
  "getMessageListeners (em_Off ev l e) ev =
    (case List.extract (same_code l) (getMessageListeners e ev) of None \<Rightarrow> getMessageListeners e ev | Some (xs, _, ys) \<Rightarrow> xs @ ys)"
proof (cases "em_listeners e ev")
  case (Some an)
  obtain a n where an: "an = (a, n)" by (cases an)
  have ls: "getMessageListeners e ev = map (em_arrays e a) [0..<n]" using Some an by (simp add: getMessageListeners_def)
  show ?thesis
  proof (cases "find (\<lambda>i. same_code l (em_arrays e a i)) [0..<n]")
    case None
    then show ?thesis using extract_none [of "same_code l" "em_arrays e a" n]
      by (simp add: em_Off_eq [OF Some [unfolded an]] ls)
  next
    case idx: (Some i)
    note ext = extract_index [where P = "same_code l" and arr = "em_arrays e a", OF idx]
    have "getMessageListeners (em_Off ev l e) ev = take i (map (em_arrays e a) [0..<n]) @ drop (Suc i) (map (em_arrays e a) [0..<n])"
      using idx ext(1) shift_list [OF ext(1), of "em_arrays e a"]
      by (simp add: em_Off_eq [OF Some [unfolded an]] getMessageListeners_def)
    then show ?thesis unfolding ls by (simp add: ext(2))
  qed
qed (simp add: em_Off_absent getMessageListeners_def List.extract_def)

interpretation bus: event_bus getMessageListeners "\<lambda>ev l e. fst (em_On ev l e)" em_Off em_ok em_full same_code
  by unfold_locales (simp_all add: em_ok_On em_ok_Off listeners_On listeners_Off listeners_Off_other same_code_def)

section \<open>Sequences of operations\<close>

datatype em_op = DoOn string listener | DoOff string listener | DoOffAll string

fun em_do :: "em_op \<Rightarrow> emitter \<Rightarrow> emitter" where
  "em_do (DoOn ev l) e = fst (em_On ev l e)"
| "em_do (DoOff ev l) e = em_Off ev l e"
| "em_do (DoOffAll ev) e = em_OffAll ev e"

text \<open>The contract: a list of at most \<open>m\<close> listeners for each event.\<close>

definition drop_first :: "('a \<Rightarrow> bool) \<Rightarrow> 'a list \<Rightarrow> 'a list" where
  "drop_first P xs = takeWhile (\<lambda>x. \<not> P x) xs @ tl (dropWhile (\<lambda>x. \<not> P x) xs)"

fun bus_do :: "nat \<Rightarrow> em_op \<Rightarrow> (string \<Rightarrow> listener list) \<Rightarrow> string \<Rightarrow> listener list" where
  "bus_do m (DoOn ev l) f = (if length (f ev) < m then f(ev := f ev @ [l]) else f)"
| "bus_do m (DoOff ev l) f = f(ev := drop_first (\<lambda>x. code_pointer x = code_pointer l) (f ev))"
| "bus_do m (DoOffAll ev) f = f(ev := [])"

lemma extract_drop_first:
  "(case List.extract P xs of None \<Rightarrow> xs | Some (ys, _, zs) \<Rightarrow> ys @ zs) = drop_first P xs"
  by (induction xs) (auto simp: extract_Nil_code extract_Cons_code drop_first_def split: option.splits)

lemma em_On_full: "em_ok e \<Longrightarrow> em_full e ev \<Longrightarrow> em_On ev l e = (e, True)"
  by (auto simp: em_On_def addMessageListener_def em_full_def MessageListenerCount_def em_ok_def split: option.splits)

lemma em_full_iff: "em_full e ev \<longleftrightarrow> em_max e \<le> length (getMessageListeners e ev)"
  by (auto simp: em_full_def MessageListenerCount_def getMessageListeners_def split: option.split)

lemma em_max_do [simp]: "em_max (em_do x e) = em_max e"
  by (cases x)
    (auto simp: em_On_def addMessageListener_def em_Off_def em_OffAll_def removeIthMessageListener_def Let_def split: option.split)

lemma em_ok_OffAll:
  assumes "em_ok e"
  shows "em_ok (em_OffAll ev e)"
proof (cases "HasEvent e ev")
  case True
  then show ?thesis by (intro em_ok_cases [OF assms, of _ ev]) (simp_all add: em_OffAll_def)
qed (simp add: em_OffAll_def assms)

lemma listeners_OffAll: "getMessageListeners (em_OffAll ev e) = (getMessageListeners e)(ev := [])"
  by (auto simp: fun_eq_iff em_OffAll_def HasEvent_def getMessageListeners_def split: option.split)

lemma em_ok_do: "em_ok e \<Longrightarrow> em_ok (em_do x e)"
  by (cases x) (simp_all add: em_ok_On em_ok_Off em_ok_OffAll)

lemma em_do_refines:
  assumes "em_ok e"
  shows "getMessageListeners (em_do x e) = bus_do (em_max e) x (getMessageListeners e)"
proof (cases x)
  case (DoOn ev l)
  show ?thesis
  proof (cases "em_full e ev")
    case True
    then show ?thesis using DoOn em_On_full [OF assms True] by (simp add: em_full_iff)
  next
    case False
    then show ?thesis using DoOn listeners_On [OF assms False] by (simp add: em_full_iff fun_eq_iff)
  qed
next
  case (DoOff ev l)
  show ?thesis
  proof
    fix ev'
    show "getMessageListeners (em_do x e) ev' = bus_do (em_max e) x (getMessageListeners e) ev'"
      using DoOff listeners_Off_other [OF assms] listeners_Off [of ev l e] extract_drop_first [where P = "same_code l" and xs = "getMessageListeners e ev"]
      by (cases "ev' = ev") (simp_all add: same_code_def [abs_def])
  qed
qed (simp add: listeners_OffAll)

lemma em_run_refines:
  "em_ok e \<Longrightarrow> getMessageListeners (fold em_do ops e) = fold (bus_do (em_max e)) ops (getMessageListeners e) \<and>
     em_ok (fold em_do ops e)"
  by (induction ops arbitrary: e) (simp_all add: em_do_refines em_ok_do)

lemma listeners_New [simp]: "getMessageListeners (em_New n) = (\<lambda>_. [])"
  by (simp add: fun_eq_iff getMessageListeners_def em_New_def)

lemma listeners_bound: "em_ok e \<Longrightarrow> length (getMessageListeners e ev) \<le> em_max e"
  using em_ok_bound [of e ev] by (auto simp: getMessageListeners_def split: option.split)

text \<open>
  After any sequence of \<open>On\<close>, \<open>Off\<close> and \<open>OffAll\<close> the listeners of every event are those of the contract: \<open>On\<close> appends
  unless the event has its maximum, \<open>Off\<close> takes away the first listener with the same code pointer, \<open>OffAll\<close> all of them,
  and no operation touches another event although all slices live in one store of arrays. The count that
  \<open>MessageListenerCount\<close> reports is the length of that list, \<open>HasEvent\<close> says whether it is non-empty, and it never
  exceeds the maximum, which is between 1 and 256.
\<close>

theorem emitter_refines_bus:
  "let e = fold em_do ops (em_New n); f = fold (bus_do (em_max (em_New n))) ops (\<lambda>_. []) in
     getMessageListeners e = f \<and> MessageListenerCount e ev = length (f ev) \<and> (HasEvent e ev \<longleftrightarrow> f ev \<noteq> []) \<and>
     length (f ev) \<le> em_max (em_New n) \<and> em_max (em_New n) \<in> {1..256}"
proof -
  define e where "e = fold em_do ops (em_New n)"
  have run: "getMessageListeners e = fold (bus_do (em_max (em_New n))) ops (\<lambda>_. [])" "em_ok e"
    using em_run_refines [OF em_ok_New, of ops n] by (simp_all add: e_def)
  have "em_max (fold em_do ops e0) = em_max e0" for e0 by (induction ops arbitrary: e0) simp_all
  then have mx: "em_max e = em_max (em_New n)" by (simp add: e_def)
  have "MessageListenerCount e ev = length (getMessageListeners e ev)"
    by (simp add: MessageListenerCount_def getMessageListeners_def split: option.split)
  moreover have "HasEvent e ev \<longleftrightarrow> getMessageListeners e ev \<noteq> []"
    using em_ok_bound [OF run(2), of ev] by (auto simp: HasEvent_def getMessageListeners_def split: option.split)
  moreover have "em_max (em_New n) \<in> {1..256}" by (auto simp: em_New_def DefaultMaxListeners_def)
  ultimately show ?thesis using run(1) listeners_bound [OF run(2), of ev] mx by (simp add: e_def [symmetric] Let_def)
qed

text \<open>
  Two wrappers of \<open>Once\<close> for the same event have the same code pointer, so \<open>Off\<close> takes away the one added first: the
  disposal of the second wrapper leaves the second and removes the first, which then never fires.
\<close>

theorem once_off_removes_the_other:
  assumes "em_ok e" and "length (getMessageListeners e ev) + 2 \<le> em_max e"
    and "list_all (\<lambda>l. \<exists>c obj. l = Plain c obj) (getMessageListeners e ev)"
  shows "getMessageListeners (em_Off ev (OnceWrapper k) (fst (em_On ev (OnceWrapper k) (fst (em_On ev (OnceWrapper j) e))))) ev =
    getMessageListeners e ev @ [OnceWrapper k]"
proof -
  let ?e1 = "em_do (DoOn ev (OnceWrapper j)) e"
  let ?e2 = "em_do (DoOn ev (OnceWrapper k)) ?e1"
  have "getMessageListeners ?e2 ev = getMessageListeners e ev @ [OnceWrapper j, OnceWrapper k]"
    using assms(2) by (simp only: em_do_refines assms(1) em_ok_do em_max_do) simp
  moreover have "\<forall>x \<in> set (getMessageListeners e ev). code_pointer x \<noteq> 0" using assms(3) by (auto simp: list_all_iff)
  ultimately have "drop_first (\<lambda>x. code_pointer x = 0) (getMessageListeners ?e2 ev) = getMessageListeners e ev @ [OnceWrapper k]"
    by (simp add: drop_first_def)
  then have "getMessageListeners (em_do (DoOff ev (OnceWrapper k)) ?e2) ev = getMessageListeners e ev @ [OnceWrapper k]"
    by (subst em_do_refines) (simp_all del: em_do.simps add: assms(1) em_ok_do)
  then show ?thesis by simp
qed

theorem once_off_removes_the_other_witness:
  "getMessageListeners (em_Off ''close'' (OnceWrapper 2) (fst (em_On ''close'' (OnceWrapper 2)
     (fst (em_On ''close'' (OnceWrapper 1) (fst (em_On ''close'' (Plain 7 0) (em_New 4)))))))) ''close'' =
   [Plain 7 0, OnceWrapper 2]"
proof -
  let ?e = "fst (em_On ''close'' (Plain 7 0) (em_New 4))"
  have ls: "getMessageListeners ?e ''close'' = [Plain 7 0]"
    by (simp add: em_On_def addMessageListener_def em_New_def getMessageListeners_def)
  have mx: "em_max ?e = 4" by (simp add: em_On_def addMessageListener_def em_New_def DefaultMaxListeners_def)
  show ?thesis
    using once_off_removes_the_other [OF em_ok_On [OF em_ok_New], of "''close''" "Plain 7 0" 4 "''close''" 2 1]
    by (simp add: ls mx)
qed

section \<open>Notification\<close>

text \<open>What a run of \<open>Notify\<close> keeps when the listeners it reads are plain; \<open>t\<close> counts the steps.\<close>

fun plain :: "listener \<Rightarrow> bool" where
  "plain (Plain c obj) = True"
| "plain (OnceWrapper k) = False"

definition notify_inv :: "emitter \<Rightarrow> nat \<Rightarrow> nat \<Rightarrow> nat \<Rightarrow> notifier \<Rightarrow> bool" where
  "notify_inv e a n t s \<longleftrightarrow> no_emitter s = e \<and>
     (\<exists>i ls. i \<le> n \<and> no_loop s = Some (a, n, i) \<and> no_running s = map Call ls \<and>
        mset (no_calls s) + mset ls = mset (map (em_arrays e a) [0..<i]) \<and> t = i + length (no_calls s))"

lemma notify_inv_step:
  assumes inv: "notify_inv e a n t s" and plain: "list_all plain (map (em_arrays e a) [0..<n])" and step: "notify_do x s = Some s'"
  shows "notify_inv e a n (Suc t) s'"
proof -
  obtain i ls where i: "i \<le> n" "no_loop s = Some (a, n, i)" "no_running s = map Call ls" "no_emitter s = e"
    "mset (no_calls s) + mset ls = mset (map (em_arrays e a) [0..<i])" "t = i + length (no_calls s)"
    using inv by (auto simp: notify_inv_def)
  show ?thesis
  proof (cases x)
    case NextListener
    then have "i < n" "s' = s\<lparr>no_loop := Some (a, n, i + 1), no_running := map Call (ls @ [em_arrays e a i])\<rparr>"
      using step i by (auto simp: notify_do_def split: if_splits)
    moreover from this i have "mset (no_calls s') + mset (ls @ [em_arrays e a i]) = mset (map (em_arrays e a) [0..<i + 1])"
      by simp
    ultimately show ?thesis using i(2,4,6) unfolding notify_inv_def
      by (intro conjI exI [of _ "i + 1"] exI [of _ "ls @ [em_arrays e a i]"]) simp_all
  next
    case (Run j)
    then have j: "j < length ls" using step i by (auto simp: notify_do_def split: if_splits)
    then have "ls ! j \<in># mset (no_calls s) + mset ls" by simp
    then have "ls ! j \<in> set (map (em_arrays e a) [0..<i])" unfolding i(5) by simp
    then have "plain (ls ! j)" using plain i(1) by (auto simp: list_all_iff)
    then obtain c obj where l: "ls ! j = Plain c obj" by (cases "ls ! j") simp_all
    have s': "s' = s\<lparr>no_calls := no_calls s @ [Plain c obj], no_running := map Call (take j ls @ drop (Suc j) ls)\<rparr>"
      using step Run i j l by (simp add: notify_do_def take_map drop_map)
    have "mset ls = mset (take j ls @ ls ! j # drop (Suc j) ls)" using id_take_nth_drop [OF j] by simp
    then have "mset (no_calls s') + mset (take j ls @ drop (Suc j) ls) = mset (map (em_arrays e a) [0..<i])"
      using i(5) l s' by simp
    then show ?thesis using i(1,2,4,6) s' unfolding notify_inv_def
      by (intro conjI exI [of _ i] exI [of _ "take j ls @ drop (Suc j) ls"]) simp_all
  qed
qed

lemma notify_inv_run:
  "notify_inv e a n t s \<Longrightarrow> list_all plain (map (em_arrays e a) [0..<n]) \<Longrightarrow> notify_run xs s = Some s' \<Longrightarrow>
     notify_inv e a n (t + length xs) s'"
proof (induction xs arbitrary: s t)
  case (Cons x xs)
  then obtain s1 where "notify_do x s = Some s1" "notify_run xs s1 = Some s'" by (auto split: option.splits)
  then show ?case using Cons.IH [of "Suc t" s1] Cons.prems notify_inv_step by (metis add_Suc_shift length_Cons)
qed simp

text \<open>What the invariant says of a run: it is complete exactly after two steps for each listener.\<close>

lemma notify_inv_end:
  assumes "notify_inv e a n t s"
  shows "no_emitter s = e" and "t \<le> 2 * n" and "Notify_done s \<longleftrightarrow> t = 2 * n"
    and "Notify_done s \<Longrightarrow> mset (no_calls s) = mset (map (em_arrays e a) [0..<n])"
    and "\<not> Notify_done s \<Longrightarrow> \<exists>x. notify_do x s \<noteq> None"
proof -
  obtain i ls where i: "i \<le> n" "no_loop s = Some (a, n, i)" "no_running s = map Call ls" "no_emitter s = e"
    "mset (no_calls s) + mset ls = mset (map (em_arrays e a) [0..<i])" "t = i + length (no_calls s)"
    using assms by (auto simp: notify_inv_def)
  have len: "length (no_calls s) + length ls = i" using arg_cong [OF i(5), of size] by simp
  show "no_emitter s = e" by (rule i)
  show "t \<le> 2 * n" using i(1,6) len by simp
  have "Notify_done s \<longleftrightarrow> i = n \<and> length ls = 0" using i(2,3) by (simp add: Notify_done_def)
  then show "Notify_done s \<longleftrightarrow> t = 2 * n" using i(1,6) len by (cases "i = n") auto
  show "mset (no_calls s) = mset (map (em_arrays e a) [0..<n])" if "Notify_done s"
    using that i(2,3,5) by (simp add: Notify_done_def)
  show "\<exists>x. notify_do x s \<noteq> None" if "\<not> Notify_done s"
  proof (cases "i < n")
    case True
    then have "notify_do NextListener s \<noteq> None" using i(2) by (simp add: notify_do_def)
    then show ?thesis by blast
  next
    case False
    then have "ls \<noteq> []" using that i(1-3) by (auto simp: Notify_done_def)
    then have "notify_do (Run 0) s \<noteq> None" using i(3) by (simp add: notify_do_def Let_def split: prod.split)
    then show ?thesis by blast
  qed
qed


definition notifier_on :: "emitter \<Rightarrow> string \<Rightarrow> notifier" where
  "notifier_on e ev =
     \<lparr>no_emitter = e, no_event = ev, no_inner = (\<lambda>_. Plain 0 0), no_fired = (\<lambda>_. False), no_loop = None, no_running = [],
      no_calls = []\<rparr>"


text \<open>
  A wrapper of \<open>Once\<close> takes itself out of the array while \<open>Notify\<close> still reads it. With the listeners \<open>Once 5\<close>, 1 and
  2, a run in which the wrapper's goroutine is faster than the loop calls 5, 2 and 2: listener 1 is skipped and
  listener 2 called twice. The run is complete, and the emitter is left with both.
\<close>

theorem notify_once_shifts_listeners:
  "let s = fst (em_Once 0 (Plain 5 0) (notifier_on (em_New 8) ''close''));
       s = s\<lparr>no_emitter := fold em_do [DoOn ''close'' (Plain 1 0), DoOn ''close'' (Plain 2 0)] (no_emitter s)\<rparr>
   in case notify_run [NextListener, Run 0, Run 0, Run 0, NextListener, NextListener, Run 0, Run 0] (Notify_begin s) of
        None \<Rightarrow> False
      | Some s' \<Rightarrow> Notify_done s' \<and> no_calls s' = [Plain 5 0, Plain 2 0, Plain 2 0] \<and>
          getMessageListeners (no_emitter s') ''close'' = [Plain 1 0, Plain 2 0]"
  by code_simp

end
