(* ===== verification/Modules.thy ===== *)
theory Modules
  imports Middlewares
begin

text \<open>
  The module manager of the server, \<open>src/hub_server/module_base/ModuleManager.go\<close>, and the loader of the core modules,
  \<open>src/hub_server/modules/moduleLoader.go\<close>.

  The manager is written over any kind of module: what it calls of a module (\<open>Id\<close>, \<open>Init\<close>, \<open>OnLoad\<close>, \<open>Dispose\<close>,
  \<open>OnUnload\<close>) and of reflection (the type of a module, whether a type is an interface and which types implement it) is
  the record \<open>mod_env\<close>; \<open>Init\<close> and \<open>OnLoad\<close> read the manager, which is a global variable of the program, and change the
  modules' own state \<open>'w\<close>. A Go map is an association list, and the order in which a loop over it visits the entries is a
  parameter. The core modules of the server are an instance.
\<close>

section \<open>The module manager\<close>

record 'm ModuleManager =
  mm_modules :: "(string \<times> 'm) list"
  mm_types :: "(string \<times> 'm) list"

definition NewModuleManager :: "'m ModuleManager" where
  "NewModuleManager = \<lparr>mm_modules = [], mm_types = []\<rparr>"

record ('m, 'w) mod_env =
  mo_Id :: "'m \<Rightarrow> string"
  mo_Type :: "'m \<Rightarrow> string"
  mo_Init :: "'m \<Rightarrow> 'm ModuleManager \<times> 'w \<Rightarrow> ('w \<times> string option) go"
  mo_OnLoad :: "'m \<Rightarrow> 'm ModuleManager \<times> 'w \<Rightarrow> 'w go"
  mo_Dispose :: "'m \<Rightarrow> 'w \<Rightarrow> 'w \<times> string option"
  mo_OnUnload :: "'m \<Rightarrow> 'w \<Rightarrow> 'w"

definition GetModule :: "'m ModuleManager \<Rightarrow> string \<Rightarrow> 'm option" where
  "GetModule mgr k = map_of (mm_modules mgr) k"

definition RegisterModule :: "('m, 'w) mod_env \<Rightarrow> 'm \<Rightarrow> 'm ModuleManager \<times> 'w \<Rightarrow>
    (('m ModuleManager \<times> 'w) \<times> string option) go" where
  "RegisterModule env m s =
     (case s of (mgr, w) \<Rightarrow>
        bind_go (mo_Init env m (mgr, w)) (\<lambda>(w, err).
          if err \<noteq> None then Ret ((mgr, w), err)
          else if GetModule mgr (mo_Id env m) \<noteq> None
          then Ret ((mgr, w), Some (''module ['' @ mo_Id env m @ ''] has already been registered''))
          else (let mgr = mgr\<lparr>mm_modules := AList.update (mo_Id env m) m (mm_modules mgr),
                             mm_types := AList.update (mo_Type env m) m (mm_types mgr)\<rparr>
                in bind_go (mo_OnLoad env m (mgr, w)) (\<lambda>w. Ret ((mgr, w), None)))))"

definition unregisterModule :: "('m, 'w) mod_env \<Rightarrow> 'm \<Rightarrow> 'm ModuleManager \<times> 'w \<Rightarrow>
    ('m ModuleManager \<times> 'w) \<times> string option" where
  "unregisterModule env m s =
     (let (w, err) = mo_Dispose env m (snd s)
      in (((fst s)\<lparr>mm_modules := AList.delete (mo_Id env m) (mm_modules (fst s))\<rparr>, mo_OnUnload env m w), err))"

text \<open>The message for a module that does not exist reads the id of \<open>nil\<close>.\<close>

definition UnregisterModule :: "('m, 'w) mod_env \<Rightarrow> string \<Rightarrow> 'm ModuleManager \<times> 'w \<Rightarrow>
    (('m ModuleManager \<times> 'w) \<times> string option) go" where
  "UnregisterModule env k s =
     (case GetModule (fst s) k of None \<Rightarrow> Panic | Some m \<Rightarrow> Ret (unregisterModule env m s))"

text \<open>
  The first loop of \<open>RegisterModules\<close>: it stops at the first error. The result carries the modules registered, the number
  \<open>numRegistered\<close> of the code being their count.
\<close>

fun register_loop :: "('m, 'w) mod_env \<Rightarrow> 'm list \<Rightarrow> 'm ModuleManager \<times> 'w \<Rightarrow>
    (('m ModuleManager \<times> 'w) \<times> 'm list \<times> string option) go" where
  "register_loop env [] s = Ret (s, [], None)"
| "register_loop env (m # ms) s =
     bind_go (RegisterModule env m s) (\<lambda>(s, err).
       if err \<noteq> None then Ret (s, [], err)
       else bind_go (register_loop env ms s) (\<lambda>(s, done, err). Ret (s, m # done, err)))"

definition RegisterModules :: "('m, 'w) mod_env \<Rightarrow> 'm list \<Rightarrow> 'm ModuleManager \<times> 'w \<Rightarrow>
    (('m ModuleManager \<times> 'w) \<times> string option) go" where
  "RegisterModules env ms s =
     bind_go (register_loop env ms s) (\<lambda>(s, done, err).
       if err = None then Ret (s, None)
       else bind_go (fold_go (\<lambda>m s. bind_go (UnregisterModule env (mo_Id env m) s) (\<lambda>(s, _). Ret s)) done s)
         (\<lambda>s. Ret (s, err)))"

text \<open>\<open>ks\<close> are the keys of the map in the order the loop visits them.\<close>

definition mm_Clear :: "('m, 'w) mod_env \<Rightarrow> string list \<Rightarrow> 'm ModuleManager \<times> 'w \<Rightarrow> ('m ModuleManager \<times> 'w) go" where
  "mm_Clear env ks s = fold_go (\<lambda>k s. bind_go (UnregisterModule env k s) (\<lambda>(s, _). Ret s)) ks s"

section \<open>Filling the fields of a struct\<close>

text \<open>
  What the manager reads of reflection: whether a type is an interface, which types implement it, and the order of the loop
  over the map of types. A field has the text of its \<open>module\<close> tag if it has one.
\<close>

record 'm reflection =
  rf_is_interface :: "string \<Rightarrow> bool"
  rf_Implements :: "string \<Rightarrow> string \<Rightarrow> bool"
  rf_order :: "(string \<times> 'm) list \<Rightarrow> (string \<times> 'm) list"
  rf_Type :: "'m \<Rightarrow> string"

record 'm go_field =
  gf_tag :: "string option"
  gf_type :: string
  gf_value :: "'m option"

text \<open>\<open>reflect.Value.Set\<close> panics when the value cannot be assigned to the field's type.\<close>

definition assignable :: "'m reflection \<Rightarrow> string \<Rightarrow> string \<Rightarrow> bool" where
  "assignable rf k t \<longleftrightarrow> k = t \<or> rf_is_interface rf t \<and> rf_Implements rf k t"

text \<open>
  A value made by \<open>NewAt(...).Elem()\<close> can always be set, so the error of \<open>tryToFillField\<close> does not occur; \<open>UnsafeAddr\<close> panics
  for a field of a struct passed by value.
\<close>

definition tryToFillField :: "'m reflection \<Rightarrow> bool \<Rightarrow> 'm go_field \<Rightarrow> 'm \<Rightarrow> 'm go_field go" where
  "tryToFillField rf addressable f m =
     (if \<not> addressable then Panic
      else if assignable rf (rf_Type rf m) (gf_type f) then Ret (f\<lparr>gf_value := Some m\<rparr>) else Panic)"

definition autoFillById :: "'m reflection \<Rightarrow> 'm ModuleManager \<Rightarrow> bool \<Rightarrow> 'm go_field \<Rightarrow> string \<Rightarrow>
    ('m go_field \<times> string option) go" where
  "autoFillById rf mgr addressable f k =
     (case GetModule mgr k of
        None \<Rightarrow> Ret (f, Some (''can not find module by id '' @ k))
      | Some m \<Rightarrow> bind_go (tryToFillField rf addressable f m) (\<lambda>f. Ret (f, None)))"

text \<open>The search through the types: the last match in the order of the loop. \<open>Implements\<close> panics for a type that is no interface.\<close>

definition search_types :: "'m reflection \<Rightarrow> string \<Rightarrow> (string \<times> 'm) list \<Rightarrow> 'm option go" where
  "search_types rf t kvs =
     (if kvs \<noteq> [] \<and> \<not> rf_is_interface rf t then Panic
      else Ret (fold (\<lambda>(k, v) found. if rf_Implements rf k t then Some v else found) (rf_order rf kvs) None))"

definition autoFillByType :: "'m reflection \<Rightarrow> 'm ModuleManager \<Rightarrow> bool \<Rightarrow> 'm go_field \<Rightarrow> ('m go_field \<times> string option) go" where
  "autoFillByType rf mgr addressable f =
     bind_go (case map_of (mm_types mgr) (gf_type f) of
                Some m \<Rightarrow> Ret (Some m)
              | None \<Rightarrow> search_types rf (gf_type f) (mm_types mgr))
       (\<lambda>found. case found of
          None \<Rightarrow> Ret (f, Some (''can not find module by type '' @ gf_type f))
        | Some m \<Rightarrow> bind_go (tryToFillField rf addressable f m) (\<lambda>f. Ret (f, None)))"

fun autoFillValue :: "'m reflection \<Rightarrow> 'm ModuleManager \<Rightarrow> bool \<Rightarrow> 'm go_field list \<Rightarrow> ('m go_field list \<times> string option) go" where
  "autoFillValue rf mgr addressable [] = Ret ([], None)"
| "autoFillValue rf mgr addressable (f # fs) =
     bind_go (case gf_tag f of
                None \<Rightarrow> Ret (f, None)
              | Some t \<Rightarrow> (if t = [] then autoFillByType rf mgr addressable f else autoFillById rf mgr addressable f t))
       (\<lambda>(f, err).
          if err \<noteq> None then Ret (f # fs, err)
          else bind_go (autoFillValue rf mgr addressable fs) (\<lambda>(fs, err). Ret (f # fs, err)))"

text \<open>What is passed to \<open>AutoFill\<close>: nothing, a pointer to a struct, a struct, or another value.\<close>

datatype 'm go_object = NilObject | Pointer "'m go_field list" | Struct "'m go_field list" | OtherKind

fun autoFill :: "'m reflection \<Rightarrow> 'm ModuleManager \<Rightarrow> 'm go_object \<Rightarrow> ('m go_field list \<times> string option) go" where
  "autoFill rf mgr (Pointer fs) = autoFillValue rf mgr True fs"
| "autoFill rf mgr (Struct fs) = autoFillValue rf mgr False fs"
| "autoFill rf mgr obj = Ret ([], Some ''invalid object type for AutoFill'')"

definition AutoFill :: "'m reflection \<Rightarrow> 'm ModuleManager \<Rightarrow> 'm go_object \<Rightarrow> ('m go_field list \<times> string option) go" where
  "AutoFill rf mgr obj = (if obj = NilObject then Ret ([], None) else autoFill rf mgr obj)"

section \<open>The core modules\<close>

datatype core_module =
    MiddlewareManager | ClientManager | ConnectionManager | Auth | Metering | ServiceManager | Status | RequestThrottle | BlockList

fun core_Id :: "core_module \<Rightarrow> string" where
  "core_Id MiddlewareManager = ''MiddlewareManager''"
| "core_Id ClientManager = ''ClientManager''"
| "core_Id ConnectionManager = ''ConnectionManager''"
| "core_Id Auth = ''Auth''"
| "core_Id Metering = ''Metering''"
| "core_Id ServiceManager = ''ServiceManager''"
| "core_Id Status = ''Status''"
| "core_Id RequestThrottle = ''RequestThrottle''"
| "core_Id BlockList = ''BlockList''"

text \<open>The type of each module and the one interface among the types of tagged fields that it implements.\<close>

fun core_types :: "core_module \<Rightarrow> string \<times> string" where
  "core_types MiddlewareManager = (''*MiddlewareManagerModule'', ''IMiddlewareManagerModule'')"
| "core_types ClientManager = (''*ClientManagerModule'', ''IClientManagerModule'')"
| "core_types ConnectionManager = (''*ConnectionManagerModule'', ''IConnectionManagerModule'')"
| "core_types Auth = (''*AuthModule'', ''IAuthModule'')"
| "core_types Metering = (''*MeteringModule'', ''IMeteringModule'')"
| "core_types ServiceManager = (''*ServiceManagerModule'', ''IServiceManagerModule'')"
| "core_types Status = (''*ServerStatusModule'', ''IServerStatusModule'')"
| "core_types RequestThrottle = (''*RequestThrottleModule'', ''IRequestThrottleModule'')"
| "core_types BlockList = (''*BlockListModule'', ''IBlockListModule'')"

definition moduleInstances :: "core_module list" where
  "moduleInstances =
     [MiddlewareManager, ClientManager, ConnectionManager, Auth, Metering, ServiceManager, Status, RequestThrottle, BlockList]"

definition core_reflection :: "((string \<times> core_module) list \<Rightarrow> (string \<times> core_module) list) \<Rightarrow> core_module reflection" where
  "core_reflection ord =
     \<lparr>rf_is_interface = (\<lambda>t. t \<in> snd ` core_types ` set moduleInstances),
      rf_Implements = (\<lambda>k t. (k, t) \<in> core_types ` set moduleInstances),
      rf_order = ord, rf_Type = (\<lambda>m. fst (core_types m))\<rparr>"

text \<open>
  The state of the core modules that loading changes and other modules see: the tree of the middleware manager, and the
  fields of the objects that were wired, by the name of the object. The rest of each \<open>Init\<close> builds the module's own stores.
\<close>

record core_state =
  cs_tree :: mw_tree
  cs_wired :: "(string \<times> core_module go_field list) list"

definition module_field :: "string \<Rightarrow> core_module go_field" where
  "module_field t = \<lparr>gf_tag = Some [], gf_type = t, gf_value = None\<rparr>"

text \<open>\<open>AutoFill\<close> of an object, with the error it reports.\<close>

definition wire :: "core_module reflection \<Rightarrow> core_module ModuleManager \<Rightarrow> string \<Rightarrow> core_module go_field list \<Rightarrow> core_state \<Rightarrow>
    (core_state \<times> string option) go" where
  "wire rf mgr obj fs w =
     bind_go (AutoFill rf mgr (Pointer fs)) (\<lambda>(fs, err). Ret (w\<lparr>cs_wired := AList.update obj fs (cs_wired w)\<rparr>, err))"

text \<open>\<open>Init\<close> of the four middlewares. The block list and authentication middlewares panic on an error.\<close>

definition or_panic :: "(core_state \<times> string option) go \<Rightarrow> (core_state \<times> string option) go" where
  "or_panic r = bind_go r (\<lambda>(w, err). if err \<noteq> None then Panic else Ret (w, None))"

definition middleware_Init :: "core_module reflection \<Rightarrow> core_module ModuleManager \<Rightarrow> ServerMiddleware \<Rightarrow> core_state \<Rightarrow>
    (core_state \<times> string option) go" where
  "middleware_Init rf mgr md w =
     (case mw_kind md of
        KConnection \<Rightarrow> Ret (w, None)
      | KBlockList \<Rightarrow> or_panic (wire rf mgr (mw_id md) [module_field ''IBlockListModule''] w)
      | KThrottle \<Rightarrow> wire rf mgr (mw_id md) [module_field ''IRequestThrottleModule'', module_field ''IBlockListModule''] w
      | KAuth \<Rightarrow> or_panic (wire rf mgr (mw_id md) [module_field ''IAuthModule''] w))"

text \<open>
  The package function \<open>middleware_manager.RegisterMiddleware\<close>: the manager module is looked up by its id; the type
  assertion panics for a module of another type.
\<close>

definition register_middleware :: "core_module reflection \<Rightarrow> ServerMiddleware \<Rightarrow> core_module ModuleManager \<times> core_state \<Rightarrow>
    (core_state \<times> string option) go" where
  "register_middleware rf md s =
     (case GetModule (fst s) ''MiddlewareManager'' of
        None \<Rightarrow> Ret (snd s, Some ''unable to get middleware manager'')
      | Some m \<Rightarrow>
          (if m \<noteq> MiddlewareManager then Panic
           else bind_go (middleware_Init rf (fst s) md (snd s)) (\<lambda>(w, err).
             bind_go (RegisterMiddleware err (cs_tree w) md) (\<lambda>(t, err). Ret (w\<lparr>cs_tree := t\<rparr>, err)))))"

definition core_Init :: "core_module reflection \<Rightarrow> core_module \<Rightarrow> core_module ModuleManager \<times> core_state \<Rightarrow>
    (core_state \<times> string option) go" where
  "core_Init rf m s =
     (case m of
        MiddlewareManager \<Rightarrow> Ret ((snd s)\<lparr>cs_tree := NilNode\<rparr>, None)
      | Auth \<Rightarrow> wire rf (fst s) ''Auth'' [module_field ''IClientManagerModule'', module_field ''IConnectionManagerModule''] (snd s)
      | _ \<Rightarrow> Ret (snd s, None))"

text \<open>An error of the registration is logged and dropped.\<close>

definition core_OnLoad :: "core_module reflection \<Rightarrow> core_module \<Rightarrow> core_module ModuleManager \<times> core_state \<Rightarrow> core_state go" where
  "core_OnLoad rf m s =
     (case m of
        ConnectionManager \<Rightarrow> bind_go (register_middleware rf ConnectionMiddleware s) (\<lambda>(w, _). Ret w)
      | Auth \<Rightarrow> bind_go (register_middleware rf AuthMiddleware s) (\<lambda>(w, _). Ret w)
      | RequestThrottle \<Rightarrow> bind_go (register_middleware rf RequestAddressThrottleMiddleware s) (\<lambda>(w, _). Ret w)
      | BlockList \<Rightarrow> bind_go (register_middleware rf BlockListMiddleware s) (\<lambda>(w, _). Ret w)
      | _ \<Rightarrow> Ret (snd s))"

definition core_env :: "((string \<times> core_module) list \<Rightarrow> (string \<times> core_module) list) \<Rightarrow> (core_module, core_state) mod_env" where
  "core_env ord =
     \<lparr>mo_Id = core_Id, mo_Type = (\<lambda>m. fst (core_types m)), mo_Init = core_Init (core_reflection ord),
      mo_OnLoad = core_OnLoad (core_reflection ord), mo_Dispose = (\<lambda>m w. (w, None)), mo_OnUnload = (\<lambda>m w. w)\<rparr>"

definition loadCoreModules :: "((string \<times> core_module) list \<Rightarrow> (string \<times> core_module) list) \<Rightarrow>
    core_module ModuleManager \<times> core_state \<Rightarrow> ((core_module ModuleManager \<times> core_state) \<times> string option) go" where
  "loadCoreModules ord s = RegisterModules (core_env ord) moduleInstances s"

text \<open>The list of middlewares that \<open>registerCoreMiddlewares\<close> goes through is never filled.\<close>

definition registerCoreMiddlewares :: "core_module reflection \<Rightarrow> core_module ModuleManager \<times> core_state \<Rightarrow>
    (core_module ModuleManager \<times> core_state) go" where
  "registerCoreMiddlewares rf s =
     (if GetModule (fst s) ''MiddlewareManager'' \<noteq> Some MiddlewareManager then Panic
      else fold_go (\<lambda>md s. bind_go (register_middleware rf md s) (\<lambda>(w, _). Ret (fst s, w))) [] s)"

definition InitCoreComponents :: "((string \<times> core_module) list \<Rightarrow> (string \<times> core_module) list) \<Rightarrow>
    core_module ModuleManager \<times> core_state \<Rightarrow> ((core_module ModuleManager \<times> core_state) \<times> string option) go" where
  "InitCoreComponents ord s =
     bind_go (loadCoreModules ord s) (\<lambda>(s, err).
       if err \<noteq> None then Ret (s, err)
       else bind_go (registerCoreMiddlewares (core_reflection ord) s) (\<lambda>s. Ret (s, None)))"

definition before_start :: "core_module ModuleManager \<times> core_state" where
  "before_start = (NewModuleManager, \<lparr>cs_tree = NilNode, cs_wired = []\<rparr>)"

section \<open>Registration\<close>

lemma RegisterModule_Ret:
  assumes "RegisterModule env m (mgr, w) = Ret ((mgr', w'), err)"
  shows "err = None \<Longrightarrow> GetModule mgr (mo_Id env m) = None \<and> mm_types mgr' = AList.update (mo_Type env m) m (mm_types mgr) \<and>
      (\<forall>k. GetModule mgr' k = (if k = mo_Id env m then Some m else GetModule mgr k))"
    and "err \<noteq> None \<Longrightarrow> mgr' = mgr"
proof -
  assume "err = None"
  then have "GetModule mgr (mo_Id env m) = None" "mgr' = mgr\<lparr>mm_modules := AList.update (mo_Id env m) m (mm_modules mgr),
      mm_types := AList.update (mo_Type env m) m (mm_types mgr)\<rparr>"
    using assms by (auto simp: RegisterModule_def bind_go_eq_Ret Let_def split: if_splits)
  then show "GetModule mgr (mo_Id env m) = None \<and> mm_types mgr' = AList.update (mo_Type env m) m (mm_types mgr) \<and>
      (\<forall>k. GetModule mgr' k = (if k = mo_Id env m then Some m else GetModule mgr k))"
    by (auto simp: GetModule_def update_conv)
next
  assume "err \<noteq> None"
  then show "mgr' = mgr" using assms by (auto simp: RegisterModule_def bind_go_eq_Ret Let_def split: if_splits)
qed

lemma UnregisterModule_Ret:
  "GetModule mgr k = Some m \<Longrightarrow> mo_Id env m = k \<Longrightarrow>
   \<exists>mgr' w' err. UnregisterModule env k (mgr, w) = Ret ((mgr', w'), err) \<and> mm_types mgr' = mm_types mgr \<and>
     (\<forall>j. GetModule mgr' j = (if j = k then None else GetModule mgr j))"
  by (auto simp: UnregisterModule_def unregisterModule_def GetModule_def delete_conv Let_def split: prod.split)

text \<open>The loop registers the modules up to the first error, under ids that were free.\<close>

lemma register_loop_Ret:
  "register_loop env ms (mgr, w) = Ret ((mgr', w'), done, err) \<Longrightarrow>
     (\<forall>k. GetModule mgr' k = (case find (\<lambda>m. mo_Id env m = k) done of Some m \<Rightarrow> Some m | None \<Rightarrow> GetModule mgr k)) \<and>
     distinct (map (mo_Id env) done) \<and> (\<forall>m \<in> set done. GetModule mgr (mo_Id env m) = None) \<and> (err = None \<longrightarrow> done = ms)"
proof (induction ms arbitrary: mgr w "done")
  case (Cons m ms)
  obtain mgr1 w1 err1 where r: "RegisterModule env m (mgr, w) = Ret ((mgr1, w1), err1)"
    using Cons.prems by (auto simp: bind_go_eq_Ret)
  show ?case
  proof (cases err1)
    case None
    then obtain done1 where loop: "register_loop env ms (mgr1, w1) = Ret ((mgr', w'), done1, err)" "done = m # done1"
      using Cons.prems r by (auto simp: bind_go_eq_Ret)
    note reg = RegisterModule_Ret(1) [OF r None]
    note ih = Cons.IH [OF loop(1)]
    have new: "\<forall>m1 \<in> set done1. mo_Id env m1 \<noteq> mo_Id env m \<and> GetModule mgr (mo_Id env m1) = None"
      using ih reg by (metis option.simps(3))
    show ?thesis
    proof (intro conjI allI)
      fix k
      show "GetModule mgr' k = (case find (\<lambda>m. mo_Id env m = k) done of Some m \<Rightarrow> Some m | None \<Rightarrow> GetModule mgr k)"
      proof (cases "k = mo_Id env m")
        case True
        then have "find (\<lambda>m. mo_Id env m = k) done1 = None" using new by (auto simp: find_None_iff)
        then show ?thesis using ih reg True loop(2) by simp
      next
        case False
        then have "GetModule mgr1 k = GetModule mgr k" using reg by simp
        then show ?thesis using ih False loop(2) by (simp split: option.split)
      qed
    qed (use ih new reg loop(2) in auto)
  next
    case (Some e)
    then show ?thesis using Cons.prems r RegisterModule_Ret(2) [OF r] by auto
  qed
qed auto

lemma rollback_Ret:
  assumes "distinct (map (mo_Id env) ms)" and "\<forall>m \<in> set ms. GetModule mgr (mo_Id env m) = Some m"
  shows "\<exists>mgr' w'. fold_go (\<lambda>m s. bind_go (UnregisterModule env (mo_Id env m) s) (\<lambda>(s, _). Ret s)) ms (mgr, w) = Ret (mgr', w') \<and>
     mm_types mgr' = mm_types mgr \<and> (\<forall>k. GetModule mgr' k = (if k \<in> mo_Id env ` set ms then None else GetModule mgr k))"
  using assms
proof (induction ms arbitrary: mgr w)
  case (Cons m ms)
  obtain mgr1 w1 err where u: "UnregisterModule env (mo_Id env m) (mgr, w) = Ret ((mgr1, w1), err)" "mm_types mgr1 = mm_types mgr"
    "\<forall>j. GetModule mgr1 j = (if j = mo_Id env m then None else GetModule mgr j)"
    using UnregisterModule_Ret [of mgr "mo_Id env m" m env w] Cons.prems by auto
  have "mo_Id env m1 \<noteq> mo_Id env m" if "m1 \<in> set ms" for m1 using Cons.prems(1) that by (metis distinct.simps(2) image_eqI list.set_map list.simps(9))
  then have "\<forall>m1 \<in> set ms. GetModule mgr1 (mo_Id env m1) = Some m1" using Cons.prems(2) u(3) by simp
  then obtain mgr' w' where r: "fold_go (\<lambda>m s. bind_go (UnregisterModule env (mo_Id env m) s) (\<lambda>(s, _). Ret s)) ms (mgr1, w1) = Ret (mgr', w')"
    "mm_types mgr' = mm_types mgr1" "\<forall>k. GetModule mgr' k = (if k \<in> mo_Id env ` set ms then None else GetModule mgr1 k)"
    using Cons.IH [of mgr1 w1] Cons.prems(1) by auto
  have "GetModule mgr' k = (if k \<in> mo_Id env ` set (m # ms) then None else GetModule mgr k)" for k
    using r(3) u(3) by simp
  then show ?case using r(1,2) u(1,2) by simp
qed simp

text \<open>
  C26. \<open>RegisterModules\<close> is atomic on the modules by id: when it reports no error every module of the list is found under its
  id and the other ids are as they were, and when it reports an error every id is as it was before the call. The roll back
  itself never panics: the call panics only when the registration of a module does.
\<close>

theorem RegisterModules_atomic:
  assumes "register_loop env ms (mgr, w) \<noteq> Panic"
  shows "\<exists>mgr' w' err. RegisterModules env ms (mgr, w) = Ret ((mgr', w'), err) \<and>
    (err = None \<longrightarrow> (\<forall>m \<in> set ms. GetModule mgr' (mo_Id env m) = Some m) \<and>
       (\<forall>k. k \<notin> mo_Id env ` set ms \<longrightarrow> GetModule mgr' k = GetModule mgr k)) \<and>
    (err \<noteq> None \<longrightarrow> (\<forall>k. GetModule mgr' k = GetModule mgr k))"
proof -
  obtain mgr1 w1 ms1 err where loop: "register_loop env ms (mgr, w) = Ret ((mgr1, w1), ms1, err)"
    using assms by (metis go.exhaust prod.collapse)
  note reg = register_loop_Ret [OF loop]
  have own: "\<forall>m \<in> set ms1. GetModule mgr1 (mo_Id env m) = Some m"
  proof
    fix m assume m: "m \<in> set ms1"
    then obtain m1 where "find (\<lambda>m'. mo_Id env m' = mo_Id env m) ms1 = Some m1" by (metis (mono_tags) find_None_iff not_Some_eq)
    moreover from this have "m1 \<in> set ms1" "mo_Id env m1 = mo_Id env m" by (auto simp: find_Some_iff)
    ultimately show "GetModule mgr1 (mo_Id env m) = Some m" using reg m by (auto simp: distinct_map inj_on_def)
  qed
  have other: "GetModule mgr1 k = GetModule mgr k" if "k \<notin> mo_Id env ` set ms1" for k
  proof -
    have "find (\<lambda>m. mo_Id env m = k) ms1 = None" using that by (auto simp: find_None_iff)
    then show ?thesis using reg by simp
  qed
  show ?thesis
  proof (cases err)
    case None
    then show ?thesis using loop reg own other by (auto simp: RegisterModules_def)
  next
    case (Some e)
    obtain mgr2 w2 where "fold_go (\<lambda>m s. bind_go (UnregisterModule env (mo_Id env m) s) (\<lambda>(s, _). Ret s)) ms1 (mgr1, w1) = Ret (mgr2, w2)"
      "\<forall>k. GetModule mgr2 k = (if k \<in> mo_Id env ` set ms1 then None else GetModule mgr1 k)"
      using rollback_Ret [OF _ own, of w1] reg by blast
    then show ?thesis using loop Some reg other by (auto simp: RegisterModules_def)
  qed
qed

text \<open>Three modules, the last with the id of the first.\<close>

definition sample_env_modules :: "(nat, unit) mod_env" where
  "sample_env_modules =
     \<lparr>mo_Id = (\<lambda>m. if even m then ''a'' else ''b''), mo_Type = (\<lambda>m. if even m then ''A'' else ''B''),
      mo_Init = (\<lambda>m s. Ret ((), None)), mo_OnLoad = (\<lambda>m s. Ret ()), mo_Dispose = (\<lambda>m w. (w, None)), mo_OnUnload = (\<lambda>m w. w)\<rparr>"

theorem RegisterModules_atomic_witness:
  "\<exists>mgr' w' err. RegisterModules sample_env_modules [0, 1, 2] (NewModuleManager, ()) = Ret ((mgr', w'), err) \<and>
     err \<noteq> None \<and> GetModule mgr' ''a'' = None \<and> GetModule mgr' ''b'' = None"
proof -
  have "register_loop sample_env_modules [0, 1, 2] (NewModuleManager, ()) \<noteq> Panic"
    "case RegisterModules sample_env_modules [0, 1, 2] (NewModuleManager, ()) of Ret (_, err) \<Rightarrow> err \<noteq> None | Panic \<Rightarrow> False"
    by code_simp+
  with RegisterModules_atomic [OF this(1)] show ?thesis by (auto simp: GetModule_def NewModuleManager_def)
qed

text \<open>
  The map of types is not rolled back: after a module was registered and unregistered again, it is not found under its
  id, and \<open>AutoFill\<close> still puts it into a field of its type.
\<close>

theorem unregistered_module_is_still_filled:
  assumes "RegisterModule env m (mgr, w) = Ret ((mgr1, w1), None)"
    and "UnregisterModule env (mo_Id env m) (mgr1, w1) = Ret ((mgr2, w2), err)" and "rf_Type rf = mo_Type env"
  shows "GetModule mgr2 (mo_Id env m) = None \<and>
    AutoFill rf mgr2 (Pointer [\<lparr>gf_tag = Some [], gf_type = mo_Type env m, gf_value = v\<rparr>]) =
      Ret ([\<lparr>gf_tag = Some [], gf_type = mo_Type env m, gf_value = Some m\<rparr>], None)"
proof -
  have reg: "GetModule mgr1 (mo_Id env m) = Some m" "map_of (mm_types mgr1) (mo_Type env m) = Some m"
    using RegisterModule_Ret(1) [OF assms(1)] by (simp_all add: update_conv)
  have "mm_types mgr2 = mm_types mgr1" "GetModule mgr2 (mo_Id env m) = None"
    using UnregisterModule_Ret [OF reg(1), of env w1] assms(2) by auto
  then show ?thesis using reg(2) assms(3)
    by (simp add: AutoFill_def autoFillByType_def tryToFillField_def assignable_def)
qed

definition sample_reflection :: "nat reflection" where
  "sample_reflection = \<lparr>rf_is_interface = (\<lambda>_. False), rf_Implements = (\<lambda>_ _. False), rf_order = (\<lambda>x. x),
     rf_Type = mo_Type sample_env_modules\<rparr>"

theorem unregistered_module_is_still_filled_witness:
  "\<exists>mgr1 w1 mgr2 w2 err. RegisterModule sample_env_modules 0 (NewModuleManager, ()) = Ret ((mgr1, w1), None) \<and>
     UnregisterModule sample_env_modules ''a'' (mgr1, w1) = Ret ((mgr2, w2), err) \<and> GetModule mgr2 ''a'' = None \<and>
     AutoFill sample_reflection mgr2 (Pointer [\<lparr>gf_tag = Some [], gf_type = ''A'', gf_value = None\<rparr>]) =
       Ret ([\<lparr>gf_tag = Some [], gf_type = ''A'', gf_value = Some 0\<rparr>], None)"
proof -
  let ?mgr1 = "\<lparr>mm_modules = [(''a'', 0)], mm_types = [(''A'', 0)]\<rparr>"
  let ?mgr2 = "\<lparr>mm_modules = [], mm_types = [(''A'', 0)]\<rparr>"
  have id0: "mo_Id sample_env_modules 0 = ''a''" "mo_Type sample_env_modules 0 = ''A''" by (simp_all add: sample_env_modules_def)
  have r: "RegisterModule sample_env_modules 0 (NewModuleManager, ()) = Ret ((?mgr1, ()), None)" by code_simp
  have u: "UnregisterModule sample_env_modules (mo_Id sample_env_modules 0) (?mgr1, ()) = Ret ((?mgr2, ()), None)" by code_simp
  have "rf_Type sample_reflection = mo_Type sample_env_modules" by (simp add: sample_reflection_def)
  from unregistered_module_is_still_filled [OF r u this, of None] r u show ?thesis unfolding id0 by blast
qed

section \<open>The order of the loop over the types does not matter\<close>

definition any_order :: "((string \<times> 'm) list \<Rightarrow> (string \<times> 'm) list) \<Rightarrow> bool" where
  "any_order ord \<longleftrightarrow> (\<forall>kvs. set (ord kvs) = set kvs)"

definition types_ok :: "core_module ModuleManager \<Rightarrow> bool" where
  "types_ok mgr \<longleftrightarrow> list_all (\<lambda>(k, v). k = fst (core_types v)) (mm_types mgr)"

lemma fold_found:
  "\<forall>(k, v) \<in> set xs. P k \<longrightarrow> v = v0 \<Longrightarrow>
   fold (\<lambda>(k, v) found. if P k then Some v else found) xs acc = (if \<exists>(k, v) \<in> set xs. P k then Some v0 else acc)"
  by (induction xs arbitrary: acc) auto

lemma core_types_inj: "fst (core_types m) = fst (core_types m') \<Longrightarrow> m = m'"
  by (cases m; cases m') simp_all

lemma core_Implements_unique:
  assumes "rf_Implements (core_reflection ord) (fst (core_types m)) t" and "rf_Implements (core_reflection ord) (fst (core_types m')) t"
  shows "m = m'"
proof -
  have "t = snd (core_types m)" "t = snd (core_types m')"
    using assms core_types_inj by (auto simp: core_reflection_def) (metis fst_conv snd_conv)+
  then show ?thesis by (cases m; cases m') simp_all
qed

lemma search_types_order:
  assumes "any_order ord" and "list_all (\<lambda>(k, v). k = fst (core_types v)) kvs"
  shows "search_types (core_reflection ord) t kvs = search_types (core_reflection (\<lambda>x. x)) t kvs"
proof -
  have same: "rf_Implements (core_reflection ord) = rf_Implements (core_reflection (\<lambda>x. x))"
    "rf_is_interface (core_reflection ord) = rf_is_interface (core_reflection (\<lambda>x. x))"
    by (simp_all add: core_reflection_def)
  have ord: "set (ord kvs) = set kvs" using assms(1) by (simp add: any_order_def)
  have "v = v'" if "(k, v) \<in> set kvs" "(k', v') \<in> set kvs" "rf_Implements (core_reflection ord) k t"
    "rf_Implements (core_reflection ord) k' t" for k v k' v'
  proof -
    have "k = fst (core_types v)" "k' = fst (core_types v')" using assms(2) that(1,2) by (auto simp: list_all_iff)
    then show ?thesis using core_Implements_unique [of ord v t v'] that(3,4) by simp
  qed
  then obtain v0 where v0: "\<forall>(k, v) \<in> set kvs. rf_Implements (core_reflection ord) k t \<longrightarrow> v = v0"
    by (cases "\<exists>k v. (k, v) \<in> set kvs \<and> rf_Implements (core_reflection ord) k t") blast+
  have "fold (\<lambda>(k, v) found. if rf_Implements (core_reflection ord) k t then Some v else found) xs None =
      (if \<exists>(k, v) \<in> set kvs. rf_Implements (core_reflection ord) k t then Some v0 else None)" if "set xs = set kvs" for xs
    using fold_found [of xs "\<lambda>k. rf_Implements (core_reflection ord) k t" v0 None] v0 that by simp
  then have "fold (\<lambda>(k, v) found. if rf_Implements (core_reflection ord) k t then Some v else found) (ord kvs) None =
      fold (\<lambda>(k, v) found. if rf_Implements (core_reflection ord) k t then Some v else found) kvs None"
    using ord by simp
  moreover have "rf_order (core_reflection ord) = ord" "rf_order (core_reflection (\<lambda>x. x)) = (\<lambda>x. x)"
    by (simp_all add: core_reflection_def)
  ultimately show ?thesis unfolding search_types_def by (simp only: same)
qed

lemma autoFillValue_order:
  assumes "any_order ord" and "types_ok mgr"
  shows "autoFillValue (core_reflection ord) mgr b fs = autoFillValue (core_reflection (\<lambda>x. x)) mgr b fs"
proof (induction fs)
  case (Cons f fs)
  have fill: "tryToFillField (core_reflection ord) = tryToFillField (core_reflection (\<lambda>x. x))"
    by (simp add: fun_eq_iff tryToFillField_def assignable_def core_reflection_def)
  have "autoFillById (core_reflection ord) = autoFillById (core_reflection (\<lambda>x. x))"
    unfolding fun_eq_iff autoFillById_def fill by simp
  moreover have "autoFillByType (core_reflection ord) mgr b f = autoFillByType (core_reflection (\<lambda>x. x)) mgr b f"
    unfolding autoFillByType_def fill using search_types_order [OF assms(1)] assms(2) by (simp add: types_ok_def cong: option.case_cong)
  ultimately show ?case by (simp only: autoFillValue.simps Cons)
qed simp

lemma wire_order:
  "any_order ord \<Longrightarrow> types_ok mgr \<Longrightarrow> wire (core_reflection ord) mgr = wire (core_reflection (\<lambda>x. x)) mgr"
  by (simp add: fun_eq_iff wire_def AutoFill_def autoFillValue_order)

lemma register_middleware_order:
  "any_order ord \<Longrightarrow> types_ok mgr \<Longrightarrow>
   register_middleware (core_reflection ord) md (mgr, w) = register_middleware (core_reflection (\<lambda>x. x)) md (mgr, w)"
  unfolding register_middleware_def middleware_Init_def fst_conv snd_conv by (simp only: wire_order)

lemma core_Init_order:
  "any_order ord \<Longrightarrow> types_ok mgr \<Longrightarrow> core_Init (core_reflection ord) m (mgr, w) = core_Init (core_reflection (\<lambda>x. x)) m (mgr, w)"
  by (cases m) (simp_all add: core_Init_def wire_order)

lemma core_OnLoad_order:
  "any_order ord \<Longrightarrow> types_ok mgr \<Longrightarrow> core_OnLoad (core_reflection ord) m (mgr, w) = core_OnLoad (core_reflection (\<lambda>x. x)) m (mgr, w)"
  by (cases m) (simp_all add: core_OnLoad_def register_middleware_order)

lemma RegisterModule_order:
  assumes "any_order ord" and "types_ok mgr"
  shows "RegisterModule (core_env ord) m (mgr, w) = RegisterModule (core_env (\<lambda>x. x)) m (mgr, w)"
proof -
  let ?mgr = "mgr\<lparr>mm_modules := AList.update (core_Id m) m (mm_modules mgr),
    mm_types := AList.update (fst (core_types m)) m (mm_types mgr)\<rparr>"
  have "types_ok ?mgr" using assms(2) by (simp add: types_ok_def list_all_update)
  note load = core_OnLoad_order [OF assms(1) this]
  show ?thesis
  proof (cases "core_Init (core_reflection (\<lambda>x. x)) m (mgr, w)")
    case (Ret r)
    then show ?thesis using core_Init_order [OF assms, of m w] load by (cases r) (simp add: RegisterModule_def core_env_def Let_def)
  qed (use core_Init_order [OF assms, of m w] in \<open>simp add: RegisterModule_def core_env_def\<close>)
qed

lemma RegisterModule_types_ok:
  "types_ok mgr \<Longrightarrow> RegisterModule (core_env ord) m (mgr, w) = Ret ((mgr', w'), err) \<Longrightarrow> types_ok mgr'"
  by (auto simp: RegisterModule_def core_env_def bind_go_eq_Ret types_ok_def list_all_update Let_def split: if_splits)

lemma register_loop_order:
  assumes "any_order ord" and "types_ok (fst s)"
  shows "register_loop (core_env ord) ms s = register_loop (core_env (\<lambda>x. x)) ms s"
  using assms(2)
proof (induction ms arbitrary: s)
  case (Cons m ms)
  have s: "RegisterModule (core_env ord) m s = RegisterModule (core_env (\<lambda>x. x)) m s"
    using RegisterModule_order [OF assms(1), of "fst s" m "snd s"] Cons.prems by simp
  show ?case
  proof (cases "RegisterModule (core_env (\<lambda>x. x)) m s")
    case (Ret r)
    obtain mgr w err where r: "r = ((mgr, w), err)" by (metis prod.collapse)
    have "types_ok mgr" using RegisterModule_types_ok [of "fst s" "\<lambda>x. x" m "snd s" mgr w err] Cons.prems Ret r by simp
    then show ?thesis using Cons.IH [of "(mgr, w)"] s Ret r by simp
  qed (simp add: s)
qed simp

lemma InitCoreComponents_order:
  assumes "any_order ord"
  shows "InitCoreComponents ord before_start = InitCoreComponents (\<lambda>x. x) before_start"
proof -
  have "types_ok (fst before_start)" by (simp add: before_start_def NewModuleManager_def types_ok_def)
  then have "register_loop (core_env ord) moduleInstances before_start = register_loop (core_env (\<lambda>x. x)) moduleInstances before_start"
    by (rule register_loop_order [OF assms])
  moreover have "UnregisterModule (core_env ord) = UnregisterModule (core_env (\<lambda>x. x))"
    by (simp add: fun_eq_iff UnregisterModule_def unregisterModule_def core_env_def split: option.split)
  moreover have "mo_Id (core_env ord) = mo_Id (core_env (\<lambda>x. x))" by (simp add: core_env_def)
  moreover have "registerCoreMiddlewares (core_reflection ord) = registerCoreMiddlewares (core_reflection (\<lambda>x. x))"
    by (simp add: fun_eq_iff registerCoreMiddlewares_def)
  ultimately show ?thesis
    unfolding InitCoreComponents_def loadCoreModules_def RegisterModules_def by (simp only:)
qed

text \<open>
  C9. The start of the server. Whatever order the loops over the map of types take, the nine core modules load without an
  error or a panic, each is found under its id, the authentication module has its client and connection managers, and
  the middlewares installed are those of connection, block list and authentication. The throttle middleware is not
  among them: its field for the block list cannot be filled, since the block list module is loaded after the throttle
  module, and the error is dropped.
\<close>

theorem core_components_start:
  assumes "any_order ord"
  shows "case InitCoreComponents ord before_start of
      Panic \<Rightarrow> False
    | Ret ((mgr, w), err) \<Rightarrow>
        err = None \<and> list_all (\<lambda>m. GetModule mgr (core_Id m) = Some m) moduleInstances \<and>
        map gf_value (the (map_of (cs_wired w) ''Auth'')) = [Some ClientManager, Some ConnectionManager] \<and>
        map gf_value (the (map_of (cs_wired w) ''request_throttle'')) = [Some RequestThrottle, None] \<and>
        cs_tree w = server_mw_tree \<and> RequestAddressThrottleMiddleware \<notin> snd ` set (inorder (cs_tree w))"
  unfolding InitCoreComponents_order [OF assms] by code_simp

theorem core_components_start_witness:
  "case InitCoreComponents rev before_start of Panic \<Rightarrow> False | Ret ((mgr, w), err) \<Rightarrow> err = None \<and> cs_tree w = server_mw_tree"
proof -
  have "any_order (rev :: (string \<times> core_module) list \<Rightarrow> _)" by (simp add: any_order_def)
  from core_components_start [OF this] show ?thesis by (auto split: go.splits)
qed

end
