(* ===== verification/Metering.thy ===== *)
theory Metering
  imports Prelude
begin

text \<open>
  Stop watches and their controller: \<open>src/hub_common/metering/StopWatch.go\<close>,
  \<open>src/hub_common/metering/MeteringController.go\<close>, \<open>src/hub_server/modules/metering/MeteringModule.go\<close> and
  \<open>src/hub_client/controllers/ClientMeteringController.go\<close>.

  Stop watches are objects that the controller takes from a \<open>sync.Pool\<close> and puts back, so they are kept in a store by
  address. Which object the pool hands out is the argument \<open>pick\<close> of \<open>Measure\<close>: an object of the pool by its index, or a
  new one when the index is out of range. A time is an integer, the zero value of \<open>time.Time\<close> is 0. The log of the controller
  is the list of the ids with their total times. Calls run one after the other.
\<close>

section \<open>The controller\<close>

record StopWatch =
  sw_id :: string
  sw_marks :: "(int \<times> string) list option"

record MeteringController =
  mt_watches :: "nat \<Rightarrow> StopWatch"
  mt_next :: nat
  mt_pool :: "nat list"
  mt_map :: "(string \<times> nat) list"
  mt_log :: "(string \<times> int) list"

definition NewMeteringController :: MeteringController where
  "NewMeteringController =
     \<lparr>mt_watches = (\<lambda>_. \<lparr>sw_id = [], sw_marks = None\<rparr>), mt_next = 0, mt_pool = [], mt_map = [], mt_log = []\<rparr>"

text \<open>\<open>PushBack\<close> on the \<open>nil\<close> list panics.\<close>

definition sw_Mark :: "int \<Rightarrow> string \<Rightarrow> StopWatch \<Rightarrow> StopWatch go" where
  "sw_Mark now d w =
     (case sw_marks w of
        None \<Rightarrow> Panic
      | Some ms \<Rightarrow> Ret (w\<lparr>sw_marks := Some (ms @ [(now, ''['' @ d @ '']'')])\<rparr>))"

definition sw_Init :: "int \<Rightarrow> string \<Rightarrow> StopWatch \<Rightarrow> StopWatch go" where
  "sw_Init now k w = sw_Mark now ''start'' (w\<lparr>sw_id := k, sw_marks := Some []\<rparr>)"

text \<open>The loop of the callback over the marks, for the total time.\<close>

fun total_diff :: "int \<Rightarrow> int \<Rightarrow> (int \<times> string) list \<Rightarrow> int" where
  "total_diff lastTime acc [] = acc"
| "total_diff lastTime acc ((t, d) # ms) = total_diff t (if lastTime \<noteq> 0 then acc + (t - lastTime) else acc) ms"

text \<open>\<open>Stop\<close> of a stop watch with the callback that \<open>Measure\<close> gave it: it logs the total and puts the object back.\<close>

definition sw_Stop :: "int \<Rightarrow> nat \<Rightarrow> MeteringController \<Rightarrow> MeteringController go" where
  "sw_Stop now p c =
     bind_go (sw_Mark now ''stop'' (mt_watches c p)) (\<lambda>w.
       Ret (c\<lparr>mt_log := mt_log c @ [(sw_id w, total_diff 0 0 (the (sw_marks w)))], mt_pool := mt_pool c @ [p],
              mt_watches := (mt_watches c)(p := w\<lparr>sw_marks := None\<rparr>)\<rparr>))"

definition Measure :: "nat \<Rightarrow> int \<Rightarrow> string \<Rightarrow> MeteringController \<Rightarrow> (MeteringController \<times> nat) go" where
  "Measure pick now k c =
     (let (p, c) = (if pick < length (mt_pool c)
                    then (mt_pool c ! pick, c\<lparr>mt_pool := take pick (mt_pool c) @ drop (Suc pick) (mt_pool c)\<rparr>)
                    else (mt_next c, c\<lparr>mt_next := Suc (mt_next c)\<rparr>))
      in bind_go (sw_Init now k (mt_watches c p)) (\<lambda>w.
           Ret (c\<lparr>mt_watches := (mt_watches c)(p := w), mt_map := AList.update k p (mt_map c)\<rparr>, p)))"

definition GetAssembledTraceId :: "string \<Rightarrow> string \<Rightarrow> string" where
  "GetAssembledTraceId pre k = pre @ ''-'' @ k"

definition mt_Track :: "nat \<Rightarrow> int \<Rightarrow> string \<Rightarrow> string \<Rightarrow> MeteringController \<Rightarrow> (MeteringController \<times> nat) go" where
  "mt_Track pick now k d c =
     bind_go (case map_of (mt_map c) k of None \<Rightarrow> Measure pick now k c | Some p \<Rightarrow> Ret (c, p)) (\<lambda>(c, p).
       bind_go (sw_Mark now d (mt_watches c p)) (\<lambda>w. Ret (c\<lparr>mt_watches := (mt_watches c)(p := w)\<rparr>, p)))"

definition mt_Stop :: "int \<Rightarrow> string \<Rightarrow> MeteringController \<Rightarrow> MeteringController go" where
  "mt_Stop now k c =
     (case map_of (mt_map c) k of
        None \<Rightarrow> Ret c
      | Some p \<Rightarrow> bind_go (sw_Stop now p c) (\<lambda>c. Ret (c\<lparr>mt_map := AList.delete k (mt_map c)\<rparr>)))"

text \<open>\<open>ps\<close> are the stop watches of the map in the order the loop visits them.\<close>

definition StopAll :: "int \<Rightarrow> nat list \<Rightarrow> MeteringController \<Rightarrow> MeteringController go" where
  "StopAll now ps c = fold_go (sw_Stop now) ps c"

definition TMessagePerformance :: string where "TMessagePerformance = ''TMessagePerformance''"

definition TraceMessagePerformance :: "nat \<Rightarrow> int \<Rightarrow> string \<Rightarrow> MeteringController \<Rightarrow> (MeteringController \<times> nat) go" where
  "TraceMessagePerformance pick now k c = Measure pick now (GetAssembledTraceId TMessagePerformance k) c"

section \<open>Invariant and contract\<close>

datatype mt_op = OMeasure nat string | OTrack nat string string | OStop string

definition mt_do :: "int \<times> mt_op \<Rightarrow> MeteringController \<Rightarrow> MeteringController go" where
  "mt_do x c =
     (case snd x of
        OMeasure pick k \<Rightarrow> bind_go (Measure pick (fst x) k c) (\<lambda>(c, _). Ret c)
      | OTrack pick k d \<Rightarrow> bind_go (mt_Track pick (fst x) k d c) (\<lambda>(c, _). Ret c)
      | OStop k \<Rightarrow> mt_Stop (fst x) k c)"

text \<open>What the callers see: the start of each running measurement, and the totals that were logged.\<close>

fun clock_do :: "int \<times> mt_op \<Rightarrow> (string \<rightharpoonup> int) \<times> (string \<times> int) list \<Rightarrow> (string \<rightharpoonup> int) \<times> (string \<times> int) list" where
  "clock_do (now, OMeasure pick k) (f, log) = (f(k \<mapsto> now), log)"
| "clock_do (now, OTrack pick k d) (f, log) = (if f k = None then f(k \<mapsto> now) else f, log)"
| "clock_do (now, OStop k) (f, log) = (case f k of None \<Rightarrow> (f, log) | Some t \<Rightarrow> (f(k := None), log @ [(k, now - t)]))"

definition running :: "MeteringController \<Rightarrow> string \<rightharpoonup> int" where
  "running c k = (case map_of (mt_map c) k of None \<Rightarrow> None | Some p \<Rightarrow> Some (fst (hd (the (sw_marks (mt_watches c p))))))"

definition watch_ok :: "string \<Rightarrow> StopWatch \<Rightarrow> bool" where
  "watch_ok k w \<longleftrightarrow> sw_id w = k \<and> (\<exists>ms. sw_marks w = Some ms \<and> ms \<noteq> [] \<and> list_all (\<lambda>m. fst m \<noteq> 0) ms)"

definition mt_ok :: "MeteringController \<Rightarrow> bool" where
  "mt_ok c \<longleftrightarrow> distinct (mt_pool c) \<and> (\<forall>p \<in> set (mt_pool c). p < mt_next c) \<and>
     (\<forall>k p. map_of (mt_map c) k = Some p \<longrightarrow> p < mt_next c \<and> p \<notin> set (mt_pool c) \<and> watch_ok k (mt_watches c p))"

lemma mt_okD:
  assumes "mt_ok c"
  shows "distinct (mt_pool c)" and "p \<in> set (mt_pool c) \<Longrightarrow> p < mt_next c"
    and "map_of (mt_map c) k = Some p \<Longrightarrow> p < mt_next c"
    and "map_of (mt_map c) k = Some p \<Longrightarrow> p \<notin> set (mt_pool c)"
    and "map_of (mt_map c) k = Some p \<Longrightarrow> watch_ok k (mt_watches c p)"
    and "map_of (mt_map c) k = Some p \<Longrightarrow> map_of (mt_map c) k' = Some p \<Longrightarrow> k' = k"
  using assms unfolding mt_ok_def watch_ok_def by blast+

lemma total_diff_telescopes:
  "list_all (\<lambda>m. fst m \<noteq> 0) ms \<Longrightarrow> l \<noteq> 0 \<Longrightarrow> total_diff l acc ms = acc + (last (l # map fst ms) - l)"
  by (induction ms arbitrary: l acc) auto

lemma total_diff_run:
  assumes "ms \<noteq> []" and "list_all (\<lambda>m. fst m \<noteq> 0) ms"
  shows "total_diff 0 0 (ms @ [(now, d)]) = now - fst (hd ms)"
proof (cases "now = 0")
  case False
  then show ?thesis using assms total_diff_telescopes [of "tl ms @ [(now, d)]" "fst (hd ms)" 0] by (cases ms) auto
next
  case True
  obtain m ms' where ms: "ms = m # ms'" using assms(1) by (cases ms) auto
  have "total_diff l acc (ms' @ [(0, d)]) = acc - l" if "l \<noteq> 0" "list_all (\<lambda>m. fst m \<noteq> 0) ms'" for l acc
    using that by (induction ms' arbitrary: l acc) auto
  then show ?thesis using True ms assms(2) by (cases m) simp
qed

text \<open>The object that \<open>Measure\<close> takes is not in use.\<close>

lemma take_drop_pool:
  assumes "distinct xs" and "i < length xs"
  shows "distinct (take i xs @ drop (Suc i) xs)" and "set (take i xs @ drop (Suc i) xs) = set xs - {xs ! i}"
proof -
  have "xs = take i xs @ xs ! i # drop (Suc i) xs" using id_take_nth_drop [OF assms(2)] .
  then have d: "distinct (take i xs @ xs ! i # drop (Suc i) xs)" and e: "set xs = set (take i xs @ xs ! i # drop (Suc i) xs)"
    using assms(1) by simp_all
  show "distinct (take i xs @ drop (Suc i) xs)" using d by auto
  show "set (take i xs @ drop (Suc i) xs) = set xs - {xs ! i}" using d e by auto
qed

definition started :: "int \<Rightarrow> string \<Rightarrow> nat \<Rightarrow> MeteringController \<Rightarrow> MeteringController \<Rightarrow> bool" where
  "started now k p c c' \<longleftrightarrow> mt_ok c' \<and> mt_log c' = mt_log c \<and> mt_map c' = AList.update k p (mt_map c) \<and>
     (\<forall>k' q. map_of (mt_map c) k' = Some q \<longrightarrow> q \<noteq> p) \<and>
     mt_watches c' = (mt_watches c)(p := \<lparr>sw_id = k, sw_marks = Some [(now, ''[start]'')]\<rparr>)"

lemma Measure_started:
  assumes "mt_ok c" and "now \<noteq> 0"
  shows "\<exists>c' p. Measure pick now k c = Ret (c', p) \<and> started now k p c c'"
proof -
  let ?w = "\<lparr>sw_id = k, sw_marks = Some [(now, ''[start]'')]\<rparr>"
  have init: "sw_Init now k w = Ret ?w" for w by (cases w) (simp add: sw_Init_def sw_Mark_def)
  have ok: "watch_ok k ?w" using assms(2) by (simp add: watch_ok_def)
  define p where "p = (if pick < length (mt_pool c) then mt_pool c ! pick else mt_next c)"
  define pool where "pool = (if pick < length (mt_pool c) then take pick (mt_pool c) @ drop (Suc pick) (mt_pool c) else mt_pool c)"
  define nxt where "nxt = (if pick < length (mt_pool c) then mt_next c else Suc (mt_next c))"
  let ?c = "c\<lparr>mt_pool := pool, mt_next := nxt, mt_watches := (mt_watches c)(p := ?w), mt_map := AList.update k p (mt_map c)\<rparr>"
  have m: "Measure pick now k c = Ret (?c, p)"
    by (simp add: Measure_def init p_def pool_def nxt_def)
  have pool: "distinct pool" "p \<notin> set pool" "set pool \<subseteq> set (mt_pool c)" "p < nxt" "mt_next c \<le> nxt"
    using take_drop_pool [OF mt_okD(1) [OF assms(1)], of pick] mt_okD(1,2) [OF assms(1)]
    by (auto simp: pool_def p_def nxt_def)
  have free: "q \<noteq> p" if "map_of (mt_map c) k' = Some q" for k' q
    using mt_okD(3,4) [OF assms(1) that] by (auto simp: p_def)
  have "q < nxt \<and> q \<notin> set pool \<and> watch_ok k' (mt_watches ?c q)" if "map_of (mt_map ?c) k' = Some q" for k' q
  proof (cases "k' = k")
    case True
    then show ?thesis using that pool ok by (simp add: update_conv)
  next
    case False
    then have old: "map_of (mt_map c) k' = Some q" using that by (simp add: update_conv)
    then show ?thesis using mt_okD(3-5) [OF assms(1) old] free [OF old] pool(3,5) by auto
  qed
  moreover have "q < nxt" if "q \<in> set pool" for q using that pool(3,5) mt_okD(2) [OF assms(1), of q] by auto
  ultimately have "mt_ok ?c" using pool(1) unfolding mt_ok_def by simp
  then show ?thesis using m free by (auto simp: started_def)
qed

lemma running_started: "started now k p c c' \<Longrightarrow> running c' = (running c)(k \<mapsto> now)"
  by (auto simp: fun_eq_iff running_def started_def update_conv split: option.split)

text \<open>A mark changes one stop watch that is in the map.\<close>

lemma mark_ok:
  assumes "mt_ok c" and "map_of (mt_map c) k = Some p" and "now \<noteq> 0"
  shows "\<exists>w. sw_Mark now d (mt_watches c p) = Ret w \<and> mt_ok (c\<lparr>mt_watches := (mt_watches c)(p := w)\<rparr>) \<and>
    running (c\<lparr>mt_watches := (mt_watches c)(p := w)\<rparr>) = running c"
proof -
  obtain ms where ms: "sw_id (mt_watches c p) = k" "sw_marks (mt_watches c p) = Some ms" "ms \<noteq> []" "list_all (\<lambda>m. fst m \<noteq> 0) ms"
    using mt_okD(5) [OF assms(1,2)] by (auto simp: watch_ok_def)
  define w where "w = (mt_watches c p)\<lparr>sw_marks := Some (ms @ [(now, ''['' @ d @ '']'')])\<rparr>"
  have mark: "sw_Mark now d (mt_watches c p) = Ret w" using ms(2) by (simp add: sw_Mark_def w_def)
  have w: "watch_ok k w" "fst (hd (the (sw_marks w))) = fst (hd ms)" using ms assms(3) by (auto simp: watch_ok_def w_def)
  have "watch_ok k' (((mt_watches c)(p := w)) q)" if "map_of (mt_map c) k' = Some q" for k' q
    using mt_okD(5) [OF assms(1) that] mt_okD(6) [OF assms(1) assms(2), of k'] that w(1) by auto
  then have "mt_ok (c\<lparr>mt_watches := (mt_watches c)(p := w)\<rparr>)" using assms(1) unfolding mt_ok_def by simp
  moreover have "running (c\<lparr>mt_watches := (mt_watches c)(p := w)\<rparr>) = running c"
    using w(2) ms(2) by (auto simp: fun_eq_iff running_def split: option.split)
  ultimately show ?thesis using mark by blast
qed

lemma Track_clock:
  assumes "mt_ok c" and "now \<noteq> 0"
  shows "\<exists>c' p. mt_Track pick now k d c = Ret (c', p) \<and> mt_ok c' \<and> mt_log c' = mt_log c \<and>
    running c' = (if running c k = None then (running c)(k \<mapsto> now) else running c)"
proof (cases "map_of (mt_map c) k")
  case None
  obtain c1 p where m: "Measure pick now k c = Ret (c1, p)" and st: "started now k p c c1" using Measure_started [OF assms] by blast
  have c1: "mt_ok c1" "map_of (mt_map c1) k = Some p" "mt_log c1 = mt_log c" using st by (auto simp: started_def update_conv)
  obtain w where "sw_Mark now d (mt_watches c1 p) = Ret w" "mt_ok (c1\<lparr>mt_watches := (mt_watches c1)(p := w)\<rparr>)"
    "running (c1\<lparr>mt_watches := (mt_watches c1)(p := w)\<rparr>) = running c1"
    using mark_ok [OF c1(1,2) assms(2)] by blast
  moreover have "running c k = None" using None by (simp add: running_def)
  ultimately show ?thesis using None m c1(3) running_started [OF st] by (simp add: mt_Track_def)
next
  case (Some p)
  obtain w where "sw_Mark now d (mt_watches c p) = Ret w" "mt_ok (c\<lparr>mt_watches := (mt_watches c)(p := w)\<rparr>)"
    "running (c\<lparr>mt_watches := (mt_watches c)(p := w)\<rparr>) = running c"
    using mark_ok [OF assms(1) Some assms(2)] by blast
  moreover have "running c k \<noteq> None" using Some by (simp add: running_def)
  ultimately show ?thesis using Some by (auto simp: mt_Track_def)
qed

lemma Stop_clock:
  assumes "mt_ok c" and "map_of (mt_map c) k = Some p"
  shows "\<exists>c' t. mt_Stop now k c = Ret c' \<and> mt_ok c' \<and> running c k = Some t \<and> running c' = (running c)(k := None) \<and>
    mt_log c' = mt_log c @ [(k, now - t)]"
proof -
  obtain ms where ms: "sw_id (mt_watches c p) = k" "sw_marks (mt_watches c p) = Some ms" "ms \<noteq> []" "list_all (\<lambda>m. fst m \<noteq> 0) ms"
    using mt_okD(5) [OF assms] by (auto simp: watch_ok_def)
  define c' where "c' = c\<lparr>mt_log := mt_log c @ [(k, now - fst (hd ms))], mt_pool := mt_pool c @ [p],
    mt_watches := (mt_watches c)(p := (mt_watches c p)\<lparr>sw_marks := None\<rparr>), mt_map := AList.delete k (mt_map c)\<rparr>"
  have stop: "mt_Stop now k c = Ret c'"
    using ms assms(2) total_diff_run [OF ms(3,4)] by (simp add: mt_Stop_def sw_Stop_def sw_Mark_def c'_def)
  have other: "q \<noteq> p" if "map_of (mt_map c) k' = Some q" "k' \<noteq> k" for k' q
    using mt_okD(6) [OF assms, of k'] that by auto
  have "q < mt_next c' \<and> q \<notin> set (mt_pool c') \<and> watch_ok k' (mt_watches c' q)" if "map_of (mt_map c') k' = Some q" for k' q
  proof -
    have old: "map_of (mt_map c) k' = Some q" "k' \<noteq> k" using that by (auto simp: c'_def delete_conv split: if_splits)
    then show ?thesis using mt_okD(3-5) [OF assms(1) old(1)] other [OF old] by (simp add: c'_def)
  qed
  moreover have "distinct (mt_pool c')" "\<forall>q \<in> set (mt_pool c'). q < mt_next c'"
    using mt_okD(1,2) [OF assms(1)] mt_okD(3,4) [OF assms] by (auto simp: c'_def)
  ultimately have "mt_ok c'" unfolding mt_ok_def by blast
  moreover have "running c' = (running c)(k := None)"
    using other by (auto simp: fun_eq_iff running_def c'_def delete_conv split: option.split)
  moreover have "running c k = Some (fst (hd ms))" using assms(2) ms(2) by (simp add: running_def)
  moreover have "mt_log c' = mt_log c @ [(k, now - fst (hd ms))]" by (simp add: c'_def)
  ultimately show ?thesis using stop by blast
qed

lemma mt_do_clock:
  assumes "mt_ok c" and "fst x \<noteq> 0"
  shows "\<exists>c'. mt_do x c = Ret c' \<and> mt_ok c' \<and> (running c', mt_log c') = clock_do x (running c, mt_log c)"
proof -
  obtain now y where x: "x = (now, y)" by (cases x)
  show ?thesis
  proof (cases y)
    case (OMeasure pick k)
    obtain c' p where "Measure pick now k c = Ret (c', p)" "started now k p c c'"
      using Measure_started [OF assms(1), of now pick k] assms(2) x by auto
    then show ?thesis using x OMeasure running_started [of now k p c c'] by (simp add: mt_do_def started_def)
  next
    case (OTrack pick k d)
    obtain c' p where "mt_Track pick now k d c = Ret (c', p)" "mt_ok c'" "mt_log c' = mt_log c"
      "running c' = (if running c k = None then (running c)(k \<mapsto> now) else running c)"
      using Track_clock [OF assms(1), of now pick k d] assms(2) x by auto
    then show ?thesis using OTrack x by (simp add: mt_do_def)
  next
    case (OStop k)
    show ?thesis
    proof (cases "map_of (mt_map c) k")
      case None
      then show ?thesis using x OStop assms(1) by (simp add: mt_do_def mt_Stop_def running_def)
    next
      case (Some p)
      obtain c' t where "mt_Stop now k c = Ret c'" "mt_ok c'" "running c k = Some t" "running c' = (running c)(k := None)"
        "mt_log c' = mt_log c @ [(k, now - t)]"
        using Stop_clock [OF assms(1) Some, of now] by blast
      then show ?thesis using x OStop by (simp add: mt_do_def)
    qed
  qed
qed

lemma mt_run_clock:
  "mt_ok c \<Longrightarrow> list_all (\<lambda>x. fst x \<noteq> 0) xs \<Longrightarrow>
   \<exists>c'. fold_go mt_do xs c = Ret c' \<and> mt_ok c' \<and> (running c', mt_log c') = fold clock_do xs (running c, mt_log c)"
proof (induction xs arbitrary: c)
  case (Cons x xs)
  obtain c1 where c1: "mt_do x c = Ret c1" "mt_ok c1" "(running c1, mt_log c1) = clock_do x (running c, mt_log c)"
    using mt_do_clock [OF Cons.prems(1), of x] Cons.prems(2) by fastforce
  then show ?case using Cons.IH [OF c1(2)] Cons.prems(2) by simp
qed simp

lemma mt_ok_New: "mt_ok NewMeteringController"
  by (simp add: mt_ok_def NewMeteringController_def)

text \<open>
  Whatever objects the pool hands out again, every sequence of \<open>Measure\<close>, \<open>Track\<close> and \<open>Stop\<close> runs without a panic and is a
  set of independent clocks: \<open>Measure\<close> starts the clock of its id, \<open>Track\<close> starts it when it does not run, and \<open>Stop\<close>
  logs the time since the start and ends it. No running measurement shares its stop watch with another or with the pool.
\<close>

theorem metering_refines_clocks:
  assumes "list_all (\<lambda>x. fst x \<noteq> 0) xs"
  shows "\<exists>c. fold_go mt_do xs NewMeteringController = Ret c \<and> mt_ok c \<and>
    (running c, mt_log c) = fold clock_do xs (Map.empty, [])"
proof -
  have "running NewMeteringController = Map.empty" "mt_log NewMeteringController = []"
    by (simp_all add: fun_eq_iff running_def NewMeteringController_def)
  then show ?thesis using mt_run_clock [OF mt_ok_New assms] by simp
qed

theorem metering_refines_clocks_witness:
  "\<exists>c. fold_go mt_do [(5, OMeasure 0 ''a''), (6, OTrack 0 ''b'' ''x''), (9, OStop ''a''), (11, OMeasure 0 ''c''), (12, OStop ''b'')]
     NewMeteringController = Ret c \<and> mt_log c = [(''a'', 4), (''b'', 6)]"
  using metering_refines_clocks [of "[(5, OMeasure 0 ''a''), (6, OTrack 0 ''b'' ''x''), (9, OStop ''a''), (11, OMeasure 0 ''c''), (12, OStop ''b'')]"]
  by auto

section \<open>The trace of a dispatched message\<close>

text \<open>
  The calls that the server's dispatcher makes for a message with id \<open>k\<close> (\<open>ServerMessageDispatcher.Dispatch\<close>); for a service
  request with those of its handler and of a synchronous service in between.
\<close>

definition dispatch_trace :: "bool \<Rightarrow> string \<Rightarrow> mt_op list" where
  "dispatch_trace is_service k =
     (let a = GetAssembledTraceId TMessagePerformance k in
      [OMeasure 0 a] @
      (if is_service
       then [OTrack 0 a ''in service handler'', OTrack 0 a ''request in queue'', OTrack 0 a ''sync request handled'', OStop a]
       else []) @ [OStop k])"

lemma assembled_differs: "GetAssembledTraceId TMessagePerformance k \<noteq> k"
proof
  assume "GetAssembledTraceId TMessagePerformance k = k"
  then have "length (GetAssembledTraceId TMessagePerformance k) = length k" by simp
  then show False by (simp add: GetAssembledTraceId_def)
qed

text \<open>
  The stop watch of a service request is ended by its handler and its time logged, whereas the one of every other
  message is left running for good: the dispatcher starts it under the assembled trace id and stops the raw message id.
\<close>

theorem dispatch_leaves_stop_watch:
  assumes "mt_ok c" and "length ts = length (dispatch_trace is_service k)" and "list_all (\<lambda>t. t \<noteq> 0) ts" and "running c k = None"
  shows "\<exists>c'. fold_go mt_do (zip ts (dispatch_trace is_service k)) c = Ret c' \<and>
    (if is_service
     then running c' = (running c)(GetAssembledTraceId TMessagePerformance k := None) \<and>
       mt_log c' = mt_log c @ [(GetAssembledTraceId TMessagePerformance k, ts ! 4 - ts ! 0)]
     else running c' = (running c)(GetAssembledTraceId TMessagePerformance k \<mapsto> ts ! 0) \<and> mt_log c' = mt_log c)"
proof -
  let ?a = "GetAssembledTraceId TMessagePerformance k"
  have nz: "list_all (\<lambda>x. fst x \<noteq> 0) (zip ts (dispatch_trace is_service k))"
    using assms(3) by (auto simp: list_all_iff dest: set_zip_leftD)
  obtain c' where c': "fold_go mt_do (zip ts (dispatch_trace is_service k)) c = Ret c'"
    "(running c', mt_log c') = fold clock_do (zip ts (dispatch_trace is_service k)) (running c, mt_log c)"
    using mt_run_clock [OF assms(1) nz] by blast
  show ?thesis
  proof (cases is_service)
    case True
    then obtain t0 t1 t2 t3 t4 t5 where "ts = [t0, t1, t2, t3, t4, t5]"
      using assms(2) by (auto simp: dispatch_trace_def Let_def length_Suc_conv)
    then show ?thesis using c' True assms(4) assembled_differs [of k] by (simp add: dispatch_trace_def Let_def)
  next
    case False
    then obtain t0 t1 where "ts = [t0, t1]" using assms(2) by (auto simp: dispatch_trace_def Let_def length_Suc_conv)
    then show ?thesis using c' False assms(4) assembled_differs [of k] by (simp add: dispatch_trace_def Let_def)
  qed
qed

theorem dispatch_leaves_stop_watch_witness:
  "\<exists>c'. fold_go mt_do (zip [5, 6] (dispatch_trace False ''42'')) NewMeteringController = Ret c' \<and>
     running c' (GetAssembledTraceId TMessagePerformance ''42'') = Some 5"
proof -
  have "running NewMeteringController ''42'' = None" by (simp add: running_def NewMeteringController_def)
  moreover have "length [5, 6 :: int] = length (dispatch_trace False ''42'')" by (simp add: dispatch_trace_def)
  ultimately show ?thesis using dispatch_leaves_stop_watch [OF mt_ok_New, of "[5, 6]" False "''42''"] by auto
qed

lemma StopAll_clears:
  assumes "distinct ps" and "\<forall>p \<in> set ps. sw_marks (mt_watches c p) \<noteq> None"
  shows "\<exists>c'. StopAll now ps c = Ret c' \<and> mt_map c' = mt_map c \<and> (\<forall>p \<in> set ps. sw_marks (mt_watches c' p) = None) \<and>
    (\<forall>p. p \<notin> set ps \<longrightarrow> mt_watches c' p = mt_watches c p)"
  using assms
proof (induction ps arbitrary: c)
  case (Cons p ps)
  obtain ms where ms: "sw_marks (mt_watches c p) = Some ms" using Cons.prems(2) by auto
  obtain c1 where c1: "sw_Stop now p c = Ret c1" "mt_map c1 = mt_map c" "sw_marks (mt_watches c1 p) = None"
    "\<forall>q. q \<noteq> p \<longrightarrow> mt_watches c1 q = mt_watches c q"
    using ms by (simp add: sw_Stop_def sw_Mark_def)
  have "\<forall>q \<in> set ps. sw_marks (mt_watches c1 q) \<noteq> None" using Cons.prems c1(4) by auto
  then obtain c' where "StopAll now ps c1 = Ret c'" "mt_map c' = mt_map c1" "\<forall>p \<in> set ps. sw_marks (mt_watches c' p) = None"
    "\<forall>q. q \<notin> set ps \<longrightarrow> mt_watches c' q = mt_watches c1 q"
    using Cons.IH [of c1] Cons.prems(1) by auto
  then show ?case using c1 Cons.prems(1) by (simp add: StopAll_def)
qed (simp add: StopAll_def)

text \<open>
  \<open>StopAll\<close> leaves the stop watches it has stopped in the map: a later \<open>Stop\<close> or \<open>Track\<close> of a measurement that was running
  panics on the missing list of marks.
\<close>

theorem StopAll_breaks_running_measurements:
  assumes "mt_ok c" and "distinct ps" and "set ps = ran (map_of (mt_map c))" and "map_of (mt_map c) k = Some p"
  shows "\<exists>c'. StopAll now ps c = Ret c' \<and> mt_Stop now' k c' = Panic \<and> mt_Track pick now' k d c' = Panic"
proof -
  have "sw_marks (mt_watches c q) \<noteq> None" if "q \<in> set ps" for q
  proof -
    have "q \<in> ran (map_of (mt_map c))" using that assms(3) by simp
    then obtain k' where "map_of (mt_map c) k' = Some q" by (auto simp: ran_def)
    then show ?thesis using mt_okD(5) [OF assms(1)] by (fastforce simp: watch_ok_def)
  qed
  then obtain c' where c': "StopAll now ps c = Ret c'" "mt_map c' = mt_map c" "\<forall>p \<in> set ps. sw_marks (mt_watches c' p) = None"
    using StopAll_clears [OF assms(2), of c now] by blast
  have "p \<in> set ps" using assms(3,4) by (auto simp: ran_def)
  then show ?thesis using c' assms(4) by (simp add: mt_Stop_def mt_Track_def sw_Stop_def sw_Mark_def)
qed

theorem StopAll_breaks_running_measurements_witness:
  "\<exists>c'. StopAll 7 [0] (case Measure 0 5 ''a'' NewMeteringController of Ret (c, _) \<Rightarrow> c | Panic \<Rightarrow> NewMeteringController) = Ret c' \<and>
     mt_Stop 9 ''a'' c' = Panic"
proof -
  define c where "c = (case Measure 0 5 ''a'' NewMeteringController of Ret (c, _) \<Rightarrow> c | Panic \<Rightarrow> NewMeteringController)"
  obtain c1 p where "Measure 0 5 ''a'' NewMeteringController = Ret (c1, p)" "started 5 ''a'' p NewMeteringController c1"
    using Measure_started [OF mt_ok_New, of 5 0 "''a''"] by auto
  then have "mt_ok c" by (simp add: c_def started_def)
  moreover have "mt_map c = [(''a'', 0)]" by (simp add: c_def Measure_def NewMeteringController_def sw_Init_def sw_Mark_def)
  ultimately show ?thesis
    using StopAll_breaks_running_measurements [of c "[0]" "''a''" 0 7 9 0 "[]"] unfolding c_def [symmetric] by auto
qed

end
