(* ===== verification/RequestReply.thy ===== *)
theory RequestReply
  imports Messages Notifications
begin

text \<open>
  Requests over a connection: \<open>src/hub_common/connection/Connection.go\<close>.

  A connection parses what its socket reads and hands a message to the listeners of its id, or to the callback when there
  are none and a callback is set. \<open>RequestWithTimeout\<close> sends a message, starts a timer and registers a listener for the id, then waits for a lock
  that the listener or the timer opens. The model follows one request: the steps of its goroutine, of its timer, of the
  reading loop and of other users of the emitter may come in any order. \<open>Send\<close> puts the sent message back into the pool,
  and the id for the listener is read from it afterwards: \<open>rq_cell\<close> is the id in that cell, which another goroutine may have
  taken out of the pool and overwritten by then (the flag \<open>reuse\<close> allows this). The listener of the request is the wrapper
  number 0 of the emitter model; the listeners of one notification run one after the other.
\<close>

section \<open>Connection\<close>

text \<open>The request timeout in seconds, as \<open>NewConnection\<close> sets it.\<close>

definition request_timeout :: "int \<Rightarrow> int" where
  "request_timeout timeout = (if timeout < 15 then 15 else if timeout > 60 then 60 else timeout)"

datatype rq_stage = RqStart | RqSent | RqArmed | RqWaiting | RqReturned
datatype rq_timer = TimerIdle | TimerRunning | TimerCancelled | TimerFired

record request_state =
  rq_stage :: rq_stage
  rq_timer :: rq_timer
  rq_open :: bool
  rq_response :: "Message option"
  rq_err :: "string option"
  rq_cell :: string
  rq_emitter :: emitter
  rq_callback :: "Message list"

text \<open>The listener that \<open>RequestWithTimeout\<close> registers.\<close>

definition response_listener :: "Message option \<Rightarrow> request_state \<Rightarrow> request_state" where
  "response_listener msg s =
     (let s = s\<lparr>rq_timer := (if rq_timer s = TimerRunning then TimerCancelled else rq_timer s)\<rparr>;
          s = (case msg of
                 None \<Rightarrow> s\<lparr>rq_err := Some (''invalid(nil) response for request '' @ rq_cell s)\<rparr>
               | Some m \<Rightarrow> s\<lparr>rq_response := Some m\<rparr>)
      in s\<lparr>rq_open := True\<rparr>)"

text \<open>\<open>Notify\<close>: the request's listener runs when it is among those of the event, and each wrapper takes itself off.\<close>

definition notify_all :: "Message \<Rightarrow> request_state \<Rightarrow> request_state" where
  "notify_all m s =
     (let ls = getMessageListeners (rq_emitter s) (m_id m);
          s = (if OnceWrapper 0 \<in> set ls then response_listener (Some m) s else s)
      in s\<lparr>rq_emitter := fold (\<lambda>l e. case l of OnceWrapper k \<Rightarrow> em_Off (m_id m) l e | Plain _ _ \<Rightarrow> e) ls (rq_emitter s)\<rparr>)"

text \<open>The callback of \<open>NewConnection\<close> for what the socket reads, after a message was parsed.\<close>

definition deliver :: "Message \<Rightarrow> request_state \<Rightarrow> request_state" where
  "deliver m s =
     (if HasEvent (rq_emitter s) (m_id m) then notify_all m s
      else s\<lparr>rq_callback := rq_callback s @ [m]\<rparr>)"

text \<open>The error of \<open>OnceMessage\<close>, when the event has its maximum of listeners, is ignored.\<close>

definition OnceMessage :: "request_state \<Rightarrow> request_state" where
  "OnceMessage s = s\<lparr>rq_emitter := fst (em_On (rq_cell s) (OnceWrapper 0) (rq_emitter s))\<rparr>"

definition timeout_job :: "request_state \<Rightarrow> request_state" where
  "timeout_job s = s\<lparr>rq_timer := TimerFired, rq_err := Some (''request timeout for message '' @ rq_cell s), rq_open := True\<rparr>"

text \<open>What other goroutines may do to the emitter: anything but add this request's listener.\<close>

definition foreign :: "em_op \<Rightarrow> bool" where
  "foreign x \<longleftrightarrow> (case x of DoOn _ l \<Rightarrow> l \<noteq> OnceWrapper 0 | _ \<Rightarrow> True)"

inductive RequestWithTimeout :: "bool \<Rightarrow> request_state \<Rightarrow> request_state \<Rightarrow> bool" for reuse where
  send_fails: "rq_stage s = RqStart \<Longrightarrow> RequestWithTimeout reuse s (s\<lparr>rq_stage := RqReturned, rq_err := Some e\<rparr>)"
| send: "rq_stage s = RqStart \<Longrightarrow> RequestWithTimeout reuse s (s\<lparr>rq_stage := RqSent\<rparr>)"
| start_timer: "rq_stage s = RqSent \<Longrightarrow> RequestWithTimeout reuse s (s\<lparr>rq_stage := RqArmed, rq_timer := TimerRunning\<rparr>)"
| listen: "rq_stage s = RqArmed \<Longrightarrow> RequestWithTimeout reuse s ((OnceMessage s)\<lparr>rq_stage := RqWaiting\<rparr>)"
| wait_returns: "rq_stage s = RqWaiting \<Longrightarrow> rq_open s \<Longrightarrow> RequestWithTimeout reuse s (s\<lparr>rq_stage := RqReturned\<rparr>)"
| timer_fires: "rq_timer s = TimerRunning \<Longrightarrow> RequestWithTimeout reuse s (timeout_job s)"
| message_arrives: "RequestWithTimeout reuse s (deliver m s)"
| emitter_used: "foreign x \<Longrightarrow> RequestWithTimeout reuse s (s\<lparr>rq_emitter := em_do x (rq_emitter s)\<rparr>)"
| cell_reused: "reuse \<Longrightarrow> rq_stage s = RqSent \<or> rq_stage s = RqArmed \<Longrightarrow> RequestWithTimeout reuse s (s\<lparr>rq_cell := k\<rparr>)"

definition request_init :: "string \<Rightarrow> emitter \<Rightarrow> request_state" where
  "request_init k e =
     \<lparr>rq_stage = RqStart, rq_timer = TimerIdle, rq_open = False, rq_response = None, rq_err = None, rq_cell = k,
      rq_emitter = e, rq_callback = []\<rparr>"

section \<open>What a request returns\<close>

definition unused_listener :: "emitter \<Rightarrow> bool" where
  "unused_listener e \<longleftrightarrow> em_ok e \<and> (\<forall>ev. OnceWrapper 0 \<notin> set (getMessageListeners e ev))"

definition request_inv :: "string \<Rightarrow> request_state \<Rightarrow> bool" where
  "request_inv k s \<longleftrightarrow> em_ok (rq_emitter s) \<and> rq_cell s = k \<and>
     (\<forall>ev. OnceWrapper 0 \<in> set (getMessageListeners (rq_emitter s) ev) \<longrightarrow> ev = k) \<and>
     (rq_stage s \<in> {RqStart, RqSent, RqArmed} \<longrightarrow> unused_listener (rq_emitter s) \<and> rq_response s = None) \<and>
     (\<forall>m. rq_response s = Some m \<longrightarrow> m_id m = k) \<and>
     (rq_open s \<or> rq_stage s = RqReturned \<longrightarrow> rq_response s \<noteq> None \<or> rq_err s \<noteq> None) \<and>
     (rq_stage s \<in> {RqArmed, RqWaiting} \<longrightarrow> rq_open s \<or> rq_timer s = TimerRunning)"

lemma set_drop_first: "set (drop_first P xs) \<subseteq> set xs"
  unfolding drop_first_def using set_takeWhileD set_dropWhileD
  by (metis (no_types, lifting) Un_least list.set_sel(2) set_append set_dropWhileD set_takeWhileD subsetI tl_Nil)

lemma em_do_foreign:
  assumes "em_ok e" and "foreign x" and "OnceWrapper 0 \<in> set (getMessageListeners (em_do x e) ev)"
  shows "OnceWrapper 0 \<in> set (getMessageListeners e ev)"
proof (cases x)
  case (DoOn ev' l)
  then show ?thesis using assms by (auto simp: em_do_refines foreign_def simp del: em_do.simps split: if_splits)
next
  case (DoOff ev' l)
  then show ?thesis using assms set_drop_first by (fastforce simp: em_do_refines simp del: em_do.simps split: if_splits)
next
  case (DoOffAll ev')
  then show ?thesis using assms by (auto simp: em_do_refines simp del: em_do.simps split: if_splits)
qed

lemma take_off:
  assumes "em_ok e"
  shows "em_ok (fold (\<lambda>l e. case l of OnceWrapper k \<Rightarrow> em_Off ev l e | Plain _ _ \<Rightarrow> e) ls e) \<and>
    (\<forall>ev'. OnceWrapper 0 \<in> set (getMessageListeners (fold (\<lambda>l e. case l of OnceWrapper k \<Rightarrow> em_Off ev l e | Plain _ _ \<Rightarrow> e) ls e) ev') \<longrightarrow>
      OnceWrapper 0 \<in> set (getMessageListeners e ev'))"
  using assms
proof (induction ls arbitrary: e)
  case (Cons l ls)
  show ?case
  proof (cases l)
    case (OnceWrapper k)
    have "em_ok (em_Off ev l e)" by (rule em_ok_Off [OF Cons.prems])
    then show ?thesis using Cons.IH [of "em_Off ev l e"] em_do_foreign [OF Cons.prems, of "DoOff ev l"] OnceWrapper
      by (simp add: foreign_def)
  qed (use Cons in simp)
qed simp

text \<open>The listener runs only for a message with the id it was registered for, and while the request waits.\<close>

lemma deliver_inv:
  assumes "request_inv k s"
  shows "request_inv k (deliver m s)"
proof (cases "HasEvent (rq_emitter s) (m_id m)")
  case True
  define ls where "ls = getMessageListeners (rq_emitter s) (m_id m)"
  define e where "e = fold (\<lambda>l e. case l of OnceWrapper k \<Rightarrow> em_Off (m_id m) l e | Plain _ _ \<Rightarrow> e) ls (rq_emitter s)"
  have ok: "em_ok (rq_emitter s)" using assms by (simp add: request_inv_def)
  have e: "em_ok e" "OnceWrapper 0 \<in> set (getMessageListeners e ev) \<Longrightarrow> OnceWrapper 0 \<in> set (getMessageListeners (rq_emitter s) ev)" for ev
    using take_off [OF ok, of "m_id m" ls] by (auto simp: e_def)
  show ?thesis
  proof (cases "OnceWrapper 0 \<in> set ls")
    case fired: True
    have d: "deliver m s = s\<lparr>rq_timer := (if rq_timer s = TimerRunning then TimerCancelled else rq_timer s), rq_response := Some m,
        rq_open := True, rq_emitter := e\<rparr>"
      using True fired by (simp add: deliver_def notify_all_def response_listener_def Let_def ls_def e_def)
    have fr: "OnceWrapper 0 \<in> set (getMessageListeners (rq_emitter s) (m_id m))" using fired by (simp only: ls_def)
    then have id: "m_id m = k" using assms unfolding request_inv_def by blast
    have late: "rq_stage s \<notin> {RqStart, RqSent, RqArmed}" using assms fr unfolding request_inv_def unused_listener_def by blast
    have own: "\<forall>ev. OnceWrapper 0 \<in> set (getMessageListeners e ev) \<longrightarrow> ev = k"
      using assms e(2) unfolding request_inv_def by blast
    show ?thesis using assms e(1) id late own unfolding d request_inv_def by simp
  next
    case False
    then have d: "deliver m s = s\<lparr>rq_emitter := e\<rparr>" using True by (simp add: deliver_def notify_all_def Let_def ls_def e_def)
    have "\<forall>ev. OnceWrapper 0 \<in> set (getMessageListeners e ev) \<longrightarrow> ev = k" "unused_listener (rq_emitter s) \<Longrightarrow> unused_listener e"
      using assms e unfolding request_inv_def unused_listener_def by blast+
    then show ?thesis using assms e(1) unfolding d request_inv_def by simp
  qed
next
  case False
  then show ?thesis using assms by (simp add: deliver_def request_inv_def)
qed

lemma listen_inv:
  assumes "request_inv k s" and "rq_stage s = RqArmed"
  shows "request_inv k ((OnceMessage s)\<lparr>rq_stage := RqWaiting\<rparr>)"
proof -
  define e where "e = fst (em_On k (OnceWrapper 0) (rq_emitter s))"
  have s: "em_ok (rq_emitter s)" "rq_cell s = k" "\<forall>ev. OnceWrapper 0 \<notin> set (getMessageListeners (rq_emitter s) ev)"
    using assms by (auto simp: request_inv_def unused_listener_def)
  have e: "em_ok e" "getMessageListeners e = bus_do (em_max (rq_emitter s)) (DoOn k (OnceWrapper 0)) (getMessageListeners (rq_emitter s))"
    using em_ok_On [OF s(1)] em_do_refines [OF s(1), of "DoOn k (OnceWrapper 0)"] by (simp_all add: e_def)
  have own: "OnceWrapper 0 \<in> set (getMessageListeners e ev) \<Longrightarrow> ev = k" for ev
    using s(3) unfolding e(2) by (simp split: if_splits)
  have now: "(OnceMessage s)\<lparr>rq_stage := RqWaiting\<rparr> = s\<lparr>rq_emitter := e, rq_stage := RqWaiting\<rparr>"
    using s(2) by (simp add: OnceMessage_def e_def)
  show ?thesis using assms e(1) own unfolding now request_inv_def by auto
qed

lemma foreign_inv:
  assumes "request_inv k s" and "foreign x"
  shows "request_inv k (s\<lparr>rq_emitter := em_do x (rq_emitter s)\<rparr>)"
proof -
  have "em_ok (rq_emitter s)" using assms(1) by (simp add: request_inv_def)
  then have e: "em_ok (em_do x (rq_emitter s))" "OnceWrapper 0 \<in> set (getMessageListeners (em_do x (rq_emitter s)) ev) \<Longrightarrow>
      OnceWrapper 0 \<in> set (getMessageListeners (rq_emitter s) ev)" for ev
    using em_ok_do em_do_foreign [OF _ assms(2)] by blast+
  have "\<forall>ev. OnceWrapper 0 \<in> set (getMessageListeners (em_do x (rq_emitter s)) ev) \<longrightarrow> ev = k"
    "unused_listener (rq_emitter s) \<Longrightarrow> unused_listener (em_do x (rq_emitter s))"
    using assms(1) e unfolding request_inv_def unused_listener_def by blast+
  then show ?thesis using assms(1) e(1) unfolding request_inv_def by simp
qed

lemma request_step_inv: "RequestWithTimeout False s s' \<Longrightarrow> request_inv k s \<Longrightarrow> request_inv k s'"
proof (induction rule: RequestWithTimeout.induct)
  case (listen s)
  then show ?case by (rule listen_inv [rotated])
next
  case (message_arrives s m)
  then show ?case by (rule deliver_inv)
next
  case (emitter_used x s)
  then show ?case by (rule foreign_inv [rotated])
qed (auto simp: request_inv_def timeout_job_def)

lemma request_init_inv: "unused_listener e \<Longrightarrow> request_inv k (request_init k e)"
  by (simp add: request_inv_def request_init_def unused_listener_def)

lemma request_reachable_inv:
  "(RequestWithTimeout False)\<^sup>*\<^sup>* s s' \<Longrightarrow> request_inv k s \<Longrightarrow> request_inv k s'"
  by (induction rule: rtranclp_induct) (auto intro: request_step_inv)

text \<open>The steps of the request alone lead to its end.\<close>

lemma request_finishes:
  assumes "request_inv k s"
  shows "\<exists>s'. (RequestWithTimeout reuse)\<^sup>*\<^sup>* s s' \<and> rq_stage s' = RqReturned"
proof -
  have waiting: "\<exists>s'. (RequestWithTimeout reuse)\<^sup>*\<^sup>* s s' \<and> rq_stage s' = RqReturned"
    if "rq_stage s = RqWaiting" "rq_open s \<or> rq_timer s = TimerRunning" for s
  proof (cases "rq_open s")
    case True
    then show ?thesis using wait_returns [OF that(1) True] by (intro exI [of _ "s\<lparr>rq_stage := RqReturned\<rparr>"]) auto
  next
    case False
    let ?s = "timeout_job s"
    have "RequestWithTimeout reuse s ?s" using that False by (auto intro: timer_fires)
    moreover have "RequestWithTimeout reuse ?s (?s\<lparr>rq_stage := RqReturned\<rparr>)"
      using that(1) by (intro wait_returns) (simp_all add: timeout_job_def)
    ultimately show ?thesis by (intro exI [of _ "?s\<lparr>rq_stage := RqReturned\<rparr>"]) auto
  qed
  have armed: "\<exists>s'. (RequestWithTimeout reuse)\<^sup>*\<^sup>* s s' \<and> rq_stage s' = RqReturned"
    if "rq_stage s = RqArmed" "rq_open s \<or> rq_timer s = TimerRunning" for s
    using waiting [of "(OnceMessage s)\<lparr>rq_stage := RqWaiting\<rparr>"] listen [OF that(1), of reuse] that(2)
    by (auto simp: OnceMessage_def intro: converse_rtranclp_into_rtranclp)
  have sent: "\<exists>s'. (RequestWithTimeout reuse)\<^sup>*\<^sup>* s s' \<and> rq_stage s' = RqReturned" if "rq_stage s = RqSent" for s
    using armed [of "s\<lparr>rq_stage := RqArmed, rq_timer := TimerRunning\<rparr>"] start_timer [OF that, of reuse]
    by (auto intro: converse_rtranclp_into_rtranclp)
  show ?thesis
  proof (cases "rq_stage s")
    case RqStart
    then show ?thesis using sent [of "s\<lparr>rq_stage := RqSent\<rparr>"] send [OF RqStart, of reuse]
      by (auto intro: converse_rtranclp_into_rtranclp)
  qed (use assms waiting armed sent in \<open>auto simp: request_inv_def\<close>)
qed


lemma unused_New: "unused_listener (em_New n)"
  by (simp add: unused_listener_def em_ok_New)


text \<open>
  The request is sent before its listener is registered. A response that is read in between goes to the connection's
  callback instead, and the request runs into its timeout although the response has arrived.
\<close>

theorem early_response_is_lost:
  assumes "request_inv k s" and "rq_stage s = RqSent" and "\<not> HasEvent (rq_emitter s) k" and "m_id m = k"
  shows "\<exists>s'. (RequestWithTimeout False)\<^sup>*\<^sup>* (deliver m s) s' \<and> rq_stage s' = RqReturned \<and> rq_response s' = None \<and>
    rq_err s' = Some (''request timeout for message '' @ k) \<and> rq_callback s' = rq_callback s @ [m]"
proof -
  let ?s0 = "s\<lparr>rq_callback := rq_callback s @ [m]\<rparr>"
  let ?s1 = "?s0\<lparr>rq_stage := RqArmed, rq_timer := TimerRunning\<rparr>"
  let ?s2 = "(OnceMessage ?s1)\<lparr>rq_stage := RqWaiting\<rparr>"
  let ?s3 = "timeout_job ?s2"
  let ?s4 = "?s3\<lparr>rq_stage := RqReturned\<rparr>"
  have "deliver m s = ?s0" using assms(3,4) by (simp add: deliver_def)
  moreover have "RequestWithTimeout False ?s0 ?s1" using assms(2) by (intro start_timer) simp
  moreover have "RequestWithTimeout False ?s1 ?s2" by (intro listen) simp
  moreover have "RequestWithTimeout False ?s2 ?s3" by (intro timer_fires) (simp add: OnceMessage_def)
  moreover have "RequestWithTimeout False ?s3 ?s4" by (intro wait_returns) (simp_all add: OnceMessage_def timeout_job_def)
  ultimately have "(RequestWithTimeout False)\<^sup>*\<^sup>* (deliver m s) ?s4"
    by (metis (no_types, lifting) converse_rtranclp_into_rtranclp rtranclp.rtrancl_refl)
  moreover have "rq_response s = None" "rq_cell s = k" using assms(1,2) by (auto simp: request_inv_def)
  ultimately show ?thesis by (intro exI [of _ ?s4]) (simp add: OnceMessage_def timeout_job_def)
qed

theorem early_response_is_lost_witness:
  "\<exists>s s'. (RequestWithTimeout False)\<^sup>*\<^sup>* (request_init ''7'' (em_New 0)) s \<and>
     (RequestWithTimeout False)\<^sup>*\<^sup>* (deliver (NewMessage ''7'' ''a'' ''b'' [] MessageTypeSvcResponseOK []) s) s' \<and>
     rq_stage s' = RqReturned \<and> rq_response s' = None"
proof -
  let ?s = "(request_init ''7'' (em_New 0))\<lparr>rq_stage := RqSent\<rparr>"
  have step: "RequestWithTimeout False (request_init ''7'' (em_New 0)) ?s" by (intro send) (simp add: request_init_def)
  have "request_inv ''7'' ?s" by (rule request_step_inv [OF step request_init_inv [OF unused_New]])
  moreover have "\<not> HasEvent (rq_emitter ?s) ''7''" by (simp add: request_init_def HasEvent_def em_New_def)
  ultimately show ?thesis
    using early_response_is_lost [of "''7''" ?s "NewMessage ''7'' ''a'' ''b'' [] MessageTypeSvcResponseOK []"] step
    by (auto simp: NewMessage_def)
qed

text \<open>
  When the sent message is taken out of the pool again before the listener is registered, the request listens for the id
  that was written into it and returns the response to another request, without an error.
\<close>

theorem reused_message_crosses_requests:
  assumes "k' \<noteq> k" and "m_id m = k'"
  shows "\<exists>s. (RequestWithTimeout True)\<^sup>*\<^sup>* (request_init k (em_New n)) s \<and> rq_stage s = RqReturned \<and>
    rq_response s = Some m \<and> rq_err s = None"
proof -
  let ?s0 = "request_init k (em_New n)"
  let ?s1 = "?s0\<lparr>rq_stage := RqSent\<rparr>"
  let ?s2 = "?s1\<lparr>rq_cell := k'\<rparr>"
  let ?s3 = "?s2\<lparr>rq_stage := RqArmed, rq_timer := TimerRunning\<rparr>"
  let ?s4 = "(OnceMessage ?s3)\<lparr>rq_stage := RqWaiting\<rparr>"
  let ?s5 = "deliver m ?s4"
  let ?s6 = "?s5\<lparr>rq_stage := RqReturned\<rparr>"
  have e: "HasEvent (rq_emitter ?s4) k'" "OnceWrapper 0 \<in> set (getMessageListeners (rq_emitter ?s4) k')"
    by (simp_all add: OnceMessage_def request_init_def em_On_def addMessageListener_def em_New_def HasEvent_def getMessageListeners_def)
  have s5: "rq_stage ?s5 = RqWaiting" "rq_open ?s5" "rq_response ?s5 = Some m" "rq_err ?s5 = None"
    using e assms(2) by (simp_all add: deliver_def notify_all_def response_listener_def Let_def)
      (simp_all add: OnceMessage_def request_init_def)
  have "RequestWithTimeout True ?s0 ?s1" by (intro send) (simp add: request_init_def)
  moreover have "RequestWithTimeout True ?s1 ?s2" by (intro cell_reused) simp_all
  moreover have "RequestWithTimeout True ?s2 ?s3" by (intro start_timer) simp
  moreover have "RequestWithTimeout True ?s3 ?s4" by (intro listen) simp
  moreover have "RequestWithTimeout True ?s4 ?s5" by (rule message_arrives)
  moreover have "RequestWithTimeout True ?s5 ?s6" using s5 by (intro wait_returns)
  ultimately have "(RequestWithTimeout True)\<^sup>*\<^sup>* ?s0 ?s6"
    by (metis (no_types, lifting) converse_rtranclp_into_rtranclp rtranclp.rtrancl_refl)
  then show ?thesis using s5 by (intro exI [of _ ?s6]) simp
qed

theorem reused_message_crosses_requests_witness:
  "\<exists>s. (RequestWithTimeout True)\<^sup>*\<^sup>* (request_init ''7'' (em_New 16)) s \<and> rq_stage s = RqReturned \<and>
     rq_response s = Some (NewMessage ''8'' ''a'' ''b'' [] MessageTypeSvcResponseOK ''secret'') \<and> rq_err s = None"
  using reused_message_crosses_requests [of "''8''" "''7''" "NewMessage ''8'' ''a'' ''b'' [] MessageTypeSvcResponseOK ''secret''" 16]
  by (simp add: NewMessage_def)

end
