(* ===== verification/ClientConnect.thy ===== *)
theory ClientConnect
  imports Messages
begin

text \<open>
  How the client gets its connections: the login and connection part of \<open>src/hub_client/Client.go\<close> and the pool of
  \<open>src/hub_client/connections/ConnectionPool.go\<close>.

  The answers of the network are given in advance: the responses of the HTTP client in the order of the requests, and for
  each attempt to open a WebSocket an error or a connection, with the result of its first ping. When the answers are used
  up, requests and attempts fail. The JSON decoder of the login answer is the parameter \<open>token_of\<close>. A pair of a connection
  and an error that a Go function returns is a sum, where \<open>Inr None\<close> is the pair of two \<open>nil\<close>.
\<close>

section \<open>Login and connection\<close>

record http_response =
  rp_code :: int
  rp_body :: string
  rp_header :: "string \<Rightarrow> string"

record 'c network =
  nw_http :: "http_response list"
  nw_dials :: "(string + 'c \<times> string option) list"

definition MessageHTTPHeaderFrom :: string where "MessageHTTPHeaderFrom = ''X-From''"
definition MessageHTTPHeaderTo :: string where "MessageHTTPHeaderTo = ''X-To''"
definition MessageHTTPHeaderId :: string where "MessageHTTPHeaderId = ''X-Request-Id''"

text \<open>\<open>HTTPRequest\<close> for a message with the given uri; the request it builds is the HTTP client's.\<close>

definition HTTPRequest :: "string \<Rightarrow> 'c network \<Rightarrow> (string + Message) \<times> 'c network" where
  "HTTPRequest uri nw =
     (case nw_http nw of
        [] \<Rightarrow> (Inl ''no answer'', nw)
      | r # rs \<Rightarrow>
          (if rp_code r < 0 \<or> rp_code r > 400 \<and> rp_code r < 510 then Inl (rp_body r)
           else if rp_header r MessageHTTPHeaderId \<noteq> []
           then Inr (NewMessage (rp_header r MessageHTTPHeaderId) (rp_header r MessageHTTPHeaderFrom) (rp_header r MessageHTTPHeaderTo) uri (rp_code r) (rp_body r))
           else Inl ''invalid server response'', nw\<lparr>nw_http := rs\<rparr>))"

fun login :: "(string \<Rightarrow> string + string) \<Rightarrow> nat \<Rightarrow> string option \<Rightarrow> 'c network \<Rightarrow> (string \<times> string option) \<times> 'c network" where
  "login token_of 0 err nw = (([], err), nw)"
| "login token_of (Suc retry) err nw =
     (case HTTPRequest ''/auth/login'' nw of
        (Inl e, nw) \<Rightarrow> login token_of retry (Some e) nw
      | (Inr resp, nw) \<Rightarrow>
          (case token_of (payload resp) of Inl e \<Rightarrow> (([], Some e), nw) | Inr t \<Rightarrow> ((t, None), nw)))"

text \<open>\<open>handleConnected\<close>: the error of the first ping is logged with \<open>Panicln\<close>.\<close>

definition handleConnected :: "'c \<times> string option \<Rightarrow> (string + 'c option) go" where
  "handleConnected d = (case snd d of Some e \<Rightarrow> Panic | None \<Rightarrow> Ret (Inr (Some (fst d))))"

definition returned :: "string option \<Rightarrow> string + 'c option" where
  "returned err = (case err of Some e \<Rightarrow> Inl e | None \<Rightarrow> Inr None)"

fun doConnect :: "(string \<Rightarrow> string + string) \<Rightarrow> nat \<Rightarrow> string \<Rightarrow> string option \<Rightarrow> 'c network \<Rightarrow> ((string + 'c option) \<times> 'c network) go" where
  "doConnect token_of 0 token lastErr nw = Ret (returned lastErr, nw)"
| "doConnect token_of (Suc retryCount) token lastErr nw =
     (case nw_dials nw of
        Inr d # ds \<Rightarrow> bind_go (handleConnected d) (\<lambda>r. Ret (r, nw\<lparr>nw_dials := ds\<rparr>))
      | ds \<Rightarrow>
          (case login token_of 2 None (nw\<lparr>nw_dials := tl ds\<rparr>) of
             ((token, Some e), nw) \<Rightarrow> Ret (Inl e, nw)
           | ((token, None), nw) \<Rightarrow> doConnect token_of retryCount token None nw))"

text \<open>\<open>connect\<close>, with the token the client keeps.\<close>

definition connect :: "(string \<Rightarrow> string + string) \<Rightarrow> string \<times> 'c network \<Rightarrow> ((string + 'c option) \<times> (string \<times> 'c network)) go" where
  "connect token_of s =
     (case (if fst s = [] then login token_of 3 None (snd s) else ((fst s, None), snd s)) of
        ((token, Some e), nw) \<Rightarrow> Ret (Inl e, (token, nw))
      | ((token, None), nw) \<Rightarrow> bind_go (doConnect token_of 3 token None nw) (\<lambda>(r, nw). Ret (r, (token, nw))))"

section \<open>The connection pool\<close>

fun tryToCreateConnection :: "('e \<Rightarrow> ((string + 'c option) \<times> 'e) go) \<Rightarrow> nat \<Rightarrow> string option \<Rightarrow> 'e \<Rightarrow> ((string + 'c option) \<times> 'e) go" where
  "tryToCreateConnection factory 0 lastErr e = Ret (returned lastErr, e)"
| "tryToCreateConnection factory (Suc retryCount) lastErr e =
     bind_go (factory e) (\<lambda>(r, e). case r of Inl err \<Rightarrow> tryToCreateConnection factory retryCount (Some err) e | Inr c \<Rightarrow> Ret (Inr c, e))"

text \<open>
  The pool: the two channels, of the same capacity, the goroutine of \<open>producer\<close>, the connections that callers of \<open>Get\<close>
  hold, and the number of dead connections that \<open>Get\<close> has thrown away. A \<open>nil\<close> connection is \<open>None\<close>.
\<close>

datatype 'c producer = NotStarted | Selecting | Sending "'c option" | Ended

record 'c ConnectionPool =
  cp_cap :: nat
  cp_consumer :: "'c option list"
  cp_tokens :: nat
  cp_producer :: "'c producer"
  cp_closed :: bool
  cp_held :: "'c list"
  cp_lost :: nat

definition NewConnectionPool :: "nat \<Rightarrow> 'c ConnectionPool" where
  "NewConnectionPool numActiveConns =
     (let n = (if numActiveConns < 3 then 3 else numActiveConns) in
      \<lparr>cp_cap = n, cp_consumer = [], cp_tokens = n, cp_producer = NotStarted, cp_closed = False, cp_held = [], cp_lost = 0\<rparr>)"

text \<open>The second test of \<open>closed\<close> is always true, so the channels are not closed. Closing cancels the context.\<close>

definition handleClose :: "'c ConnectionPool \<Rightarrow> 'c ConnectionPool" where
  "handleClose p = (if cp_closed p then p else p\<lparr>cp_closed := True, cp_consumer := [], cp_tokens := 0\<rparr>)"

text \<open>
  The steps of the pool. A send to a full channel and a receive from an empty one are not enabled; every receive of \<open>Get\<close> is a
  step of its own, which throws a dead connection away and goes on. \<open>alive\<close> says which connections are live.
\<close>

inductive cpool_step :: "('c \<Rightarrow> bool) \<Rightarrow> 'c ConnectionPool \<Rightarrow> 'c ConnectionPool \<Rightarrow> bool" for alive where
  Start: "\<not> cp_closed p \<Longrightarrow> cp_producer p = NotStarted \<Longrightarrow> length (cp_consumer p) < cp_cap p \<Longrightarrow>
    cpool_step alive p (p\<lparr>cp_consumer := cp_consumer p @ [c], cp_producer := Selecting\<rparr>)"
| Start_fails: "\<not> cp_closed p \<Longrightarrow> cp_producer p = NotStarted \<Longrightarrow> cpool_step alive p (handleClose p)"
| producer_done: "cp_producer p = Selecting \<Longrightarrow> cp_closed p \<Longrightarrow> cpool_step alive p (p\<lparr>cp_producer := Ended\<rparr>)"
| producer_creates: "cp_producer p = Selecting \<Longrightarrow> cp_tokens p > 0 \<Longrightarrow>
    cpool_step alive p (p\<lparr>cp_tokens := cp_tokens p - 1, cp_producer := Sending c\<rparr>)"
| producer_fails: "cp_producer p = Selecting \<Longrightarrow> cp_tokens p > 0 \<Longrightarrow>
    cpool_step alive p ((handleClose (p\<lparr>cp_tokens := cp_tokens p - 1\<rparr>))\<lparr>cp_producer := Ended\<rparr>)"
| producer_sends: "cp_producer p = Sending c \<Longrightarrow> length (cp_consumer p) < cp_cap p \<Longrightarrow>
    cpool_step alive p (p\<lparr>cp_consumer := cp_consumer p @ [c], cp_producer := Selecting\<rparr>)"
| Get_returns: "cp_consumer p = Some c # cs \<Longrightarrow> alive c \<Longrightarrow> cpool_step alive p (p\<lparr>cp_consumer := cs, cp_held := c # cp_held p\<rparr>)"
| Get_drops: "cp_consumer p = Some c # cs \<Longrightarrow> \<not> alive c \<Longrightarrow> cpool_step alive p (p\<lparr>cp_consumer := cs, cp_lost := cp_lost p + 1\<rparr>)"
| Put_live: "c \<in> set (cp_held p) \<Longrightarrow> alive c \<Longrightarrow> length (cp_consumer p) < cp_cap p \<Longrightarrow>
    cpool_step alive p (p\<lparr>cp_consumer := cp_consumer p @ [Some c], cp_held := remove1 c (cp_held p)\<rparr>)"
| Put_dead: "c \<in> set (cp_held p) \<Longrightarrow> \<not> alive c \<Longrightarrow> cp_tokens p < cp_cap p \<Longrightarrow>
    cpool_step alive p (p\<lparr>cp_tokens := cp_tokens p + 1, cp_held := remove1 c (cp_held p)\<rparr>)"
| Close: "cpool_step alive p (handleClose p)"

text \<open>\<open>Get\<close> asks the connection it has received whether it is live, which panics for \<open>nil\<close>.\<close>

definition Get_panics :: "'c ConnectionPool \<Rightarrow> bool" where
  "Get_panics p \<longleftrightarrow> (case cp_consumer p of None # _ \<Rightarrow> True | _ \<Rightarrow> False)"

text \<open>Connections die: each step of a run has its own \<open>alive\<close>.\<close>

inductive cpool_run :: "'c ConnectionPool \<Rightarrow> 'c ConnectionPool \<Rightarrow> bool" where
  start: "cpool_run p p"
| step: "cpool_run p q \<Longrightarrow> cpool_step alive q r \<Longrightarrow> cpool_run p r"

section \<open>Retries\<close>

text \<open>An answer to the login request that yields a token.\<close>

definition good_login :: "(string \<Rightarrow> string + string) \<Rightarrow> http_response \<Rightarrow> bool" where
  "good_login token_of r \<longleftrightarrow> \<not> (rp_code r < 0 \<or> rp_code r > 400 \<and> rp_code r < 510) \<and> rp_header r MessageHTTPHeaderId \<noteq> [] \<and>
     (\<exists>t. token_of (rp_body r) = Inr t)"

lemma login_good:
  assumes "nw_http nw = r # rs" and "good_login token_of r"
  shows "\<exists>t. login token_of (Suc retry) err nw = ((t, None), nw\<lparr>nw_http := rs\<rparr>)"
  using assms by (auto simp: good_login_def HTTPRequest_def NewMessage_def)

lemma doConnect_refused:
  assumes "nw_dials nw = Inl e # ds" and "nw_http nw = r # rs" and "good_login token_of r"
  shows "\<exists>t. doConnect token_of (Suc n) token err nw = doConnect token_of n t None (nw\<lparr>nw_dials := ds, nw_http := rs\<rparr>)"
proof -
  obtain t where "login token_of 2 None (nw\<lparr>nw_dials := ds\<rparr>) = ((t, None), nw\<lparr>nw_dials := ds, nw_http := rs\<rparr>)"
    using login_good [of "nw\<lparr>nw_dials := ds\<rparr>" r rs token_of 1 None] assms(2,3) by (auto simp: numeral_2_eq_2)
  then show ?thesis using assms(1) by auto
qed

lemma doConnect_all_refused:
  "length fs = n \<Longrightarrow> length rs = n \<Longrightarrow> list_all (good_login token_of) rs \<Longrightarrow> err = None \<Longrightarrow>
   doConnect token_of n token err (nw\<lparr>nw_dials := map Inl fs @ ds, nw_http := rs @ hs\<rparr>) =
     Ret (Inr None, nw\<lparr>nw_dials := ds, nw_http := hs\<rparr>)"
proof (induction n arbitrary: fs rs token err)
  case (Suc n)
  obtain f fs' where f: "fs = f # fs'" using Suc.prems(1) by (cases fs) auto
  obtain r rs' where r: "rs = r # rs'" using Suc.prems(2) by (cases rs) auto
  obtain t where "doConnect token_of (Suc n) token err (nw\<lparr>nw_dials := map Inl fs @ ds, nw_http := rs @ hs\<rparr>) =
      doConnect token_of n t None (nw\<lparr>nw_dials := map Inl fs' @ ds, nw_http := rs' @ hs\<rparr>)"
    using doConnect_refused [of "nw\<lparr>nw_dials := map Inl fs @ ds, nw_http := rs @ hs\<rparr>" f "map Inl fs' @ ds" r "rs' @ hs" token_of n token err]
      Suc.prems(3) f r by auto
  then show ?case using Suc.IH [of fs' rs' None t] Suc.prems f r by simp
qed (simp add: returned_def)

lemma doConnect_retries:
  "length fs < n \<Longrightarrow> length rs = length fs \<Longrightarrow> list_all (good_login token_of) rs \<Longrightarrow>
   doConnect token_of n token err (nw\<lparr>nw_dials := map Inl fs @ Inr (c, None) # ds, nw_http := rs @ hs\<rparr>) =
     Ret (Inr (Some c), nw\<lparr>nw_dials := ds, nw_http := hs\<rparr>)"
proof (induction n arbitrary: fs rs token err)
  case (Suc n)
  show ?case
  proof (cases fs)
    case Nil
    then show ?thesis using Suc.prems(2) by (simp add: handleConnected_def)
  next
    case (Cons f fs')
    obtain r rs' where r: "rs = r # rs'" using Suc.prems(2) Cons by (cases rs) auto
    let ?nw = "nw\<lparr>nw_dials := map Inl fs @ Inr (c, None) # ds, nw_http := rs @ hs\<rparr>"
    obtain t where "doConnect token_of (Suc n) token err ?nw =
        doConnect token_of n t None (nw\<lparr>nw_dials := map Inl fs' @ Inr (c, None) # ds, nw_http := rs' @ hs\<rparr>)"
      using doConnect_refused [of ?nw f "map Inl fs' @ Inr (c, None) # ds" r "rs' @ hs" token_of n token err] Suc.prems(3) Cons r by auto
    then show ?thesis using Suc.IH [of fs' rs' t None] Suc.prems Cons r by simp
  qed
qed simp

text \<open>
  The client's attempts to connect, with a login that works whenever it is asked: after at most two refused attempts the
  next that succeeds gives its connection; three refused attempts give neither a connection nor an error, because the
  error passed on to the last call is the one of the successful login. The pool takes that for a connection.
\<close>

theorem connect_outcome:
  assumes "token \<noteq> []" and "list_all (good_login token_of) rs" and "length rs = length fs"
  shows "(length fs < 3 \<longrightarrow>
      connect token_of (token, nw\<lparr>nw_dials := map Inl fs @ Inr (c, None) # ds, nw_http := rs @ hs\<rparr>) =
        Ret (Inr (Some c), token, nw\<lparr>nw_dials := ds, nw_http := hs\<rparr>)) \<and>
    (length fs = 3 \<longrightarrow>
      tryToCreateConnection (connect token_of) 3 None (token, nw\<lparr>nw_dials := map Inl fs @ ds, nw_http := rs @ hs\<rparr>) =
        Ret (Inr None, token, nw\<lparr>nw_dials := ds, nw_http := hs\<rparr>))"
proof (intro conjI impI)
  assume "length fs < 3"
  from doConnect_retries [OF this assms(3,2), where token = token and err = None and nw = nw and c = c and ds = ds and hs = hs] show "connect token_of (token, nw\<lparr>nw_dials := map Inl fs @ Inr (c, None) # ds, nw_http := rs @ hs\<rparr>) =
      Ret (Inr (Some c), token, nw\<lparr>nw_dials := ds, nw_http := hs\<rparr>)"
    using assms(1) by (simp add: connect_def)
next
  assume "length fs = 3"
  from doConnect_all_refused [OF this _ assms(2), where err = None and token = token and nw = nw and ds = ds and hs = hs] assms(3) this
  have "connect token_of (token, nw\<lparr>nw_dials := map Inl fs @ ds, nw_http := rs @ hs\<rparr>) =
      Ret (Inr None, token, nw\<lparr>nw_dials := ds, nw_http := hs\<rparr>)"
    using assms(1) by (simp add: connect_def)
  then show "tryToCreateConnection (connect token_of) 3 None (token, nw\<lparr>nw_dials := map Inl fs @ ds, nw_http := rs @ hs\<rparr>) =
      Ret (Inr None, token, nw\<lparr>nw_dials := ds, nw_http := hs\<rparr>)"
    by (simp add: numeral_3_eq_3)
qed

definition ok_response :: http_response where
  "ok_response = \<lparr>rp_code = 200, rp_body = ''T'', rp_header = (\<lambda>_. ''1'')\<rparr>"

theorem connect_outcome_witness:
  "tryToCreateConnection (connect Inr) 3 None
     (''t'', \<lparr>nw_http = replicate 3 ok_response, nw_dials = [Inl ''x'', Inl ''y'', Inl ''z'', Inr (5 :: nat, None)]\<rparr>) =
   Ret (Inr None, ''t'', \<lparr>nw_http = [], nw_dials = [Inr (5, None)]\<rparr>)"
proof -
  have "list_all (good_login Inr) (replicate 3 ok_response)" by (simp add: good_login_def ok_response_def numeral_3_eq_3)
  from connect_outcome [OF _ this, where token = "''t''" and fs = "[''x'', ''y'', ''z'']" and nw = "\<lparr>nw_http = [], nw_dials = []\<rparr>" and
      c = 5 and ds = "[Inr (5, None)]" and hs = "[]"]
  show ?thesis by simp
qed

section \<open>The pool keeps count\<close>

definition in_flight :: "'c producer \<Rightarrow> nat" where
  "in_flight pr = (case pr of Sending _ \<Rightarrow> 1 | _ \<Rightarrow> 0)"

definition cpool_inv :: "'c ConnectionPool \<Rightarrow> bool" where
  "cpool_inv p \<longleftrightarrow> length (cp_consumer p) \<le> cp_cap p \<and> cp_tokens p \<le> cp_cap p \<and>
     (\<not> cp_closed p \<longrightarrow> cp_producer p \<noteq> Ended \<and>
        length (cp_consumer p) + cp_tokens p + length (cp_held p) + in_flight (cp_producer p) + cp_lost p =
          cp_cap p + (if cp_producer p = NotStarted then 0 else 1))"

lemma length_remove1_in: "c \<in> set xs \<Longrightarrow> Suc (length (remove1 c xs)) = length xs"
  by (induction xs) auto

lemma cpool_step_inv: "cpool_step alive p q \<Longrightarrow> cpool_inv p \<Longrightarrow> cpool_inv q"
proof (induction rule: cpool_step.induct)
  case (Put_live c p)
  then show ?case using length_remove1_in [of c "cp_held p"] by (auto simp: cpool_inv_def)
next
  case (Put_dead c p)
  then show ?case using length_remove1_in [of c "cp_held p"] by (auto simp: cpool_inv_def)
qed (auto simp: cpool_inv_def in_flight_def handleClose_def)

lemma cpool_run_inv: "cpool_run p q \<Longrightarrow> cpool_inv p \<Longrightarrow> cpool_inv q"
  by (induction rule: cpool_run.induct) (auto intro: cpool_step_inv)

lemma cpool_inv_New: "cpool_inv (NewConnectionPool n)"
  by (simp add: cpool_inv_def NewConnectionPool_def Let_def in_flight_def)

text \<open>
  C29. In every run of an open, started pool, the connections in the queue, the one on its way into it, those the callers hold,
  the tokens for new ones and the dead connections that \<open>Get\<close> threw away are together one more than the capacity. So
  at most one connection more than the capacity is ever open, and each dead connection met by \<open>Get\<close> makes the pool smaller by
  one for good.
\<close>

theorem connection_pool_invariant:
  assumes "cpool_run (NewConnectionPool n) p" and "\<not> cp_closed p" and "cp_producer p \<noteq> NotStarted"
  shows "length (cp_consumer p) + in_flight (cp_producer p) + length (cp_held p) + cp_tokens p + cp_lost p = cp_cap p + 1 \<and>
    length (cp_consumer p) \<le> cp_cap p \<and> cp_tokens p \<le> cp_cap p"
  using cpool_run_inv [OF assms(1) cpool_inv_New] assms(2,3) by (simp add: cpool_inv_def)

theorem connection_pool_invariant_witness:
  "\<exists>p. cpool_run (NewConnectionPool 2 :: nat ConnectionPool) p \<and> length (cp_consumer p) = 1 \<and> cp_tokens p = 3 \<and>
     length (cp_consumer p) + in_flight (cp_producer p) + length (cp_held p) + cp_tokens p + cp_lost p = cp_cap p + 1"
proof -
  let ?p0 = "NewConnectionPool 2 :: nat ConnectionPool"
  let ?p1 = "?p0\<lparr>cp_consumer := [Some 0], cp_producer := Selecting\<rparr>"
  have "cpool_step (\<lambda>_. True) ?p0 ?p1" using Start [of ?p0 "\<lambda>_. True" "Some 0"] by (simp add: NewConnectionPool_def Let_def)
  then have run: "cpool_run ?p0 ?p1" by (rule cpool_run.step [OF cpool_run.start])
  have "\<not> cp_closed ?p1" "cp_producer ?p1 \<noteq> NotStarted" "length (cp_consumer ?p1) = 1" "cp_tokens ?p1 = 3"
    by (simp_all add: NewConnectionPool_def Let_def)
  then show ?thesis using run connection_pool_invariant [OF run] by (intro exI [of _ ?p1]) simp
qed

text \<open>A run in which every connection dies before it is taken: each is thrown away and the next produced.\<close>

lemma drain_run:
  "cp_producer p = Selecting \<Longrightarrow> cp_consumer p = [Some c] \<Longrightarrow> cp_tokens p = t \<Longrightarrow> cp_cap p \<noteq> 0 \<Longrightarrow>
   cpool_run q p \<Longrightarrow> cpool_run q (p\<lparr>cp_tokens := 0, cp_lost := cp_lost p + t\<rparr>)"
proof (induction t arbitrary: p)
  case (Suc t)
  let ?dead = "\<lambda>_ :: 'a. False"
  let ?p1 = "p\<lparr>cp_consumer := [], cp_lost := cp_lost p + 1\<rparr>"
  let ?p2 = "?p1\<lparr>cp_tokens := t, cp_producer := Sending (Some c)\<rparr>"
  let ?p3 = "?p2\<lparr>cp_consumer := [Some c], cp_producer := Selecting\<rparr>"
  have 1: "cpool_step ?dead p ?p1" using Get_drops [of p c "[]" ?dead] Suc.prems(2) by simp
  have 2: "cpool_step ?dead ?p1 ?p2" using producer_creates [of ?p1 ?dead "Some c"] Suc.prems(1,3) by simp
  have 3: "cpool_step ?dead ?p2 ?p3" using producer_sends [of ?p2 "Some c" ?dead] Suc.prems(4) by simp
  have run: "cpool_run q ?p3" by (rule cpool_run.step [OF cpool_run.step [OF cpool_run.step [OF Suc.prems(5) 1] 2] 3])
  have "?p3 = p\<lparr>cp_tokens := t, cp_lost := cp_lost p + 1\<rparr>" using Suc.prems(1,2) by (cases p) simp
  with run have "cpool_run q (p\<lparr>cp_tokens := t, cp_lost := cp_lost p + 1\<rparr>)" by (simp only:)
  then show ?case using Suc.IH [of "p\<lparr>cp_tokens := t, cp_lost := cp_lost p + 1\<rparr>"] Suc.prems(1,2,4) by simp
next
  case 0
  then have "p\<lparr>cp_tokens := 0, cp_lost := cp_lost p + 0\<rparr> = p" by (cases p) simp
  then show ?case using "0.prems"(5) by (simp only:)
qed

text \<open>
  The pool can starve: there is a run after which the pool is open and started, nobody holds a connection, and no step
  but closing the pool is possible any more: a caller of \<open>Get\<close> waits for ever, since the dead connections it threw away were
  never asked to be replaced.
\<close>

theorem connection_pool_starves:
  "\<exists>p. cpool_run (NewConnectionPool n :: 'c ConnectionPool) p \<and> \<not> cp_closed p \<and> cp_producer p = Selecting \<and> cp_held p = [] \<and>
     (\<forall>alive q. cpool_step alive p q \<longrightarrow> q = handleClose p)"
proof -
  let ?p0 = "NewConnectionPool n :: 'c ConnectionPool"
  let ?dead = "\<lambda>_ :: 'c. False"
  define c :: 'c where "c = undefined"
  let ?p1 = "?p0\<lparr>cp_consumer := [Some c], cp_producer := Selecting\<rparr>"
  let ?p2 = "?p1\<lparr>cp_tokens := 0, cp_lost := cp_lost ?p1 + cp_tokens ?p1\<rparr>"
  let ?p3 = "?p2\<lparr>cp_consumer := [], cp_lost := cp_lost ?p2 + 1\<rparr>"
  have "cpool_step ?dead ?p0 ?p1" using Start [of ?p0 ?dead "Some c"] by (simp add: NewConnectionPool_def Let_def)
  then have "cpool_run ?p0 ?p1" by (rule cpool_run.step [OF cpool_run.start])
  then have "cpool_run ?p0 ?p2" by (intro drain_run) (simp_all add: NewConnectionPool_def Let_def)
  moreover have "cpool_step ?dead ?p2 ?p3" using Get_drops [of ?p2 c "[]" ?dead] by simp
  ultimately have "cpool_run ?p0 ?p3" by (rule cpool_run.step)
  moreover have "cp_held ?p3 = []" "\<not> cp_closed ?p3" by (simp_all add: NewConnectionPool_def Let_def)
  moreover have "q = handleClose ?p3" if "cpool_step alive ?p3 q" for alive q
    using that \<open>cp_held ?p3 = []\<close> \<open>\<not> cp_closed ?p3\<close> by (cases rule: cpool_step.cases) simp_all
  ultimately show ?thesis by (intro exI [of _ ?p3]) simp
qed

end
