(* ===== verification/NativeServices.thy ===== *)
theory NativeServices
  imports RelayManagement "HOL-Library.Multiset"
begin

text \<open>
  The native services of the server at its start: \<open>src/hub_server/services/config.go\<close>, the status service of
  \<open>src/hub_server/services/status/StatusService.go\<close>, and the routes of the messaging service.

  The instances are the services by address; \<open>wired\<close> gives the error of \<open>AutoFill\<close> for each (theory \<open>Modules\<close> models it), and
  the order in which \<open>InitNativeServices\<close> goes through the map of instances is a parameter.
\<close>

section \<open>Status service\<close>

datatype status_handler = StGetStatus | StGetAllInternalServices | StGetInfo

definition status_Init :: "RoleDescriptor \<Rightarrow> int \<Rightarrow> (nat \<Rightarrow> ServiceRequest) \<Rightarrow> status_handler NativeService \<times> string option" where
  "status_Init host now reqs =
     RegisterRoutes (hm_entries (hm_Get (hm_Get (hm_Get [] ''/'' StGetStatus) ''/services'' StGetAllInternalServices) ''/info'' StGetInfo))
       (NewNativeService host now reqs ''status'' ''server status'' ServiceTypeInternal ServiceAccessTypeSocket ServiceExecutionSync)"

text \<open>The statistics as JSON, the services as JSON and the descriptor's text are given; marshalling may fail.\<close>

definition status_GetStatus :: "string \<Rightarrow> string + string \<Rightarrow> ServiceRequest \<Rightarrow> ServiceRequest \<times> string option go" where
  "status_GetStatus host stat r =
     (if from_of r = [] then answer_invalid host r
      else (case stat of Inl err \<Rightarrow> (r, Ret (Some err)) | Inr json \<Rightarrow> answer host r json))"

definition status_GetAllInternalServices :: "string \<Rightarrow> (ServiceDescriptor list \<Rightarrow> string + string) \<Rightarrow> RoleDescriptor \<Rightarrow>
    ('h, 'c) ServiceManagerModule \<Rightarrow> ServiceRequest \<Rightarrow> ServiceRequest \<times> string option go" where
  "status_GetAllInternalServices host marshal desc m r =
     (if from_of r = [] then answer_invalid host r
      else (case marshal (DescribeAllServices desc m) of Inl err \<Rightarrow> (r, Ret (Some err)) | Inr json \<Rightarrow> answer host r json))"

definition status_GetInfo :: "string \<Rightarrow> string \<Rightarrow> ServiceRequest \<Rightarrow> ServiceRequest \<times> string option go" where
  "status_GetInfo host info r = answer host r info"

section \<open>Instances\<close>

datatype messaging_handler = MSend | MBroadcast

definition msg_Init :: "RoleDescriptor \<Rightarrow> int \<Rightarrow> (nat \<Rightarrow> ServiceRequest) \<Rightarrow> messaging_handler NativeService \<times> string option" where
  "msg_Init host now reqs =
     RegisterRoutes (hm_entries (hm_Post (hm_Post [] ''/send'' MSend) ''/broadcast'' MBroadcast))
       (NewNativeService host now reqs ''message'' ''basic messaging service'' ServiceTypeInternal ServiceAccessTypeSocket ServiceExecutionSync)"

datatype hub_handler =
    HMessage messaging_handler | HServices service_handler | HStatus status_handler | HClients client_handler | HAuth auth_handler

definition as_native :: "('h \<Rightarrow> hub_handler) \<Rightarrow> 'h NativeService \<times> string option \<Rightarrow> (hub_handler, 'c) IService \<times> string option" where
  "as_native f n =
     (INative \<lparr>ns_service = ns_service (fst n),
        ns_handler = map (\<lambda>(uri, hs). (uri, map (\<lambda>(ty, h). (ty, f h)) hs)) (ns_handler (fst n))\<rparr>, snd n)"

definition native_ids :: "string list" where
  "native_ids = [''message'', ''services'', ''status'', ''clients'', ''auth'']"

definition native_Init :: "RoleDescriptor \<Rightarrow> int \<Rightarrow> (nat \<Rightarrow> ServiceRequest) \<Rightarrow> string \<Rightarrow> (hub_handler, 'c) IService \<times> string option" where
  "native_Init host now reqs k =
     (if k = ''message'' then as_native HMessage (msg_Init host now reqs)
      else if k = ''services'' then as_native HServices (service_Init host now reqs)
      else if k = ''status'' then as_native HStatus (status_Init host now reqs)
      else if k = ''clients'' then as_native HClients (client_Init host now reqs)
      else as_native HAuth (auth_Init host now reqs))"

record 'c native_boot =
  nb_initiated :: bool
  nb_instances :: "(string \<times> nat) list"
  nb_next :: nat
  nb_manager :: "(hub_handler, 'c) ServiceManagerModule"

text \<open>\<open>instantiateInstances\<close>: new instances for all services but the disabled ones.\<close>

definition instantiateInstances :: "string list \<Rightarrow> 'c native_boot \<Rightarrow> 'c native_boot" where
  "instantiateInstances disabled s =
     s\<lparr>nb_instances := filter (\<lambda>(k, a). k \<notin> set disabled) (zip native_ids [nb_next s..<nb_next s + 5]), nb_next := nb_next s + 5\<rparr>"

definition resetInstances :: "string list \<Rightarrow> 'c native_boot \<Rightarrow> 'c native_boot" where
  "resetInstances disabled s = instantiateInstances disabled (s\<lparr>nb_instances := []\<rparr>)"

fun init_loop :: "string \<Rightarrow> (string \<Rightarrow> (hub_handler, 'c) IService \<times> string option) \<Rightarrow> (string \<Rightarrow> string option) \<Rightarrow>
    (string \<times> nat) list \<Rightarrow> (hub_handler, 'c) ServiceManagerModule \<Rightarrow> (hub_handler, 'c) ServiceManagerModule \<times> string option" where
  "init_loop serverId ini wired [] m = (m, None)"
| "init_loop serverId ini wired ((k, a) # kas) m =
     (case (if wired k \<noteq> None then wired k else snd (ini k)) of
        Some err \<Rightarrow> (m, Some err)
      | None \<Rightarrow>
          (case registerService serverId serverId a (m\<lparr>sm_heap := (sm_heap m)(a := fst (ini k))\<rparr>) of
             (m, Some err) \<Rightarrow> (m, Some ''registration failed'')
           | (m, None) \<Rightarrow> init_loop serverId ini wired kas m))"

definition InitNativeServices :: "string \<Rightarrow> (string \<Rightarrow> (hub_handler, 'c) IService \<times> string option) \<Rightarrow> (string \<Rightarrow> string option) \<Rightarrow>
    ((string \<times> nat) list \<Rightarrow> (string \<times> nat) list) \<Rightarrow> string list \<Rightarrow> 'c native_boot \<Rightarrow> 'c native_boot \<times> string option" where
  "InitNativeServices serverId ini wired ord disabled s =
     (if nb_initiated s then (s, Some ''services has already been initiated'')
      else (case init_loop serverId ini wired (ord (nb_instances s)) (nb_manager s) of
          (m, Some err) \<Rightarrow> (resetInstances disabled (s\<lparr>nb_manager := m\<rparr>), Some err)
        | (m, None) \<Rightarrow> (s\<lparr>nb_manager := m, nb_initiated := True\<rparr>, None)))"

definition AddNativeService :: "string \<Rightarrow> nat \<Rightarrow> 'c native_boot \<Rightarrow> 'c native_boot \<times> string option" where
  "AddNativeService k a s =
     (if nb_initiated s then (s, Some ''all native services have already initiated'')
      else if map_of (nb_instances s) k \<noteq> None then (s, Some (''native service '' @ k @ '' already exists''))
      else (s\<lparr>nb_instances := AList.update k a (nb_instances s)\<rparr>, None))"

section \<open>The start\<close>

text \<open>Registration enters the literal routes of a service into the table; its other routes leave the table as it is.\<close>

lemma register_uris_literal:
  assumes "trie_ok (root t)" and "\<And>u. u \<in> set added \<Longrightarrow> uri_pattern_ok u \<Longrightarrow> trie_table t u = Some a" and "uri_pattern_ok u"
  shows "trie_table (register_uris a uris added t) u = (if u \<in> set uris then Some a else trie_table t u)"
  using assms(1,2)
proof (induction uris arbitrary: added t)
  case (Cons uri uris)
  obtain t' err where add: "Add t uri (Some a) True = (t', err)" by force
  have tab: "trie_table t' v = (if uri_pattern_ok v \<and> v = uri then Some a else trie_table t v)" if "uri_pattern_ok v" for v
    using routes_Add [of t uri a True v] add that by (auto simp: trie_table_def uri_pattern_ok_def plain_path_def)
  have ok: "trie_ok (root t')" using trie_ok_Add [OF Cons.prems(1), of uri "Some a" True] add by simp
  have ih: "trie_table (register_uris a uris added' t') u = (if u \<in> set uris then Some a else trie_table t' u)"
    if "set added' \<subseteq> insert uri (set added)" for added'
    by (rule Cons.IH [OF ok]) (use that tab Cons.prems(2) in \<open>auto split: if_splits\<close>)
  show ?case
  proof (cases "uri \<in> set added")
    case True
    then have "trie_table t u = Some a" if "u = uri" using Cons.prems(2) [of u] assms(3) that by simp
    then show ?thesis using True Cons.IH [OF Cons.prems(1), of added] Cons.prems(2) by auto
  next
    case False
    have "set added \<subseteq> insert uri (set added)" "set (uri # added) \<subseteq> insert uri (set added)" by auto
    then show ?thesis using False ih [of added] ih [of "uri # added"] add tab [OF assms(3)] assms(3)
      by (cases err) auto
  qed
qed simp

text \<open>The contract of one service at the start: it is registered under its id, and its literal routes lead to it.\<close>

definition serves :: "(string \<Rightarrow> (hub_handler, 'c) IService \<times> string option) \<Rightarrow> (hub_handler, 'c) ServiceManagerModule \<Rightarrow> string \<times> nat \<Rightarrow> bool" where
  "serves ini m ka \<longleftrightarrow> sm_heap m (snd ka) = fst (ini (fst ka)) \<and> map_of (serviceMap m) (fst ka) = Some (snd ka) \<and>
     (\<forall>u \<in> set (FullServiceUris (svc_base (fst (ini (fst ka))))). uri_pattern_ok u \<longrightarrow> trie_table (trieTree m) u = Some (snd ka))"

lemma init_loop_serves:
  assumes "distinct (map fst kas)" and "distinct (map snd kas)" and "trie_ok (root (trieTree m))"
    and "\<And>k. k \<in> fst ` set kas \<Longrightarrow> wired k = None \<and> snd (ini k) = None \<and> svc_id (svc_base (fst (ini k))) = k"
    and "\<And>k k'. k \<in> ks \<Longrightarrow> k' \<in> ks \<Longrightarrow> k \<noteq> k' \<Longrightarrow>
      set (FullServiceUris (svc_base (fst (ini k)))) \<inter> set (FullServiceUris (svc_base (fst (ini k')))) = {}"
    and "fst ` set kas \<subseteq> ks" and "fst ` don \<subseteq> ks" and "fst ` don \<inter> fst ` set kas = {}" and "snd ` don \<inter> snd ` set kas = {}"
    and "\<forall>ka \<in> don. serves ini m ka"
  shows "\<exists>m'. init_loop serverId ini wired kas m = (m', None) \<and> (\<forall>ka \<in> don \<union> set kas. serves ini m' ka) \<and> trie_ok (root (trieTree m'))"
  using assms(1-4,6-)
proof (induction kas arbitrary: m don)
  case (Cons ka kas)
  obtain k a where ka: "ka = (k, a)" by (cases ka)
  let ?m = "m\<lparr>sm_heap := (sm_heap m)(a := fst (ini k))\<rparr>"
  let ?uris = "FullServiceUris (svc_base (fst (ini k)))"
  let ?m' = "?m\<lparr>serviceMap := AList.update k a (serviceMap m), trieTree := register_uris a ?uris [] (trieTree m)\<rparr>"
  have k: "wired k = None" "snd (ini k) = None" "svc_id (svc_base (fst (ini k))) = k" using Cons.prems(4) [of k] ka by auto
  have reg: "registerService serverId serverId a ?m = (?m', None)"
    using k(3) by (simp add: registerService_ok sm_service_def)
  have tab: "trie_table (trieTree ?m') u = (if u \<in> set ?uris then Some a else trie_table (trieTree m) u)" if "uri_pattern_ok u" for u
    using register_uris_literal [OF Cons.prems(3) _ that, of "[]" a ?uris] by simp
  have ok: "trie_ok (root (trieTree ?m'))" using register_uris_ok [OF Cons.prems(3)] by simp
  have own: "serves ini ?m' (k, a)" using tab by (simp add: serves_def update_conv)
  have old: "serves ini ?m' ka'" if "ka' \<in> don" for ka'
  proof -
    have ne: "fst ka' \<noteq> k" "snd ka' \<noteq> a" using Cons.prems(7,8) that ka by fastforce+
    have "set (FullServiceUris (svc_base (fst (ini (fst ka'))))) \<inter> set ?uris = {}"
      using assms(5) [of "fst ka'" k] ne(1) Cons.prems(5,6) that ka by auto
    then show ?thesis using Cons.prems(9) that ne tab by (auto simp: serves_def update_conv)
  qed
  have "\<exists>m''. init_loop serverId ini wired kas ?m' = (m'', None) \<and> (\<forall>x \<in> insert (k, a) don \<union> set kas. serves ini m'' x) \<and>
      trie_ok (root (trieTree m''))"
    using Cons.prems ka ok own old by (intro Cons.IH) (auto simp: image_iff)
  then show ?case using ka reg k by (auto simp: Let_def)
qed auto

lemma native_base:
  "list_all (\<lambda>k. snd (native_Init host now reqs k :: (hub_handler, 'c) IService \<times> string option) = None \<and>
    svc_id (svc_base (fst (native_Init host now reqs k :: (hub_handler, 'c) IService \<times> string option))) = k) native_ids"
  by code_simp

lemma native_uris_of:
  "map (\<lambda>k. FullServiceUris (svc_base (fst (native_Init host now reqs k :: (hub_handler, 'c) IService \<times> string option)))) native_ids =
   [[''/message/send'', ''/message/broadcast''],
    [''/services/:id'', ''/services'', ''/services/clients/:clientId'', ''/services/:id/providers'', ''/services/register'',
     ''/services/unregister'', ''/services/update'', ''/services/providers''],
    [''/status'', ''/status/services'', ''/status/info''],
    [''/clients/signup'', ''/clients'', ''/clients/:id'', ''/clients'', ''/clients/:id/conn'', ''/clients''],
    [''/auth/login'', ''/auth/token'', ''/auth/logout'']]"
  by code_simp

lemma disjoint_blocks:
  assumes "map f ks = xss" and "\<And>i j. i < j \<Longrightarrow> j < length xss \<Longrightarrow> set (xss ! i) \<inter> set (xss ! j) = {}"
    and "k \<in> set ks" and "k' \<in> set ks" and "k \<noteq> k'"
  shows "set (f k) \<inter> set (f k') = {}"
proof -
  obtain i j where ij: "i < length ks" "ks ! i = k" "j < length ks" "ks ! j = k'" using assms(3,4) by (auto simp: in_set_conv_nth)
  then have fk: "f k = xss ! i" "f k' = xss ! j" "length xss = length ks" using assms(1) by auto
  have "i \<noteq> j" using ij assms(5) by auto
  then show ?thesis using assms(2) [of i j] assms(2) [of j i] fk ij by (cases "i < j") (auto simp: Int_commute)
qed

lemma native_uris_disjoint:
  assumes "k \<in> set native_ids" and "k' \<in> set native_ids" and "k \<noteq> k'"
  shows "set (FullServiceUris (svc_base (fst (native_Init host now reqs k :: (hub_handler, 'c) IService \<times> string option)))) \<inter>
    set (FullServiceUris (svc_base (fst (native_Init host now reqs k' :: (hub_handler, 'c) IService \<times> string option)))) = {}"
  by (rule disjoint_blocks [OF native_uris_of _ assms]) (auto simp: less_Suc_eq numeral_nat)

definition boot :: "string list \<Rightarrow> (hub_handler, 'c) IService \<Rightarrow> 'c native_boot" where
  "boot disabled x = instantiateInstances disabled
     \<lparr>nb_initiated = False, nb_instances = [], nb_next = 0, nb_manager = sm_Init (\<lambda>_. x)\<rparr>"


definition sample_boot :: "nat native_boot \<times> string option" where
  "sample_boot = InitNativeServices ''hub'' (native_Init sample_host 0 (\<lambda>_. sample_request)) (\<lambda>_. None) rev [''auth'']
     (boot [''auth''] (IRelay undefined))"


end
