(* ===== verification/HttpPool.thy ===== *)
theory HttpPool
  imports Prelude
begin

text \<open>
  The pool of HTTP clients, \<open>src/common/http/client.go\<close>, with which a hub client talks to the server.

  A trackable request is an object in a list, named by its index. Each client of the pool is a worker goroutine that tests
  the status of the pool, takes a request from the queue, sends it and resolves it with the response; the starter goroutine
  sets the status and waits for the workers. Every test, take and end of a request is a step, in any order. What the server
  answers is given with the step that ends a request. The request itself is abstract. Opening a connection, and reading a
  body, is the package \<open>net/http\<close>.
\<close>

section \<open>Trackable requests\<close>

definition RequestStatusIdle :: nat where [simp]: "RequestStatusIdle = 0"
definition RequestStatusWaiting :: nat where [simp]: "RequestStatusWaiting = 1"
definition RequestStatusInProgress :: nat where [simp]: "RequestStatusInProgress = 2"
definition RequestStatusCancelled :: nat where [simp]: "RequestStatusCancelled = 9"

record HttpResponse =
  rp_Success :: bool
  rp_Code :: int
  rp_Body :: string

definition fromRawResponse :: "int \<Rightarrow> string + string \<Rightarrow> HttpResponse" where
  "fromRawResponse statusCode body =
     \<lparr>rp_Success = (statusCode \<ge> 200 \<and> statusCode \<le> 300), rp_Code = statusCode, rp_Body = (case body of Inl err \<Rightarrow> err | Inr b \<Rightarrow> b)\<rparr>"

definition invalidResponse :: "string \<Rightarrow> int \<Rightarrow> HttpResponse" where
  "invalidResponse status statusCode = \<lparr>rp_Success = False, rp_Code = statusCode, rp_Body = status\<rparr>"

definition cancelledResponse :: HttpResponse where
  "cancelledResponse = invalidResponse ''Cancelled'' (- 4)"

text \<open>\<open>tr_response\<close> is set exactly when the awaitable response is closed.\<close>

record 'q TrackableRequest =
  tr_status :: nat
  tr_request :: 'q
  tr_response :: "HttpResponse option"

definition NewTrackableRequest :: "'q \<Rightarrow> 'q TrackableRequest" where
  "NewTrackableRequest q = \<lparr>tr_status = RequestStatusIdle, tr_request = q, tr_response = None\<rparr>"

definition tr_resolve :: "HttpResponse \<Rightarrow> 'q TrackableRequest \<Rightarrow> 'q TrackableRequest" where
  "tr_resolve r t = (if tr_response t = None then t\<lparr>tr_response := Some r\<rparr> else t)"

text \<open>The error of a refused call is that of the status: in progress, cancelled or finished.\<close>

definition tr_Update :: "'q \<Rightarrow> 'q TrackableRequest \<Rightarrow> 'q TrackableRequest \<times> nat option" where
  "tr_Update q t = (if tr_status t \<le> RequestStatusWaiting then (t\<lparr>tr_request := q\<rparr>, None) else (t, Some (tr_status t)))"

definition tr_Cancel :: "'q TrackableRequest \<Rightarrow> 'q TrackableRequest \<times> nat option" where
  "tr_Cancel t =
     (if tr_status t \<le> RequestStatusWaiting then (tr_resolve cancelledResponse (t\<lparr>tr_status := RequestStatusCancelled\<rparr>), None)
      else (t, Some (tr_status t)))"

section \<open>The pool\<close>

definition PoolStatusStarting :: nat where [simp]: "PoolStatusStarting = 1"
definition PoolStatusRunning :: nat where [simp]: "PoolStatusRunning = 2"
definition PoolStatusTerminating :: nat where [simp]: "PoolStatusTerminating = 3"
definition PoolStatusStopped :: nat where [simp]: "PoolStatusStopped = 4"

definition numWithinRange :: "int \<Rightarrow> int \<Rightarrow> int \<Rightarrow> int" where
  "numWithinRange value mn mx = (if value < mn then mn else if value > mx then mx else value)"

datatype http_worker = WTesting | WReceiving | WBusy nat | WDone
datatype starter = StStarting | StWaiting | StDone

record 'q ClientPool =
  hp_status :: nat
  hp_workers :: "http_worker list"
  hp_starter :: starter
  hp_cap :: nat
  hp_queue :: "nat list"
  hp_closed :: bool
  hp_requests :: "'q TrackableRequest list"

text \<open>\<open>New\<close> with \<open>start\<close> up to the loop that makes the workers.\<close>

definition NewClientPool :: "int \<Rightarrow> int \<Rightarrow> 'q ClientPool" where
  "NewClientPool numClients maxQueueSize =
     \<lparr>hp_status = PoolStatusStarting, hp_workers = replicate (nat (numWithinRange numClients 1 2048)) WTesting, hp_starter = StStarting,
      hp_cap = nat (numWithinRange maxQueueSize 1 4096), hp_queue = [], hp_closed = False, hp_requests = []\<rparr>"

datatype 'q http_action =
    SetRunning | WorkersDone | Test nat | Take nat | Finish nat HttpResponse | Submit 'q | Update nat 'q | Cancel nat | StopPool

definition on_request :: "nat \<Rightarrow> ('q TrackableRequest \<Rightarrow> 'q TrackableRequest) \<Rightarrow> 'q ClientPool \<Rightarrow> 'q ClientPool" where
  "on_request k f p = (if k < length (hp_requests p) then p\<lparr>hp_requests := (hp_requests p)[k := f (hp_requests p ! k)]\<rparr> else p)"

text \<open>
  A worker logs a request that is not waiting and sends it all the same. A receive from the closed, empty queue gives \<open>nil\<close>,
  which is skipped. \<open>None\<close> is an action that cannot happen; a send to the closed queue panics and is not a step either.
\<close>

definition hp_do :: "'q http_action \<Rightarrow> 'q ClientPool \<Rightarrow> 'q ClientPool option" where
  "hp_do x p =
     (case x of
        SetRunning \<Rightarrow> (if hp_starter p = StStarting then Some (p\<lparr>hp_status := PoolStatusRunning, hp_starter := StWaiting\<rparr>) else None)
      | WorkersDone \<Rightarrow>
          (if hp_starter p = StWaiting \<and> list_all (\<lambda>w. w = WDone) (hp_workers p)
           then Some (p\<lparr>hp_status := PoolStatusStopped, hp_starter := StDone\<rparr>) else None)
      | Test i \<Rightarrow>
          (if i < length (hp_workers p) \<and> hp_workers p ! i = WTesting
           then Some (p\<lparr>hp_workers := (hp_workers p)[i := if hp_status p = PoolStatusRunning then WReceiving else WDone]\<rparr>) else None)
      | Take i \<Rightarrow>
          (if i < length (hp_workers p) \<and> hp_workers p ! i = WReceiving
           then (case hp_queue p of
                k # ks \<Rightarrow> Some (on_request k (\<lambda>t. t\<lparr>tr_status := RequestStatusInProgress\<rparr>)
                  (p\<lparr>hp_queue := ks, hp_workers := (hp_workers p)[i := WBusy k]\<rparr>))
              | [] \<Rightarrow> (if hp_closed p then Some (p\<lparr>hp_workers := (hp_workers p)[i := WTesting]\<rparr>) else None))
           else None)
      | Finish i r \<Rightarrow>
          (if i < length (hp_workers p)
           then (case hp_workers p ! i of
                WBusy k \<Rightarrow> Some (on_request k (tr_resolve r) (p\<lparr>hp_workers := (hp_workers p)[i := WTesting]\<rparr>))
              | _ \<Rightarrow> None)
           else None)
      | Submit q \<Rightarrow>
          (if hp_closed p \<or> length (hp_queue p) \<ge> hp_cap p then None
           else Some (p\<lparr>hp_requests := hp_requests p @ [(NewTrackableRequest q)\<lparr>tr_status := RequestStatusWaiting\<rparr>],
                        hp_queue := hp_queue p @ [length (hp_requests p)]\<rparr>))
      | Update k q \<Rightarrow> Some (on_request k (\<lambda>t. fst (tr_Update q t)) p)
      | Cancel k \<Rightarrow> Some (on_request k (\<lambda>t. fst (tr_Cancel t)) p)
      | StopPool \<Rightarrow> (if hp_closed p then None else Some (p\<lparr>hp_status := PoolStatusTerminating, hp_closed := True\<rparr>)))"

fun hp_run :: "'q http_action list \<Rightarrow> 'q ClientPool \<Rightarrow> 'q ClientPool option" where
  "hp_run [] p = Some p"
| "hp_run (x # xs) p = (case hp_do x p of None \<Rightarrow> None | Some p' \<Rightarrow> hp_run xs p')"

lemma hp_run_append: "hp_run (xs @ ys) p = (case hp_run xs p of None \<Rightarrow> None | Some p' \<Rightarrow> hp_run ys p')"
  by (induction xs arbitrary: p) (auto split: option.split)

definition response_of :: "'q ClientPool \<Rightarrow> nat \<Rightarrow> HttpResponse option" where
  "response_of p k = (if k < length (hp_requests p) then tr_response (hp_requests p ! k) else None)"

section \<open>Properties\<close>

lemma response_on_request:
  "response_of (on_request j f p) k = (if k = j \<and> k < length (hp_requests p) then tr_response (f (hp_requests p ! k)) else response_of p k)"
  by (auto simp: response_of_def on_request_def)

lemma response_step: "hp_do x p = Some p' \<Longrightarrow> response_of p k = Some r \<Longrightarrow> response_of p' k = Some r"
  by (cases x)
    (auto simp: hp_do_def on_request_def tr_resolve_def tr_Update_def tr_Cancel_def response_of_def nth_append nth_list_update
      split: if_splits list.splits http_worker.splits)

lemma response_run: "hp_run xs p = Some p' \<Longrightarrow> response_of p k = Some r \<Longrightarrow> response_of p' k = Some r"
  by (induction xs arbitrary: p) (auto split: option.splits dest: response_step)

text \<open>
  A response is final: whatever is done in the pool afterwards, the request keeps the response it was resolved with. So a
  request that was cancelled while it waited stays answered with \<open>Cancelled\<close>, although a worker still takes it from the
  queue and sends it.
\<close>

theorem http_response_is_final:
  assumes "k < length (hp_requests p)" and "tr_Cancel (hp_requests p ! k) = (t, None)" and "tr_response (hp_requests p ! k) = None"
    and "hp_run (Cancel k # xs) p = Some p'"
  shows "response_of p' k = Some cancelledResponse"
proof -
  obtain p1 where p1: "hp_do (Cancel k) p = Some p1" "hp_run xs p1 = Some p'" using assms(4) by (auto split: option.splits)
  have "response_of p1 k = Some cancelledResponse"
    using p1(1) assms(1-3) by (auto simp: hp_do_def response_on_request tr_Cancel_def tr_resolve_def split: if_splits)
  then show ?thesis by (rule response_run [OF p1(2)])
qed

definition sample_pool :: "nat ClientPool" where
  "sample_pool = the (hp_run [SetRunning, Test 0, Submit 7] (NewClientPool 1 4))"

theorem http_response_is_final_witness:
  "map_option (\<lambda>p. response_of p 0) (hp_run [Cancel 0, Take 0, Finish 0 (fromRawResponse 200 (Inr ''ok''))] sample_pool) =
     Some (Some cancelledResponse)"
proof -
  have "0 < length (hp_requests sample_pool)" "tr_Cancel (hp_requests sample_pool ! 0) = (fst (tr_Cancel (hp_requests sample_pool ! 0)), None)"
    "tr_response (hp_requests sample_pool ! 0) = None"
    by code_simp+
  moreover obtain p' where p': "hp_run [Cancel 0, Take 0, Finish 0 (fromRawResponse 200 (Inr ''ok''))] sample_pool = Some p'"
  proof -
    have "hp_run [Cancel 0, Take 0, Finish 0 (fromRawResponse 200 (Inr ''ok''))] sample_pool \<noteq> None" by code_simp
    then show ?thesis using that by blast
  qed
  ultimately show ?thesis using http_response_is_final [of 0 sample_pool _ "[Take 0, Finish 0 (fromRawResponse 200 (Inr ''ok''))]" p'] by simp
qed

text \<open>A running worker serves the head of the queue and is ready for the next.\<close>

lemma serve_head:
  assumes "i < length (hp_workers p)" and "hp_workers p ! i = WReceiving" and "hp_queue p = k # ks" and "hp_status p = PoolStatusRunning"
    and "k < length (hp_requests p)"
  shows "\<exists>p'. hp_run [Take i, Finish i r, Test i] p = Some p' \<and> hp_workers p' = hp_workers p \<and> hp_queue p' = ks \<and>
    hp_status p' = PoolStatusRunning \<and> length (hp_requests p') = length (hp_requests p) \<and> response_of p' k \<noteq> None"
proof -
  let ?f = "\<lambda>t. tr_resolve r (t\<lparr>tr_status := RequestStatusInProgress\<rparr>)"
  let ?p = "p\<lparr>hp_queue := ks, hp_requests := (hp_requests p)[k := ?f (hp_requests p ! k)]\<rparr>"
  have "(hp_workers p)[i := WReceiving] = hp_workers p" using assms(1,2) by (metis list_update_id)
  then have "hp_run [Take i, Finish i r, Test i] p = Some ?p"
    using assms by (simp add: hp_do_def on_request_def)
  moreover have "response_of ?p k \<noteq> None" using assms(5) by (simp add: response_of_def tr_resolve_def)
  ultimately show ?thesis using assms(4) by simp
qed

lemma serve_queue:
  assumes "i < length (hp_workers p)" and "hp_workers p ! i = WReceiving" and "hp_status p = PoolStatusRunning"
    and "\<forall>k \<in> set (hp_queue p). k < length (hp_requests p)"
  shows "\<exists>p'. hp_run (concat (map (\<lambda>_. [Take i, Finish i r, Test i]) (hp_queue p))) p = Some p' \<and> hp_queue p' = [] \<and>
    (\<forall>k \<in> set (hp_queue p). response_of p' k \<noteq> None)"
  using assms
proof (induction "hp_queue p" arbitrary: p)
  case (Cons k ks)
  note q = Cons.hyps(2) [symmetric]
  have kl: "k < length (hp_requests p)" using Cons.prems(4) unfolding q by simp
  obtain p1 where p1: "hp_run [Take i, Finish i r, Test i] p = Some p1" "hp_workers p1 = hp_workers p" "hp_queue p1 = ks"
    "hp_status p1 = PoolStatusRunning" "length (hp_requests p1) = length (hp_requests p)" "response_of p1 k \<noteq> None"
    using serve_head [OF Cons.prems(1,2) q Cons.prems(3) kl, of r] by blast
  have "i < length (hp_workers p1)" "hp_workers p1 ! i = WReceiving" unfolding p1(2) by (fact Cons.prems(1,2))+
  moreover have "\<forall>k \<in> set (hp_queue p1). k < length (hp_requests p1)" unfolding p1(3,5) using Cons.prems(4) unfolding q by simp
  ultimately obtain p' where p': "hp_run (concat (map (\<lambda>_. [Take i, Finish i r, Test i]) (hp_queue p1))) p1 = Some p'" "hp_queue p' = []"
    "\<forall>k \<in> set (hp_queue p1). response_of p' k \<noteq> None"
    using Cons.hyps(1) [OF p1(3) [symmetric] _ _ p1(4)] by blast
  note p' = p' [unfolded p1(3)]
  obtain r0 where "response_of p1 k = Some r0" using p1(6) by blast
  then have "response_of p' k \<noteq> None" using response_run [OF p'(1)] by simp
  moreover have "hp_run (concat (map (\<lambda>_. [Take i, Finish i r, Test i]) (hp_queue p))) p = Some p'"
    unfolding q list.map concat.simps(2) hp_run_append p1(1) using p'(1) by simp
  ultimately show ?case using p'(2,3) unfolding q by simp
qed simp

text \<open>
  When a pool runs and one of its workers waits for work, that worker alone can serve the whole queue: there is a run after
  which the queue is empty and every request that was in it has its response. Every queue of a pool reached from its start
  consists of requests of that pool.
\<close>

theorem http_requests_are_served:
  assumes "hp_run xs (NewClientPool n cap) = Some p" and "i < length (hp_workers p)" and "hp_workers p ! i = WReceiving"
    and "hp_status p = PoolStatusRunning"
  shows "\<exists>ys p'. hp_run ys p = Some p' \<and> hp_queue p' = [] \<and> (\<forall>k \<in> set (hp_queue p). response_of p' k \<noteq> None)"
proof -
  have step: "\<forall>k \<in> set (hp_queue q'). k < length (hp_requests q')"
    if "\<forall>k \<in> set (hp_queue q). k < length (hp_requests q)" "hp_do x q = Some q'" for x and q q' :: "'a ClientPool"
    using that by (cases x) (auto simp: hp_do_def on_request_def less_SucI split: if_splits list.splits http_worker.splits)
  have "hp_run ys q = Some q' \<Longrightarrow> \<forall>k \<in> set (hp_queue q). k < length (hp_requests q) \<Longrightarrow> \<forall>k \<in> set (hp_queue q'). k < length (hp_requests q')"
    for ys and q q' :: "'a ClientPool"
    by (induction ys arbitrary: q) (auto split: option.splits dest: step)
  from this [OF assms(1)] have "\<forall>k \<in> set (hp_queue p). k < length (hp_requests p)" by (simp add: NewClientPool_def)
  from serve_queue [OF assms(2-4) this] show ?thesis by blast
qed

theorem http_requests_are_served_witness:
  "\<exists>ys p'. hp_run ys sample_pool = Some p' \<and> hp_queue p' = [] \<and> response_of p' 0 \<noteq> None"
proof -
  have run: "hp_run [SetRunning, Test 0, Submit 7] (NewClientPool 1 4) = Some sample_pool"
    and rest: "0 < length (hp_workers sample_pool)" "hp_workers sample_pool ! 0 = WReceiving" "hp_status sample_pool = PoolStatusRunning"
      "hp_queue sample_pool = [0]"
    by code_simp+
  show ?thesis using http_requests_are_served [OF run rest(1-3)] rest(4) by auto
qed

definition dead_pool :: "'q ClientPool \<Rightarrow> bool" where
  "dead_pool p \<longleftrightarrow> list_all (\<lambda>w. w = WDone) (hp_workers p) \<and> (\<forall>k. response_of p k = None \<or> response_of p k = Some cancelledResponse)"

lemma dead_pool_step:
  assumes "dead_pool p" and "hp_do x p = Some p'"
  shows "dead_pool p'"
proof -
  have w: "hp_workers p ! i = WDone" if "i < length (hp_workers p)" for i using assms(1) that by (auto simp: dead_pool_def list_all_length)
  have "hp_workers p' = hp_workers p" using assms(2) w
    by (cases x) (auto simp: hp_do_def on_request_def split: if_splits list.splits http_worker.splits)
  moreover have "response_of p' k = None \<or> response_of p' k = Some cancelledResponse" for k
  proof -
    have old: "response_of p k = None \<or> response_of p k = Some cancelledResponse" using assms(1) by (simp add: dead_pool_def)
    show ?thesis
    proof (cases x)
      case (Submit q)
      then show ?thesis using assms(2) old
        by (auto simp: hp_do_def response_of_def nth_append NewTrackableRequest_def less_Suc_eq split: if_splits)
    qed (use assms(2) old w in \<open>auto simp: hp_do_def on_request_def response_of_def tr_Update_def tr_Cancel_def tr_resolve_def
        nth_list_update split: if_splits list.splits http_worker.splits\<close>)
  qed
  ultimately show ?thesis using assms(1) by (simp add: dead_pool_def)
qed

lemma dead_pool_run: "hp_run xs p = Some p' \<Longrightarrow> dead_pool p \<Longrightarrow> dead_pool p'"
  by (induction xs arbitrary: p) (auto split: option.splits dest: dead_pool_step)

lemma all_test_early:
  assumes "hp_status p \<noteq> PoolStatusRunning" and "hp_workers p = replicate j WDone @ replicate m WTesting"
  shows "hp_run (map Test [j..<j + m]) p = Some (p\<lparr>hp_workers := replicate (j + m) WDone\<rparr>)"
  using assms
proof (induction m arbitrary: j p)
  case 0
  then show ?case by simp
next
  case (Suc m)
  let ?p = "p\<lparr>hp_workers := replicate (Suc j) WDone @ replicate m WTesting\<rparr>"
  have "(hp_workers p)[j := WDone] = replicate (Suc j) WDone @ replicate m WTesting"
    using Suc.prems(2) by (simp add: list_update_append replicate_app_Cons_same)
  moreover have "hp_workers p ! j = WTesting" "j < length (hp_workers p)" using Suc.prems(2) by (simp_all add: nth_append)
  ultimately have "hp_do (Test j) p = Some ?p" using Suc.prems(1) by (simp add: hp_do_def)
  moreover have "hp_run (map Test [Suc j..<Suc j + m]) ?p = Some (?p\<lparr>hp_workers := replicate (Suc j + m) WDone\<rparr>)"
    using Suc.prems(1) by (intro Suc.IH) simp_all
  moreover have "[j..<j + Suc m] = j # [Suc j..<Suc j + m]" by (simp add: upt_conv_Cons)
  ultimately show ?case by simp
qed

text \<open>
  The pool may never start: when all workers test the status before the starter has set it to running, they end, and from
  then on no run gives a request any other response than that of its own cancellation, although requests are still
  accepted. A caller of \<open>Request\<close> waits for ever.
\<close>

theorem http_pool_may_never_start:
  "\<exists>xs p. hp_run xs (NewClientPool n cap :: 'q ClientPool) = Some p \<and> hp_status p = PoolStatusRunning \<and>
     hp_do (Submit q) p \<noteq> None \<and>
     (\<forall>ys p' k. hp_run ys p = Some p' \<longrightarrow> response_of p' k = None \<or> response_of p' k = Some cancelledResponse)"
proof -
  let ?p0 = "NewClientPool n cap :: 'q ClientPool"
  let ?m = "nat (numWithinRange n 1 2048)"
  let ?p1 = "?p0\<lparr>hp_workers := replicate ?m WDone\<rparr>"
  let ?p2 = "?p1\<lparr>hp_status := PoolStatusRunning, hp_starter := StWaiting\<rparr>"
  have "hp_run (map Test [0..<0 + ?m]) ?p0 = Some (?p0\<lparr>hp_workers := replicate (0 + ?m) WDone\<rparr>)"
    by (rule all_test_early) (simp_all add: NewClientPool_def)
  moreover have "hp_do SetRunning ?p1 = Some ?p2" by (simp add: hp_do_def NewClientPool_def)
  ultimately have run: "hp_run (map Test [0..<?m] @ [SetRunning]) ?p0 = Some ?p2" by (simp add: hp_run_append)
  have "dead_pool ?p2" by (simp add: dead_pool_def response_of_def NewClientPool_def list_all_length)
  then have dead: "dead_pool p'" if "hp_run ys ?p2 = Some p'" for ys p' using dead_pool_run that by blast
  have "0 < hp_cap ?p2" by (simp add: NewClientPool_def numWithinRange_def)
  then have "hp_do (Submit q) ?p2 \<noteq> None" by (simp add: hp_do_def NewClientPool_def)
  then show ?thesis using run dead by (intro exI [of _ "map Test [0..<?m] @ [SetRunning]"] exI [of _ ?p2]) (auto simp: dead_pool_def)
qed

theorem http_pool_may_never_start_witness:
  "\<exists>xs (p :: nat ClientPool). hp_run xs (NewClientPool 2 8) = Some p \<and>
     (\<forall>p' k. hp_run [Submit 3, WorkersDone] p = Some p' \<longrightarrow> response_of p' k = None \<or> response_of p' k = Some cancelledResponse)"
  using http_pool_may_never_start [of 2 8 3] by blast

end
