(* ===== verification/ConnectionGroups.thy ===== *)
theory ConnectionGroups
  imports Prelude
begin

text \<open>
  Groups of connections, \<open>src/hub_common/connection/ConnectionGroup.go\<close>: the members form a ring of nodes linked by pointers,
  and each request goes to the current node and moves on. Nodes live in a store by address; a connection is its address
  string. A call through the \<open>nil\<close> current node panics.
\<close>

section \<open>The group\<close>

record connNode =
  cn_conn :: string
  cn_prev :: "nat option"
  cn_next :: "nat option"

record ConnectionGroup =
  cg_nodes :: "nat \<Rightarrow> connNode"
  cg_alloc :: nat
  cg_conns :: "(string \<times> nat) list"
  cg_curr :: "nat option"

definition empty_group :: ConnectionGroup where
  "empty_group = \<lparr>cg_nodes = (\<lambda>_. \<lparr>cn_conn = [], cn_prev = None, cn_next = None\<rparr>), cg_alloc = 0, cg_conns = [], cg_curr = None\<rparr>"

definition cg_Add :: "string \<Rightarrow> ConnectionGroup \<Rightarrow> ConnectionGroup \<times> bool" where
  "cg_Add addr g =
     (if map_of (cg_conns g) addr \<noteq> None then (g, False)
      else
        (let n = cg_alloc g; g = g\<lparr>cg_alloc := Suc n, cg_conns := AList.update addr n (cg_conns g)\<rparr> in
         (case cg_curr g of
            None \<Rightarrow> (g\<lparr>cg_nodes := (cg_nodes g)(n := \<lparr>cn_conn = addr, cn_prev = None, cn_next = Some n\<rparr>), cg_curr := Some n\<rparr>, True)
          | Some c \<Rightarrow>
              (g\<lparr>cg_nodes := (cg_nodes g)(n := \<lparr>cn_conn = addr, cn_prev = Some c, cn_next = cn_next (cg_nodes g c)\<rparr>,
                  c := (cg_nodes g c)\<lparr>cn_next := Some n\<rparr>)\<rparr>, True))))"

definition NewConnectionGroup :: "string \<Rightarrow> ConnectionGroup" where
  "NewConnectionGroup addr = fst (cg_Add addr empty_group)"

text \<open>\<open>Remove\<close>; it panics when the node it takes out has no next node, which no node of a group lacks.\<close>

definition cg_Remove :: "string \<Rightarrow> ConnectionGroup \<Rightarrow> (ConnectionGroup \<times> bool) go" where
  "cg_Remove addr g =
     (case map_of (cg_conns g) addr of
        None \<Rightarrow> Ret (g, False)
      | Some n \<Rightarrow>
          (let g = g\<lparr>cg_conns := AList.delete addr (cg_conns g)\<rparr>;
               g = (if cg_curr g = Some n then g\<lparr>cg_curr := cn_next (cg_nodes g n)\<rparr> else g);
               g = (case cn_prev (cg_nodes g n) of
                      None \<Rightarrow> g
                    | Some p \<Rightarrow> g\<lparr>cg_nodes := (cg_nodes g)(p := (cg_nodes g p)\<lparr>cn_next := cn_next (cg_nodes g n)\<rparr>)\<rparr>)
           in (case cn_next (cg_nodes g n) of
                 None \<Rightarrow> Panic
               | Some q \<Rightarrow>
                   Ret (if cn_prev (cg_nodes g q) \<noteq> None
                        then g\<lparr>cg_nodes := (cg_nodes g)(q := (cg_nodes g q)\<lparr>cn_prev := cn_prev (cg_nodes g n)\<rparr>)\<rparr> else g, True))))"

definition nextConn :: "ConnectionGroup \<Rightarrow> (ConnectionGroup \<times> string) go" where
  "nextConn g =
     (case cg_curr g of
        None \<Rightarrow> Panic
      | Some n \<Rightarrow> Ret (g\<lparr>cg_curr := cn_next (cg_nodes g n)\<rparr>, cn_conn (cg_nodes g n)))"

text \<open>The connections that \<open>k\<close> requests in a row are sent to.\<close>

fun next_conns :: "nat \<Rightarrow> ConnectionGroup \<Rightarrow> (ConnectionGroup \<times> string list) go" where
  "next_conns 0 g = Ret (g, [])"
| "next_conns (Suc k) g = bind_go (nextConn g) (\<lambda>(g, c). bind_go (next_conns k g) (\<lambda>(g, cs). Ret (g, c # cs)))"

section \<open>The ring\<close>

fun linked :: "(nat \<Rightarrow> connNode) \<Rightarrow> nat list \<Rightarrow> nat \<Rightarrow> bool" where
  "linked N [] e = True"
| "linked N [x] e = (cn_next (N x) = Some e)"
| "linked N (x # y # ys) e = (cn_next (N x) = Some y \<and> linked N (y # ys) e)"

definition ring :: "ConnectionGroup \<Rightarrow> nat list \<Rightarrow> bool" where
  "ring g ls \<longleftrightarrow> ls \<noteq> [] \<and> distinct ls \<and> cg_curr g = Some (hd ls) \<and> linked (cg_nodes g) ls (hd ls) \<and>
     (\<forall>n \<in> set ls. n < cg_alloc g) \<and> distinct (map fst (cg_conns g)) \<and>
     set (cg_conns g) = (\<lambda>n. (cn_conn (cg_nodes g n), n)) ` set ls"

lemma linked_append: "linked N (xs @ y # ys) e \<longleftrightarrow> linked N xs y \<and> linked N (y # ys) e"
  by (induction N xs y rule: linked.induct) auto

lemma linked_cong: "(\<And>n. n \<in> set ls \<Longrightarrow> N' n = N n) \<Longrightarrow> linked N' ls e = linked N ls e"
  by (induction N ls e rule: linked.induct) auto

lemma linked_Cons: "linked N (x # ys) e \<longleftrightarrow> cn_next (N x) = Some (hd (ys @ [e])) \<and> linked N ys e"
  by (cases ys) auto

lemma update_new: "map_of al k = None \<Longrightarrow> AList.update k v al = al @ [(k, v)]"
  by (induction al) (auto split: if_splits)

lemma ring_New: "ring (NewConnectionGroup addr) [0]"
  by (simp add: ring_def NewConnectionGroup_def cg_Add_def empty_group_def)

lemma ring_next:
  assumes "ring g (x # ys)"
  shows "\<exists>g'. nextConn g = Ret (g', cn_conn (cg_nodes g x)) \<and> ring g' (ys @ [x]) \<and> cg_nodes g' = cg_nodes g \<and> cg_conns g' = cg_conns g"
proof -
  have lk: "cn_next (cg_nodes g x) = Some (hd (ys @ [x]))" "linked (cg_nodes g) ys x"
    using assms linked_Cons by (auto simp: ring_def)
  have "linked (cg_nodes g) (ys @ [x]) (hd (ys @ [x]))" using lk by (simp add: linked_append)
  then have "ring (g\<lparr>cg_curr := Some (hd (ys @ [x]))\<rparr>) (ys @ [x])" using assms by (auto simp: ring_def)
  then show ?thesis using assms lk(1) by (auto simp: nextConn_def ring_def)
qed

lemma ring_Add:
  assumes "ring g (x # ys)" and "map_of (cg_conns g) addr = None"
  shows "\<exists>g'. cg_Add addr g = (g', True) \<and> ring g' (x # cg_alloc g # ys) \<and> cn_conn (cg_nodes g' (cg_alloc g)) = addr \<and>
    (\<forall>n \<in> set (x # ys). cn_conn (cg_nodes g' n) = cn_conn (cg_nodes g n))"
proof -
  let ?n = "cg_alloc g"
  define N where "N = (cg_nodes g)(?n := \<lparr>cn_conn = addr, cn_prev = Some x, cn_next = cn_next (cg_nodes g x)\<rparr>,
    x := (cg_nodes g x)\<lparr>cn_next := Some ?n\<rparr>)"
  define g' where "g' = g\<lparr>cg_alloc := Suc ?n, cg_conns := AList.update addr ?n (cg_conns g), cg_nodes := N\<rparr>"
  have fresh: "?n \<notin> set (x # ys)" and dist: "x \<notin> set ys" "distinct ys" using assms(1) by (auto simp: ring_def)
  have add: "cg_Add addr g = (g', True)" using assms by (simp add: cg_Add_def g'_def N_def ring_def Let_def)
  have lk: "cn_next (cg_nodes g x) = Some (hd (ys @ [x]))" "linked (cg_nodes g) ys x"
    using assms(1) linked_Cons by (auto simp: ring_def)
  have "N m = cg_nodes g m" if "m \<in> set ys" for m using that fresh dist by (auto simp: N_def)
  then have "linked N ys x" using lk(2) linked_cong [of ys N "cg_nodes g" x] by blast
  moreover have "cn_next (N ?n) = Some (hd (ys @ [x]))" "cn_next (N x) = Some ?n" using lk(1) fresh by (auto simp: N_def)
  ultimately have "linked N (x # ?n # ys) x" using linked_Cons [of N ?n ys x] by simp
  moreover have conn: "cn_conn (N m) = cn_conn (cg_nodes g m)" if "m \<in> set (x # ys)" for m using that fresh by (auto simp: N_def)
  moreover have new: "cn_conn (N ?n) = addr" using fresh by (auto simp: N_def)
  moreover have "addr \<notin> fst ` set (cg_conns g)" using assms(2) by (simp add: map_of_eq_None_iff)
  moreover have "set (cg_conns g') = (\<lambda>n. (cn_conn (N n), n)) ` set (x # ?n # ys)"
  proof -
    have "(\<lambda>n. (cn_conn (N n), n)) ` set (x # ys) = (\<lambda>n. (cn_conn (cg_nodes g n), n)) ` set (x # ys)"
      using conn by (intro image_cong) auto
    moreover have "set (cg_conns g) = (\<lambda>n. (cn_conn (cg_nodes g n), n)) ` set (x # ys)" using assms(1) by (simp add: ring_def)
    ultimately show ?thesis using new update_new [OF assms(2), of ?n] by (auto simp: g'_def)
  qed
  ultimately show ?thesis using add assms(1) fresh dist update_new [OF assms(2), of ?n] by (simp add: ring_def g'_def less_SucI)
qed

lemma ring_nexts:
  "ring g (xs @ ys) \<Longrightarrow> \<exists>g'. next_conns (length xs) g = Ret (g', map (\<lambda>n. cn_conn (cg_nodes g n)) xs) \<and> ring g' (ys @ xs) \<and>
     cg_nodes g' = cg_nodes g \<and> cg_conns g' = cg_conns g"
proof (induction xs arbitrary: g ys)
  case (Cons x xs)
  obtain g1 where g1: "nextConn g = Ret (g1, cn_conn (cg_nodes g x))" "ring g1 (xs @ ys @ [x])" "cg_nodes g1 = cg_nodes g"
    "cg_conns g1 = cg_conns g"
    using ring_next [of g x "xs @ ys"] Cons.prems by auto
  then show ?case using Cons.IH [of g1 "ys @ [x]"] by auto
qed simp

datatype cg_op = GAdd string | GNext

definition cg_do :: "cg_op \<Rightarrow> ConnectionGroup \<Rightarrow> ConnectionGroup go" where
  "cg_do x g = (case x of GAdd addr \<Rightarrow> Ret (fst (cg_Add addr g)) | GNext \<Rightarrow> bind_go (nextConn g) (\<lambda>(g, _). Ret g))"

fun added :: "cg_op list \<Rightarrow> string set" where
  "added [] = {}"
| "added (GAdd addr # xs) = insert addr (added xs)"
| "added (GNext # xs) = added xs"

lemma ring_do:
  assumes "ring g ls"
  shows "\<exists>g' ls'. cg_do x g = Ret g' \<and> ring g' ls' \<and> fst ` set (cg_conns g') = fst ` set (cg_conns g) \<union> added [x]"
proof -
  obtain y ys where ls: "ls = y # ys" using assms by (cases ls) (auto simp: ring_def)
  show ?thesis
  proof (cases x)
    case (GAdd addr)
    show ?thesis
    proof (cases "map_of (cg_conns g) addr")
      case None
      obtain g' where g': "cg_Add addr g = (g', True)" "ring g' (y # cg_alloc g # ys)" using ring_Add [OF _ None] assms ls by blast
      have "cg_conns g' = cg_conns g @ [(addr, cg_alloc g)]"
        using g'(1) None assms update_new [OF None] by (auto simp: cg_Add_def Let_def split: option.splits)
      then show ?thesis using g' GAdd by (auto simp: cg_do_def)
    next
      case (Some n)
      then have "addr \<in> fst ` set (cg_conns g)" by (force dest: map_of_SomeD)
      then show ?thesis using Some GAdd assms by (auto simp: cg_do_def cg_Add_def)
    qed
  next
    case GNext
    obtain g' where "nextConn g = Ret (g', cn_conn (cg_nodes g y))" "ring g' (ys @ [y])" "cg_conns g' = cg_conns g"
      using ring_next assms ls by blast
    then show ?thesis using GNext by (auto simp: cg_do_def)
  qed
qed

lemma ring_run:
  "ring g ls \<Longrightarrow> \<exists>g' ls'. fold_go cg_do xs g = Ret g' \<and> ring g' ls' \<and> fst ` set (cg_conns g') = fst ` set (cg_conns g) \<union> added xs"
proof (induction xs arbitrary: g ls)
  case (Cons x xs)
  obtain g1 ls1 where g1: "cg_do x g = Ret g1" "ring g1 ls1" "fst ` set (cg_conns g1) = fst ` set (cg_conns g) \<union> added [x]"
    using ring_do [OF Cons.prems] by blast
  moreover have "added (x # xs) = added [x] \<union> added xs" by (cases x) auto
  ultimately show ?case using Cons.IH [OF g1(2)] by auto
qed auto

text \<open>
  A group to which connections are added, in any mixture with requests, shares its load evenly: as many requests in a row
  as it has connections go to every one of them exactly once, and the group is then where it was.
\<close>

theorem group_is_round_robin:
  "\<exists>g g'. fold_go cg_do xs (NewConnectionGroup addr) = Ret g \<and>
     (\<exists>cs. next_conns (length (cg_conns g)) g = Ret (g', cs) \<and> distinct cs \<and> set cs = insert addr (added xs) \<and> g' = g)"
proof -
  obtain g ls where g: "fold_go cg_do xs (NewConnectionGroup addr) = Ret g" "ring g ls"
    "fst ` set (cg_conns g) = fst ` set (cg_conns (NewConnectionGroup addr)) \<union> added xs"
    using ring_run [OF ring_New, of xs addr] by blast
  have conns: "set (cg_conns g) = (\<lambda>n. (cn_conn (cg_nodes g n), n)) ` set ls" "distinct (map fst (cg_conns g))" "distinct ls"
    using g(2) by (auto simp: ring_def)
  then have names: "(\<lambda>n. cn_conn (cg_nodes g n)) ` set ls = insert addr (added xs)"
    using g(3) by (simp add: image_image NewConnectionGroup_def cg_Add_def empty_group_def)
  have "length (cg_conns g) = card (set (cg_conns g))" using conns(2) distinct_card distinct_map by metis
  also have "\<dots> = length ls" unfolding conns(1) by (subst card_image) (auto simp: inj_on_def distinct_card conns(3))
  finally have len: "length (cg_conns g) = length ls" .
  have "inj_on fst (set (cg_conns g))" using conns(2) by (simp add: distinct_map)
  then have "inj_on (\<lambda>n. cn_conn (cg_nodes g n)) (set ls)" unfolding conns(1) by (auto simp: inj_on_def)
  then have dist: "distinct (map (\<lambda>n. cn_conn (cg_nodes g n)) ls)" using conns(3) by (simp add: distinct_map)
  obtain g' where g': "next_conns (length ls) g = Ret (g', map (\<lambda>n. cn_conn (cg_nodes g n)) ls)" "ring g' ls"
    using ring_nexts [of g ls "[]"] g(2) by auto
  have frame: "next_conns k h = Ret (h', cs) \<Longrightarrow> h' = h\<lparr>cg_curr := cg_curr h'\<rparr>" for k h h' cs
    by (induction k arbitrary: h cs) (fastforce simp: bind_go_eq_Ret nextConn_def split: option.splits)+
  have "cg_curr g' = cg_curr g" using g'(2) g(2) by (simp add: ring_def)
  then have "g' = g" using frame [OF g'(1)] by simp
  then show ?thesis using g(1) g'(1) len dist names by (intro exI [of _ g] exI [of _ g']) simp
qed

text \<open>
  A connection that was taken out goes on receiving requests: the group of one connection still sends to it, and when the
  first of two is taken out every second request still goes to it.
\<close>

theorem removed_connection_is_still_used:
  "(case bind_go (cg_Remove ''a'' (NewConnectionGroup ''a'')) (\<lambda>(g, _). next_conns 2 g) of
      Ret (g, cs) \<Rightarrow> cs = [''a'', ''a''] \<and> cg_conns g = [] | Panic \<Rightarrow> False) \<and>
   (case bind_go (cg_Remove ''a'' (fst (cg_Add ''b'' (NewConnectionGroup ''a'')))) (\<lambda>(g, _). next_conns 4 g) of
      Ret (g, cs) \<Rightarrow> cs = [''b'', ''a'', ''b'', ''a''] \<and> map fst (cg_conns g) = [''b''] | Panic \<Rightarrow> False)"
  by code_simp

end
