(* ===== verification/Files.thy ===== *)
theory Files
  imports Prelude
begin

text \<open>
  The file controller of the client, \<open>src/hub_client/controllers/FileController.go\<close>. The file system is the argument \<open>fs\<close>:
  what is found under a path, a directory with its entries or a file with its bytes. \<open>os.Open\<close> of a path that does not
  exist is an error, and \<open>ReadAt\<close> is an error when it cannot fill its buffer or its offset is negative, as the package \<open>os\<close>
  documents. Modification times are left out.
\<close>

section \<open>The controller\<close>

datatype fs_entry = Regular string | Directory "(string \<times> fs_entry) list"

type_synonym file_system = "string \<Rightarrow> fs_entry option"

record FileInfo =
  fi_Name :: string
  fi_Size :: int
  fi_IsDir :: bool

record FileController =
  rootDir :: string
  sectionSize :: int

text \<open>
  \<open>NewFileController\<close>: \<open>cwd\<close> is the answer of \<open>os.Getwd\<close>, and \<open>mkdir\<close> the error of \<open>os.Mkdir\<close>, which otherwise makes an empty
  directory.
\<close>

definition getRootDirOrCurrentDir :: "string + string \<Rightarrow> string \<Rightarrow> string + string" where
  "getRootDirOrCurrentDir cwd dir = (if dir = [] \<or> dir = ''/'' then cwd else Inr dir)"

definition NewFileController :: "string + string \<Rightarrow> string option \<Rightarrow> string \<Rightarrow> int \<Rightarrow> file_system \<Rightarrow> file_system \<times> (string + FileController)" where
  "NewFileController cwd mkdir dir n fs =
     (case getRootDirOrCurrentDir cwd dir of
        Inl err \<Rightarrow> (fs, Inl err)
      | Inr dir \<Rightarrow>
          (if fs dir = None \<and> mkdir \<noteq> None then (fs, Inl (the mkdir))
           else (if fs dir = None then fs(dir \<mapsto> Directory []) else fs, Inr \<lparr>rootDir = dir @ ''/'', sectionSize = n\<rparr>)))"

definition fc_open :: "FileController \<Rightarrow> file_system \<Rightarrow> string \<Rightarrow> string + fs_entry" where
  "fc_open c fs path = (case fs (rootDir c @ path) of None \<Rightarrow> Inl ''no such file or directory'' | Some e \<Rightarrow> Inr e)"

text \<open>The size of a directory is what the system reports; \<open>dirSize\<close> stands for it.\<close>

definition stat_Size :: "int \<Rightarrow> fs_entry \<Rightarrow> int" where
  "stat_Size dirSize e = (case e of Regular s \<Rightarrow> int (length s) | Directory _ \<Rightarrow> dirSize)"

definition NewFileInfo :: "int \<Rightarrow> string \<Rightarrow> fs_entry \<Rightarrow> FileInfo" where
  "NewFileInfo dirSize name e = \<lparr>fi_Name = name, fi_Size = stat_Size dirSize e, fi_IsDir = (case e of Directory _ \<Rightarrow> True | _ \<Rightarrow> False)\<rparr>"

definition ReadAt :: "fs_entry \<Rightarrow> int \<Rightarrow> int \<Rightarrow> string option" where
  "ReadAt e off n =
     (case e of
        Directory _ \<Rightarrow> None
      | Regular s \<Rightarrow> (if off < 0 then None else if n = 0 then Some []
          else if off + n \<le> int (length s) then Some (take (nat n) (drop (nat off) s)) else None))"

definition fc_read :: "fs_entry \<Rightarrow> int \<Rightarrow> int \<Rightarrow> string + string" where
  "fc_read e off n = (case ReadAt e off n of None \<Rightarrow> Inl ''EOF'' | Some b \<Rightarrow> Inr b)"

definition readSection :: "int \<Rightarrow> FileController \<Rightarrow> fs_entry \<Rightarrow> int \<Rightarrow> string + string" where
  "readSection dirSize c e sec =
     (let begin = to_int64 (sec * sectionSize c) in
      if begin > stat_Size dirSize e then Inr [] else fc_read e begin (sectionSize c))"

definition fc_Read :: "int \<Rightarrow> FileController \<Rightarrow> file_system \<Rightarrow> string \<Rightarrow> int \<Rightarrow> string + string" where
  "fc_Read dirSize c fs path sec = (case fc_open c fs path of Inl err \<Rightarrow> Inl err | Inr e \<Rightarrow> readSection dirSize c e sec)"

definition fc_Info :: "int \<Rightarrow> FileController \<Rightarrow> file_system \<Rightarrow> string \<Rightarrow> string \<Rightarrow> string + FileInfo" where
  "fc_Info dirSize c fs base path = (case fc_open c fs path of Inl err \<Rightarrow> Inl err | Inr e \<Rightarrow> Inr (NewFileInfo dirSize base e))"

definition fc_List :: "int \<Rightarrow> FileController \<Rightarrow> file_system \<Rightarrow> string \<Rightarrow> string + FileInfo list" where
  "fc_List dirSize c fs path =
     (case fc_open c fs path of
        Inl err \<Rightarrow> Inl err
      | Inr (Regular _) \<Rightarrow> Inl (''path '' @ path @ '' is not a directory'')
      | Inr (Directory es) \<Rightarrow> Inr (map (\<lambda>(n, e). NewFileInfo dirSize n e) es))"

definition fc_GetFile :: "int \<Rightarrow> FileController \<Rightarrow> file_system \<Rightarrow> string \<Rightarrow> string + string" where
  "fc_GetFile dirSize c fs path =
     (case fc_open c fs path of
        Inl err \<Rightarrow> Inl err
      | Inr e \<Rightarrow>
          (if stat_Size dirSize e > to_int64 (sectionSize c * 5) then Inl ''file is too large to request in one time''
           else fc_read e 0 (stat_Size dirSize e)))"

section \<open>Properties\<close>

text \<open>
  What the controller gives of a file of bytes \<open>s\<close>: the whole file up to five sections of size, an error for a larger one;
  a section that lies in the file is its part of the bytes, one that starts behind the end is empty, and the last section
  of a file whose size is no multiple of the section size, like the one that starts right at the end, cannot be read
  at all: its bytes are never delivered section by section.
\<close>

theorem file_sections:
  assumes "fs (rootDir c @ path) = Some (Regular s)" and "0 < sectionSize c" and "0 \<le> k"
    and "(k + 1) * sectionSize c < 2 ^ 63" and "sectionSize c * 5 < 2 ^ 63"
  shows "fc_GetFile d c fs path =
      (if int (length s) \<le> 5 * sectionSize c then Inr s else Inl ''file is too large to request in one time'') \<and>
    fc_Read d c fs path k =
      (if (k + 1) * sectionSize c \<le> int (length s) then Inr (take (nat (sectionSize c)) (drop (nat (k * sectionSize c)) s))
       else if k * sectionSize c > int (length s) then Inr [] else Inl ''EOF'')"
proof
  show "fc_GetFile d c fs path =
      (if int (length s) \<le> 5 * sectionSize c then Inr s else Inl ''file is too large to request in one time'')"
    using assms by (auto simp: fc_GetFile_def fc_open_def stat_Size_def fc_read_def ReadAt_def to_int64_id)
  have pos: "0 \<le> k * sectionSize c" using assms(2,3) by simp
  have "k * sectionSize c < 2 ^ 63" using assms(2,4) by (simp add: algebra_simps)
  then have beg: "to_int64 (k * sectionSize c) = k * sectionSize c" "0 \<le> k * sectionSize c"
    using pos by (auto intro!: to_int64_id)
  have "(k + 1) * sectionSize c = k * sectionSize c + sectionSize c" by (simp add: algebra_simps)
  then show "fc_Read d c fs path k =
      (if (k + 1) * sectionSize c \<le> int (length s) then Inr (take (nat (sectionSize c)) (drop (nat (k * sectionSize c)) s))
       else if k * sectionSize c > int (length s) then Inr [] else Inl ''EOF'')"
    using beg assms(1,2) by (simp add: fc_Read_def readSection_def fc_open_def stat_Size_def fc_read_def ReadAt_def Let_def)
qed

theorem file_sections_witness:
  "fc_Read 0 \<lparr>rootDir = ''fs/'', sectionSize = 4\<rparr> [''fs/a'' \<mapsto> Regular ''abcdef''] ''a'' 1 = Inl ''EOF'' \<and>
   fc_Read 0 \<lparr>rootDir = ''fs/'', sectionSize = 4\<rparr> [''fs/a'' \<mapsto> Regular ''abcdef''] ''a'' 0 = Inr ''abcd''"
  using file_sections [of "[''fs/a'' \<mapsto> Regular ''abcdef'']" "\<lparr>rootDir = ''fs/'', sectionSize = 4\<rparr>" "''a''" "''abcdef''" 1 0]
    file_sections [of "[''fs/a'' \<mapsto> Regular ''abcdef'']" "\<lparr>rootDir = ''fs/'', sectionSize = 4\<rparr>" "''a''" "''abcdef''" 0 0]
  by simp

end
