(* ===== verification/Sessions.thy ===== *)
theory Sessions
  imports Dispatcher ConnectionFacts
begin

text \<open>
  The life of a connection at the server: \<open>src/websocket/wserver\<close>, \<open>SocketConnectionHandler.go\<close> of
  \<open>src/hub_server/socket\<close>, \<open>WebsocketUpgradeChecker.go\<close> and \<open>HTTPRequestHandler.go\<close> of \<open>src/hub_server/http\<close>, and
  \<open>Init\<close> and the aliveness timer of \<open>src/hub_common/connection/Connection.go\<close>.

  A session is the goroutine of one upgraded request: it registers the connection, validates the token of the query, reads
  frames until a read fails, and closes the connection on the way out. \<open>reads\<close> is what the network delivers: a frame or
  the error of a read; at the end of the list the goroutine waits for the next one. The upgrade itself is the parameter
  \<open>upgrade\<close>, and \<open>on\<close> is what the message callback does with a frame. The wrapper of a connection comes from a pool.
  Each timer that \<open>Init\<close> starts is remembered by the wrapper whose \<open>ttlJob\<close> it calls.
\<close>

section \<open>State\<close>

definition TypeWS :: nat where "TypeWS = 1"
definition WSConnectionPath :: string where "WSConnectionPath = ''/ws''"

record ws_request = http_request +
  hr_query :: "(string \<times> string list) list"

record SocketConnectionHandler =
  connectionManager :: ConnectionManagerModule
  connPool :: "nat list"
  created_wrappers :: nat
  wrapped :: "nat \<Rightarrow> nat"
  ttl_timers :: "nat list"

datatype session_end = Waiting | Stuck | Ended

text \<open>\<open>Get\<close> and \<open>Put\<close> of the pool, and \<open>Init\<close> of a wrapper: its connection, and a new timer for it.\<close>

definition connPool_Get :: "SocketConnectionHandler \<Rightarrow> nat \<times> SocketConnectionHandler" where
  "connPool_Get h =
     (case connPool h of
        w # ws \<Rightarrow> (w, h\<lparr>connPool := ws\<rparr>)
      | [] \<Rightarrow> (created_wrappers h, h\<lparr>created_wrappers := Suc (created_wrappers h)\<rparr>))"

definition connPool_Put :: "nat \<Rightarrow> SocketConnectionHandler \<Rightarrow> SocketConnectionHandler" where
  "connPool_Put w h = h\<lparr>connPool := w # connPool h\<rparr>"

definition wrapper_Init :: "nat \<Rightarrow> nat \<Rightarrow> SocketConnectionHandler \<Rightarrow> SocketConnectionHandler" where
  "wrapper_Init w c h = h\<lparr>wrapped := (wrapped h)(w := c), ttl_timers := ttl_timers h @ [w]\<rparr>"

text \<open>\<open>ttlJob\<close> closes the connection that the wrapper holds when the timer fires.\<close>

definition ttlJob :: "string option \<Rightarrow> nat \<Rightarrow> SocketConnectionHandler \<Rightarrow> SocketConnectionHandler \<times> string option option" where
  "ttlJob neterr w h =
     (let (m, res) = Close neterr (wrapped h w) (connectionManager h) in (h\<lparr>connectionManager := m\<rparr>, res))"

section \<open>Reading\<close>

text \<open>
  \<open>ReadLoop\<close> with \<open>Read\<close> and \<open>handleError\<close>: the error callback closes the connection, and the loop then overwrites the
  state with \<open>StateStopped\<close>.
\<close>

definition stop_reading :: "nat \<Rightarrow> SocketConnectionHandler \<Rightarrow> SocketConnectionHandler" where
  "stop_reading c h = h\<lparr>connectionManager := set_conn_state c StateStopped (connectionManager h)\<rparr>"

fun read_loop :: "(string \<Rightarrow> SocketConnectionHandler \<Rightarrow> SocketConnectionHandler) \<Rightarrow> string option \<Rightarrow> nat \<Rightarrow>
    (string + string) list \<Rightarrow> SocketConnectionHandler \<Rightarrow> SocketConnectionHandler \<times> session_end" where
  "read_loop on neterr c reads h =
     (if w_state (heap (connectionManager h) c) \<noteq> StateReading then (stop_reading c h, Ended)
      else (case reads of
          [] \<Rightarrow> (h, Waiting)
        | Inr frame # rest \<Rightarrow> read_loop on neterr c rest (on frame h)
        | Inl err # rest \<Rightarrow>
            (case Close neterr c (connectionManager h) of
               (m, None) \<Rightarrow> (h\<lparr>connectionManager := m\<rparr>, Stuck)
             | (m, Some _) \<Rightarrow> (stop_reading c (h\<lparr>connectionManager := m\<rparr>), Ended))))"

declare read_loop.simps [simp del]

definition ReadLoop :: "(string \<Rightarrow> SocketConnectionHandler \<Rightarrow> SocketConnectionHandler) \<Rightarrow> string option \<Rightarrow> nat \<Rightarrow>
    (string + string) list \<Rightarrow> SocketConnectionHandler \<Rightarrow> SocketConnectionHandler \<times> session_end" where
  "ReadLoop on neterr c reads h =
     (if w_state (heap (connectionManager h) c) > StateIdle then (h, Ended)
      else read_loop on neterr c reads
             (h\<lparr>connectionManager := set_conn_state c StateReading (connectionManager h)\<rparr>))"

section \<open>Sessions\<close>

text \<open>\<open>r.URL.Query().Get("token")\<close>: the first value, or the empty string.\<close>

definition GetTokenFromQueryParameters :: "ws_request \<Rightarrow> string" where
  "GetTokenFromQueryParameters r = (case map_of (hr_query r) ''token'' of Some (v # _) \<Rightarrow> v | _ \<Rightarrow> [])"

definition ShouldUpgradeProtocol :: "JWT \<Rightarrow> get_client \<Rightarrow> int \<Rightarrow> (string \<Rightarrow> string + string) \<Rightarrow> ws_request \<Rightarrow> string option" where
  "ShouldUpgradeProtocol J getClient now get r =
     (let token = GetTokenFromQueryParameters r in
      if token = [] then Some ''invalid auth token'' else snd (ValidateToken J getClient now get token))"

definition close_conn :: "string option \<Rightarrow> nat \<Rightarrow> SocketConnectionHandler \<Rightarrow> SocketConnectionHandler \<times> session_end" where
  "close_conn neterr c h =
     (case Close neterr c (connectionManager h) of
        (m, None) \<Rightarrow> (h\<lparr>connectionManager := m\<rparr>, Stuck)
      | (m, Some _) \<Rightarrow> (h\<lparr>connectionManager := m\<rparr>, Ended))"

definition HandleConnectionEstablished :: "JWT \<Rightarrow> get_client \<Rightarrow> int \<Rightarrow> (string \<Rightarrow> string + string) \<Rightarrow>
    (string \<Rightarrow> SocketConnectionHandler \<Rightarrow> SocketConnectionHandler) \<Rightarrow> string option \<Rightarrow> nat \<Rightarrow> ws_request \<Rightarrow>
    (string + string) list \<Rightarrow> SocketConnectionHandler \<Rightarrow> SocketConnectionHandler \<times> session_end" where
  "HandleConnectionEstablished J getClient now get on neterr c r reads h =
     (let (w, h) = connPool_Get h;
          h = wrapper_Init w c h;
          h = h\<lparr>connectionManager := fst (AddConnection c (connectionManager h))\<rparr>
      in case ValidateToken J getClient now get (GetTokenFromQueryParameters r) of
           (_, Some err) \<Rightarrow> close_conn neterr c h
         | (clientId, None) \<Rightarrow>
             (let (m, err) = RegisterClientToConnection clientId (w_addr (heap (connectionManager h) c)) (connectionManager h);
                  h = h\<lparr>connectionManager := m\<rparr>
              in if err \<noteq> None then close_conn neterr c h
                 else (case ReadLoop on neterr c reads h of
                     (h, Ended) \<Rightarrow> (connPool_Put w h, Ended)
                   | res \<Rightarrow> res)))"

text \<open>
  \<open>handleNewConnection\<close>: a new connection object \<open>c\<close>, the handler, and the deferred \<open>Close\<close>. The server sets no callback
  for closed clients, so the first close callback does nothing.
\<close>

definition handleNewConnection :: "JWT \<Rightarrow> get_client \<Rightarrow> int \<Rightarrow> (string \<Rightarrow> string + string) \<Rightarrow>
    (string \<Rightarrow> SocketConnectionHandler \<Rightarrow> SocketConnectionHandler) \<Rightarrow> string option \<Rightarrow> nat \<Rightarrow> ws_request \<Rightarrow>
    (string + string) list \<Rightarrow> SocketConnectionHandler \<Rightarrow> SocketConnectionHandler \<times> session_end" where
  "handleNewConnection J getClient now get on neterr c r reads h =
     (let m = connectionManager h;
          h = h\<lparr>connectionManager := m\<lparr>heap := (heap m)(c := NewWsConnection (hr_remote r) TypeWS)\<rparr>\<rparr>
      in case HandleConnectionEstablished J getClient now get on neterr c r reads h of
           (h, Ended) \<Rightarrow> close_conn neterr c h
         | res \<Rightarrow> res)"

section \<open>Requests\<close>

definition CheckOrigin :: "ws_request \<Rightarrow> bool" where
  "CheckOrigin r \<longleftrightarrow> hr_method r = ''GET''"

datatype ws_outcome =
    NoUpgrade
  | Refused nat string
  | NotUpgraded string
  | Session session_end

text \<open>The status and the body of \<open>handleUpgradeFailure\<close>.\<close>

definition handleUpgradeFailure :: "string \<Rightarrow> ws_outcome" where
  "handleUpgradeFailure message =
     Refused 400 (''{'' @ [CHR 0x22] @ ''message'' @ [CHR 0x22] @ '':'' @ [CHR 0x22] @
       ''unable to upgrade HTTP request due to '' @ message @ [CHR 0x22])"

definition handleHTTPRequest :: "(bool \<Rightarrow> ws_request \<Rightarrow> string option) \<Rightarrow> JWT \<Rightarrow> get_client \<Rightarrow> int \<Rightarrow> (string \<Rightarrow> string + string) \<Rightarrow>
    (string \<Rightarrow> SocketConnectionHandler \<Rightarrow> SocketConnectionHandler) \<Rightarrow> string option \<Rightarrow> nat \<Rightarrow> ws_request \<Rightarrow>
    (string + string) list \<Rightarrow> SocketConnectionHandler \<Rightarrow> SocketConnectionHandler \<times> ws_outcome" where
  "handleHTTPRequest upgrade J getClient now get on neterr c r reads h =
     (if hr_path r \<noteq> WSConnectionPath then (h, NoUpgrade)
      else (case ShouldUpgradeProtocol J getClient now get r of
          Some err \<Rightarrow> (h, handleUpgradeFailure err)
        | None \<Rightarrow>
            (case upgrade (CheckOrigin r) r of
               Some err \<Rightarrow> (h, NotUpgraded err)
             | None \<Rightarrow> (let (h, e) = handleNewConnection J getClient now get on neterr c r reads h in (h, Session e)))))"

text \<open>
  \<open>Handle\<close> of a request that is not upgraded: the message, the dispatcher, and the wait for the answer. A request that
  cannot be transformed gives no message, and \<open>msg.Id()\<close> panics.
\<close>

definition http_Handle :: "(WHttpRequest \<Rightarrow> string + string) \<Rightarrow> string \<Rightarrow> string \<Rightarrow> writer \<Rightarrow> int \<Rightarrow>
    'h caller \<Rightarrow> ('c \<Rightarrow> Message \<Rightarrow> string + Message) \<Rightarrow> nat \<Rightarrow> http_request \<Rightarrow> ('h, 'c) hub \<Rightarrow>
    (('h, 'c) hub option \<times> out_conn) run" where
  "http_Handle marshal genId panic_text write now call ask a r hub =
     (case TransformRequest marshal genId r of
        Inl err \<Rightarrow> Crashed
      | Inr msg \<Rightarrow>
          (case Dispatch server_dispatcher panic_text write now call ask a msg
             \<lparr>oc_info = \<lparr>ci_type = TypeHTTP, ci_addr = hr_remote r\<rparr>, oc_open = False, oc_out = []\<rparr> hub of
             Finished (hub', c) \<Rightarrow> if oc_open c then Finished (hub', c) else Blocked
           | res \<Rightarrow> res))"

section \<open>Lemmas\<close>

text \<open>A reading connection can be closed once more; a closed one has used up its channel.\<close>

definition conn_sound :: "nat \<Rightarrow> SocketConnectionHandler \<Rightarrow> bool" where
  "conn_sound c h \<longleftrightarrow> (let k = heap (connectionManager h) c in
     w_state k = StateReading \<and> w_closeChannel k = 1 \<or> w_state k \<ge> StateClosing \<and> w_closeChannel k = 0)"

definition keeps_sound :: "nat \<Rightarrow> (string \<Rightarrow> SocketConnectionHandler \<Rightarrow> SocketConnectionHandler) \<Rightarrow> bool" where
  "keeps_sound c on \<longleftrightarrow> (\<forall>frame h. conn_sound c h \<longrightarrow> conn_sound c (on frame h))"

definition conn_spent :: "nat \<Rightarrow> SocketConnectionHandler \<Rightarrow> bool" where
  "conn_spent c h \<longleftrightarrow> w_state (heap (connectionManager h) c) = StateStopped \<and> w_closeChannel (heap (connectionManager h) c) = 0"

lemma set_conn_state_stores [simp]:
  "event_log (set_conn_state c st m) = event_log m" "activeClientStore (set_conn_state c st m) = activeClientStore m"
  "connStore (set_conn_state c st m) = connStore m"
  by (simp_all add: set_conn_state_def)

lemma stop_reading_heap [simp]:
  "heap (connectionManager (stop_reading c h)) c = (heap (connectionManager h) c)\<lparr>w_state := StateStopped\<rparr>"
  by (simp add: stop_reading_def set_conn_state_def setState_def)

lemma read_loop_closed:
  "w_state (heap (connectionManager h) c) \<noteq> StateReading \<Longrightarrow> read_loop on neterr c reads h = (stop_reading c h, Ended)"
  by (subst read_loop.simps) simp

lemma read_loop_open:
  assumes "w_state (heap (connectionManager h) c) = StateReading"
  shows "read_loop on neterr c [] h = (h, Waiting)"
    and "read_loop on neterr c (Inr frame # reads) h = read_loop on neterr c reads (on frame h)"
    and "read_loop on neterr c (Inl err # reads) h =
      (case close_conn neterr c h of (h, Ended) \<Rightarrow> (stop_reading c h, Ended) | res \<Rightarrow> res)"
  using assms by (subst read_loop.simps; simp add: close_conn_def split: prod.splits option.splits)+

lemma read_loop_sound:
  assumes "keeps_sound c on"
  shows "conn_sound c h \<Longrightarrow> read_loop on neterr c reads h = (h', e) \<Longrightarrow>
    e = Ended \<and> conn_spent c h' \<or> e = Waiting \<and> (\<forall>x \<in> set reads. \<not> isl x)"
proof (induction reads arbitrary: h)
  case Nil
  then show ?case
    by (cases "w_state (heap (connectionManager h) c) = StateReading")
      (auto simp: read_loop_open read_loop_closed conn_sound_def conn_spent_def Let_def)
next
  case (Cons x reads)
  consider (closed) "w_state (heap (connectionManager h) c) \<noteq> StateReading"
    | (frame) f where "w_state (heap (connectionManager h) c) = StateReading" "x = Inr f"
    | (error) err where "w_state (heap (connectionManager h) c) = StateReading" "x = Inl err"
    by (cases x) auto
  then show ?case
  proof cases
    case closed
    then show ?thesis using Cons.prems by (auto simp: read_loop_closed conn_sound_def conn_spent_def Let_def)
  next
    case frame
    then have "read_loop on neterr c reads (on f h) = (h', e)" using Cons.prems(2) by (simp add: read_loop_open)
    moreover have "conn_sound c (on f h)" using assms Cons.prems(1) by (simp add: keeps_sound_def)
    ultimately show ?thesis using Cons.IH frame by auto
  next
    case error
    then have "w_closeChannel (heap (connectionManager h) c) = 1"
      using Cons.prems(1) by (auto simp: conn_sound_def Let_def)
    then have "snd (Close neterr c (connectionManager h)) = Some neterr"
      "w_closeChannel (heap (fst (Close neterr c (connectionManager h))) c) = 0"
      using error by (simp_all add: Close_open)
    then show ?thesis using Cons.prems(2) error
      by (auto simp: read_loop_open close_conn_def conn_spent_def split: prod.splits)
  qed
qed

lemma close_conn_spent: "conn_spent c h \<Longrightarrow> snd (close_conn neterr c h) = Stuck"
  using Close_open(7) [of "connectionManager h" c neterr]
  by (auto simp: close_conn_def conn_spent_def split: prod.splits)

text \<open>The state in which an accepted session starts to read.\<close>

definition conn_registered :: "string \<Rightarrow> nat \<Rightarrow> string \<Rightarrow> ConnectionManagerModule \<Rightarrow> ConnectionManagerModule" where
  "conn_registered clientId c addr m =
     EmitEvent ''EClientConnectionEstablished'' clientId
       (m\<lparr>heap := (heap m)(c := (NewWsConnection addr TypeWS)\<lparr>w_onClose := OnClient clientId, w_state := StateReading\<rparr>),
          connStore := AList.update addr c (connStore m),
          activeClientStore := fst (active_Add (activeClientStore m) clientId addr)\<rparr>)"

definition taken :: "nat \<Rightarrow> SocketConnectionHandler \<Rightarrow> nat \<times> SocketConnectionHandler" where
  "taken c h = (let (w, h) = connPool_Get h in (w, wrapper_Init w c h))"

lemma pool_update [simp]:
  "connPool_Get (h\<lparr>connectionManager := m\<rparr>) = (fst (connPool_Get h), (snd (connPool_Get h))\<lparr>connectionManager := m\<rparr>)"
  "wrapper_Init w c (h\<lparr>connectionManager := m\<rparr>) = (wrapper_Init w c h)\<lparr>connectionManager := m\<rparr>"
  "connectionManager (connPool_Put w h) = connectionManager h"
  by (simp_all add: connPool_Get_def wrapper_Init_def connPool_Put_def split: list.splits)

text \<open>The manager after \<open>AddConnection\<close> of the new connection object.\<close>

definition conn_added :: "nat \<Rightarrow> string \<Rightarrow> ConnectionManagerModule \<Rightarrow> ConnectionManagerModule" where
  "conn_added c addr m = m\<lparr>heap := (heap m)(c := (NewWsConnection addr TypeWS)\<lparr>w_onClose := OnManager\<rparr>),
     connStore := AList.update addr c (connStore m)\<rparr>"

lemma AddConnection_new:
  assumes "map_of (connStore m) addr = None"
  shows "fst (AddConnection c (m\<lparr>heap := (heap m)(c := NewWsConnection addr TypeWS)\<rparr>)) = conn_added c addr m"
  using assms by (simp add: AddConnection_def conn_Add_def conn_Has_def conn_Get_def OnClose_def conn_added_def NewWsConnection_def)

lemma added_simps [simp]:
  "w_addr (heap (conn_added c addr m) c) = addr" "w_state (heap (conn_added c addr m) c) = StateIdle"
  "w_closeChannel (heap (conn_added c addr m) c) = 1" "w_onClose (heap (conn_added c addr m) c) = OnManager"
  "map_of (connStore (conn_added c addr m)) = (map_of (connStore m))(addr \<mapsto> c)"
  "activeClientStore (conn_added c addr m) = activeClientStore m" "event_log (conn_added c addr m) = event_log m"
  by (simp_all add: conn_added_def NewWsConnection_def update_conv')

lemma Register_new:
  assumes "addr \<notin> set (active_Get (activeClientStore m) clientId)"
  shows "snd (RegisterClientToConnection clientId addr (conn_added c addr m)) = None"
    and "set_conn_state c StateReading (fst (RegisterClientToConnection clientId addr (conn_added c addr m))) =
      conn_registered clientId c addr m"
    and "w_state (heap (fst (RegisterClientToConnection clientId addr (conn_added c addr m))) c) = StateIdle"
  using assms active_Get_Add(2) [of "activeClientStore m" clientId addr]
  by (simp_all add: RegisterClientToConnection_def conn_Get_def case_prod_beta Let_def OnClose_def EmitEvent_def
      set_conn_state_def setState_def conn_registered_def)
    (simp_all add: conn_added_def NewWsConnection_def)

lemma registered_simps [simp]:
  "w_addr (heap (conn_registered cid c addr m) c) = addr" "w_state (heap (conn_registered cid c addr m) c) = StateReading"
  "w_closeChannel (heap (conn_registered cid c addr m) c) = 1" "w_onClose (heap (conn_registered cid c addr m) c) = OnClient cid"
  "map_of (connStore (conn_registered cid c addr m)) = (map_of (connStore m))(addr \<mapsto> c)"
  "activeClientStore (conn_registered cid c addr m) = fst (active_Add (activeClientStore m) cid addr)"
  "event_log (conn_registered cid c addr m) = event_log m @ [(''EClientConnectionEstablished'', cid)]"
  by (simp_all add: conn_registered_def EmitEvent_def NewWsConnection_def update_conv')

text \<open>A session whose token is validated, and one whose token is refused.\<close>

lemma accepted_session:
  assumes "map_of (connStore (connectionManager h)) (hr_remote r) = None"
    and "hr_remote r \<notin> set (active_Get (activeClientStore (connectionManager h)) clientId)"
    and "ValidateToken J getClient now get (GetTokenFromQueryParameters r) = (clientId, None)"
  shows "handleNewConnection J getClient now get on neterr c r reads h =
    (case read_loop on neterr c reads
        ((snd (taken c h))\<lparr>connectionManager := conn_registered clientId c (hr_remote r) (connectionManager h)\<rparr>) of
       (h', Ended) \<Rightarrow> close_conn neterr c (connPool_Put (fst (taken c h)) h')
     | res \<Rightarrow> res)"
  by (simp add: handleNewConnection_def HandleConnectionEstablished_def Let_def case_prod_beta assms AddConnection_new
      Register_new ReadLoop_def taken_def del: StateReading_def split: session_end.splits)

lemma refused_session:
  assumes "map_of (connStore (connectionManager h)) (hr_remote r) = None"
    and "ValidateToken J getClient now get (GetTokenFromQueryParameters r) = (clientId, Some err)"
  shows "handleNewConnection J getClient now get on neterr c r reads h =
    (let (h', e) = close_conn neterr c ((snd (taken c h))\<lparr>connectionManager := conn_added c (hr_remote r) (connectionManager h)\<rparr>)
     in case e of Ended \<Rightarrow> close_conn neterr c h' | _ \<Rightarrow> (h', e))"
  by (simp add: handleNewConnection_def HandleConnectionEstablished_def Let_def case_prod_beta assms AddConnection_new
      taken_def split: session_end.splits)

lemma close_conn_open:
  assumes "w_state (heap (connectionManager h) c) < StateClosing" and "w_closeChannel (heap (connectionManager h) c) = 1"
  shows "close_conn neterr c h = (h\<lparr>connectionManager := fst (Close neterr c (connectionManager h))\<rparr>, Ended)"
  using Close_open(7) [OF assms(1), of neterr] assms(2) by (auto simp: close_conn_def split: prod.splits)

lemma close_conn_closed:
  "w_state (heap (connectionManager h) c) \<ge> StateClosing \<Longrightarrow> close_conn neterr c h = (h, Ended)"
  by (simp add: close_conn_def Close_def)

lemma registered_sound: "conn_sound c (h\<lparr>connectionManager := conn_registered cid c addr m\<rparr>)"
  by (simp add: conn_sound_def Let_def)

lemma Close_log:
  assumes "w_state (heap m c) < StateClosing" and "w_onClose (heap m c) = OnClient cid"
  shows "event_log (fst (Close e c m)) = event_log m @ [(''EClientConnectionClosed'', cid)] @
    (if removeAll (w_addr (heap m c)) (active_Get (activeClientStore m) cid) = [] then [(''EClientConnectionGone'', cid)] else [])"
    and "active_Get (activeClientStore (fst (Close e c m))) cid = removeAll (w_addr (heap m c)) (active_Get (activeClientStore m) cid)"
    and "w_onClose (heap (fst (Close e c m)) c) = OnClient cid"
proof -
  show log: "event_log (fst (Close e c m)) = event_log m @ [(''EClientConnectionClosed'', cid)] @
    (if removeAll (w_addr (heap m c)) (active_Get (activeClientStore m) cid) = [] then [(''EClientConnectionGone'', cid)] else [])"
    using assms active_Get_Delete [of "activeClientStore m" cid "w_addr (heap m c)" cid]
    by (auto simp: Close_def Let_def set_conn_state_def setState_def run_close_cb.simps handleConnectionClosed_def
        handleClientConnectionClosed_def EmitEvent_def)
  show "active_Get (activeClientStore (fst (Close e c m))) cid = removeAll (w_addr (heap m c)) (active_Get (activeClientStore m) cid)"
    using assms by (simp add: Close_open run_close_cb_stores active_Get_Delete)
  show "w_onClose (heap (fst (Close e c m)) c) = OnClient cid"
    using assms by (simp add: Close_def Let_def set_conn_state_def setState_def)
qed

section \<open>Properties\<close>

text \<open>
  No session that was accepted ever returns. While every read succeeds its goroutine waits for the next frame or for a
  handler; once a read fails, or a handler has closed the connection, the error callback closes the connection, the read
  loop sets it back to stopped, and the deferred \<open>Close\<close> closes it again and waits for ever on the empty channel. This holds
  whatever the message callback does with the connection, as long as it only closes it the way \<open>Close\<close> does.
\<close>

theorem accepted_session_never_returns:
  assumes "map_of (connStore (connectionManager h)) (hr_remote r) = None"
    and "hr_remote r \<notin> set (active_Get (activeClientStore (connectionManager h)) clientId)"
    and "ValidateToken J getClient now get (GetTokenFromQueryParameters r) = (clientId, None)"
    and "keeps_sound c on"
  shows "snd (handleNewConnection J getClient now get on neterr c r reads h) \<noteq> Ended \<and>
    ((\<exists>err. Inl err \<in> set reads) \<longrightarrow> snd (handleNewConnection J getClient now get on neterr c r reads h) = Stuck)"
proof -
  obtain h' e where loop: "read_loop on neterr c reads
      ((snd (taken c h))\<lparr>connectionManager := conn_registered clientId c (hr_remote r) (connectionManager h)\<rparr>) = (h', e)"
    by (cases "read_loop on neterr c reads
      ((snd (taken c h))\<lparr>connectionManager := conn_registered clientId c (hr_remote r) (connectionManager h)\<rparr>)")
  have "e = Ended \<and> conn_spent c h' \<or> e = Waiting \<and> (\<forall>x \<in> set reads. \<not> isl x)"
    by (rule read_loop_sound [OF assms(4) registered_sound loop])
  moreover have "conn_spent c (connPool_Put w h') = conn_spent c h'" for w by (simp add: conn_spent_def)
  ultimately show ?thesis
    by (auto simp: accepted_session [OF assms(1-3)] loop close_conn_spent)
qed

text \<open>
  When the only connection of a client fails to read, the two runs of the close callback report the client twice: as
  connected, closed, gone, and then closed and gone again.
\<close>

theorem lost_client_is_reported_twice:
  assumes "map_of (connStore (connectionManager h)) (hr_remote r) = None"
    and "active_Get (activeClientStore (connectionManager h)) clientId = []"
    and "ValidateToken J getClient now get (GetTokenFromQueryParameters r) = (clientId, None)"
  shows "event_log (connectionManager (fst (handleNewConnection J getClient now get on neterr c r [Inl err] h))) =
    event_log (connectionManager h) @ [(''EClientConnectionEstablished'', clientId),
      (''EClientConnectionClosed'', clientId), (''EClientConnectionGone'', clientId),
      (''EClientConnectionClosed'', clientId), (''EClientConnectionGone'', clientId)]"
proof -
  let ?m = "conn_registered clientId c (hr_remote r) (connectionManager h)"
  let ?m' = "set_conn_state c StateStopped (fst (Close neterr c ?m))"
  have stopped: "w_state (heap ?m' c) < StateClosing" "w_onClose (heap ?m' c) = OnClient clientId"
    using Close_log(3) [of ?m c clientId neterr] by (simp_all add: set_conn_state_def setState_def)
  have "fst (handleNewConnection J getClient now get on neterr c r [Inl err] h) =
      fst (close_conn neterr c (connPool_Put (fst (taken c h))
        ((snd (taken c h))\<lparr>connectionManager := ?m'\<rparr>)))"
    using accepted_session [OF assms(1) _ assms(3)] by (simp add: assms(2) read_loop_open close_conn_open stop_reading_def)
  moreover have "connectionManager (fst (close_conn neterr c k)) = fst (Close neterr c (connectionManager k))" for k
    by (auto simp: close_conn_def split: prod.splits option.splits)
  ultimately show ?thesis
    using Close_log(1) [OF stopped(1,2), of neterr] Close_log(1,2) [of ?m c clientId neterr]
    by (simp add: active_Get_Add assms(2))
qed

text \<open>
  A session whose token is refused ends: its goroutine returns, the connection is disconnected and in no store, no
  client owns it, and no event is emitted.
\<close>

theorem refused_session_ends:
  assumes "map_of (connStore (connectionManager h)) (hr_remote r) = None"
    and "ValidateToken J getClient now get (GetTokenFromQueryParameters r) = (clientId, Some err)"
    and "handleNewConnection J getClient now get on neterr c r reads h = (h', e)"
  shows "e = Ended \<and> w_state (heap (connectionManager h') c) = StateDisconnected \<and>
    map_of (connStore (connectionManager h')) = map_of (connStore (connectionManager h)) \<and>
    activeClientStore (connectionManager h') = activeClientStore (connectionManager h) \<and>
    event_log (connectionManager h') = event_log (connectionManager h)"
proof -
  let ?m = "conn_added c (hr_remote r) (connectionManager h)"
  have state: "w_state (heap (fst (Close neterr c ?m)) c) = StateDisconnected" by (rule Close_open) simp
  then have "(h', e) = ((snd (taken c h))\<lparr>connectionManager := fst (Close neterr c ?m)\<rparr>, Ended)"
    using assms(3) by (simp add: refused_session [OF assms(1,2)] close_conn_open close_conn_closed)
  moreover have "event_log (fst (Close neterr c ?m)) = event_log ?m"
    by (simp add: Close_def Let_def set_conn_state_def setState_def run_close_cb.simps handleConnectionClosed_def)
  ultimately show ?thesis
    using state assms(1) by (auto simp: Close_open run_close_cb_stores)
qed


text \<open>
  A wrapper goes back to the pool with its aliveness timer running. The next session of the server takes the same wrapper,
  and when the old timer fires it closes the connection of the new client, which has just been established and is waiting for
  its first frame.
\<close>

theorem recycled_wrapper_closes_next_client:
  assumes "map_of (connStore (connectionManager h)) (hr_remote r) = None"
    and "hr_remote r \<notin> set (active_Get (activeClientStore (connectionManager h)) clientId)"
    and "ValidateToken J getClient now get (GetTokenFromQueryParameters r) = (clientId, None)"
    and "connPool h = w # ws" and "w \<in> set (ttl_timers h)"
    and "handleNewConnection J getClient now get on neterr c r [] h = (h', e)"
  shows "e = Waiting \<and> w \<in> set (ttl_timers h') \<and>
    map_of (connStore (connectionManager h')) (hr_remote r) = Some c \<and>
    map_of (connStore (connectionManager (fst (ttlJob neterr w h')))) (hr_remote r) = None \<and>
    w_state (heap (connectionManager (fst (ttlJob neterr w h'))) c) = StateDisconnected"
proof -
  have taken: "taken c h = (w, wrapper_Init w c (h\<lparr>connPool := ws\<rparr>))"
    by (simp add: taken_def connPool_Get_def assms(4))
  have h': "e = Waiting" "connectionManager h' = conn_registered clientId c (hr_remote r) (connectionManager h)"
    "wrapped h' w = c" "w \<in> set (ttl_timers h')"
    using assms(5,6) accepted_session [OF assms(1-3)] by (auto simp: read_loop_open taken wrapper_Init_def)
  then show ?thesis
    by (simp add: ttlJob_def case_prod_beta Close_open run_close_cb_stores)
qed

text \<open>
  The HTTP handler never hangs on the lock of its connection: on a request that can be transformed it does what the
  dispatcher does on a fresh connection, and when the dispatcher has finished so has the handler. A request that cannot be
  transformed, such as one with another method, panics instead of being answered.
\<close>

theorem http_handler_follows_dispatch:
  "http_Handle marshal genId panic_text write now call ask a r hub =
     (case TransformRequest marshal genId r of
        Inl err \<Rightarrow> Crashed
      | Inr msg \<Rightarrow> Dispatch server_dispatcher panic_text write now call ask a msg
          \<lparr>oc_info = \<lparr>ci_type = TypeHTTP, ci_addr = hr_remote r\<rparr>, oc_open = False, oc_out = []\<rparr> hub)"
proof (cases "TransformRequest marshal genId r")
  case (Inr msg)
  let ?c = "\<lparr>oc_info = \<lparr>ci_type = TypeHTTP, ci_addr = hr_remote r\<rparr>, oc_open = False, oc_out = []\<rparr>"
  have "Dispatch server_dispatcher panic_text write now call ask a msg ?c hub = Finished (hub', c') \<Longrightarrow> oc_open c'" for hub' c'
    by (rule dispatched_http_is_answered [OF Inr]) simp_all
  then show ?thesis
    by (cases "Dispatch server_dispatcher panic_text write now call ask a msg ?c hub") (auto simp: http_Handle_def Inr)
qed (simp add: http_Handle_def)

section \<open>Witnesses\<close>

definition sample_sockets :: SocketConnectionHandler where
  "sample_sockets = \<lparr>connectionManager = NewConnectionManager sample_heap, connPool = [], created_wrappers = 0,
     wrapped = (\<lambda>_. 0), ttl_timers = []\<rparr>"

definition sample_ws :: "string \<Rightarrow> string \<Rightarrow> ws_request" where
  "sample_ws addr token = \<lparr>hr_method = ''GET'', hr_path = ''/ws'', hr_url = ''/ws'', hr_remote = addr, hr_headers = [],
     hr_body = Inr [], hr_query = [(''token'', [token])]\<rparr>"

lemma sample_ws_simps [simp]:
  "hr_remote (sample_ws addr token) = addr" "GetTokenFromQueryParameters (sample_ws addr token) = token"
  "hr_path (sample_ws addr token) = WSConnectionPath"
  by (simp_all add: sample_ws_def GetTokenFromQueryParameters_def WSConnectionPath_def)

lemma sample_sockets_fresh [simp]:
  "connStore (connectionManager sample_sockets) = []" "active_Get (activeClientStore (connectionManager sample_sockets)) cid = []"
  "event_log (connectionManager sample_sockets) = []"
  by (simp_all add: sample_sockets_def NewConnectionManager_def active_Get_def)

lemma sample_token_expires:
  "\<exists>err. ValidateToken sample_jwt sample_client (10 ^ 13) (token_Get sample_store) sample_token = (''alice'', Some err)"
  using sample_token_known
  by (simp add: ValidateToken_memory parseToken_def VerifyToken_def)
    (simp add: sample_jwt_def sample_token_def sample_client_def NewClient_def isTokenExpired_def)

theorem accepted_session_never_returns_witness:
  "snd (handleNewConnection sample_jwt sample_client 5 (token_Get sample_store) (\<lambda>_ h. h) None 0
     (sample_ws ''1.1.1.1:5'' sample_token) [Inr ''ping'', Inl ''EOF''] sample_sockets) = Stuck"
  using accepted_session_never_returns [of sample_sockets "sample_ws ''1.1.1.1:5'' sample_token" "''alice''" sample_jwt
    sample_client 5 "token_Get sample_store" 0 "\<lambda>_ h. h" None "[Inr ''ping'', Inl ''EOF'']"]
  by (auto simp: sample_token_validates keeps_sound_def)

theorem lost_client_is_reported_twice_witness:
  "length (event_log (connectionManager (fst (handleNewConnection sample_jwt sample_client 5 (token_Get sample_store)
     (\<lambda>_ h. h) None 0 (sample_ws ''1.1.1.1:5'' sample_token) [Inl ''EOF''] sample_sockets)))) = 5"
  using lost_client_is_reported_twice [of sample_sockets "sample_ws ''1.1.1.1:5'' sample_token" "''alice''" sample_jwt
    sample_client 5 "token_Get sample_store" "\<lambda>_ h. h" None 0 "''EOF''"]
  by (simp add: sample_token_validates)

theorem refused_session_ends_witness:
  "snd (handleNewConnection sample_jwt sample_client (10 ^ 13) (token_Get sample_store) (\<lambda>_ h. h) None 0
     (sample_ws ''1.1.1.1:5'' sample_token) [] sample_sockets) = Ended"
proof -
  obtain err where "ValidateToken sample_jwt sample_client (10 ^ 13) (token_Get sample_store) sample_token = (''alice'', Some err)"
    using sample_token_expires by blast
  then show ?thesis
    using refused_session_ends [of sample_sockets "sample_ws ''1.1.1.1:5'' sample_token" sample_jwt sample_client "10 ^ 13"
      "token_Get sample_store" "''alice''" err "\<lambda>_ h. h" None 0 "[]"]
    by (metis map_of.simps(1) prod.collapse sample_sockets_fresh(1) sample_ws_simps(2))
qed


text \<open>A session that ended with a read error leaves its wrapper in the pool and the timer of the wrapper running.\<close>

definition sample_recycled :: SocketConnectionHandler where
  "sample_recycled = fst (handleNewConnection sample_jwt sample_client 5 (token_Get []) (\<lambda>_ h. h) None 0
     (sample_ws ''1.1.1.1:5'' ''t'') [Inl ''EOF''] sample_sockets)"

theorem recycled_wrapper_closes_next_client_witness:
  "\<exists>h'. handleNewConnection sample_jwt sample_client 6 (token_Get []) (\<lambda>_ h. h) None 1
       (sample_ws ''2.2.2.2:6'' ''u'') [] sample_recycled = (h', Waiting) \<and>
     w_state (heap (connectionManager (fst (ttlJob None 0 h'))) 1) = StateDisconnected"
proof -
  let ?s = "handleNewConnection sample_jwt sample_client 6 (token_Get []) (\<lambda>_ h. h) None 1 (sample_ws ''2.2.2.2:6'' ''u'') []
    sample_recycled"
  obtain h' e where s: "?s = (h', e)" by (cases ?s)
  have "connPool sample_recycled = [0]" "ttl_timers sample_recycled = [0]" by code_simp+
  moreover have "map_of (connStore (connectionManager sample_recycled)) ''2.2.2.2:6'' = None" by code_simp
  moreover have "''2.2.2.2:6'' \<notin> set (active_Get (activeClientStore (connectionManager sample_recycled)) [])" by code_simp
  moreover have "ValidateToken sample_jwt sample_client 6 (token_Get []) ''u'' = ([], None)" by (simp add: ValidateToken_memory)
  ultimately show ?thesis
    using recycled_wrapper_closes_next_client [of sample_recycled "sample_ws ''2.2.2.2:6'' ''u''" "[]" sample_jwt sample_client 6
      "token_Get []" 0 "[]" "\<lambda>_ h. h" None 1 h' e] s by simp
qed

end
