(* ===== verification/CachedClients.thy ===== *)
theory CachedClients
  imports Clients
begin

text \<open>
  The persistent client stores: \<open>redis_client.go\<close> and \<open>redis_cached_store.go\<close> of \<open>src/common/redis\<close>, and \<open>MySqlStore.go\<close> and
  \<open>CachedClientMySqlStore.go\<close> of \<open>src/hub_server/modules/client_manager/client_store\<close>.

  The Redis library and the object mapper of the database are records of functions over their states, \<open>'r\<close> and \<open>'d\<close>; what
  the program relies on are the laws \<open>redis_laws\<close> and \<open>gorm_laws\<close>. A hash is a list of fields and texts: the library writes a
  string as it is, a number in decimal and \<open>true\<close> as \<open>1\<close>. The mutually recursive \<open>Delete\<close> and \<open>cacheSafeDelete\<close> have no bound:
  \<open>None\<close> means that the call does not return.
\<close>

section \<open>redis_client.go\<close>

type_synonym hash = "(string \<times> string) list"

record 'r RedisClient =
  rc_HExists :: "string \<Rightarrow> string \<Rightarrow> 'r \<Rightarrow> string + bool"
  rc_HGetAll :: "string \<Rightarrow> 'r \<Rightarrow> string + hash"
  rc_HMSet :: "string \<Rightarrow> hash \<Rightarrow> 'r \<Rightarrow> 'r \<times> string option"

definition redis_Nil :: string where "redis_Nil = ''redis: nil''"

definition isErrNotFound :: "string \<Rightarrow> bool" where
  "isErrNotFound err \<longleftrightarrow> err = redis_Nil"

definition redis_HExists :: "'r RedisClient \<Rightarrow> string \<Rightarrow> string \<Rightarrow> 'r \<Rightarrow> string option" where
  "redis_HExists R key field r =
     (case rc_HExists R key field r of
        Inl e \<Rightarrow> Some e
      | Inr x \<Rightarrow> if \<not> x then Some ErrNotFoundStr else None)"

definition redis_HGet :: "'r RedisClient \<Rightarrow> string \<Rightarrow> 'r \<Rightarrow> string + hash" where
  "redis_HGet R key r =
     (case rc_HGetAll R key r of
        Inl e \<Rightarrow> if isErrNotFound e then Inl ErrNotFoundStr else Inl e
      | Inr m \<Rightarrow> Inr m)"

definition redis_HSet :: "'r RedisClient \<Rightarrow> string \<Rightarrow> hash \<Rightarrow> 'r \<Rightarrow> 'r \<times> string option" where
  "redis_HSet R key m r = rc_HMSet R key m r"

section \<open>redis_cached_store.go\<close>

definition CachePolicyWriteThrough :: nat where [simp]: "CachePolicyWriteThrough = 1"
definition CachePolicyWriteBack :: nat where [simp]: "CachePolicyWriteBack = 2"
definition CacheMark :: string where "CacheMark = ''RCS-mark''"

record ('d, 'e) ISingleEntityStore =
  es_Get :: "string \<Rightarrow> 'd \<Rightarrow> string + 'e"
  es_Update :: "string \<Rightarrow> 'e \<Rightarrow> 'd \<Rightarrow> 'd \<times> string option"
  es_Create :: "string \<Rightarrow> 'e \<Rightarrow> 'd \<Rightarrow> 'd \<times> string option"
  es_Delete :: "string \<Rightarrow> 'd \<Rightarrow> 'd \<times> string option"
  es_ToHashMap :: "'e \<Rightarrow> string + hash"
  es_ToEntityType :: "hash \<Rightarrow> string + 'e"

record ('d, 'r, 'e) RedisCachedStore =
  rs_store :: "('d, 'e) ISingleEntityStore"
  rs_cache :: "'r RedisClient"
  rs_cacheOnCreate :: bool
  rs_skipErrOnCacheFailure :: bool
  rs_writePolicy :: nat

definition NewRedisCachedStore :: "('d, 'e) ISingleEntityStore \<Rightarrow> 'r RedisClient \<Rightarrow> bool \<Rightarrow> bool \<Rightarrow> nat \<Rightarrow>
    ('d, 'r, 'e) RedisCachedStore" where
  "NewRedisCachedStore store cache cacheOnCreate skipErrOnCacheFailure writePolicy =
     \<lparr>rs_store = store, rs_cache = cache, rs_cacheOnCreate = cacheOnCreate,
      rs_skipErrOnCacheFailure = skipErrOnCacheFailure,
      rs_writePolicy = (if writePolicy > CachePolicyWriteBack then CachePolicyWriteBack else writePolicy)\<rparr>"

definition rcs_ToHashMap :: "('d, 'r, 'e) RedisCachedStore \<Rightarrow> 'e \<Rightarrow> string + hash" where
  "rcs_ToHashMap s entity =
     (case es_ToHashMap (rs_store s) entity of
        Inl e \<Rightarrow> Inl e
      | Inr m \<Rightarrow> Inr (AList.update CacheMark ''1'' m))"

definition checkAndGet :: "('d, 'r, 'e) RedisCachedStore \<Rightarrow> string \<Rightarrow> 'r \<Rightarrow> string + hash" where
  "checkAndGet s i r =
     (case redis_HExists (rs_cache s) i CacheMark r of
        Some err \<Rightarrow> Inl err
      | None \<Rightarrow> redis_HGet (rs_cache s) i r)"

text \<open>The first component of a result is the pair of the database and the cache.\<close>

definition rcs_Get :: "('d, 'r, 'e) RedisCachedStore \<Rightarrow> string \<Rightarrow> 'd \<times> 'r \<Rightarrow> ('d \<times> 'r) \<times> (string + 'e)" where
  "rcs_Get s i w =
     (case checkAndGet s i (snd w) of
        Inr m \<Rightarrow> (w, es_ToEntityType (rs_store s) m)
      | Inl err \<Rightarrow>
          (if err \<noteq> ErrNotFoundStr then (w, Inl err)
           else (case es_Get (rs_store s) i (fst w) of
               Inl err \<Rightarrow> (w, Inl err)
             | Inr entity \<Rightarrow>
                 (case rcs_ToHashMap s entity of
                    Inl terr \<Rightarrow> (w, Inl terr)
                  | Inr hm \<Rightarrow>
                      (let (r', err) = redis_HSet (rs_cache s) i hm (snd w) in
                       ((fst w, r'),
                        case err of
                          Some e \<Rightarrow> if rs_skipErrOnCacheFailure s then Inr entity else Inl e
                        | None \<Rightarrow> Inr entity))))))"

type_synonym ('d, 'r) store_action = "'d \<times> 'r \<Rightarrow> ('d \<times> 'r) \<times> string option"

definition writeThroughAction :: "('d, 'r) store_action \<Rightarrow> ('d, 'r) store_action \<Rightarrow> ('d, 'r) store_action" where
  "writeThroughAction storeAction cacheAction w =
     (case cacheAction w of
        (w', Some err) \<Rightarrow> (w', Some err)
      | (w', None) \<Rightarrow> storeAction w')"

definition writeBackAction :: "('d, 'r) store_action \<Rightarrow> ('d, 'r) store_action \<Rightarrow> ('d, 'r) store_action" where
  "writeBackAction storeAction cacheAction w =
     (case storeAction w of
        (w', Some err) \<Rightarrow> (w', Some err)
      | (w', None) \<Rightarrow> cacheAction w')"

definition on_store :: "('d \<Rightarrow> 'd \<times> string option) \<Rightarrow> ('d, 'r) store_action" where
  "on_store f w = (let (d, err) = f (fst w) in ((d, snd w), err))"

definition on_cache :: "('r \<Rightarrow> 'r \<times> string option) \<Rightarrow> ('d, 'r) store_action" where
  "on_cache f w = (let (r, err) = f (snd w) in ((fst w, r), err))"

definition writeThroughSet :: "('d, 'r, 'e) RedisCachedStore \<Rightarrow> string \<Rightarrow> 'e \<Rightarrow> hash \<Rightarrow> ('d, 'r) store_action" where
  "writeThroughSet s i entity m =
     writeThroughAction (on_store (es_Update (rs_store s) i entity)) (on_cache (redis_HSet (rs_cache s) i m))"

definition writeBackSet :: "('d, 'r, 'e) RedisCachedStore \<Rightarrow> string \<Rightarrow> 'e \<Rightarrow> hash \<Rightarrow> ('d, 'r) store_action" where
  "writeBackSet s i entity m =
     writeBackAction (on_store (es_Update (rs_store s) i entity)) (on_cache (redis_HSet (rs_cache s) i m))"

definition rcs_Update :: "('d, 'r, 'e) RedisCachedStore \<Rightarrow> string \<Rightarrow> 'e \<Rightarrow> ('d, 'r) store_action" where
  "rcs_Update s i entity w =
     (case rcs_ToHashMap s entity of
        Inl err \<Rightarrow> (w, Some err)
      | Inr m \<Rightarrow>
          (if rs_writePolicy s = CachePolicyWriteThrough then writeThroughSet s i entity m w
           else writeBackSet s i entity m w))"

definition rcs_Create :: "('d, 'r, 'e) RedisCachedStore \<Rightarrow> string \<Rightarrow> 'e \<Rightarrow> ('d, 'r) store_action" where
  "rcs_Create s i entity w =
     (case on_store (es_Create (rs_store s) i entity) w of
        (w', Some err) \<Rightarrow> (w', Some err)
      | (w', None) \<Rightarrow>
          (case rcs_ToHashMap s entity of
             Inl err \<Rightarrow> (w', Some err)
           | Inr m \<Rightarrow> if rs_cacheOnCreate s then on_cache (redis_HSet (rs_cache s) i m) w' else (w', None)))"

text \<open>The error that \<open>cacheSafeDelete\<close> makes of that of \<open>Delete\<close>.\<close>

definition safe_err :: "string option \<Rightarrow> string option" where
  "safe_err err = (if err = Some ErrNotFoundStr then None else err)"

partial_function (option) rcs_Delete :: "('d, 'r, 'e) RedisCachedStore \<Rightarrow> string \<Rightarrow> 'd \<times> 'r \<Rightarrow>
    (('d \<times> 'r) \<times> string option) option" where
  "rcs_Delete s i w =
     (if rs_writePolicy s = CachePolicyWriteThrough
      then Option.bind (rcs_Delete s i w) (\<lambda>(w', err).
        if safe_err err \<noteq> None then Some (w', safe_err err) else Some (on_store (es_Delete (rs_store s) i) w'))
      else (let (w', err) = on_store (es_Delete (rs_store s) i) w in
        if err \<noteq> None then Some (w', err)
        else Option.bind (rcs_Delete s i w') (\<lambda>(w'', err). Some (w'', safe_err err))))"

definition cacheSafeDelete :: "('d, 'r, 'e) RedisCachedStore \<Rightarrow> string \<Rightarrow> 'd \<times> 'r \<Rightarrow> (('d \<times> 'r) \<times> string option) option" where
  "cacheSafeDelete s i w = Option.bind (rcs_Delete s i w) (\<lambda>(w', err). Some (w', safe_err err))"

section \<open>MySqlStore.go\<close>

record DClient =
  dc_ID :: string
  dc_CreatedAt :: int
  dc_UpdatedAt :: int
  dc_Description :: string
  dc_PScope :: int
  dc_CKey :: string
  dc_CType :: int

definition toClient :: "DClient \<Rightarrow> CommonClient" where
  "toClient d = NewClient (dc_ID d) (dc_Description d) (dc_CType d) (dc_CKey d) (dc_PScope d)"

definition clientToDClient :: "CommonClient \<Rightarrow> DClient" where
  "clientToDClient c =
     \<lparr>dc_ID = r_id (c_role c), dc_CreatedAt = 0, dc_UpdatedAt = 0, dc_Description = r_description (c_role c),
      dc_PScope = pScope c, dc_CKey = cKey c, dc_CType = cType c\<rparr>"

text \<open>The object mapper; a query is the list of its clauses and a limit.\<close>

record 'd gorm_DB =
  db_First :: "string \<Rightarrow> 'd \<Rightarrow> string + DClient"
  db_Create :: "DClient \<Rightarrow> 'd \<Rightarrow> 'd \<times> string option"
  db_Updates :: "DClient \<Rightarrow> 'd \<Rightarrow> 'd \<times> string option"
  db_Delete :: "string \<Rightarrow> 'd \<Rightarrow> 'd \<times> string option"
  db_Find :: "string list \<Rightarrow> int option \<Rightarrow> 'd \<Rightarrow> string + DClient list"

definition sql_Get :: "'d gorm_DB \<Rightarrow> string \<Rightarrow> 'd \<Rightarrow> string + CommonClient" where
  "sql_Get G i d = (case db_First G i d of Inl e \<Rightarrow> Inl e | Inr x \<Rightarrow> Inr (toClient x))"

definition sql_Create :: "'d gorm_DB \<Rightarrow> CommonClient \<Rightarrow> 'd \<Rightarrow> 'd \<times> string option" where
  "sql_Create G c d = db_Create G (clientToDClient c) d"

definition sql_Update :: "'d gorm_DB \<Rightarrow> CommonClient \<Rightarrow> 'd \<Rightarrow> 'd \<times> string option" where
  "sql_Update G c d = db_Updates G (clientToDClient c) d"

definition sql_Has :: "'d gorm_DB \<Rightarrow> string \<Rightarrow> 'd \<Rightarrow> string + bool" where
  "sql_Has G i d = (case sql_Get G i d of Inl e \<Rightarrow> Inl e | Inr c \<Rightarrow> Inr True)"

definition sql_Delete :: "'d gorm_DB \<Rightarrow> string \<Rightarrow> 'd \<Rightarrow> 'd \<times> string option" where
  "sql_Delete G i d = db_Delete G i d"

definition batchFindOperations :: "'d gorm_DB \<Rightarrow> string list \<Rightarrow> int option \<Rightarrow> 'd \<Rightarrow> string + CommonClient list" where
  "batchFindOperations G clauses limit d =
     (case db_Find G clauses limit d of Inl e \<Rightarrow> Inl e | Inr xs \<Rightarrow> Inr (map toClient xs))"

definition sql_GetAll :: "'d gorm_DB \<Rightarrow> 'd \<Rightarrow> string + CommonClient list" where
  "sql_GetAll G d = batchFindOperations G [''1 = ?'', ''1''] None d"

text \<open>\<open>fmt_time\<close> formats a time; a time of zero is the zero time.\<close>

definition buildQueryTx :: "(int \<Rightarrow> string) \<Rightarrow> DClientQuery \<Rightarrow> string list \<times> int option" where
  "buildQueryTx fmt_time q =
     (let clauses = (if q_cType q > - 1 then [''c_type = ?'', sprintf_d (q_cType q)] else []);
          clauses = clauses @
            (if \<not> (q_createdBefore q = 0 \<or> q_createdAfter q = 0)
             then [''created_at BETWEEN ? AND ?'', fmt_time (q_createdAfter q), fmt_time (q_createdBefore q)]
             else if q_createdBefore q \<noteq> 0 then [''created_at > ?'', fmt_time (q_createdAfter q)]
             else if q_createdBefore q \<noteq> 0 then [''created_at < ?'', fmt_time (q_createdBefore q)]
             else [])
      in (clauses, Some (q_limit q)))"

definition sql_Find :: "'d gorm_DB \<Rightarrow> (int \<Rightarrow> string) \<Rightarrow> DClientQuery \<Rightarrow> 'd \<Rightarrow> string + CommonClient list" where
  "sql_Find G fmt_time q d = (let (clauses, limit) = buildQueryTx fmt_time q in batchFindOperations G clauses limit d)"

section \<open>CachedClientMySqlStore.go\<close>

definition client_ToHashMap :: "CommonClient \<Rightarrow> string + hash" where
  "client_ToHashMap c =
     Inr [(''id'', r_id (c_role c)), (''description'', r_description (c_role c)), (''type'', sprintf_d (rType (c_role c))),
          (''cKey'', cKey c), (''cType'', sprintf_d (cType c)), (''pScope'', sprintf_d (pScope c))]"

definition hash_field :: "hash \<Rightarrow> string \<Rightarrow> string" where
  "hash_field m k = (case map_of m k of None \<Rightarrow> [] | Some v \<Rightarrow> v)"

definition client_ToEntityType :: "hash \<Rightarrow> string + CommonClient" where
  "client_ToEntityType m =
     (let i = hash_field m ''id''; desc = hash_field m ''description''; key = hash_field m ''cKey'' in
      case Atoi (hash_field m ''cType'') of
        Inl err \<Rightarrow> Inl err
      | Inr ty \<Rightarrow>
          (case Atoi (hash_field m ''pScope'') of
             Inl err \<Rightarrow> Inl err
           | Inr scope \<Rightarrow> Inr (NewClient i desc ty key scope)))"

definition MySqlStoreCacheAdaptor :: "'d gorm_DB \<Rightarrow> ('d, CommonClient) ISingleEntityStore" where
  "MySqlStoreCacheAdaptor G =
     \<lparr>es_Get = sql_Get G, es_Update = (\<lambda>_ c. sql_Update G c), es_Create = (\<lambda>_ c. sql_Create G c), es_Delete = sql_Delete G,
      es_ToHashMap = client_ToHashMap, es_ToEntityType = client_ToEntityType\<rparr>"

text \<open>
  The store that \<open>Init\<close> builds once the database and Redis answer. \<open>Init\<close> does not set \<open>mySqlAdaptor\<close>, so the operations that
  use it dereference \<open>nil\<close>.
\<close>

definition cachedStore :: "'d gorm_DB \<Rightarrow> 'r RedisClient \<Rightarrow> ('d, 'r, CommonClient) RedisCachedStore" where
  "cachedStore G R = NewRedisCachedStore (MySqlStoreCacheAdaptor G) R True False CachePolicyWriteBack"

definition cached_Get :: "'d gorm_DB \<Rightarrow> 'r RedisClient \<Rightarrow> string \<Rightarrow> 'd \<times> 'r \<Rightarrow> ('d \<times> 'r) \<times> (string + CommonClient)" where
  "cached_Get G R i w = rcs_Get (cachedStore G R) i w"

definition cached_GetAll :: "'d gorm_DB \<Rightarrow> 'r RedisClient \<Rightarrow> 'd \<times> 'r \<Rightarrow> (string + CommonClient list) go" where
  "cached_GetAll G R w = Panic"

definition cached_Create :: "'d gorm_DB \<Rightarrow> 'r RedisClient \<Rightarrow> CommonClient \<Rightarrow> ('d, 'r) store_action" where
  "cached_Create G R c w = rcs_Create (cachedStore G R) (r_id (c_role c)) c w"

definition cached_Update :: "'d gorm_DB \<Rightarrow> 'r RedisClient \<Rightarrow> CommonClient \<Rightarrow> ('d, 'r) store_action" where
  "cached_Update G R c w = rcs_Update (cachedStore G R) (r_id (c_role c)) c w"

definition cached_Has :: "'d gorm_DB \<Rightarrow> 'r RedisClient \<Rightarrow> string \<Rightarrow> 'd \<times> 'r \<Rightarrow> ('d \<times> 'r) \<times> bool \<times> string option" where
  "cached_Has G R i w =
     (let (w', res) = cached_Get G R i w in (w', case res of Inl e \<Rightarrow> (False, Some e) | Inr c \<Rightarrow> (True, None)))"

definition cached_Delete :: "'d gorm_DB \<Rightarrow> 'r RedisClient \<Rightarrow> string \<Rightarrow> 'd \<times> 'r \<Rightarrow> (('d \<times> 'r) \<times> string option) option" where
  "cached_Delete G R i w = rcs_Delete (cachedStore G R) i w"

definition cached_Find :: "'d gorm_DB \<Rightarrow> 'r RedisClient \<Rightarrow> DClientQuery \<Rightarrow> 'd \<times> 'r \<Rightarrow> (string + CommonClient list) go" where
  "cached_Find G R q w = Panic"

section \<open>What the program relies on\<close>

text \<open>A Redis server that answers: \<open>hash\<close> gives the fields of a key, and \<open>HMSET\<close> overwrites the given ones.\<close>

definition redis_laws :: "'r RedisClient \<Rightarrow> ('r \<Rightarrow> string \<Rightarrow> string \<Rightarrow> string option) \<Rightarrow> bool" where
  "redis_laws R hash \<longleftrightarrow>
     (\<forall>i f r. rc_HExists R i f r = Inr (hash r i f \<noteq> None)) \<and>
     (\<forall>i r. \<exists>m. rc_HGetAll R i r = Inr m \<and> map_of m = hash r i) \<and>
     (\<forall>i m r. \<exists>r'. rc_HMSet R i m r = (r', None) \<and> hash r' = (hash r)(i := hash r i ++ map_of m))"

text \<open>
  The object mapper on a table with \<open>id\<close> as its key: \<open>Updates\<close> writes the fields of the given record that are not zero and
  is no error when there is no such row, and neither is deleting a row that is not there.
\<close>

definition merge_row :: "DClient \<Rightarrow> DClient \<Rightarrow> CommonClient" where
  "merge_row x y = NewClient (dc_ID y)
     (if dc_Description x = [] then dc_Description y else dc_Description x)
     (if dc_CType x = 0 then dc_CType y else dc_CType x)
     (if dc_CKey x = [] then dc_CKey y else dc_CKey x)
     (if dc_PScope x = 0 then dc_PScope y else dc_PScope x)"

definition gorm_laws :: "'d gorm_DB \<Rightarrow> ('d \<Rightarrow> string \<Rightarrow> DClient option) \<Rightarrow> bool" where
  "gorm_laws G tab \<longleftrightarrow>
     (\<forall>i d. i \<noteq> [] \<longrightarrow> (case tab d i of None \<Rightarrow> \<exists>e. db_First G i d = Inl e | Some x \<Rightarrow> db_First G i d = Inr x)) \<and>
     (\<forall>x d. dc_ID x \<noteq> [] \<longrightarrow> (case tab d (dc_ID x) of
        None \<Rightarrow> \<exists>d' y. db_Create G x d = (d', None) \<and> tab d' = (tab d)(dc_ID x \<mapsto> y) \<and> toClient y = toClient x
      | Some _ \<Rightarrow> \<exists>e. db_Create G x d = (d, Some e))) \<and>
     (\<forall>x d. dc_ID x \<noteq> [] \<longrightarrow> (case tab d (dc_ID x) of
        None \<Rightarrow> db_Updates G x d = (d, None)
      | Some y \<Rightarrow> \<exists>d' z. db_Updates G x d = (d', None) \<and> tab d' = (tab d)(dc_ID x \<mapsto> z) \<and> toClient z = merge_row x y)) \<and>
     (\<forall>i d. i \<noteq> [] \<longrightarrow> (\<exists>d'. db_Delete G i d = (d', None) \<and> tab d' = (tab d)(i := None)))"

text \<open>Every row is filed under its id and has numbers of 64 bits, and every marked entry of the cache is the entry of its row.\<close>

definition coherent :: "('d \<Rightarrow> string \<Rightarrow> DClient option) \<Rightarrow> ('r \<Rightarrow> string \<Rightarrow> string \<Rightarrow> string option) \<Rightarrow> 'd \<times> 'r \<Rightarrow> bool" where
  "coherent tab hash w \<longleftrightarrow>
     (\<forall>i x. tab (fst w) i = Some x \<longrightarrow> dc_ID x = i \<and> in_int64 (dc_CType x) \<and> in_int64 (dc_PScope x)) \<and>
     (\<forall>i m. hash (snd w) i CacheMark \<noteq> None \<longrightarrow> map_of m = hash (snd w) i \<longrightarrow>
        (\<exists>x. tab (fst w) i = Some x \<and> client_ToEntityType m = Inr (toClient x)))"

lemma coherentD:
  assumes "coherent tab hash (d, r)"
  shows "tab d i = Some x \<Longrightarrow> dc_ID x = i \<and> in_int64 (dc_CType x) \<and> in_int64 (dc_PScope x)"
    and "hash r i CacheMark \<noteq> None \<Longrightarrow> map_of m = hash r i \<Longrightarrow> \<exists>x. tab d i = Some x \<and> client_ToEntityType m = Inr (toClient x)"
  using assms unfolding coherent_def fst_conv snd_conv by blast+

text \<open>The client as the store keeps it.\<close>

definition stored :: "CommonClient \<Rightarrow> CommonClient" where
  "stored c = toClient (clientToDClient c)"

lemma stored_toClient [simp]: "stored (toClient x) = toClient x"
  by (simp add: stored_def toClient_def clientToDClient_def NewClient_def NewCommonRole_def)

lemma toClient_simps [simp]:
  "r_id (c_role (toClient x)) = dc_ID x" "cType (toClient x) = dc_CType x" "pScope (toClient x) = dc_PScope x"
  by (simp_all add: toClient_def NewClient_def NewCommonRole_def)

definition cache_entry :: "CommonClient \<Rightarrow> hash" where
  "cache_entry c = AList.update CacheMark ''1'' (projr (client_ToHashMap c))"

lemma cached_ToHashMap: "rcs_ToHashMap (cachedStore G R) c = Inr (cache_entry c)"
  by (simp add: rcs_ToHashMap_def cachedStore_def NewRedisCachedStore_def MySqlStoreCacheAdaptor_def cache_entry_def
      client_ToHashMap_def)

lemma cachedStore_simps [simp]:
  "rs_store (cachedStore G R) = MySqlStoreCacheAdaptor G" "rs_cache (cachedStore G R) = R" "rs_cacheOnCreate (cachedStore G R)"
  "\<not> rs_skipErrOnCacheFailure (cachedStore G R)" "rs_writePolicy (cachedStore G R) = 2"
  by (simp_all add: cachedStore_def NewRedisCachedStore_def)

text \<open>Writing an entry and reading it back.\<close>

lemma entry_roundtrip:
  assumes "map_of m = h ++ map_of (cache_entry c)" and "in_int64 (cType c)" and "in_int64 (pScope c)"
  shows "client_ToEntityType m = Inr (stored c)"
proof -
  have "hash_field m k = hash_field (cache_entry c) k" if "k \<in> {''id'', ''description'', ''cKey'', ''cType'', ''pScope''}" for k
    using that by (auto simp: hash_field_def assms(1) cache_entry_def client_ToHashMap_def CacheMark_def)
  then show ?thesis
    using assms(2,3)
    by (simp add: client_ToEntityType_def cache_entry_def client_ToHashMap_def hash_field_def CacheMark_def Atoi_sprintf Let_def
        stored_def toClient_def clientToDClient_def)
qed

lemma entry_marked: "(h ++ map_of (cache_entry c)) CacheMark \<noteq> None"
  by (simp add: cache_entry_def client_ToHashMap_def CacheMark_def map_add_def)

lemma redis_check:
  assumes "redis_laws R hash"
  shows "hash r i CacheMark = None \<Longrightarrow> checkAndGet (cachedStore G R) i r = Inl ErrNotFoundStr"
    and "hash r i CacheMark \<noteq> None \<Longrightarrow> \<exists>m. checkAndGet (cachedStore G R) i r = Inr m \<and> map_of m = hash r i"
proof -
  have "rc_HExists R i CacheMark r = Inr (hash r i CacheMark \<noteq> None)" using assms by (simp add: redis_laws_def)
  moreover obtain m where "rc_HGetAll R i r = Inr m" "map_of m = hash r i" using assms unfolding redis_laws_def by blast
  ultimately show "hash r i CacheMark = None \<Longrightarrow> checkAndGet (cachedStore G R) i r = Inl ErrNotFoundStr"
    and "hash r i CacheMark \<noteq> None \<Longrightarrow> \<exists>m. checkAndGet (cachedStore G R) i r = Inr m \<and> map_of m = hash r i"
    by (simp_all add: checkAndGet_def redis_HExists_def redis_HGet_def)
qed

lemma redis_set:
  assumes "redis_laws R hash"
  obtains r' where "redis_HSet R i m r = (r', None)" "hash r' = (hash r)(i := hash r i ++ map_of m)"
  using assms unfolding redis_laws_def redis_HSet_def by blast

text \<open>The cache stays coherent when the row of an entry and the entry are written together.\<close>

lemma coherent_write:
  assumes "coherent tab hash (d, r)" and "tab d' = (tab d)(i \<mapsto> x)" and "toClient x = stored c" and "r_id (c_role c) = i"
    and "in_int64 (cType c)" and "in_int64 (pScope c)" and "hash r' = (hash r)(i := hash r i ++ map_of (cache_entry c))"
  shows "coherent tab hash (d', r')"
proof -
  have x: "dc_ID x = i" "dc_CType x = cType c" "dc_PScope x = pScope c"
    using assms(3,4) by (simp_all add: stored_def toClient_def clientToDClient_def NewClient_def NewCommonRole_def)
  have rows: "dc_ID y = j \<and> in_int64 (dc_CType y) \<and> in_int64 (dc_PScope y)" if "tab d' j = Some y" for j y
    using that assms(1,5,6) x by (auto simp: assms(2) coherent_def split: if_splits)
  have "\<exists>y. tab d' j = Some y \<and> client_ToEntityType m = Inr (toClient y)"
    if "hash r' j CacheMark \<noteq> None" "map_of m = hash r' j" for j m
  proof (cases "j = i")
    case True
    then show ?thesis using entry_roundtrip [OF _ assms(5,6), of m "hash r i"] that assms(2,3,7) by simp
  next
    case False
    then show ?thesis using that assms(1) by (auto simp: assms(2,7) coherent_def)
  qed
  then show ?thesis using rows by (simp add: coherent_def)
qed

lemma gorm_create:
  assumes "gorm_laws G tab" and "dc_ID x \<noteq> []"
  shows "case tab d (dc_ID x) of
      None \<Rightarrow> \<exists>d' y. db_Create G x d = (d', None) \<and> tab d' = (tab d)(dc_ID x \<mapsto> y) \<and> toClient y = toClient x
    | Some _ \<Rightarrow> \<exists>e. db_Create G x d = (d, Some e)"
  using assms unfolding gorm_laws_def by blast

lemma gorm_update:
  assumes "gorm_laws G tab" and "dc_ID x \<noteq> []"
  shows "case tab d (dc_ID x) of
      None \<Rightarrow> db_Updates G x d = (d, None)
    | Some y \<Rightarrow> \<exists>d' z. db_Updates G x d = (d', None) \<and> tab d' = (tab d)(dc_ID x \<mapsto> z) \<and> toClient z = merge_row x y"
  using assms unfolding gorm_laws_def by blast

lemma sql_Get_row:
  assumes "gorm_laws G tab" and "i \<noteq> []"
  shows "tab d i = Some x \<Longrightarrow> sql_Get G i d = Inr (toClient x)" and "tab d i = None \<Longrightarrow> \<exists>e. sql_Get G i d = Inl e"
proof -
  have "case tab d i of None \<Rightarrow> \<exists>e. db_First G i d = Inl e | Some x \<Rightarrow> db_First G i d = Inr x"
    using assms unfolding gorm_laws_def by blast
  then show "tab d i = Some x \<Longrightarrow> sql_Get G i d = Inr (toClient x)" and "tab d i = None \<Longrightarrow> \<exists>e. sql_Get G i d = Inl e"
    by (auto simp: sql_Get_def)
qed

text \<open>A hit, and a miss that fills the cache.\<close>

lemma cached_Get_hit:
  assumes "redis_laws R hash" and "hash r i CacheMark \<noteq> None"
  shows "\<exists>m. map_of m = hash r i \<and> cached_Get G R i (d, r) = ((d, r), client_ToEntityType m)"
  using redis_check(2) [OF assms, of G] by (auto simp: cached_Get_def rcs_Get_def MySqlStoreCacheAdaptor_def)

lemma cached_Get_miss:
  assumes "redis_laws R hash" and "hash r i CacheMark = None"
  shows "sql_Get G i d = Inl e \<Longrightarrow> cached_Get G R i (d, r) = ((d, r), Inl e)"
    and "sql_Get G i d = Inr c \<Longrightarrow> \<exists>r'. cached_Get G R i (d, r) = ((d, r'), Inr c) \<and>
      hash r' = (hash r)(i := hash r i ++ map_of (cache_entry c))"
proof -
  note miss = redis_check(1) [OF assms, of G]
  show "sql_Get G i d = Inl e \<Longrightarrow> cached_Get G R i (d, r) = ((d, r), Inl e)"
    by (simp add: cached_Get_def rcs_Get_def miss MySqlStoreCacheAdaptor_def)
  assume get: "sql_Get G i d = Inr c"
  obtain r' where "redis_HSet R i (cache_entry c) r = (r', None)" "hash r' = (hash r)(i := hash r i ++ map_of (cache_entry c))"
    using redis_set [OF assms(1)] .
  then show "\<exists>r'. cached_Get G R i (d, r) = ((d, r'), Inr c) \<and> hash r' = (hash r)(i := hash r i ++ map_of (cache_entry c))"
    using get by (simp add: cached_Get_def rcs_Get_def miss MySqlStoreCacheAdaptor_def cached_ToHashMap Let_def)
qed

text \<open>What creating and updating do to the two stores.\<close>

lemma dc_simps [simp]:
  "dc_ID (clientToDClient c) = r_id (c_role c)" "dc_CType (clientToDClient c) = cType c"
  "dc_PScope (clientToDClient c) = pScope c" "dc_CKey (clientToDClient c) = cKey c"
  "dc_Description (clientToDClient c) = r_description (c_role c)"
  by (simp_all add: clientToDClient_def)

lemma cached_Create_cases:
  assumes "redis_laws R hash" and "gorm_laws G tab" and "r_id (c_role c) \<noteq> []"
  shows "tab d (r_id (c_role c)) \<noteq> None \<Longrightarrow> \<exists>e. cached_Create G R c (d, r) = ((d, r), Some e)"
    and "tab d (r_id (c_role c)) = None \<Longrightarrow> \<exists>d' r' x. cached_Create G R c (d, r) = ((d', r'), None) \<and>
      tab d' = (tab d)(r_id (c_role c) \<mapsto> x) \<and> toClient x = stored c \<and>
      hash r' = (hash r)(r_id (c_role c) := hash r (r_id (c_role c)) ++ map_of (cache_entry c))"
proof -
  let ?i = "r_id (c_role c)"
  have law: "case tab d ?i of
      None \<Rightarrow> \<exists>d' y. sql_Create G c d = (d', None) \<and> tab d' = (tab d)(?i \<mapsto> y) \<and> toClient y = stored c
    | Some _ \<Rightarrow> \<exists>e. sql_Create G c d = (d, Some e)"
    using gorm_create [OF assms(2), of "clientToDClient c" d] assms(3)
    by (simp add: sql_Create_def stored_def split: option.splits)
  show "tab d ?i \<noteq> None \<Longrightarrow> \<exists>e. cached_Create G R c (d, r) = ((d, r), Some e)"
    using law by (auto simp: cached_Create_def rcs_Create_def on_store_def MySqlStoreCacheAdaptor_def)
  assume "tab d ?i = None"
  then obtain d' y where d': "sql_Create G c d = (d', None)" "tab d' = (tab d)(?i \<mapsto> y)" "toClient y = stored c"
    using law by auto
  obtain r' where "redis_HSet R ?i (cache_entry c) r = (r', None)" "hash r' = (hash r)(?i := hash r ?i ++ map_of (cache_entry c))"
    using redis_set [OF assms(1)] .
  then show "\<exists>d' r' x. cached_Create G R c (d, r) = ((d', r'), None) \<and> tab d' = (tab d)(?i \<mapsto> x) \<and> toClient x = stored c \<and>
      hash r' = (hash r)(?i := hash r ?i ++ map_of (cache_entry c))"
    using d' by (auto simp: cached_Create_def rcs_Create_def on_store_def on_cache_def cached_ToHashMap MySqlStoreCacheAdaptor_def)
qed

lemma cached_Update_cases:
  assumes "redis_laws R hash" and "gorm_laws G tab" and "r_id (c_role c) \<noteq> []"
  shows "tab d (r_id (c_role c)) = None \<Longrightarrow> \<exists>r'. cached_Update G R c (d, r) = ((d, r'), None) \<and>
      hash r' = (hash r)(r_id (c_role c) := hash r (r_id (c_role c)) ++ map_of (cache_entry c))"
    and "tab d (r_id (c_role c)) = Some y \<Longrightarrow> \<exists>d' r' x. cached_Update G R c (d, r) = ((d', r'), None) \<and>
      tab d' = (tab d)(r_id (c_role c) \<mapsto> x) \<and> toClient x = merge_row (clientToDClient c) y \<and>
      hash r' = (hash r)(r_id (c_role c) := hash r (r_id (c_role c)) ++ map_of (cache_entry c))"
proof -
  let ?i = "r_id (c_role c)"
  have law: "case tab d ?i of
      None \<Rightarrow> sql_Update G c d = (d, None)
    | Some y \<Rightarrow> \<exists>d' z. sql_Update G c d = (d', None) \<and> tab d' = (tab d)(?i \<mapsto> z) \<and> toClient z = merge_row (clientToDClient c) y"
    using gorm_update [OF assms(2), of "clientToDClient c" d] assms(3)
    by (simp add: sql_Update_def split: option.splits)
  obtain r' where r': "redis_HSet R ?i (cache_entry c) r = (r', None)" "hash r' = (hash r)(?i := hash r ?i ++ map_of (cache_entry c))"
    using redis_set [OF assms(1)] .
  have upd: "cached_Update G R c (d, r) = ((d', r'), None)" if "sql_Update G c d = (d', None)" for d'
    using that r'(1) by (simp add: cached_Update_def rcs_Update_def writeBackSet_def writeBackAction_def on_store_def on_cache_def
        cached_ToHashMap MySqlStoreCacheAdaptor_def Let_def)
  show "tab d ?i = None \<Longrightarrow> \<exists>r'. cached_Update G R c (d, r) = ((d, r'), None) \<and>
      hash r' = (hash r)(?i := hash r ?i ++ map_of (cache_entry c))"
    using law upd r'(2) by auto
  show "tab d ?i = Some y \<Longrightarrow> \<exists>d' r' x. cached_Update G R c (d, r) = ((d', r'), None) \<and>
      tab d' = (tab d)(?i \<mapsto> x) \<and> toClient x = merge_row (clientToDClient c) y \<and>
      hash r' = (hash r)(?i := hash r ?i ++ map_of (cache_entry c))"
    using law upd r'(2) by auto
qed

lemma cached_entry_is_read:
  assumes "redis_laws R hash" and "hash r i = h ++ map_of (cache_entry c)" and "in_int64 (cType c)" and "in_int64 (pScope c)"
  shows "cached_Get G R i (d, r) = ((d, r), Inr (stored c))"
proof -
  obtain m where "map_of m = hash r i" "cached_Get G R i (d, r) = ((d, r), client_ToEntityType m)"
    using cached_Get_hit [OF assms(1), of r i G d] entry_marked [of h c] assms(2) by auto
  then show ?thesis using entry_roundtrip [OF _ assms(3,4), of m h] assms(2) by simp
qed

text \<open>\<open>Delete\<close> returns only when some deletion in the database fails, and never with the write-through policy.\<close>

lemma rcs_Delete_returns:
  assumes "rcs_Delete s i w = Some res"
  shows "rs_writePolicy s \<noteq> CachePolicyWriteThrough \<and> (\<exists>d. snd (es_Delete (rs_store s) i d) \<noteq> None)"
proof (rule rcs_Delete.raw_induct [where P = "\<lambda>s i w res. rs_writePolicy s \<noteq> CachePolicyWriteThrough \<and>
    (\<exists>d. snd (es_Delete (rs_store s) i d) \<noteq> None)", OF _ assms])
  fix f :: "('a, 'b, 'c) RedisCachedStore \<Rightarrow> string \<Rightarrow> 'a \<times> 'b \<Rightarrow> (('a \<times> 'b) \<times> string option) option" and s i w res
  assume IH: "\<And>s i w res. f s i w = Some res \<Longrightarrow>
      rs_writePolicy s \<noteq> CachePolicyWriteThrough \<and> (\<exists>d. snd (es_Delete (rs_store s) i d) \<noteq> None)"
    and eq: "(if rs_writePolicy s = CachePolicyWriteThrough
      then Option.bind (f s i w) (\<lambda>(w', err).
        if safe_err err \<noteq> None then Some (w', safe_err err) else Some (on_store (es_Delete (rs_store s) i) w'))
      else (let (w', err) = on_store (es_Delete (rs_store s) i) w in
        if err \<noteq> None then Some (w', err)
        else Option.bind (f s i w') (\<lambda>(w'', err). Some (w'', safe_err err)))) = Some res"
  show "rs_writePolicy s \<noteq> CachePolicyWriteThrough \<and> (\<exists>d. snd (es_Delete (rs_store s) i d) \<noteq> None)"
  proof (cases "rs_writePolicy s = CachePolicyWriteThrough")
    case True
    then obtain r1 where "f s i w = Some r1" using eq by (auto simp: bind_eq_Some_conv)
    then show ?thesis using IH by blast
  next
    case False
    show ?thesis
    proof (cases "snd (es_Delete (rs_store s) i (fst w))")
      case None
      then obtain w' r1 where "f s i w' = Some r1"
        using eq False by (auto simp: bind_eq_Some_conv on_store_def case_prod_beta Let_def)
      then show ?thesis using IH by blast
    qed (use False in force)
  qed
qed

section \<open>Properties\<close>

text \<open>
  C23. On a coherent pair of database and cache, reading a client through the cache gives exactly what the database gives,
  the error for a missing client included, leaves the database alone and keeps the pair coherent, whether the entry was
  cached or not.
\<close>

theorem cached_reads_are_transparent:
  assumes "redis_laws R hash" and "gorm_laws G tab" and "coherent tab hash (d, r)" and "i \<noteq> []"
    and "cached_Get G R i (d, r) = (w, res)"
  shows "res = sql_Get G i d \<and> fst w = d \<and> coherent tab hash w"
proof (cases "hash r i CacheMark")
  case (Some v)
  then obtain m where m: "map_of m = hash r i" "cached_Get G R i (d, r) = ((d, r), client_ToEntityType m)"
    using cached_Get_hit [OF assms(1), of r i G d] by auto
  then obtain x where "tab d i = Some x" "client_ToEntityType m = Inr (toClient x)"
    using coherentD(2) [OF assms(3), of i m] Some by auto
  then show ?thesis using assms(3,5) m(2) sql_Get_row(1) [OF assms(2,4)] by auto
next
  case None
  show ?thesis
  proof (cases "tab d i")
    case row: None
    then obtain e where "sql_Get G i d = Inl e" using sql_Get_row(2) [OF assms(2,4)] by metis
    then show ?thesis using cached_Get_miss(1) [OF assms(1) None, of G d e] assms(3,5) by auto
  next
    case row: (Some x)
    obtain r' where r': "cached_Get G R i (d, r) = ((d, r'), Inr (toClient x))"
        "hash r' = (hash r)(i := hash r i ++ map_of (cache_entry (toClient x)))"
      using cached_Get_miss(2) [OF assms(1) None sql_Get_row(1) [OF assms(2,4) row]] by metis
    have x: "dc_ID x = i" "in_int64 (dc_CType x)" "in_int64 (dc_PScope x)" using coherentD(1) [OF assms(3) row] by blast+
    have "coherent tab hash (d, r')"
    proof (rule coherent_write [OF assms(3) _ _ _ _ _ r'(2)])
      show "tab d = (tab d)(i \<mapsto> x)" using row by (simp add: fun_upd_idem)
    qed (simp_all add: x)
    then show ?thesis using assms(5) r'(1) sql_Get_row(1) [OF assms(2,4) row] by auto
  qed
qed

text \<open>
  Creating a client through the cached store. A client whose id is free is stored in the database and in the cache, the
  pair stays coherent and the client is read back; for an id that is taken the call fails and changes nothing.
\<close>

theorem created_client_is_read_back:
  assumes "redis_laws R hash" and "gorm_laws G tab" and "coherent tab hash (d, r)" and "r_id (c_role c) \<noteq> []"
    and "in_int64 (cType c)" and "in_int64 (pScope c)" and "cached_Create G R c (d, r) = (w, err)"
  shows "if tab d (r_id (c_role c)) \<noteq> None then err \<noteq> None \<and> w = (d, r)
    else err = None \<and> coherent tab hash w \<and> sql_Get G (r_id (c_role c)) (fst w) = Inr (stored c) \<and>
      cached_Get G R (r_id (c_role c)) w = (w, Inr (stored c))"
proof (cases "tab d (r_id (c_role c))")
  case None
  obtain d' r' x where w: "w = (d', r')" "err = None" "tab d' = (tab d)(r_id (c_role c) \<mapsto> x)" "toClient x = stored c"
      "hash r' = (hash r)(r_id (c_role c) := hash r (r_id (c_role c)) ++ map_of (cache_entry c))"
    using cached_Create_cases(2) [OF assms(1,2,4) None, of r] assms(7) by auto
  have "coherent tab hash (d', r')" by (rule coherent_write [OF assms(3) w(3,4) _ assms(5,6) w(5)]) simp
  moreover have "sql_Get G (r_id (c_role c)) d' = Inr (stored c)"
    using sql_Get_row(1) [OF assms(2,4), of d' x] w(3,4) by simp
  moreover have "cached_Get G R (r_id (c_role c)) (d', r') = ((d', r'), Inr (stored c))"
    by (rule cached_entry_is_read [OF assms(1) _ assms(5,6)]) (simp add: w(5))
  ultimately show ?thesis using None w by simp
next
  case (Some y)
  then show ?thesis using cached_Create_cases(1) [OF assms(1,2,4), of d r] assms(7) by auto
qed

text \<open>
  Updating a client through the cached store. When no field of the new client is zero, database and cache agree on it
  afterwards. The database keeps its old value of a field that is zero: when the privileges of a client are withdrawn, the
  cache shows a client without privileges, while the database still has the old ones and they come back with the next
  cache miss.
\<close>

theorem update_drops_zero_fields:
  assumes "redis_laws R hash" and "gorm_laws G tab" and "coherent tab hash (d, r)" and "r_id (c_role c) \<noteq> []"
    and "in_int64 (cType c)" and "in_int64 (pScope c)" and "tab d (r_id (c_role c)) = Some y"
    and "cached_Update G R c (d, r) = (w, err)"
  shows "err = None \<and> cached_Get G R (r_id (c_role c)) w = (w, Inr (stored c)) \<and>
    sql_Get G (r_id (c_role c)) (fst w) = Inr (merge_row (clientToDClient c) y) \<and>
    (pScope c = 0 \<longrightarrow> pScope (merge_row (clientToDClient c) y) = dc_PScope y) \<and>
    (r_description (c_role c) \<noteq> [] \<and> cKey c \<noteq> [] \<and> cType c \<noteq> 0 \<and> pScope c \<noteq> 0 \<longrightarrow>
       merge_row (clientToDClient c) y = stored c \<and> coherent tab hash w)"
proof -
  obtain d' r' x where w: "w = (d', r')" "err = None" "tab d' = (tab d)(r_id (c_role c) \<mapsto> x)"
      "toClient x = merge_row (clientToDClient c) y"
      "hash r' = (hash r)(r_id (c_role c) := hash r (r_id (c_role c)) ++ map_of (cache_entry c))"
    using cached_Update_cases(2) [OF assms(1,2,4,7), of r] assms(8) by auto
  have y: "dc_ID y = r_id (c_role c)" using coherentD(1) [OF assms(3,7)] by simp
  have full: "merge_row (clientToDClient c) y = stored c"
    if "r_description (c_role c) \<noteq> []" "cKey c \<noteq> []" "cType c \<noteq> 0" "pScope c \<noteq> 0"
    using that y by (simp add: merge_row_def stored_def toClient_def)
  have "coherent tab hash (d', r')" if "merge_row (clientToDClient c) y = stored c"
    by (rule coherent_write [OF assms(3) w(3) _ _ assms(5,6) w(5)]) (simp_all add: w(4) that)
  moreover have "sql_Get G (r_id (c_role c)) d' = Inr (merge_row (clientToDClient c) y)"
    using sql_Get_row(1) [OF assms(2,4), of d' x] w(3,4) by simp
  moreover have "cached_Get G R (r_id (c_role c)) (d', r') = ((d', r'), Inr (stored c))"
    by (rule cached_entry_is_read [OF assms(1) _ assms(5,6)]) (simp add: w(5))
  moreover have "pScope c = 0 \<longrightarrow> pScope (merge_row (clientToDClient c) y) = dc_PScope y"
    by (simp add: merge_row_def NewClient_def)
  ultimately show ?thesis using w full by simp
qed

text \<open>
  Updating a client that does not exist is no error: the database stays as it is, but from then on the cached store
  answers with the client.
\<close>

theorem update_invents_missing_client:
  assumes "redis_laws R hash" and "gorm_laws G tab" and "r_id (c_role c) \<noteq> []" and "tab d (r_id (c_role c)) = None"
    and "in_int64 (cType c)" and "in_int64 (pScope c)" and "cached_Update G R c (d, r) = (w, err)"
  shows "err = None \<and> fst w = d \<and> (\<exists>e. sql_Get G (r_id (c_role c)) d = Inl e) \<and>
    cached_Get G R (r_id (c_role c)) w = (w, Inr (stored c)) \<and> \<not> coherent tab hash w"
proof -
  obtain r' where w: "w = (d, r')" "err = None"
      "hash r' = (hash r)(r_id (c_role c) := hash r (r_id (c_role c)) ++ map_of (cache_entry c))"
    using cached_Update_cases(1) [OF assms(1-4), of r] assms(7) by auto
  obtain m where "map_of m = hash r' (r_id (c_role c))" using redis_check(2) [OF assms(1), of r' "r_id (c_role c)"] entry_marked w(3)
    by (metis fun_upd_same)
  then have "\<not> coherent tab hash (d, r')"
    using coherentD(2) [of tab hash d r' "r_id (c_role c)" m] assms(4) entry_marked w(3) by auto
  moreover have "cached_Get G R (r_id (c_role c)) (d, r') = ((d, r'), Inr (stored c))"
    by (rule cached_entry_is_read [OF assms(1) _ assms(5,6)]) (simp add: w(3))
  ultimately show ?thesis using w sql_Get_row(2) [OF assms(2-4)] by simp
qed

text \<open>
  Deleting a client from the cached store never returns: \<open>Delete\<close> and \<open>cacheSafeDelete\<close> call each other, the database
  accepts every further deletion, and the stack of the process grows until it overflows. With the write-through policy
  this needs no assumption about the database.
\<close>

theorem cached_delete_never_returns:
  assumes "gorm_laws G tab" and "i \<noteq> []"
  shows "cached_Delete G R i w = None \<and> (rs_writePolicy s = CachePolicyWriteThrough \<longrightarrow> rcs_Delete s i w = None)"
proof -
  have "snd (db_Delete G i d) = None" for d
  proof -
    obtain d' where "db_Delete G i d = (d', None)" using assms unfolding gorm_laws_def by blast
    then show ?thesis by simp
  qed
  then have "rcs_Delete (cachedStore G R) i w \<noteq> Some res" for res
    using rcs_Delete_returns [of "cachedStore G R" i w res] by (auto simp: MySqlStoreCacheAdaptor_def sql_Delete_def)
  moreover have "rs_writePolicy s = CachePolicyWriteThrough \<Longrightarrow> rcs_Delete s i w \<noteq> Some res" for res
    using rcs_Delete_returns [of s i w res] by auto
  ultimately show ?thesis
    by (cases "rcs_Delete (cachedStore G R) i w"; cases "rcs_Delete s i w") (auto simp: cached_Delete_def)
qed

text \<open>
  A query for the clients created after a time has no clause for the time, and one for those created before a time
  asks for the clients created after the zero time.
\<close>

theorem one_sided_queries_are_wrong:
  "buildQueryTx fmt_time (CreatedAfter t Query) = ([], Some 0) \<and>
   (t \<noteq> 0 \<longrightarrow> buildQueryTx fmt_time (CreatedBefore t Query) = ([''created_at > ?'', fmt_time 0], Some 0))"
  by (simp add: buildQueryTx_def CreatedAfter_def CreatedBefore_def Query_def)

section \<open>Witnesses\<close>

text \<open>A Redis server and a database in memory.\<close>

definition sample_hash :: "(string \<times> hash) list \<Rightarrow> string \<Rightarrow> string \<Rightarrow> string option" where
  "sample_hash r i = (case map_of r i of None \<Rightarrow> Map.empty | Some m \<Rightarrow> map_of m)"

definition sample_redis :: "(string \<times> hash) list RedisClient" where
  "sample_redis =
     \<lparr>rc_HExists = (\<lambda>i f r. Inr (sample_hash r i f \<noteq> None)),
      rc_HGetAll = (\<lambda>i r. Inr (case map_of r i of None \<Rightarrow> [] | Some m \<Rightarrow> m)),
      rc_HMSet = (\<lambda>i m r. (AList.update i (m @ (case map_of r i of None \<Rightarrow> [] | Some m \<Rightarrow> m)) r, None))\<rparr>"

definition sample_merge :: "DClient \<Rightarrow> DClient \<Rightarrow> DClient" where
  "sample_merge x y =
     y\<lparr>dc_Description := (if dc_Description x = [] then dc_Description y else dc_Description x),
       dc_CType := (if dc_CType x = 0 then dc_CType y else dc_CType x),
       dc_CKey := (if dc_CKey x = [] then dc_CKey y else dc_CKey x),
       dc_PScope := (if dc_PScope x = 0 then dc_PScope y else dc_PScope x)\<rparr>"

definition sample_gorm :: "(string \<times> DClient) list gorm_DB" where
  "sample_gorm =
     \<lparr>db_First = (\<lambda>i d. case map_of d i of None \<Rightarrow> Inl ''record not found'' | Some x \<Rightarrow> Inr x),
      db_Create = (\<lambda>x d. if map_of d (dc_ID x) = None then (AList.update (dc_ID x) x d, None) else (d, Some ''duplicate'')),
      db_Updates = (\<lambda>x d. case map_of d (dc_ID x) of None \<Rightarrow> (d, None)
        | Some y \<Rightarrow> (AList.update (dc_ID x) (sample_merge x y) d, None)),
      db_Delete = (\<lambda>i d. (AList.delete i d, None)),
      db_Find = (\<lambda>_ _ d. Inr (map snd d))\<rparr>"

lemma sample_redis_laws: "redis_laws sample_redis sample_hash"
  by (auto simp: redis_laws_def sample_redis_def sample_hash_def fun_eq_iff update_conv' split: option.splits)

lemma sample_gorm_laws: "gorm_laws sample_gorm map_of"
  by (auto simp: gorm_laws_def sample_gorm_def update_conv' delete_conv' toClient_def merge_row_def sample_merge_def
      split: option.splits)

lemma sample_coherent: "coherent map_of sample_hash ([], [])"
  by (simp add: coherent_def sample_hash_def)

definition sample_alice :: "int \<Rightarrow> CommonClient" where
  "sample_alice scope = NewClient ''alice'' ''a'' 1 ''pw'' scope"

lemma sample_alice_simps [simp]:
  "r_id (c_role (sample_alice n)) = ''alice''" "cType (sample_alice n) = 1" "pScope (sample_alice n) = n"
  "stored (sample_alice n) = sample_alice n"
  by (simp_all add: sample_alice_def NewClient_def NewCommonRole_def stored_def toClient_def)

definition sample_pair :: "(string \<times> DClient) list \<times> (string \<times> hash) list" where
  "sample_pair = fst (cached_Create sample_gorm sample_redis (sample_alice 5) ([], []))"

lemma sample_int64: "in_int64 0" "in_int64 1" "in_int64 5"
  by (simp_all add: in_int64_def)

lemma sample_pair_created: "cached_Create sample_gorm sample_redis (sample_alice 5) ([], []) = (sample_pair, None)"
  and sample_pair_coherent: "coherent map_of sample_hash sample_pair"
  and sample_pair_row: "\<exists>x. map_of (fst sample_pair) ''alice'' = Some x \<and> toClient x = sample_alice 5"
proof -
  obtain d' r' x where new: "cached_Create sample_gorm sample_redis (sample_alice 5) ([], []) = ((d', r'), None)"
      "map_of d' = (map_of [])(''alice'' \<mapsto> x)" "toClient x = stored (sample_alice 5)"
      "sample_hash r' = (sample_hash [])(''alice'' := sample_hash [] ''alice'' ++ map_of (cache_entry (sample_alice 5)))"
    using cached_Create_cases(2) [OF sample_redis_laws sample_gorm_laws, of "sample_alice 5" "[]" "[]"]
    unfolding sample_alice_simps(1) map_of.simps(1) by blast
  have pair: "sample_pair = (d', r')" by (simp add: sample_pair_def new(1))
  show "cached_Create sample_gorm sample_redis (sample_alice 5) ([], []) = (sample_pair, None)" by (simp add: pair new(1))
  show "\<exists>x. map_of (fst sample_pair) ''alice'' = Some x \<and> toClient x = sample_alice 5" by (simp add: pair new(2,3))
  show "coherent map_of sample_hash sample_pair"
    unfolding pair
  proof (rule coherent_write [where tab = map_of and hash = sample_hash and d = "[]" and r = "[]" and i = "''alice''"])
    show "r_id (c_role (sample_alice 5)) = ''alice''" "in_int64 (cType (sample_alice 5))" "in_int64 (pScope (sample_alice 5))"
      by (simp_all only: sample_alice_simps sample_int64)
  qed (fact sample_coherent new)+
qed

theorem cached_reads_are_transparent_witness:
  "snd (cached_Get sample_gorm sample_redis ''alice'' sample_pair) = Inr (sample_alice 5)"
proof -
  have "sql_Get sample_gorm ''alice'' (fst sample_pair) = Inr (sample_alice 5)"
    using sample_pair_row sql_Get_row(1) [OF sample_gorm_laws, of "''alice''" "fst sample_pair"] by fastforce
  moreover obtain w res where "cached_Get sample_gorm sample_redis ''alice'' sample_pair = (w, res)"
    by (cases "cached_Get sample_gorm sample_redis ''alice'' sample_pair")
  ultimately show ?thesis
    using cached_reads_are_transparent [OF sample_redis_laws sample_gorm_laws, of "fst sample_pair" "snd sample_pair" "''alice''" w res]
      sample_pair_coherent by simp
qed

theorem created_client_is_read_back_witness:
  "cached_Get sample_gorm sample_redis ''alice'' sample_pair = (sample_pair, Inr (sample_alice 5))"
  using created_client_is_read_back [OF sample_redis_laws sample_gorm_laws sample_coherent, of "sample_alice 5" sample_pair None]
    sample_pair_created by (simp add: sample_int64)

theorem update_drops_zero_fields_witness:
  "\<exists>w. cached_Update sample_gorm sample_redis (sample_alice 0) sample_pair = (w, None) \<and>
     cached_Get sample_gorm sample_redis ''alice'' w = (w, Inr (sample_alice 0)) \<and>
     sql_Get sample_gorm ''alice'' (fst w) = Inr (sample_alice 5)"
proof -
  obtain w err where u: "cached_Update sample_gorm sample_redis (sample_alice 0) sample_pair = (w, err)"
    by (cases "cached_Update sample_gorm sample_redis (sample_alice 0) sample_pair")
  obtain y where y: "map_of (fst sample_pair) ''alice'' = Some y" "toClient y = sample_alice 5" using sample_pair_row by blast
  then have "merge_row (clientToDClient (sample_alice 0)) y = sample_alice 5"
    by (simp add: merge_row_def sample_alice_def toClient_def NewClient_def NewCommonRole_def)
  then show ?thesis
    using update_drops_zero_fields [OF sample_redis_laws sample_gorm_laws, of "fst sample_pair" "snd sample_pair" "sample_alice 0"
      y w err] sample_pair_coherent y(1) u by (simp add: sample_int64)
qed

theorem update_invents_missing_client_witness:
  "\<exists>w. cached_Update sample_gorm sample_redis (sample_alice 0) ([], []) = (w, None) \<and> fst w = [] \<and>
     cached_Get sample_gorm sample_redis ''alice'' w = (w, Inr (sample_alice 0))"
proof -
  obtain w err where u: "cached_Update sample_gorm sample_redis (sample_alice 0) ([], []) = (w, err)"
    by (cases "cached_Update sample_gorm sample_redis (sample_alice 0) ([], [])")
  then show ?thesis
    using update_invents_missing_client [OF sample_redis_laws sample_gorm_laws, of "sample_alice 0" "[]" "[]" w err]
    by (simp add: sample_int64)
qed

theorem cached_delete_never_returns_witness:
  "cached_Delete sample_gorm sample_redis ''alice'' sample_pair = None"
  using cached_delete_never_returns [OF sample_gorm_laws, of "''alice''" sample_redis sample_pair
    "cachedStore sample_gorm sample_redis"] by simp

theorem one_sided_queries_are_wrong_witness:
  "buildQueryTx (\<lambda>_. ''0000'') (CreatedBefore 7 Query) = ([''created_at > ?'', ''0000''], Some 0)"
  using one_sided_queries_are_wrong [of "\<lambda>_. ''0000''" 7] by simp

end
