(* ===== verification/ServerStatus.thy ===== *)
theory ServerStatus
  imports Prelude
begin

text \<open>
  Observable values, \<open>src/common/observable/observable.go\<close>, and the status module that publishes the statistics of the server
  through one, \<open>src/hub_server/modules/status/StatusModule.go\<close>.

  An observer is a number, and \<open>react\<close> says what it does with a value to the state outside of the observable; observers of this
  part do not call the observable back. The map of observers is the list of its entries in the order in which \<open>range\<close> visits
  them, and the id of an observer, the address of its closure, is the number of the registration. A lock that is taken
  twice by the same goroutine blocks: the result is then \<open>None\<close>. What the module reads from the runtime and from the two
  pools is the parameter \<open>reading\<close>, indexed by the number of the reading.
\<close>

section \<open>Observable\<close>

record ('v, 'o) Observable =
  ob_value :: 'v
  observerMap :: "(nat \<times> 'o \<times> bool) list"
  ob_next :: nat

definition NewObservableWith :: "'v \<Rightarrow> ('v, 'o) Observable" where
  "NewObservableWith v = \<lparr>ob_value = v, observerMap = [], ob_next = 0\<rparr>"

definition deleteIfExist :: "nat \<Rightarrow> ('v, 'o) Observable \<Rightarrow> ('v, 'o) Observable" where
  "deleteIfExist i o1 =
     (if map_of (observerMap o1) i \<noteq> None then o1\<lparr>observerMap := AList.delete i (observerMap o1)\<rparr> else o1)"

definition ob_Get :: "('v, 'o) Observable \<Rightarrow> 'v" where
  "ob_Get o1 = ob_value o1"

text \<open>The flag of an entry marks an observer of \<open>Once\<close>, which removes itself after the call.\<close>

fun notify_observers :: "('o \<Rightarrow> 'v \<Rightarrow> 's \<Rightarrow> 's) \<Rightarrow> 'v \<Rightarrow> (nat \<times> 'o \<times> bool) list \<Rightarrow> ('v, 'o) Observable \<times> 's \<Rightarrow>
    ('v, 'o) Observable \<times> 's" where
  "notify_observers react v [] x = x"
| "notify_observers react v ((i, f, once) # obs) (o1, s) =
     notify_observers react v obs (if once then deleteIfExist i o1 else o1, react f v s)"

definition ob_Set :: "('o \<Rightarrow> 'v \<Rightarrow> 's \<Rightarrow> 's) \<Rightarrow> 'v \<Rightarrow> ('v, 'o) Observable \<times> 's \<Rightarrow> ('v, 'o) Observable \<times> 's" where
  "ob_Set react v x = (case x of (o1, s) \<Rightarrow> notify_observers react v (observerMap o1) (o1\<lparr>ob_value := v\<rparr>, s))"

text \<open>\<open>On\<close> and \<open>Once\<close> return the id that the disposer deletes.\<close>

definition ob_register :: "bool \<Rightarrow> 'o \<Rightarrow> ('v, 'o) Observable \<Rightarrow> ('v, 'o) Observable \<times> nat" where
  "ob_register once f o1 =
     (o1\<lparr>observerMap := AList.update (ob_next o1) (f, once) (observerMap o1), ob_next := Suc (ob_next o1)\<rparr>, ob_next o1)"

definition ob_On :: "'o \<Rightarrow> ('v, 'o) Observable \<Rightarrow> ('v, 'o) Observable \<times> nat" where
  "ob_On f o1 = ob_register False f o1"

definition ob_Once :: "'o \<Rightarrow> ('v, 'o) Observable \<Rightarrow> ('v, 'o) Observable \<times> nat" where
  "ob_Once f o1 = ob_register True f o1"

definition ob_Off :: "nat \<Rightarrow> ('v, 'o) Observable \<Rightarrow> ('v, 'o) Observable \<times> bool" where
  "ob_Off i o1 = (if map_of (observerMap o1) i = None then (o1, False) else (deleteIfExist i o1, True))"

definition ob_Dispose :: "('v, 'o) Observable \<Rightarrow> ('v, 'o) Observable" where
  "ob_Dispose o1 = o1\<lparr>observerMap := []\<rparr>"

section \<open>SafeObservable\<close>

datatype rw_lock = Free | ReadHeld | WriteHeld

text \<open>\<open>Lock\<close> and \<open>RLock\<close> by the goroutine that already holds the lock in the given mode.\<close>

definition rw_Lock :: "rw_lock \<Rightarrow> rw_lock option" where
  "rw_Lock l = (if l = Free then Some WriteHeld else None)"

definition rw_RLock :: "rw_lock \<Rightarrow> rw_lock option" where
  "rw_RLock l = (if l = WriteHeld then None else Some ReadHeld)"

definition safe_On :: "rw_lock \<Rightarrow> 'o \<Rightarrow> ('v, 'o) Observable \<Rightarrow> (('v, 'o) Observable \<times> nat) option" where
  "safe_On l f o1 = Option.bind (rw_Lock l) (\<lambda>_. Some (ob_On f o1))"

text \<open>\<open>Once\<close> calls \<open>On\<close> of the safe observable while it holds the lock.\<close>

definition safe_Once :: "rw_lock \<Rightarrow> 'o \<Rightarrow> ('v, 'o) Observable \<Rightarrow> (('v, 'o) Observable \<times> nat) option" where
  "safe_Once l f o1 = Option.bind (rw_Lock l) (\<lambda>l'. safe_On l' f o1)"

definition safe_Get :: "rw_lock \<Rightarrow> ('v, 'o) Observable \<Rightarrow> 'v option" where
  "safe_Get l o1 = Option.bind (rw_RLock l) (\<lambda>_. Some (ob_Get o1))"

definition safe_Set :: "rw_lock \<Rightarrow> ('o \<Rightarrow> 'v \<Rightarrow> 's \<Rightarrow> 's) \<Rightarrow> 'v \<Rightarrow> ('v, 'o) Observable \<times> 's \<Rightarrow> (('v, 'o) Observable \<times> 's) option" where
  "safe_Set l react v x = Option.bind (rw_Lock l) (\<lambda>_. Option.bind (rw_RLock Free) (\<lambda>_. Some (ob_Set react v x)))"

definition safe_Off :: "rw_lock \<Rightarrow> nat \<Rightarrow> ('v, 'o) Observable \<Rightarrow> (('v, 'o) Observable \<times> bool) option" where
  "safe_Off l i o1 = Option.bind (rw_Lock l) (\<lambda>_. Some (ob_Off i o1))"

definition safe_Dispose :: "rw_lock \<Rightarrow> ('v, 'o) Observable \<Rightarrow> ('v, 'o) Observable option" where
  "safe_Dispose l o1 = Option.bind (rw_Lock l) (\<lambda>_. Some (ob_Dispose o1))"

section \<open>StatusModule.go\<close>

record SystemStat =
  NumCpus :: int
  NumGoroutines :: int
  Alloc :: nat
  TotalAlloc :: nat
  SysAlloc :: nat
  NumGC :: nat

record AsyncWorkerPoolStat =
  aw_Status :: string
  aw_NumMaxWorkers :: int
  aw_NumPendingTasks :: int
  aw_NumBusyWorkers :: int
  aw_NumStartedWorkers :: int

record ServerStat =
  ss_SystemStat :: SystemStat
  ss_AsyncPoolStat :: AsyncWorkerPoolStat
  ss_ServicePoolStat :: AsyncWorkerPoolStat

record runtime_reading =
  rr_time :: int
  rr_cpus :: int
  rr_goroutines :: int
  rr_Alloc :: nat
  rr_TotalAlloc :: nat
  rr_Sys :: nat
  rr_NumGC :: nat
  rr_asyncPool :: AsyncWorkerPoolStat
  rr_servicePool :: AsyncWorkerPoolStat

definition readSystemStat :: "runtime_reading \<Rightarrow> SystemStat" where
  "readSystemStat x =
     \<lparr>NumCpus = rr_cpus x, NumGoroutines = rr_goroutines x, Alloc = rr_Alloc x div 1024, TotalAlloc = rr_TotalAlloc x div 1024,
      SysAlloc = rr_Sys x div 1024, NumGC = rr_NumGC x\<rparr>"

definition readAsyncPoolStat :: "AsyncWorkerPoolStat \<Rightarrow> AsyncWorkerPoolStat" where
  "readAsyncPoolStat p =
     \<lparr>aw_Status = aw_Status p, aw_NumMaxWorkers = aw_NumMaxWorkers p, aw_NumPendingTasks = aw_NumPendingTasks p,
      aw_NumBusyWorkers = aw_NumBusyWorkers p, aw_NumStartedWorkers = aw_NumStartedWorkers p\<rparr>"

definition read_stat :: "runtime_reading \<Rightarrow> ServerStat" where
  "read_stat x =
     \<lparr>ss_SystemStat = readSystemStat x, ss_AsyncPoolStat = readAsyncPoolStat (rr_asyncPool x),
      ss_ServicePoolStat = readAsyncPoolStat (rr_servicePool x)\<rparr>"

text \<open>
  The state of the module: the statistics, the subscribers, the number of readings so far, what was delivered to whom, and
  how often the timer was reset.
\<close>

record ServerStatusModule =
  sm_stat :: ServerStat
  sm_observers :: "nat list"
  sm_reads :: nat
  sm_delivered :: "(nat \<times> ServerStat) list"
  sm_lastUpdateTime :: int
  sm_resets :: nat

definition begin_update :: "(nat \<Rightarrow> runtime_reading) \<Rightarrow> ServerStatusModule \<Rightarrow> ServerStatusModule" where
  "begin_update reading m = m\<lparr>sm_stat := read_stat (reading (sm_reads m)), sm_reads := Suc (sm_reads m)\<rparr>"

definition end_update :: "(nat \<Rightarrow> runtime_reading) \<Rightarrow> ServerStatusModule \<Rightarrow> ServerStatusModule" where
  "end_update reading m = m\<lparr>sm_lastUpdateTime := rr_time (reading (sm_reads m - 1)), sm_resets := Suc (sm_resets m)\<rparr>"

text \<open>
  The loop of \<open>Set\<close> over the observers that are left. The observer of a subscription asks for the statistics, which is
  another update, and passes them to the callback.
\<close>

partial_function (option) notify_subscribers :: "(nat \<Rightarrow> runtime_reading) \<Rightarrow> nat list \<Rightarrow> ServerStatusModule \<Rightarrow>
    ServerStatusModule option" where
  "notify_subscribers reading todo m =
     (case todo of
        [] \<Rightarrow> Some m
      | cb # cbs \<Rightarrow>
          Option.bind (notify_subscribers reading (sm_observers m) (begin_update reading m)) (\<lambda>m1.
            let m2 = end_update reading m1
            in notify_subscribers reading cbs (m2\<lparr>sm_delivered := sm_delivered m2 @ [(cb, sm_stat m2)]\<rparr>)))"

definition readAndUpdateSystemStat :: "(nat \<Rightarrow> runtime_reading) \<Rightarrow> ServerStatusModule \<Rightarrow> ServerStatusModule option" where
  "readAndUpdateSystemStat reading m =
     map_option (end_update reading) (notify_subscribers reading (sm_observers m) (begin_update reading m))"

definition GetServerStat :: "(nat \<Rightarrow> runtime_reading) \<Rightarrow> ServerStatusModule \<Rightarrow> (ServerStatusModule \<times> ServerStat) option" where
  "GetServerStat reading m = map_option (\<lambda>m'. (m', sm_stat m')) (readAndUpdateSystemStat reading m)"

definition SubscribeServerStatChange :: "nat \<Rightarrow> ServerStatusModule \<Rightarrow> ServerStatusModule" where
  "SubscribeServerStatChange cb m = m\<lparr>sm_observers := sm_observers m @ [cb]\<rparr>"

definition zero_stat :: ServerStat where
  "zero_stat =
     (let p = \<lparr>aw_Status = [], aw_NumMaxWorkers = 0, aw_NumPendingTasks = 0, aw_NumBusyWorkers = 0, aw_NumStartedWorkers = 0\<rparr>
      in \<lparr>ss_SystemStat = \<lparr>NumCpus = 0, NumGoroutines = 0, Alloc = 0, TotalAlloc = 0, SysAlloc = 0, NumGC = 0\<rparr>,
          ss_AsyncPoolStat = p, ss_ServicePoolStat = p\<rparr>)"

definition status_module_Init :: "(nat \<Rightarrow> runtime_reading) \<Rightarrow> ServerStatusModule option" where
  "status_module_Init reading =
     readAndUpdateSystemStat reading \<lparr>sm_stat = zero_stat, sm_observers = [], sm_reads = 0, sm_delivered = [],
       sm_lastUpdateTime = 0, sm_resets = 0\<rparr>"

section \<open>Lemmas\<close>

lemma map_of_not_fst: "map_of xs i = None \<longleftrightarrow> i \<notin> fst ` set xs"
  by (simp add: map_of_eq_None_iff)

lemma deleteIfExist_map: "observerMap (deleteIfExist i o1) = filter (\<lambda>e. fst e \<noteq> i) (observerMap o1)"
proof (cases "map_of (observerMap o1) i")
  case None
  then show ?thesis by (auto simp: deleteIfExist_def map_of_not_fst intro!: filter_True [symmetric])
next
  case (Some a)
  then show ?thesis by (auto simp: deleteIfExist_def AList.delete_eq intro!: filter_cong)
qed

lemma deleteIfExist_rest [simp]:
  "ob_value (deleteIfExist i o1) = ob_value o1" "ob_next (deleteIfExist i o1) = ob_next o1"
  by (simp_all add: deleteIfExist_def)

lemma notify_observers_effect:
  "notify_observers react v obs (o1, s) = (o2, t) \<Longrightarrow>
     t = fold (\<lambda>(i, f, once). react f v) obs s \<and> ob_value o2 = ob_value o1 \<and> ob_next o2 = ob_next o1 \<and>
     observerMap o2 = filter (\<lambda>e. \<not> (\<exists>f. (fst e, f, True) \<in> set obs)) (observerMap o1)"
proof (induction obs arbitrary: o1 s)
  case (Cons x obs)
  obtain i f once where x: "x = (i, f, once)" by (cases x)
  show ?case
    using Cons.prems Cons.IH [of "if once then deleteIfExist i o1 else o1" "react f v s"]
    by (cases once) (auto simp: x deleteIfExist_map intro!: filter_cong)
qed simp

lemma delivered_never_returns:
  assumes "notify_subscribers reading todo m = Some m'"
  shows "todo = [] \<or> sm_observers m = []"
proof (rule notify_subscribers.raw_induct [where P = "\<lambda>reading todo m m'. todo = [] \<or> sm_observers m = []", OF _ assms])
  fix f :: "(nat \<Rightarrow> runtime_reading) \<Rightarrow> nat list \<Rightarrow> ServerStatusModule \<Rightarrow> ServerStatusModule option"
    and reading todo m m'
  assume IH: "\<And>reading todo m m'. f reading todo m = Some m' \<Longrightarrow> todo = [] \<or> sm_observers m = []"
    and eq: "(case todo of [] \<Rightarrow> Some m
      | cb # cbs \<Rightarrow> Option.bind (f reading (sm_observers m) (begin_update reading m)) (\<lambda>m1.
          let m2 = end_update reading m1
          in f reading cbs (m2\<lparr>sm_delivered := sm_delivered m2 @ [(cb, sm_stat m2)]\<rparr>))) = Some m'"
  show "todo = [] \<or> sm_observers m = []"
  proof (cases todo)
    case (Cons cb cbs)
    then obtain m1 where "f reading (sm_observers m) (begin_update reading m) = Some m1"
      using eq by (auto simp: bind_eq_Some_conv)
    then show ?thesis using IH by (fastforce simp: begin_update_def)
  qed simp
qed

section \<open>Properties\<close>

text \<open>
  Setting an observable value stores it and calls every observer with it exactly once, in the order of the map; exactly
  the observers that were registered for one value are gone afterwards.
\<close>

theorem set_notifies_every_observer:
  assumes "distinct (map fst (observerMap o1))" and "ob_Set react v (o1, s) = (o2, t)"
  shows "ob_Get o2 = v \<and> t = fold (\<lambda>(i, f, once). react f v) (observerMap o1) s \<and>
    observerMap o2 = filter (\<lambda>(i, f, once). \<not> once) (observerMap o1)"
proof -
  have "\<exists>f. (fst e, f, True) \<in> set (observerMap o1)" if "e \<in> set (observerMap o1)" "snd (snd e)" for e
    using that by (metis prod.collapse)
  moreover have "snd (snd e)" if "e \<in> set (observerMap o1)" "(fst e, f, True) \<in> set (observerMap o1)" for e f
    using eq_key_imp_eq_value [OF assms(1), of "fst e" "snd e" "(f, True)"] that by simp
  ultimately have "filter (\<lambda>e. \<not> (\<exists>f. (fst e, f, True) \<in> set (observerMap o1))) (observerMap o1) =
      filter (\<lambda>(i, f, once). \<not> once) (observerMap o1)"
    by (intro filter_cong) (auto simp: case_prod_beta)
  then show ?thesis
    using assms(2) notify_observers_effect [of react v "observerMap o1" "o1\<lparr>ob_value := v\<rparr>" s o2 t]
    by (simp add: ob_Set_def ob_Get_def)
qed

text \<open>
  Reading the statistics of the server returns what was read, as long as nobody has subscribed to them. With a
  subscriber no reading returns, not even that of the timer: the observer asks for the statistics again, which notifies the
  observer again.
\<close>

theorem subscribed_status_never_returns:
  "GetServerStat reading m =
     (if sm_observers m = []
      then Some (end_update reading (begin_update reading m), read_stat (reading (sm_reads m)))
      else None)"
proof (cases "sm_observers m = []")
  case True
  then show ?thesis
    by (simp add: GetServerStat_def readAndUpdateSystemStat_def notify_subscribers.simps [of _ "[]"])
      (simp add: end_update_def begin_update_def)
next
  case False
  then have "notify_subscribers reading (sm_observers m) (begin_update reading m) \<noteq> Some m'" for m'
    using delivered_never_returns [of reading "sm_observers m" "begin_update reading m" m'] by (auto simp: begin_update_def)
  then show ?thesis
    using False by (cases "notify_subscribers reading (sm_observers m) (begin_update reading m)")
      (auto simp: GetServerStat_def readAndUpdateSystemStat_def)
qed

text \<open>\<open>Once\<close> of a safe observable never returns: it takes the lock that it already holds.\<close>

theorem safe_once_blocks: "safe_Once l f o1 = None"
  by (simp add: safe_Once_def safe_On_def rw_Lock_def)

section \<open>Witnesses\<close>

definition sample_observable :: "(int, nat) Observable" where
  "sample_observable = fst (ob_Once 7 (fst (ob_On 3 (NewObservableWith 0))))"

theorem set_notifies_every_observer_witness:
  "\<exists>o2. ob_Set (\<lambda>f v s. s @ [(f, v)]) 5 (sample_observable, []) = (o2, [(3, 5), (7, 5)]) \<and>
     observerMap o2 = [(0, 3, False)]"
proof -
  let ?r = "\<lambda>f v s. s @ [(f, v)]"
  obtain o2 t where s: "ob_Set ?r 5 (sample_observable, []) = (o2, t)" by (cases "ob_Set ?r 5 (sample_observable, [])")
  have "observerMap sample_observable = [(0, 3, False), (1, 7, True)]" by code_simp
  then show ?thesis
    using set_notifies_every_observer [of sample_observable ?r 5 "[]" o2 t] s by simp
qed

end
