(* ===== verification/Injection.thy ===== *)
theory Injection
  imports Prelude
begin

text \<open>
  The injection container of the client, \<open>src/common/ioc/Container.go\<close>.

  What the container finds out by reflection is data: a type is its name, a resolver has the types of its parameters and
  of its results and the first value it returns (\<open>None\<close> for \<open>nil\<close>), and a structure is the list of its fields with their
  types and tags. \<open>assignable t v\<close> says that the value \<open>v\<close> can be stored in a field or parameter of type \<open>t\<close>; storing another
  value, or \<open>nil\<close>, panics. A binding is an object of the container that remembers its instance. Resolving a type resolves the
  parameters of its resolver first, without a bound on the depth: the result \<open>None\<close> means that the call does not return. The
  resolvers that were called are appended to a log.
\<close>

section \<open>Bindings\<close>

record 'v resolver =
  rv_name :: string
  rv_isFunc :: bool
  rv_In :: "string list"
  rv_Out :: "string list"
  rv_call :: "'v list \<Rightarrow> 'v option"

record 'v binding =
  bi_resolver :: "'v resolver"
  bi_instance :: "'v option"

record 'v Container =
  typeContainer :: "(string \<times> 'v binding) list"
  idContainer :: "(string \<times> 'v binding) list"
  called :: "string list"

definition container_New :: "'v Container" where
  "container_New = \<lparr>typeContainer = [], idContainer = [], called = []\<rparr>"

definition checkAndGetResolverReflect :: "'v resolver \<Rightarrow> string option" where
  "checkAndGetResolverReflect f = (if \<not> rv_isFunc f then Some ''container: the resolver must be a function'' else None)"

definition bindById :: "string \<Rightarrow> 'v resolver \<Rightarrow> 'v Container \<Rightarrow> 'v Container \<times> string option" where
  "bindById i f c =
     (case checkAndGetResolverReflect f of
        Some err \<Rightarrow> (c, Some err)
      | None \<Rightarrow>
          (if length (rv_Out f) \<noteq> 1 then (c, Some ''container: the resolver for id binding must has only 1 output value'')
           else (c\<lparr>idContainer := AList.update i \<lparr>bi_resolver = f, bi_instance = None\<rparr> (idContainer c)\<rparr>, None)))"

definition bindByType :: "'v resolver \<Rightarrow> 'v Container \<Rightarrow> 'v Container \<times> string option" where
  "bindByType f c =
     (case checkAndGetResolverReflect f of
        Some err \<Rightarrow> (c, Some err)
      | None \<Rightarrow>
          (c\<lparr>typeContainer := fold (\<lambda>t. AList.update t \<lparr>bi_resolver = f, bi_instance = None\<rparr>) (rv_Out f) (typeContainer c)\<rparr>, None))"

definition Singleton :: "'v resolver \<Rightarrow> 'v Container \<Rightarrow> 'v Container \<times> string option" where
  "Singleton f c = bindByType f c"

definition RegisterSingleton :: "string \<Rightarrow> 'v resolver \<Rightarrow> 'v Container \<Rightarrow> 'v Container \<times> string option" where
  "RegisterSingleton i f c = bindById i f c"

text \<open>\<open>RemoveByType\<close>; \<open>None\<close> is a holder of kind \<open>Func\<close>.\<close>

definition RemoveByType :: "string option \<Rightarrow> 'v Container \<Rightarrow> 'v Container \<times> string option" where
  "RemoveByType holder c =
     (case holder of
        None \<Rightarrow> (c, Some ''type can not be of Func'')
      | Some t \<Rightarrow> (c\<lparr>typeContainer := AList.delete t (typeContainer c)\<rparr>, None))"

definition container_Reset :: "'v Container \<Rightarrow> 'v Container" where
  "container_Reset c = c\<lparr>typeContainer := [], idContainer := []\<rparr>"

section \<open>Resolving\<close>

text \<open>The instance that \<open>resolve\<close> stores in its binding.\<close>

definition set_type_instance :: "string \<Rightarrow> 'v option \<Rightarrow> 'v Container \<Rightarrow> 'v Container" where
  "set_type_instance t v c =
     (case map_of (typeContainer c) t of
        None \<Rightarrow> c
      | Some b \<Rightarrow> c\<lparr>typeContainer := AList.update t (b\<lparr>bi_instance := v\<rparr>) (typeContainer c)\<rparr>)"

definition log_call :: "'v resolver \<Rightarrow> 'v Container \<Rightarrow> 'v Container" where
  "log_call f c = c\<lparr>called := called c @ [rv_name f]\<rparr>"

text \<open>
  \<open>arguments\<close> for a list of parameter types, with \<open>resolve\<close> and \<open>invoke\<close> of the bindings it finds. The values are checked by
  the call they are arguments of.
\<close>

definition call_resolver :: "(string \<Rightarrow> 'v \<Rightarrow> bool) \<Rightarrow> 'v resolver \<Rightarrow> 'v option list \<Rightarrow> 'v Container \<Rightarrow> ('v Container \<times> 'v option) go" where
  "call_resolver assignable f args c =
     (if list_all2 (\<lambda>t a. case a of None \<Rightarrow> False | Some v \<Rightarrow> assignable t v) (rv_In f) args
      then Ret (log_call f c, rv_call f (map the args)) else Panic)"

partial_function (option) arguments :: "(string \<Rightarrow> 'v \<Rightarrow> bool) \<Rightarrow> string list \<Rightarrow> 'v Container \<Rightarrow>
    ('v Container \<times> (string + 'v option list)) go option" where
  "arguments assignable ts c =
     (case ts of
        [] \<Rightarrow> Some (Ret (c, Inr []))
      | t # rest \<Rightarrow>
          (case map_of (typeContainer c) t of
             None \<Rightarrow> Some (Ret (c, Inl (''container: no concrete found for: '' @ t)))
           | Some b \<Rightarrow>
               Option.bind
                 (if bi_instance b \<noteq> None then Some (Ret (c, Inr (bi_instance b)))
                  else Option.bind (arguments assignable (rv_In (bi_resolver b)) c) (\<lambda>res.
                    case res of
                      Panic \<Rightarrow> Some Panic
                    | Ret (c1, Inl err) \<Rightarrow> Some (Ret (set_type_instance t None c1, Inl err))
                    | Ret (c1, Inr args) \<Rightarrow>
                        (case call_resolver assignable (bi_resolver b) args c1 of
                           Panic \<Rightarrow> Some Panic
                         | Ret (c2, v) \<Rightarrow> Some (Ret (set_type_instance t v c2, Inr v)))))
                 (\<lambda>one. case one of
                    Panic \<Rightarrow> Some Panic
                  | Ret (c3, Inl err) \<Rightarrow> Some (Ret (c3, Inl err))
                  | Ret (c3, Inr v) \<Rightarrow>
                      Option.bind (arguments assignable rest c3) (\<lambda>others.
                        case others of
                          Panic \<Rightarrow> Some Panic
                        | Ret (c4, Inl err) \<Rightarrow> Some (Ret (c4, Inl err))
                        | Ret (c4, Inr vs) \<Rightarrow> Some (Ret (c4, Inr (v # vs)))))))"

definition resolve_type :: "(string \<Rightarrow> 'v \<Rightarrow> bool) \<Rightarrow> string \<Rightarrow> 'v Container \<Rightarrow> ('v Container \<times> (string + 'v option)) go option" where
  "resolve_type assignable t c =
     map_option (\<lambda>res. case res of
        Panic \<Rightarrow> Panic
      | Ret (c', Inl err) \<Rightarrow> Ret (c', Inl err)
      | Ret (c', Inr vs) \<Rightarrow> Ret (c', Inr (hd vs))) (arguments assignable [t] c)"

definition invoke :: "(string \<Rightarrow> 'v \<Rightarrow> bool) \<Rightarrow> 'v resolver \<Rightarrow> 'v Container \<Rightarrow> ('v Container \<times> (string + 'v option)) go option" where
  "invoke assignable f c =
     map_option (\<lambda>res. case res of
        Panic \<Rightarrow> Panic
      | Ret (c1, Inl err) \<Rightarrow> Ret (c1, Inl err)
      | Ret (c1, Inr args) \<Rightarrow> bind_go (call_resolver assignable f args c1) (\<lambda>(c2, v). Ret (c2, Inr v)))
       (arguments assignable (rv_In f) c)"

definition set_id_instance :: "string \<Rightarrow> 'v option \<Rightarrow> 'v Container \<Rightarrow> 'v Container" where
  "set_id_instance i v c =
     (case map_of (idContainer c) i of
        None \<Rightarrow> c
      | Some b \<Rightarrow> c\<lparr>idContainer := AList.update i (b\<lparr>bi_instance := v\<rparr>) (idContainer c)\<rparr>)"

definition container_GetById :: "(string \<Rightarrow> 'v \<Rightarrow> bool) \<Rightarrow> string \<Rightarrow> 'v Container \<Rightarrow> ('v Container \<times> (string + 'v option)) go option" where
  "container_GetById assignable i c =
     (case map_of (idContainer c) i of
        None \<Rightarrow> Some (Ret (c, Inl (''can not find concrete by id '' @ i)))
      | Some b \<Rightarrow>
          (if bi_instance b \<noteq> None then Some (Ret (c, Inr (bi_instance b)))
           else map_option (\<lambda>res. case res of
                Panic \<Rightarrow> Panic
              | Ret (c1, Inl err) \<Rightarrow> Ret (set_id_instance i None c1, Inl err)
              | Ret (c1, Inr v) \<Rightarrow> Ret (set_id_instance i v c1, Inr v)) (invoke assignable (bi_resolver b) c)))"

text \<open>The argument of \<open>Make\<close>, \<open>Call\<close> and \<open>Bind\<close>: \<open>nil\<close>, a pointer to a variable of a type, a function, or something else.\<close>

datatype 'v receiver = RNil | RPtr string | RFunc "'v resolver" | ROther

text \<open>What a call hands back: the container, and the error or the value that was stored.\<close>

definition container_Call :: "(string \<Rightarrow> 'v \<Rightarrow> bool) \<Rightarrow> 'v receiver \<Rightarrow> 'v Container \<Rightarrow> ('v Container \<times> (string + 'v option)) go option" where
  "container_Call assignable r c =
     (case r of
        RFunc f \<Rightarrow> map_option (\<lambda>res. bind_go res (\<lambda>(c', x). Ret (c', case x of Inl err \<Rightarrow> Inl err | Inr _ \<Rightarrow> Inr None)))
          (invoke assignable f c)
      | _ \<Rightarrow> Some (Ret (c, Inl ''container: invalid function'')))"

definition store_value :: "(string \<Rightarrow> 'v \<Rightarrow> bool) \<Rightarrow> string \<Rightarrow> 'v option \<Rightarrow> 'v go" where
  "store_value assignable t v = (case v of None \<Rightarrow> Panic | Some x \<Rightarrow> if assignable t x then Ret x else Panic)"

definition container_Bind :: "(string \<Rightarrow> 'v \<Rightarrow> bool) \<Rightarrow> 'v receiver \<Rightarrow> 'v Container \<Rightarrow> ('v Container \<times> (string + 'v option)) go option" where
  "container_Bind assignable r c =
     (case r of
        RPtr t \<Rightarrow> map_option (\<lambda>res. bind_go res (\<lambda>(c', x).
            case x of
              Inl err \<Rightarrow> Ret (c', Inl err)
            | Inr v \<Rightarrow> bind_go (store_value assignable t v) (\<lambda>y. Ret (c', Inr (Some y))))) (resolve_type assignable t c)
      | _ \<Rightarrow> Some (Ret (c, Inl ''container: invalid abstraction'')))"

definition container_Make :: "(string \<Rightarrow> 'v \<Rightarrow> bool) \<Rightarrow> 'v receiver \<Rightarrow> 'v Container \<Rightarrow> ('v Container \<times> (string + 'v option)) go option" where
  "container_Make assignable r c =
     (case r of
        RNil \<Rightarrow> Some (Ret (c, Inl ''container: cannot detect type of the receiver''))
      | RPtr t \<Rightarrow> container_Bind assignable r c
      | RFunc f \<Rightarrow> container_Call assignable r c
      | ROther \<Rightarrow> Some (Ret (c, Inl ''container: the receiver must be either a reference or a callback'')))"

text \<open>
  \<open>Fill\<close> on a pointer to a structure: the fields with the tag \<open>$inject\<close>, an empty tag asking for the type and another one for
  the id. The fields that were set so far are kept when a later one fails. \<open>CanSet\<close> holds for the pointer that \<open>NewAt\<close> makes,
  so the setter is never tried.
\<close>

record struct_field =
  sf_name :: string
  sf_type :: string
  sf_tag :: "string option"

fun fill_fields :: "(string \<Rightarrow> 'v \<Rightarrow> bool) \<Rightarrow> struct_field list \<Rightarrow> 'v Container \<Rightarrow> (string \<times> 'v) list \<Rightarrow>
    ('v Container \<times> (string \<times> 'v) list \<times> string option) go option" where
  "fill_fields assignable [] c done1 = Some (Ret (c, done1, None))"
| "fill_fields assignable (f # fs) c done1 =
     (case sf_tag f of
        None \<Rightarrow> fill_fields assignable fs c done1
      | Some t \<Rightarrow>
          (if (if t \<noteq> [] then map_of (idContainer c) t = None else map_of (typeContainer c) (sf_type f) = None)
           then Some (Ret (c, done1, Some (''container: cannot resolve '' @ sf_name f @ '' field'')))
           else Option.bind (if t \<noteq> [] then container_GetById assignable t c else resolve_type assignable (sf_type f) c) (\<lambda>res.
             case res of
               Panic \<Rightarrow> Some Panic
             | Ret (c', Inl err) \<Rightarrow> Some (Ret (c', done1, Some err))
             | Ret (c', Inr v) \<Rightarrow>
                 (case store_value assignable (sf_type f) v of
                    Panic \<Rightarrow> Some Panic
                  | Ret x \<Rightarrow> fill_fields assignable fs c' (done1 @ [(sf_name f, x)])))))"

definition container_Fill :: "(string \<Rightarrow> 'v \<Rightarrow> bool) \<Rightarrow> struct_field list option \<Rightarrow> 'v Container \<Rightarrow>
    ('v Container \<times> (string \<times> 'v) list \<times> string option) go option" where
  "container_Fill assignable structure c =
     (case structure of
        None \<Rightarrow> Some (Ret (c, [], Some ''container: invalid structure''))
      | Some fs \<Rightarrow> fill_fields assignable fs c [])"

section \<open>Well-formed containers\<close>

text \<open>
  Every parameter of a binding that has no instance yet is bound and of a lower rank, and the values and instances fit
  their types.
\<close>

definition binding_ok :: "(string \<Rightarrow> 'v \<Rightarrow> bool) \<Rightarrow> (string \<Rightarrow> nat) \<Rightarrow> (string \<Rightarrow> bool) \<Rightarrow> string \<Rightarrow> 'v binding \<Rightarrow> bool" where
  "binding_ok assignable rank bound t b \<longleftrightarrow>
     (\<forall>v. bi_instance b = Some v \<longrightarrow> assignable t v) \<and>
     (\<forall>u \<in> set (rv_In (bi_resolver b)). bound u \<and> rank u < rank t) \<and>
     (\<forall>args. \<exists>v. rv_call (bi_resolver b) args = Some v \<and> assignable t v)"

definition container_ok :: "(string \<Rightarrow> 'v \<Rightarrow> bool) \<Rightarrow> (string \<Rightarrow> nat) \<Rightarrow> 'v Container \<Rightarrow> bool" where
  "container_ok assignable rank c \<longleftrightarrow>
     (\<forall>t b. map_of (typeContainer c) t = Some b \<longrightarrow> binding_ok assignable rank (\<lambda>u. map_of (typeContainer c) u \<noteq> None) t b)"

definition instance_of :: "'v Container \<Rightarrow> string \<Rightarrow> 'v option" where
  "instance_of c t = Option.bind (map_of (typeContainer c) t) bi_instance"

text \<open>Resolving keeps the bindings and the instances there are.\<close>

definition extends :: "'v Container \<Rightarrow> 'v Container \<Rightarrow> bool" where
  "extends c c' \<longleftrightarrow>
     (\<forall>t. map_option bi_resolver (map_of (typeContainer c') t) = map_option bi_resolver (map_of (typeContainer c) t)) \<and>
     (\<forall>t v. instance_of c t = Some v \<longrightarrow> instance_of c' t = Some v)"

lemma extends_refl: "extends c c"
  by (simp add: extends_def)

lemma extends_trans: "extends c1 c2 \<Longrightarrow> extends c2 c3 \<Longrightarrow> extends c1 c3"
  by (simp add: extends_def)

lemma extends_bound: "extends c c' \<Longrightarrow> map_of (typeContainer c') t = None \<longleftrightarrow> map_of (typeContainer c) t = None"
  unfolding extends_def by (metis option.map_disc_iff)

lemma extends_log [simp]: "extends c (log_call f c') = extends c c'"
  by (simp add: extends_def log_call_def instance_of_def)

lemma container_ok_log [simp]: "container_ok assignable rank (log_call f c) = container_ok assignable rank c"
  by (simp add: container_ok_def log_call_def)

lemma set_type_instance_map:
  "map_of (typeContainer (set_type_instance t v c)) =
     (case map_of (typeContainer c) t of None \<Rightarrow> map_of (typeContainer c)
      | Some b \<Rightarrow> (map_of (typeContainer c))(t \<mapsto> b\<lparr>bi_instance := v\<rparr>))"
  by (simp add: set_type_instance_def update_conv' split: option.splits)

lemma set_type_instance_ok:
  assumes "container_ok assignable rank c" and "assignable t v"
  shows "container_ok assignable rank (set_type_instance t (Some v) c)"
proof (cases "map_of (typeContainer c) t")
  case (Some b)
  then have "binding_ok assignable rank (\<lambda>u. map_of (typeContainer c) u \<noteq> None) t b" using assms(1) by (simp add: container_ok_def)
  then show ?thesis using assms by (auto simp: container_ok_def set_type_instance_map Some binding_ok_def)
qed (simp add: set_type_instance_def assms)

lemma set_type_instance_extends:
  assumes "extends c c1" and "instance_of c t = None" and "map_of (typeContainer c) t \<noteq> None"
  shows "extends c (set_type_instance t (Some v) c1)" and "instance_of (set_type_instance t (Some v) c1) t = Some v"
proof -
  obtain b where b: "map_of (typeContainer c1) t = Some b" using assms(3) extends_bound [OF assms(1), of t] by auto
  have "map_option bi_resolver (map_of (typeContainer c) t) = Some (bi_resolver b)"
    using assms(1) b unfolding extends_def by (metis option.simps(9))
  then show "extends c (set_type_instance t (Some v) c1)"
    using assms(1,2) by (auto simp: extends_def instance_of_def set_type_instance_map b)
  show "instance_of (set_type_instance t (Some v) c1) t = Some v" by (simp add: instance_of_def set_type_instance_map b)
qed

section \<open>Resolving in a well-formed container\<close>

text \<open>One parameter: an instance that is there, and a resolver that is called.\<close>

lemma arguments_Nil: "arguments assignable [] c = Some (Ret (c, Inr []))"
  by (simp add: arguments.simps)

lemma arguments_instance:
  assumes "instance_of c t = Some v" and "arguments assignable rest c = Some (Ret (c', Inr vs))"
  shows "arguments assignable (t # rest) c = Some (Ret (c', Inr (Some v # vs)))"
proof -
  obtain b where "map_of (typeContainer c) t = Some b" "bi_instance b = Some v"
    using assms(1) by (auto simp: instance_of_def bind_eq_Some_conv)
  then show ?thesis using assms(2) by (subst arguments.simps) simp
qed

lemma arguments_called:
  assumes "map_of (typeContainer c) t = Some b" and "bi_instance b = None"
    and "arguments assignable (rv_In (bi_resolver b)) c = Some (Ret (c1, Inr (map Some args)))"
    and "list_all2 assignable (rv_In (bi_resolver b)) args"
    and "arguments assignable rest (set_type_instance t (rv_call (bi_resolver b) args) (log_call (bi_resolver b) c1)) =
      Some (Ret (c', Inr vs))"
  shows "arguments assignable (t # rest) c = Some (Ret (c', Inr (rv_call (bi_resolver b) args # vs)))"
proof -
  have "call_resolver assignable (bi_resolver b) (map Some args) c1 =
      Ret (log_call (bi_resolver b) c1, rv_call (bi_resolver b) args)"
    using assms(4) by (simp add: call_resolver_def list.rel_map comp_def)
  then show ?thesis using assms(1,2,3,5) by (subst arguments.simps) simp
qed

text \<open>What a successful resolution of a list of types gives.\<close>

definition resolves :: "(string \<Rightarrow> 'v \<Rightarrow> bool) \<Rightarrow> (string \<Rightarrow> nat) \<Rightarrow> string list \<Rightarrow> 'v Container \<Rightarrow> bool" where
  "resolves assignable rank ts c \<longleftrightarrow> (\<exists>c' vs. arguments assignable ts c = Some (Ret (c', Inr (map Some vs))) \<and>
     list_all2 assignable ts vs \<and> map (instance_of c') ts = map Some vs \<and> container_ok assignable rank c' \<and> extends c c')"

lemma resolve_one:
  assumes ok: "container_ok assignable rank c" and bound: "map_of (typeContainer c) t = Some b"
    and params: "\<And>c. container_ok assignable rank c \<Longrightarrow>
      \<forall>u \<in> set (rv_In (bi_resolver b)). map_of (typeContainer c) u \<noteq> None \<Longrightarrow> resolves assignable rank (rv_In (bi_resolver b)) c"
    and fresh: "bi_instance b = None"
  obtains c1 v args where "arguments assignable (rv_In (bi_resolver b)) c = Some (Ret (c1, Inr (map Some args)))"
    "list_all2 assignable (rv_In (bi_resolver b)) args" "rv_call (bi_resolver b) args = Some v" "assignable t v"
    "container_ok assignable rank c1" "extends c c1"
proof -
  have b: "binding_ok assignable rank (\<lambda>u. map_of (typeContainer c) u \<noteq> None) t b"
    using ok bound by (simp add: container_ok_def)
  then have "resolves assignable rank (rv_In (bi_resolver b)) c" by (intro params ok) (auto simp: binding_ok_def)
  then obtain c1 args where c1: "arguments assignable (rv_In (bi_resolver b)) c = Some (Ret (c1, Inr (map Some args)))"
    "list_all2 assignable (rv_In (bi_resolver b)) args" "container_ok assignable rank c1" "extends c c1"
    by (auto simp: resolves_def)
  obtain v where "rv_call (bi_resolver b) args = Some v" "assignable t v" using b unfolding binding_ok_def by blast
  then show thesis using that c1 by blast
qed

lemma resolves_Cons:
  assumes ok: "container_ok assignable rank c" and bound: "map_of (typeContainer c) t = Some b"
    and params: "\<And>c. container_ok assignable rank c \<Longrightarrow>
      \<forall>u \<in> set (rv_In (bi_resolver b)). map_of (typeContainer c) u \<noteq> None \<Longrightarrow> resolves assignable rank (rv_In (bi_resolver b)) c"
    and rest: "\<And>c'. container_ok assignable rank c' \<Longrightarrow> extends c c' \<Longrightarrow> resolves assignable rank ts c'"
  shows "resolves assignable rank (t # ts) c"
proof (cases "bi_instance b")
  case (Some v)
  then have inst: "instance_of c t = Some v" by (simp add: instance_of_def bound)
  have "assignable t v" using ok bound Some by (auto simp: container_ok_def binding_ok_def)
  moreover obtain c' vs where c': "arguments assignable ts c = Some (Ret (c', Inr (map Some vs)))" "list_all2 assignable ts vs"
      "map (instance_of c') ts = map Some vs" "container_ok assignable rank c'" "extends c c'"
    using rest [OF ok extends_refl] by (auto simp: resolves_def)
  moreover have "instance_of c' t = Some v" using c'(5) inst by (simp add: extends_def)
  ultimately show ?thesis
    using arguments_instance [OF inst c'(1)] by (auto simp: resolves_def intro!: exI [of _ c'] exI [of _ "v # vs"])
next
  case None
  obtain c1 v args where c1: "arguments assignable (rv_In (bi_resolver b)) c = Some (Ret (c1, Inr (map Some args)))"
    "list_all2 assignable (rv_In (bi_resolver b)) args" "rv_call (bi_resolver b) args = Some v" "assignable t v"
    "container_ok assignable rank c1" "extends c c1"
    using resolve_one [OF ok bound params None] by blast
  let ?c2 = "set_type_instance t (Some v) (log_call (bi_resolver b) c1)"
  have c2: "container_ok assignable rank ?c2" "extends c ?c2" "instance_of ?c2 t = Some v"
    using set_type_instance_ok [of assignable rank "log_call (bi_resolver b) c1" t v] c1(4-6)
      set_type_instance_extends [of c "log_call (bi_resolver b) c1" t v] None
    by (simp_all add: instance_of_def [of c] bound)
  obtain c' vs where c': "arguments assignable ts ?c2 = Some (Ret (c', Inr (map Some vs)))" "list_all2 assignable ts vs"
      "map (instance_of c') ts = map Some vs" "container_ok assignable rank c'" "extends ?c2 c'"
    using rest [OF c2(1,2)] by (auto simp: resolves_def)
  have "arguments assignable (t # ts) c = Some (Ret (c', Inr (Some v # map Some vs)))"
    using arguments_called [OF bound None c1(1,2), of ts c' "map Some vs"] c'(1) by (simp add: c1(3))
  moreover have "instance_of c' t = Some v" using c'(5) c2(3) by (simp add: extends_def)
  ultimately show ?thesis
    using c1(4) c' extends_trans [OF c2(2) c'(5)]
    by (auto simp: resolves_def intro!: exI [of _ c'] exI [of _ "v # vs"])
qed

text \<open>Induction on the rank of the types, and on the list of types of at most that rank.\<close>

lemma resolves_all:
  "container_ok assignable rank c \<Longrightarrow> \<forall>t \<in> set ts. map_of (typeContainer c) t \<noteq> None \<and> rank t < n \<Longrightarrow>
   resolves assignable rank ts c"
proof (induction n arbitrary: ts c)
  case 0
  then have "ts = []" by (cases ts) auto
  then show ?case using 0 by (auto simp: resolves_def arguments_Nil extends_refl intro!: exI [of _ c])
next
  case (Suc n)
  note outer = Suc.IH
  show ?case using Suc.prems
  proof (induction ts arbitrary: c)
    case Nil
    then show ?case by (auto simp: resolves_def arguments_Nil extends_refl intro!: exI [of _ c])
  next
    case (Cons t ts)
    obtain b where b: "map_of (typeContainer c) t = Some b" using Cons.prems(2) by auto
    have low: "\<forall>u \<in> set (rv_In (bi_resolver b)). rank u < n"
      using Cons.prems b by (fastforce simp: container_ok_def binding_ok_def)
    show ?case
    proof (rule resolves_Cons [OF Cons.prems(1) b])
      fix c1 assume "container_ok assignable rank c1" "\<forall>u \<in> set (rv_In (bi_resolver b)). map_of (typeContainer c1) u \<noteq> None"
      then show "resolves assignable rank (rv_In (bi_resolver b)) c1" using low by (intro outer) auto
    next
      fix c1 assume "container_ok assignable rank c1" "extends c c1"
      then show "resolves assignable rank ts c1" using Cons.prems(2) extends_bound [of c c1] by (intro Cons.IH) auto
    qed
  qed
qed

lemma cycle_never_returns:
  assumes "arguments assignable ts c = Some res"
  shows "\<forall>S. (\<forall>t \<in> S. \<exists>b u us. map_of (typeContainer c) t = Some b \<and> bi_instance b = None \<and> rv_In (bi_resolver b) = u # us \<and> u \<in> S) \<longrightarrow>
    (\<forall>t us. ts = t # us \<longrightarrow> t \<notin> S)"
proof (rule arguments.raw_induct [where P = "\<lambda>assignable ts c res.
    \<forall>S. (\<forall>t \<in> S. \<exists>b u us. map_of (typeContainer c) t = Some b \<and> bi_instance b = None \<and> rv_In (bi_resolver b) = u # us \<and> u \<in> S) \<longrightarrow>
    (\<forall>t us. ts = t # us \<longrightarrow> t \<notin> S)", OF _ assms], goal_cases)
  case (1 f assignable ts c res)
  show ?case
  proof (intro allI impI notI)
    fix S t us
    assume cyc: "\<forall>t \<in> S. \<exists>b u us. map_of (typeContainer c) t = Some b \<and> bi_instance b = None \<and> rv_In (bi_resolver b) = u # us \<and> u \<in> S"
      and ts: "ts = t # us" and t: "t \<in> S"
    obtain b u vs where b: "map_of (typeContainer c) t = Some b" "bi_instance b = None" "rv_In (bi_resolver b) = u # vs" "u \<in> S"
      using cyc t by blast
    obtain r1 where "f assignable (u # vs) c = Some r1"
      using 1(2) by (auto simp: ts b bind_eq_Some_conv)
    then show False using 1(1) [of assignable "u # vs" c r1] cyc b(4) by blast
  qed
qed

section \<open>Properties\<close>


text \<open>
  A type that lies on a cycle of types without instances, each of which is the first parameter of the resolver of
  another, is never resolved: the call does not return.
\<close>

theorem cyclic_types_never_resolve:
  assumes "\<forall>t \<in> S. \<exists>b u us. map_of (typeContainer c) t = Some b \<and> bi_instance b = None \<and> rv_In (bi_resolver b) = u # us \<and> u \<in> S"
    and "t \<in> S"
  shows "resolve_type assignable t c = None"
proof (cases "arguments assignable [t] c")
  case (Some res)
  then show ?thesis using cycle_never_returns [OF Some] assms by blast
qed (simp add: resolve_type_def)

text \<open>
  A resolver with two results is bound to both types, but both bindings keep its first result, and each of them calls
  it: whoever asks for the second type gets a value of the first, and \<open>Fill\<close> panics when that does not fit the field.
\<close>

theorem second_result_is_never_bound:
  assumes "rv_isFunc f" and "rv_In f = []" and "rv_Out f = [t1, t2]" and "t1 \<noteq> t2" and "rv_call f [] = Some v"
    and "Singleton f c = (c1, err)"
  shows "err = None \<and> (\<exists>c2 c3. resolve_type assignable t1 c1 = Some (Ret (c2, Inr (Some v))) \<and>
      resolve_type assignable t2 c2 = Some (Ret (c3, Inr (Some v))) \<and> called c3 = called c @ [rv_name f, rv_name f]) \<and>
    (\<not> assignable t2 v \<longrightarrow>
      container_Fill assignable (Some [\<lparr>sf_name = ''field'', sf_type = t2, sf_tag = Some []\<rparr>]) c1 = Some Panic)"
proof -
  let ?b = "\<lparr>bi_resolver = f, bi_instance = None\<rparr>"
  have c1: "err = None" "map_of (typeContainer c1) = (map_of (typeContainer c))(t1 \<mapsto> ?b, t2 \<mapsto> ?b)" "called c1 = called c"
    using assms by (auto simp: Singleton_def bindByType_def checkAndGetResolverReflect_def update_conv')
  have one: "resolve_type assignable t x = Some (Ret (set_type_instance t (Some v) (log_call f x), Inr (Some v)))"
    if "map_of (typeContainer x) t = Some ?b" for t x
    using arguments_called [OF that, of assignable x "[]" "[]" "set_type_instance t (Some v) (log_call f x)" "[]"] assms(2,5)
    by (simp add: resolve_type_def arguments_Nil)
  have "map_of (typeContainer (set_type_instance t1 (Some v) (log_call f c1))) t2 = Some ?b"
    using c1(2) assms(4) by (simp add: set_type_instance_map log_call_def)
  moreover have "called (set_type_instance t w x) = called x" for t w and x :: "'a Container"
    by (simp add: set_type_instance_def split: option.splits)
  moreover have "\<not> assignable t2 v \<longrightarrow>
      container_Fill assignable (Some [\<lparr>sf_name = ''field'', sf_type = t2, sf_tag = Some []\<rparr>]) c1 = Some Panic"
    using one [of c1 t2] c1(2) by (simp add: container_Fill_def store_value_def)
  ultimately show ?thesis using c1 one assms(4) by (simp add: log_call_def)
qed

section \<open>Witnesses\<close>

text \<open>Values are the names of their types; a service needs a pool.\<close>

definition sample_resolver :: "string list \<Rightarrow> string \<Rightarrow> string resolver" where
  "sample_resolver ins out = \<lparr>rv_name = out, rv_isFunc = True, rv_In = ins, rv_Out = [out], rv_call = (\<lambda>_. Some out)\<rparr>"

definition sample_container :: "string Container" where
  "sample_container = fst (Singleton (sample_resolver [] ''pool'') (fst (Singleton (sample_resolver [''pool''] ''service'') container_New)))"

lemma sample_container_map:
  "map_of (typeContainer sample_container) =
     [''service'' \<mapsto> \<lparr>bi_resolver = sample_resolver [''pool''] ''service'', bi_instance = None\<rparr>,
      ''pool'' \<mapsto> \<lparr>bi_resolver = sample_resolver [] ''pool'', bi_instance = None\<rparr>]"
  by (auto simp: fun_eq_iff sample_container_def Singleton_def bindByType_def checkAndGetResolverReflect_def container_New_def
      sample_resolver_def)

lemma sample_container_ok: "container_ok (\<lambda>t v. v = t) (\<lambda>t. if t = ''service'' then 1 else 0) sample_container"
  by (simp add: container_ok_def sample_container_map binding_ok_def) (simp add: sample_resolver_def)


definition sample_cycle :: "string Container" where
  "sample_cycle = fst (Singleton (sample_resolver [''b''] ''a'') (fst (Singleton (sample_resolver [''a''] ''b'') container_New)))"

theorem cyclic_types_never_resolve_witness:
  "resolve_type (\<lambda>t v. v = t) ''a'' sample_cycle = None"
proof -
  have "map_of (typeContainer sample_cycle) =
     [''b'' \<mapsto> \<lparr>bi_resolver = sample_resolver [''a''] ''b'', bi_instance = None\<rparr>,
      ''a'' \<mapsto> \<lparr>bi_resolver = sample_resolver [''b''] ''a'', bi_instance = None\<rparr>]"
    by (auto simp: fun_eq_iff sample_cycle_def Singleton_def bindByType_def checkAndGetResolverReflect_def container_New_def
        sample_resolver_def)
  then show ?thesis
    by (intro cyclic_types_never_resolve [of "{''a'', ''b''}"]) (simp_all add: sample_resolver_def)
qed

definition sample_pair_resolver :: "string resolver" where
  "sample_pair_resolver = \<lparr>rv_name = ''make'', rv_isFunc = True, rv_In = [], rv_Out = [''a'', ''error''], rv_call = (\<lambda>_. Some ''a'')\<rparr>"

theorem second_result_is_never_bound_witness:
  "container_Fill (\<lambda>t v. v = t) (Some [\<lparr>sf_name = ''field'', sf_type = ''error'', sf_tag = Some []\<rparr>])
     (fst (Singleton sample_pair_resolver container_New)) = Some Panic"
  using second_result_is_never_bound [of sample_pair_resolver "''a''" "''error''" "''a''" container_New
    "fst (Singleton sample_pair_resolver container_New)" "snd (Singleton sample_pair_resolver container_New)" "\<lambda>t v. v = t"]
  by (simp add: sample_pair_resolver_def)

end
