(* ===== verification/HttpExchange.thy ===== *)
theory HttpExchange
  imports Dispatcher ClientConnect
begin

text \<open>
  An HTTP exchange between the client and the hub: \<open>ToHTTPRequest\<close> of \<open>src/hub_common/messages/Message.go\<close> with the header and
  request builders of \<open>src/common/http/client.go\<close>, the writing of an answer in \<open>src/hub_common/http/HTTPWritableConnection.go\<close>,
  and what \<open>src/hub_client/Client.go\<close> makes of the descriptor of the server.

  The header and the writer of a response behave as the package \<open>net/http\<close> documents: keys are canonical, the header that is
  sent is the one at the call of \<open>WriteHeader\<close>, a status of less or more than three digits panics, and a handler that has written nothing
  sends 200. Parsing a url and the JSON decoder are parameters.
\<close>

section \<open>Headers\<close>

definition token_char :: "char \<Rightarrow> bool" where
  "token_char c \<longleftrightarrow> (let n = (of_char c :: nat) in
     48 \<le> n \<and> n \<le> 57 \<or> 65 \<le> n \<and> n \<le> 90 \<or> 97 \<le> n \<and> n \<le> 122 \<or>
     n \<in> {33, 35, 36, 37, 38, 39, 42, 43, 45, 46, 94, 95, 96, 124, 126})"

definition byte_upper :: "char \<Rightarrow> char" where
  "byte_upper c = (let n = (of_char c :: nat) in if 97 \<le> n \<and> n \<le> 122 then char_of (n - 32) else c)"

definition byte_lower :: "char \<Rightarrow> char" where
  "byte_lower c = (let n = (of_char c :: nat) in if 65 \<le> n \<and> n \<le> 90 then char_of (n + 32) else c)"

fun canonical_from :: "bool \<Rightarrow> string \<Rightarrow> string" where
  "canonical_from upper [] = []"
| "canonical_from upper (c # cs) = (if upper then byte_upper c else byte_lower c) # canonical_from (c = CHR ''-'') cs"

definition CanonicalMIMEHeaderKey :: "string \<Rightarrow> string" where
  "CanonicalMIMEHeaderKey k = (if list_all token_char k then canonical_from True k else k)"

type_synonym http_header = "(string \<times> string list) list"

definition header_Set :: "string \<Rightarrow> string \<Rightarrow> http_header \<Rightarrow> http_header" where
  "header_Set k v h = AList.update (CanonicalMIMEHeaderKey k) [v] h"

definition header_Del :: "string \<Rightarrow> http_header \<Rightarrow> http_header" where
  "header_Del k h = AList.delete (CanonicalMIMEHeaderKey k) h"

definition header_Get :: "http_header \<Rightarrow> string \<Rightarrow> string" where
  "header_Get h k = (case map_of h (CanonicalMIMEHeaderKey k) of Some (v # _) \<Rightarrow> v | _ \<Rightarrow> [])"

section \<open>The request of the client\<close>

definition maker_Set :: "string \<Rightarrow> string \<Rightarrow> http_header \<Rightarrow> http_header" where
  "maker_Set k v m = header_Set k v m"

definition maker_Remove :: "string \<Rightarrow> http_header \<Rightarrow> http_header" where
  "maker_Remove k m = header_Del k m"

definition NewHeaderMaker :: http_header where
  "NewHeaderMaker = []"

text \<open>A url is its path and its text.\<close>

record RequestBuilder =
  rb_method :: string
  rb_url :: "(string \<times> string) option"
  rb_header :: http_header
  rb_body :: string

definition NewRequestBuilder :: RequestBuilder where
  "NewRequestBuilder = \<lparr>rb_method = [], rb_url = None, rb_header = [], rb_body = []\<rparr>"

definition builder_Build :: "RequestBuilder \<Rightarrow> RequestBuilder" where
  "builder_Build b = (if rb_method b = [] then b\<lparr>rb_method := ''GET''\<rparr> else b)"

definition builder_Method :: "string \<Rightarrow> RequestBuilder \<Rightarrow> RequestBuilder" where
  "builder_Method method b = b\<lparr>rb_method := method\<rparr>"

text \<open>A url that cannot be parsed is logged together with the old url, which is \<open>nil\<close> in a new builder.\<close>

definition builder_URL :: "(string \<Rightarrow> (string \<times> string) option) \<Rightarrow> string \<Rightarrow> RequestBuilder \<Rightarrow> RequestBuilder go" where
  "builder_URL parse u b =
     (case parse u of
        None \<Rightarrow> (if rb_url b = None then Panic else Ret b)
      | Some p \<Rightarrow> Ret (b\<lparr>rb_url := Some p\<rparr>))"

definition builder_Header :: "http_header \<Rightarrow> RequestBuilder \<Rightarrow> RequestBuilder" where
  "builder_Header h b = b\<lparr>rb_header := h\<rparr>"

definition builder_StringBody :: "string \<Rightarrow> RequestBuilder \<Rightarrow> RequestBuilder" where
  "builder_StringBody body b = b\<lparr>rb_body := body\<rparr>"

definition ToHTTPRequest :: "(string \<Rightarrow> (string \<times> string) option) \<Rightarrow> string \<Rightarrow> string \<Rightarrow> string \<Rightarrow> Message \<Rightarrow> RequestBuilder go" where
  "ToHTTPRequest parse protocol baseUri token t =
     (let headerMaker = maker_Set ''To'' (m_to t) (maker_Set ''Id'' (m_id t) NewHeaderMaker);
          headerMaker = (if token \<noteq> [] then maker_Set ''Authorization'' (''Bearer '' @ token) headerMaker else headerMaker)
      in bind_go (builder_URL parse (protocol @ ''://'' @ baseUri @ m_uri t) (builder_Header headerMaker NewRequestBuilder)) (\<lambda>b.
           Ret (builder_Build (builder_StringBody (payload t) (builder_Method (mapMessageTypeToRequestMethod t) b)))))"

text \<open>The request as the server reads it; \<open>extra\<close> are the header fields that the HTTP client adds on its own.\<close>

definition received :: "string \<Rightarrow> http_header \<Rightarrow> RequestBuilder \<Rightarrow> http_request" where
  "received remote extra b =
     \<lparr>hr_method = rb_method b, hr_path = (case rb_url b of None \<Rightarrow> [] | Some u \<Rightarrow> fst u),
      hr_url = (case rb_url b of None \<Rightarrow> [] | Some u \<Rightarrow> snd u), hr_remote = remote, hr_headers = rb_header b @ extra,
      hr_body = Inr (rb_body b)\<rparr>"

section \<open>The answer of the hub\<close>

record ResponseWriter =
  rw_live :: http_header
  rw_sent :: "(int \<times> http_header) option"
  rw_body :: string

definition rw_New :: ResponseWriter where
  "rw_New = \<lparr>rw_live = [], rw_sent = None, rw_body = []\<rparr>"

definition rw_Set :: "string \<Rightarrow> string \<Rightarrow> ResponseWriter \<Rightarrow> ResponseWriter" where
  "rw_Set k v w = w\<lparr>rw_live := header_Set k v (rw_live w)\<rparr>"

definition WriteHeader :: "int \<Rightarrow> ResponseWriter \<Rightarrow> ResponseWriter go" where
  "WriteHeader code w =
     (if code < 100 \<or> code > 999 then Panic
      else if rw_sent w \<noteq> None then Ret w
      else Ret (w\<lparr>rw_sent := Some (code, rw_live w)\<rparr>))"

definition bodyAllowedForStatus :: "int \<Rightarrow> bool" where
  "bodyAllowedForStatus status \<longleftrightarrow> \<not> (100 \<le> status \<and> status \<le> 199 \<or> status = 204 \<or> status = 304)"

definition rw_Write :: "string option \<Rightarrow> string \<Rightarrow> ResponseWriter \<Rightarrow> ResponseWriter \<times> string option" where
  "rw_Write neterr body w =
     (let w = (if rw_sent w = None then w\<lparr>rw_sent := Some (200, rw_live w)\<rparr> else w) in
      if \<not> bodyAllowedForStatus (fst (the (rw_sent w)))
      then (w, if body = [] then None else Some ''http: request method or response status code does not allow body'')
      else (case neterr of Some e \<Rightarrow> (w, Some e) | None \<Rightarrow> (w\<lparr>rw_body := rw_body w @ body\<rparr>, None)))"

definition writeMessageHeaders :: "map_order \<Rightarrow> Message \<Rightarrow> ResponseWriter \<Rightarrow> ResponseWriter" where
  "writeMessageHeaders ord m w = fold (\<lambda>(k, v). rw_Set k v) (ord (headers m)) w"

definition writeMessageResponse :: "map_order \<Rightarrow> string option \<Rightarrow> Message \<Rightarrow> ResponseWriter \<Rightarrow> ResponseWriter \<times> string option go" where
  "writeMessageResponse ord neterr m w =
     (let w = rw_Set MessageHTTPHeaderTo (m_to m) (rw_Set MessageHTTPHeaderFrom (m_from m) (rw_Set MessageHTTPHeaderId (m_id m) w));
          w = (if GetHeader m ''Content-Type'' = [] then rw_Set ''Content-Type'' ''application/json; charset=UTF-8'' w else w)
      in case WriteHeader (messageType m) w of
           Panic \<Rightarrow> (w, Panic)
         | Ret w' \<Rightarrow> (let (w'', err) = rw_Write neterr (payload m) (writeMessageHeaders ord m w') in (w'', Ret err)))"

record http_Response =
  rs_Success :: bool
  rs_Code :: int
  rs_Header :: http_header
  rs_Body :: string

definition writeWhrResponse :: "(string \<Rightarrow> string + http_Response) \<Rightarrow> map_order \<Rightarrow> string option \<Rightarrow> Message \<Rightarrow> ResponseWriter \<Rightarrow>
    ResponseWriter \<times> string option go" where
  "writeWhrResponse unmarshal ord neterr m w =
     (case unmarshal (payload m) of
        Inl err \<Rightarrow> writeMessageResponse ord neterr m w
      | Inr response \<Rightarrow>
          (if rs_Code response = 0 then writeMessageResponse ord neterr m w
           else
             (let code = (if rs_Code response < 0 then 500 else rs_Code response) in
              case WriteHeader code w of
                Panic \<Rightarrow> (w, Panic)
              | Ret w' \<Rightarrow>
                  (if list_all (\<lambda>(k, v). v \<noteq> []) (rs_Header response)
                   then (let (w'', err) = rw_Write neterr (rs_Body response) (fold (\<lambda>(k, v). rw_Set k (hd v)) (rs_Header response) w')
                         in (w'', Ret err))
                   else (w', Panic)))))"

text \<open>\<open>Send\<close> with the wait lock: it is open when the call ends, whatever happened. \<open>Close\<close> sends an acknowledgement.\<close>

definition writable_Send :: "bool \<Rightarrow> (string \<Rightarrow> string + http_Response) \<Rightarrow> map_order \<Rightarrow> string option \<Rightarrow> Message \<Rightarrow> bool \<times> ResponseWriter \<Rightarrow>
    (bool \<times> ResponseWriter) \<times> string option go" where
  "writable_Send isWhr unmarshal ord neterr m c =
     (case c of (opened, w) \<Rightarrow>
       (if opened then ((True, w), Ret (Some ''unable to send more than once for HTTP connection''))
        else (let (w', res) = (if isWhr then writeWhrResponse unmarshal ord neterr m w else writeMessageResponse ord neterr m w)
              in ((True, w'), res))))"

definition writable_Close :: "bool \<Rightarrow> (string \<Rightarrow> string + http_Response) \<Rightarrow> map_order \<Rightarrow> string option \<Rightarrow> string \<Rightarrow> bool \<times> ResponseWriter \<Rightarrow>
    (bool \<times> ResponseWriter) \<times> string option go" where
  "writable_Close isWhr unmarshal ord neterr addr c = writable_Send isWhr unmarshal ord neterr (NewACKMessage [] [] addr addr) c"

section \<open>The answer as the client reads it\<close>

definition is_space :: "char \<Rightarrow> bool" where
  "is_space c \<longleftrightarrow> (of_char c :: nat) \<in> {32, 9, 10, 13}"

text \<open>A header value on the wire: line ends become blanks, and blanks at the ends are cut.\<close>

definition wire_value :: "string \<Rightarrow> string" where
  "wire_value v = rev (dropWhile is_space (rev (dropWhile is_space
     (map (\<lambda>c. if (of_char c :: nat) \<in> {10, 13} then CHR '' '' else c) v))))"

definition delivered :: "ResponseWriter \<Rightarrow> http_response" where
  "delivered w =
     (let (code, h) = (case rw_sent w of None \<Rightarrow> (200, rw_live w) | Some x \<Rightarrow> x) in
      \<lparr>rp_code = code, rp_body = rw_body w, rp_header = (\<lambda>k. wire_value (header_Get h k))\<rparr>)"

section \<open>The server as the client knows it\<close>

definition getServerInfo :: "(string \<Rightarrow> string + RoleDescriptor) \<Rightarrow> 'c network \<Rightarrow> (string + RoleDescriptor) \<times> 'c network" where
  "getServerInfo unmarshal nw =
     (case HTTPRequest ''/status/info'' nw of
        (Inl err, nw') \<Rightarrow> (Inl err, nw')
      | (Inr resp, nw') \<Rightarrow> (unmarshal (payload resp), nw'))"

definition handleServerInfo :: "RoleDescriptor \<Rightarrow> string + CommonServer" where
  "handleServerInfo info =
     (let splittedAddr = split_on CHR '':'' (rd_Address info) in
      if length splittedAddr < 2 then Inl ''invalid server address''
      else (case Atoi (splittedAddr ! 1) of
          Inl err \<Rightarrow> Inl err
        | Inr p \<Rightarrow> Inr (NewServer (rd_Id info) (rd_Description info) (splittedAddr ! 0) p)))"

definition requestAndHandleServerInfo :: "(string \<Rightarrow> string + RoleDescriptor) \<Rightarrow> 'c network \<Rightarrow> (string + CommonServer) \<times> 'c network" where
  "requestAndHandleServerInfo unmarshal nw =
     (case getServerInfo unmarshal nw of
        (Inl err, nw') \<Rightarrow> (Inl err, nw')
      | (Inr info, nw') \<Rightarrow> (handleServerInfo info, nw'))"

section \<open>Lemmas\<close>

lemma canonical_keys [simp]:
  "CanonicalMIMEHeaderKey ''Id'' = ''Id''" "CanonicalMIMEHeaderKey ''To'' = ''To''"
  "CanonicalMIMEHeaderKey ''Authorization'' = ''Authorization''" "CanonicalMIMEHeaderKey ''X-From'' = ''X-From''"
  "CanonicalMIMEHeaderKey ''X-To'' = ''X-To''" "CanonicalMIMEHeaderKey ''X-Request-Id'' = ''X-Request-Id''"
  "CanonicalMIMEHeaderKey ''Content-Type'' = ''Content-Type''"
  by code_simp+

lemma request_method:
  "mapHttpRequestMethodToMessageType (mapMessageTypeToRequestMethod m) =
     Some (if messageType m \<in> {111..117} then messageType m else 111)"
  by (auto simp: mapHttpRequestMethodToMessageType_def mapMessageTypeToRequestMethod_def Let_def)

lemma method_not_empty: "mapMessageTypeToRequestMethod m \<noteq> []"
  by (simp add: mapMessageTypeToRequestMethod_def Let_def)

lemma transform_reserved:
  assumes "fst ` set hs \<subseteq> set reservedHeaders"
  shows "transformHeaderFields hs m = m"
  using assms unfolding transformHeaderFields_def by (induction hs arbitrary: m) auto

lemma transform_append: "transformHeaderFields (hs @ ks) m = transformHeaderFields ks (transformHeaderFields hs m)"
  by (simp add: transformHeaderFields_def)

lemma map_of_absent: "k \<notin> fst ` set xs \<Longrightarrow> map_of xs k = None"
  by (simp add: map_of_eq_None_iff)

lemma writeMessageHeaders_sent [simp]:
  "rw_sent (writeMessageHeaders ord m w) = rw_sent w" "rw_body (writeMessageHeaders ord m w) = rw_body w"
proof -
  have "rw_sent (fold (\<lambda>(k, v). rw_Set k v) xs w) = rw_sent w \<and> rw_body (fold (\<lambda>(k, v). rw_Set k v) xs w) = rw_body w" for xs
    by (induction xs arbitrary: w) (auto simp: rw_Set_def)
  then show "rw_sent (writeMessageHeaders ord m w) = rw_sent w" "rw_body (writeMessageHeaders ord m w) = rw_body w"
    by (simp_all add: writeMessageHeaders_def)
qed

text \<open>The header that is sent with a message.\<close>

definition message_header :: "Message \<Rightarrow> http_header" where
  "message_header m =
     [(''X-Request-Id'', [m_id m]), (''X-From'', [m_from m]), (''X-To'', [m_to m])] @
     (if GetHeader m ''Content-Type'' = [] then [(''Content-Type'', [''application/json; charset=UTF-8''])] else [])"

lemmas answer_defs = writable_Send_def writeMessageResponse_def rw_New_def rw_Set_def header_Set_def message_header_def
  MessageHTTPHeaderTo_def MessageHTTPHeaderFrom_def MessageHTTPHeaderId_def WriteHeader_def Let_def

lemma sent_message:
  assumes "100 \<le> messageType m" and "messageType m \<le> 999" and "bodyAllowedForStatus (messageType m)"
    and "writable_Send False unmarshal ord None m (False, rw_New) = ((opened, w), res)"
  shows "opened \<and> res = Ret None \<and> rw_sent w = Some (messageType m, message_header m) \<and> rw_body w = payload m"
  using assms by (auto simp: answer_defs rw_Write_def split: prod.splits if_splits)

lemma unsent_message:
  assumes "messageType m < 100 \<or> messageType m > 999"
    and "writable_Send False unmarshal ord neterr m (False, rw_New) = ((opened, w), res)"
  shows "opened \<and> res = Panic \<and> rw_sent w = None \<and> rw_live w = message_header m \<and> rw_body w = []"
  using assms by (auto simp: answer_defs split: prod.splits)

lemma message_header_Get [simp]:
  "header_Get (message_header m) MessageHTTPHeaderId = m_id m"
  "header_Get (message_header m) MessageHTTPHeaderFrom = m_from m"
  "header_Get (message_header m) MessageHTTPHeaderTo = m_to m"
  by (simp_all add: header_Get_def message_header_def MessageHTTPHeaderTo_def MessageHTTPHeaderFrom_def MessageHTTPHeaderId_def)

lemma digits_no_colon: "CHR '':'' \<notin> set (sprintf_d i)"
proof -
  have colon: "d < 10 \<Longrightarrow> (char_of (48 + d) :: char) \<noteq> CHR '':''" for d :: nat
  proof
    assume "d < 10" "(char_of (48 + d) :: char) = CHR '':''"
    then have "digit_value CHR '':'' = Some d" using digit_value_digit [of d] by simp
    moreover have "digit_value CHR '':'' = None" by code_simp
    ultimately show False by simp
  qed
  have "CHR '':'' \<notin> set (sprintf_nat n)" for n
  proof (induction n rule: less_induct)
    case (less n)
    show ?case
    proof (cases "n < 10")
      case True
      then show ?thesis using colon [of n] by (auto simp: sprintf_nat.simps [of n])
    next
      case False
      then have "CHR '':'' \<notin> set (sprintf_nat (n div 10))" by (intro less) simp
      then show ?thesis using False colon [of "n mod 10"] by (auto simp: sprintf_nat.simps [of n])
    qed
  qed
  then show ?thesis by (simp add: sprintf_d_def)
qed

section \<open>Properties\<close>

text \<open>
  What the hub makes of an HTTP request of the client. Method, path and payload arrive, and a type that is no request
  type becomes that of a GET. But the hub looks for the token and the receiver under other header names than the
  client writes them to: the message that is dispatched has no sender and no receiver, whatever token the client sent, and
  it has an id of its own.
\<close>

theorem client_request_is_anonymous:
  assumes "parse (protocol @ ''://'' @ baseUri @ m_uri m) = Some (path, u)"
    and "fst ` set extra \<subseteq> {''User-Agent'', ''Accept-Encoding'', ''Content-Length''}"
  shows "\<exists>b. ToHTTPRequest parse protocol baseUri token m = Ret b \<and>
    TransformRequest marshal genId (received remote extra b) =
      Inr \<lparr>m_id = genId, m_from = [], m_to = [], m_uri = path,
        messageType = (if messageType m \<in> {111..117} then messageType m else 111),
        headers = (if token = [] then [] else [(''Authorization'', ''Bearer '' @ token)]), payload = payload m\<rparr>"
proof -
  let ?h = "[(''Id'', [m_id m]), (''To'', [m_to m])] @ (if token = [] then [] else [(''Authorization'', [''Bearer '' @ token])])"
  let ?b = "\<lparr>rb_method = mapMessageTypeToRequestMethod m, rb_url = Some (path, u), rb_header = ?h, rb_body = payload m\<rparr>"
  have "ToHTTPRequest parse protocol baseUri token m = Ret ?b"
    using assms(1)
    by (simp add: Let_def ToHTTPRequest_def builder_URL_def builder_Build_def builder_StringBody_def builder_Method_def
        builder_Header_def NewRequestBuilder_def NewHeaderMaker_def maker_Set_def header_Set_def method_not_empty)
  moreover have "fst ` set extra \<subseteq> set reservedHeaders" using assms(2) by (auto simp: reservedHeaders_def)
  then have "transformHeaderFields (?h @ extra) x = transformHeaderFields ?h x" for x
    by (simp only: transform_append transform_reserved)
  then have "transformHeaderFields (?h @ extra) x = (if token = [] then x else SetHeader x ''Authorization'' (''Bearer '' @ token))" for x
    unfolding transformHeaderFields_def by (simp add: reservedHeaders_def)
  moreover have "map_of extra k = None" if "k \<in> {''Whr'', ''X-To'', ''R-Token''}" for k
    using assms(2) that by (intro map_of_absent) auto
  ultimately show ?thesis
    by (simp add: TransformRequest_def received_def isWhrRequest_def header_values_def GetTrimmedHTTPToken_def AuthHeaderKey_def
        request_method SetHeader_def DraftMessage_def NewMessage_def map_of_append)
qed

text \<open>
  C19. An answer of the hub as the client reads it. An answer whose type is a status of 200 and more that allows a body is sent
  with its id, sender, receiver and payload; its own header fields are set after the header has gone out and are lost. The
  client turns it into the same message under the uri of its request, or into an error with the payload as its text for a
  status from 401 to 509; the status 400 of a bad request counts as a success.
\<close>

theorem hub_answer_reaches_client:
  assumes "200 \<le> messageType m" and "messageType m \<le> 999" and "bodyAllowedForStatus (messageType m)"
    and "wire_value (m_id m) = m_id m" and "m_id m \<noteq> []" and "wire_value (m_from m) = m_from m" and "wire_value (m_to m) = m_to m"
    and "writable_Send False unmarshal ord None m (False, rw_New) = ((opened, w), res)"
    and "nw_http nw = delivered w # rs"
  shows "opened \<and> res = Ret None \<and> HTTPRequest uri nw =
    ((if 400 < messageType m \<and> messageType m < 510 then Inl (payload m)
      else Inr (NewMessage (m_id m) (m_from m) (m_to m) uri (messageType m) (payload m))), nw\<lparr>nw_http := rs\<rparr>)"
proof -
  have "opened \<and> res = Ret None \<and> rw_sent w = Some (messageType m, message_header m) \<and> rw_body w = payload m"
    by (rule sent_message [OF _ assms(2,3,8)]) (use assms(1) in simp)
  then show ?thesis
    using assms(1,4-7,9) by (simp add: HTTPRequest_def delivered_def)
qed

text \<open>
  An answer of a type that is no HTTP status, such as one of the message types for text, streams and JSON that a relayed
  service may use. Writing the status panics, and with the wait lock open no other answer can follow: the client
  receives a success with an empty payload.
\<close>

theorem unwritable_answer_becomes_empty_success:
  assumes "messageType m < 100 \<or> messageType m > 999"
    and "wire_value (m_id m) = m_id m" and "m_id m \<noteq> []" and "wire_value (m_from m) = m_from m" and "wire_value (m_to m) = m_to m"
    and "writable_Send False unmarshal ord neterr m (False, rw_New) = (c, res)"
    and "writable_Send False unmarshal ord neterr m' c = (c', res')"
    and "nw_http nw = delivered (snd c') # rs"
  shows "res = Panic \<and> res' = Ret (Some ''unable to send more than once for HTTP connection'') \<and>
    HTTPRequest uri nw = (Inr (NewMessage (m_id m) (m_from m) (m_to m) uri 200 []), nw\<lparr>nw_http := rs\<rparr>)"
proof -
  obtain opened w where c: "c = (opened, w)" by (cases c)
  have w: "opened" "res = Panic" "rw_sent w = None" "rw_live w = message_header m" "rw_body w = []"
    using unsent_message [OF assms(1), of unmarshal ord neterr opened w res] assms(6) c by auto
  then have "c' = c" "res' = Ret (Some ''unable to send more than once for HTTP connection'')"
    using assms(7) c by (auto simp: writable_Send_def)
  then show ?thesis
    using assms(2-5,8) w c by (simp add: HTTPRequest_def delivered_def)
qed

text \<open>
  The client learns the server from its descriptor: the url and the port are read back from the address, as long as the
  url has no colon. A url with a scheme makes the client fail.
\<close>

theorem server_info_roundtrip:
  assumes "in_int64 p"
  shows "(CHR '':'' \<notin> set u \<longrightarrow> handleServerInfo (fst (server_Describe (NewServer i d u p))) = Inr (NewServer i d u p)) \<and>
    handleServerInfo (fst (server_Describe (NewServer i d (''http://'' @ u) p))) = Inl ''invalid syntax''"
proof
  have port: "split_on CHR '':'' (sprintf_d p) = [sprintf_d p]" by (rule split_on_absent [OF digits_no_colon])
  show "CHR '':'' \<notin> set u \<longrightarrow> handleServerInfo (fst (server_Describe (NewServer i d u p))) = Inr (NewServer i d u p)"
    using assms port
    by (auto simp: handleServerInfo_def server_Describe_def NewServer_def NewCommonRole_def Let_def split_on_append Atoi_sprintf)
  obtain y ys where y: "split_on CHR '':'' (u @ CHR '':'' # sprintf_d p) = y # ys"
    by (cases "split_on CHR '':'' (u @ CHR '':'' # sprintf_d p)") simp_all
  have "digit_value CHR ''/'' = None" by code_simp
  then show "handleServerInfo (fst (server_Describe (NewServer i d (''http://'' @ u) p))) = Inl ''invalid syntax''"
    using y by (simp add: handleServerInfo_def server_Describe_def NewServer_def NewCommonRole_def Let_def Atoi_def)
qed

section \<open>Witnesses\<close>

definition sample_answer :: "int \<Rightarrow> Message" where
  "sample_answer ty = NewMessage ''7'' ''hub'' ''bob'' ''/x'' ty ''hello''"

lemma sample_answer_simps [simp]:
  "m_id (sample_answer ty) = ''7''" "m_from (sample_answer ty) = ''hub''" "m_to (sample_answer ty) = ''bob''"
  "messageType (sample_answer ty) = ty" "payload (sample_answer ty) = ''hello''"
  by (simp_all add: sample_answer_def NewMessage_def)

lemma sample_wire: "wire_value ''7'' = ''7''" "wire_value ''hub'' = ''hub''" "wire_value ''bob'' = ''bob''"
  by code_simp+

theorem client_request_is_anonymous_witness:
  "\<exists>b. ToHTTPRequest (\<lambda>_. Some (''/echo'', ''/echo'')) ''http'' ''hub:8080'' ''secret'' (sample_answer 113) = Ret b \<and>
     (\<exists>msg. TransformRequest (\<lambda>_. Inl []) ''9'' (received ''1.1.1.1:5'' [] b) = Inr msg \<and> m_from msg = [] \<and> payload msg = ''hello'')"
  using client_request_is_anonymous [of "\<lambda>_. Some (''/echo'', ''/echo'')" "''http''" "''hub:8080''" "sample_answer 113" "''/echo''" "''/echo''"
    "[]" "''secret''" "\<lambda>_. Inl []" "''9''" "''1.1.1.1:5''"] by auto

theorem hub_answer_reaches_client_witness:
  "\<exists>w. writable_Send False (\<lambda>_. Inl []) (\<lambda>h. h) None (sample_answer 404) (False, rw_New) = ((True, w), Ret None) \<and>
     fst (HTTPRequest ''/x'' \<lparr>nw_http = [delivered w], nw_dials = []\<rparr> :: (string + Message) \<times> nat network) = Inl ''hello''"
proof -
  obtain opened w res where s: "writable_Send False (\<lambda>_. Inl []) (\<lambda>h. h) None (sample_answer 404) (False, rw_New) = ((opened, w), res)"
    by (metis surj_pair)
  have "bodyAllowedForStatus 404" by (simp add: bodyAllowedForStatus_def)
  then show ?thesis
    using hub_answer_reaches_client [of "sample_answer 404" "\<lambda>_. Inl []" "\<lambda>h. h" opened w res
      "\<lparr>nw_http = [delivered w], nw_dials = []\<rparr> :: nat network" "[]" "''/x''"] s
    by (simp add: sample_wire)
qed

theorem unwritable_answer_becomes_empty_success_witness:
  "\<exists>c. writable_Send False (\<lambda>_. Inl []) (\<lambda>h. h) None (sample_answer 5) (False, rw_New) = (c, Panic) \<and>
     fst (HTTPRequest ''/x'' \<lparr>nw_http = [delivered (snd (fst (writable_Send False (\<lambda>_. Inl []) (\<lambda>h. h) None (sample_answer 500) c)))],
       nw_dials = []\<rparr> :: (string + Message) \<times> nat network) = Inr (NewMessage ''7'' ''hub'' ''bob'' ''/x'' 200 [])"
proof -
  obtain c res where s: "writable_Send False (\<lambda>_. Inl []) (\<lambda>h. h) None (sample_answer 5) (False, rw_New) = (c, res)"
    by (metis surj_pair)
  obtain c' res' where s': "writable_Send False (\<lambda>_. Inl []) (\<lambda>h. h) None (sample_answer 500) c = (c', res')" by (metis surj_pair)
  show ?thesis
    using unwritable_answer_becomes_empty_success [OF _ _ _ _ _ s s', of "\<lparr>nw_http = [delivered (snd c')], nw_dials = []\<rparr> :: nat network" "[]" "''/x''"]
      s s' by (simp add: sample_wire)
qed

theorem server_info_roundtrip_witness:
  "handleServerInfo (fst (server_Describe (NewServer ''hub'' ''the hub'' ''localhost'' 8080))) = Inr (NewServer ''hub'' ''the hub'' ''localhost'' 8080)"
  using server_info_roundtrip [of 8080 "''localhost''" "''hub''" "''the hub''"] by (simp add: in_int64_def)

end
