(* ===== verification/Logging.thy ===== *)
theory Logging
  imports Prelude
begin

text \<open>
  The loggers of \<open>src/common/logger\<close>: the configuration of a log line and the logger with a worker goroutine (\<open>logger.go\<close>),
  the logger that the components use (\<open>simple.go\<close>), the writer of rotated log files (\<open>file.go\<close>) and the tee of writers
  (\<open>tee.go\<close>).

  A writer is a number, and what was written is the list of the writers and bytes in the order of the calls. A time is of
  any type; \<open>format\<close> and \<open>unix\<close> are the methods of the package \<open>time\<close>. The callers of \<open>Log\<close> and the worker are steps of
  one state: a step is one channel operation, one write or one test of the status.
\<close>

unbundle bit_operations_syntax

section \<open>Configuration\<close>

definition LogTimestampOnly :: int where [simp]: "LogTimestampOnly = 256"
definition LogDateTime :: int where [simp]: "LogDateTime = 17"
definition LogDateOnly :: int where [simp]: "LogDateOnly = 16"
definition LogTimeOnly :: int where [simp]: "LogTimeOnly = 1"

definition DateTimeConfigSet :: "int \<Rightarrow> bool" where
  "DateTimeConfigSet c \<longleftrightarrow> c \<in> set [LogTimestampOnly, LogDateTime, LogDateOnly, LogTimeOnly]"

definition DefaultLevelStringMap :: "int \<Rightarrow> string" where
  "DefaultLevelStringMap level =
     (if level = 0 then ''[DEBUG]'' else if level = 1 then ''[INFO]'' else if level = 2 then ''[WARN]''
      else if level = 3 then ''[ERROR]'' else if level = 4 then ''[FATAL]'' else [])"

record Logger =
  lg_writer :: nat
  dateTimeConfig :: int
  lg_logFile :: bool
  lg_prefix :: string

definition SetWriter :: "nat \<Rightarrow> Logger \<Rightarrow> Logger" where "SetWriter w l = l\<lparr>lg_writer := w\<rparr>"
definition SetPrefix :: "string \<Rightarrow> Logger \<Rightarrow> Logger" where "SetPrefix p l = l\<lparr>lg_prefix := p\<rparr>"
definition SetUseFileName :: "bool \<Rightarrow> Logger \<Rightarrow> Logger" where "SetUseFileName use l = l\<lparr>lg_logFile := use\<rparr>"

definition updateDateTimeConfigWith :: "int \<Rightarrow> bool \<Rightarrow> Logger \<Rightarrow> Logger" where
  "updateDateTimeConfigWith c use l =
     l\<lparr>dateTimeConfig := if use then dateTimeConfig l OR c else dateTimeConfig l AND NOT c\<rparr>"

definition SetUseDate :: "bool \<Rightarrow> Logger \<Rightarrow> Logger" where "SetUseDate use = updateDateTimeConfigWith LogDateOnly use"
definition SetUseTime :: "bool \<Rightarrow> Logger \<Rightarrow> Logger" where "SetUseTime use = updateDateTimeConfigWith LogTimeOnly use"
definition SetUseTimestamp :: "bool \<Rightarrow> Logger \<Rightarrow> Logger" where "SetUseTimestamp use = updateDateTimeConfigWith LogTimestampOnly use"

definition SetDateTimeConfig :: "int \<Rightarrow> Logger \<Rightarrow> Logger" where
  "SetDateTimeConfig config l = (if DateTimeConfigSet config then updateDateTimeConfigWith config True l else l)"

text \<open>A call of a function that the map does not have panics.\<close>

definition dLoggerDateTimePrefixHandlerMap :: "(string \<Rightarrow> 't \<Rightarrow> string) \<Rightarrow> ('t \<Rightarrow> int) \<Rightarrow> int \<Rightarrow> ('t \<Rightarrow> string) option" where
  "dLoggerDateTimePrefixHandlerMap format unix c =
     (if c = LogTimestampOnly then Some (\<lambda>t. sprintf_d (unix t))
      else if c = LogDateTime then Some (format ''2006-01-02 15:04:05'')
      else if c = LogDateOnly then Some (format ''2006-01-02'')
      else if c = LogTimeOnly then Some (format ''15:04:05'')
      else None)"

definition DateTimePrefix :: "(string \<Rightarrow> 't \<Rightarrow> string) \<Rightarrow> ('t \<Rightarrow> int) \<Rightarrow> 't \<Rightarrow> Logger \<Rightarrow> string go" where
  "DateTimePrefix format unix t l =
     (let c = (if dateTimeConfig l > LogTimestampOnly then LogTimestampOnly else dateTimeConfig l) in
      case dLoggerDateTimePrefixHandlerMap format unix c of None \<Rightarrow> Panic | Some f \<Rightarrow> Ret (f t))"

definition prefixStrings :: "(string \<Rightarrow> 't \<Rightarrow> string) \<Rightarrow> ('t \<Rightarrow> int) \<Rightarrow> int \<Rightarrow> 't \<Rightarrow> Logger \<Rightarrow> string go" where
  "prefixStrings format unix level t l =
     bind_go (DateTimePrefix format unix t l) (\<lambda>d. Ret (concat [d, '' '', DefaultLevelStringMap level, lg_prefix l]))"

definition log_line :: "(string \<Rightarrow> 't \<Rightarrow> string) \<Rightarrow> ('t \<Rightarrow> int) \<Rightarrow> int \<Rightarrow> 't \<Rightarrow> string list \<Rightarrow> Logger \<Rightarrow> string go" where
  "log_line format unix level t s l =
     bind_go (prefixStrings format unix level t l) (\<lambda>p. Ret (concat [p, '' '', concat s, [CHR 0x0A]]))"

text \<open>The calls of a logger builder, which pass on to the logger.\<close>

datatype setting = LogDate bool | LogTime bool | LogTimeStamp bool | DateTimeConfig int | LogFile bool | Prefix string | Writer nat

fun builder_call :: "setting \<Rightarrow> Logger \<Rightarrow> Logger" where
  "builder_call (LogDate use) l = SetUseDate use l"
| "builder_call (LogTime use) l = SetUseTime use l"
| "builder_call (LogTimeStamp use) l = SetUseTimestamp use l"
| "builder_call (DateTimeConfig c) l = SetDateTimeConfig c l"
| "builder_call (LogFile use) l = SetUseFileName use l"
| "builder_call (Prefix p) l = SetPrefix p l"
| "builder_call (Writer w) l = SetWriter w l"

section \<open>The logger with a worker\<close>

definition DLoggerStatusStarted :: nat where [simp]: "DLoggerStatusStarted = 1"
definition DLoggerStatusStopping :: nat where [simp]: "DLoggerStatusStopping = 10"
definition DLoggerStatusStopped :: nat where [simp]: "DLoggerStatusStopped = 20"

datatype log_caller = Formatting int string "string list" | Sending string | Waiting string | Returned string | Panicked
datatype log_worker = Testing | Receiving | Writing nat string | Closing nat | Done

text \<open>
  A job is the number of its caller with its bytes; \<open>dl_closed\<close> are the callers whose channel was closed. A caller starts with
  the level, the time (as its text) and the strings of its call.
\<close>

record DLogger =
  dl_logger :: Logger
  dl_async :: bool
  dl_status :: nat
  dataChannel :: "(nat \<times> string) list"
  dl_closed :: "nat list"
  dl_worker :: log_worker
  dl_callers :: "log_caller list"
  dl_out :: "(nat \<times> string) list"

definition NewDLogger :: "nat \<Rightarrow> int \<Rightarrow> string \<Rightarrow> bool \<Rightarrow> log_caller list \<Rightarrow> DLogger" where
  "NewDLogger w config pre useAsync calls =
     \<lparr>dl_logger = \<lparr>lg_writer = w, dateTimeConfig = config, lg_logFile = False, lg_prefix = pre\<rparr>, dl_async = useAsync,
      dl_status = DLoggerStatusStarted, dataChannel = [], dl_closed = [], dl_worker = Testing, dl_callers = calls, dl_out = []\<rparr>"

datatype log_action = CallerMoves nat | WorkerMoves | StopLogger

definition caller_moves :: "(string \<Rightarrow> string \<Rightarrow> string) \<Rightarrow> (string \<Rightarrow> int) \<Rightarrow> nat \<Rightarrow> DLogger \<Rightarrow> DLogger option" where
  "caller_moves format unix k d =
     (if k < length (dl_callers d)
      then (case dl_callers d ! k of
           Formatting level t s \<Rightarrow>
             Some (d\<lparr>dl_callers := (dl_callers d)[k := case log_line format unix level t s (dl_logger d) of
                                        Ret b \<Rightarrow> Sending b | Panic \<Rightarrow> Panicked]\<rparr>)
         | Sending b \<Rightarrow>
             (if length (dataChannel d) < 1024
              then Some (d\<lparr>dataChannel := dataChannel d @ [(k, b)],
                           dl_callers := (dl_callers d)[k := if dl_async d then Returned b else Waiting b]\<rparr>)
              else None)
         | Waiting b \<Rightarrow> (if k \<in> set (dl_closed d) then Some (d\<lparr>dl_callers := (dl_callers d)[k := Returned b]\<rparr>) else None)
         | _ \<Rightarrow> None)
      else None)"

definition worker_moves :: "DLogger \<Rightarrow> DLogger option" where
  "worker_moves d =
     (case dl_worker d of
        Testing \<Rightarrow>
          (if dl_status d < DLoggerStatusStopping then Some (d\<lparr>dl_worker := Receiving\<rparr>)
           else Some (d\<lparr>dl_status := DLoggerStatusStopped, dl_worker := Done\<rparr>))
      | Receiving \<Rightarrow>
          (case dataChannel d of [] \<Rightarrow> None | (k, b) # q \<Rightarrow> Some (d\<lparr>dataChannel := q, dl_worker := Writing k b\<rparr>))
      | Writing k b \<Rightarrow> Some (d\<lparr>dl_out := dl_out d @ [(lg_writer (dl_logger d), b)], dl_worker := Closing k\<rparr>)
      | Closing k \<Rightarrow> Some (d\<lparr>dl_closed := dl_closed d @ [k], dl_worker := Testing\<rparr>)
      | Done \<Rightarrow> None)"

definition dl_do :: "(string \<Rightarrow> string \<Rightarrow> string) \<Rightarrow> (string \<Rightarrow> int) \<Rightarrow> log_action \<Rightarrow> DLogger \<Rightarrow> DLogger option" where
  "dl_do format unix x d =
     (case x of
        CallerMoves k \<Rightarrow> caller_moves format unix k d
      | WorkerMoves \<Rightarrow> worker_moves d
      | StopLogger \<Rightarrow> Some (d\<lparr>dl_status := DLoggerStatusStopping\<rparr>))"

fun dl_run :: "(string \<Rightarrow> string \<Rightarrow> string) \<Rightarrow> (string \<Rightarrow> int) \<Rightarrow> log_action list \<Rightarrow> DLogger \<Rightarrow> DLogger option" where
  "dl_run format unix [] d = Some d"
| "dl_run format unix (x # xs) d = Option.bind (dl_do format unix x d) (dl_run format unix xs)"

section \<open>The simple logger\<close>

text \<open>\<open>None\<close> is the silent writer.\<close>

record SimpleLogger =
  sl_prefix :: string
  sl_output :: "nat option"
  sl_w :: nat
  sl_verbose :: bool

definition logger_New :: "nat \<Rightarrow> string \<Rightarrow> bool \<Rightarrow> SimpleLogger" where
  "logger_New out pre verbose =
     \<lparr>sl_prefix = pre, sl_output = (if verbose then Some out else None), sl_w = out, sl_verbose = verbose\<rparr>"

definition Verbose :: "bool \<Rightarrow> SimpleLogger \<Rightarrow> SimpleLogger" where
  "Verbose use l =
     (let toUse = use \<and> \<not> sl_verbose l; toSilent = \<not> use \<and> sl_verbose l in
      if toUse then l\<lparr>sl_output := Some (sl_w l)\<rparr> else if toSilent then l\<lparr>sl_output := None\<rparr> else l)"

definition logger_Copy :: "SimpleLogger \<Rightarrow> SimpleLogger" where
  "logger_Copy l = logger_New (sl_w l) (sl_prefix l) (sl_verbose l)"

definition AppendPrefix :: "string \<Rightarrow> SimpleLogger \<Rightarrow> SimpleLogger" where
  "AppendPrefix p l = l\<lparr>sl_prefix := sl_prefix l @ p\<rparr>"

definition WithPrefix :: "string \<Rightarrow> SimpleLogger \<Rightarrow> SimpleLogger" where
  "WithPrefix p l = AppendPrefix p (logger_Copy l)"

section \<open>Log files\<close>

text \<open>
  The files of the log directory with their bytes, in the order of their creation. A method of the \<open>nil\<close> file, which a new
  writer has, and of a closed file returns an error. \<open>create\<close> is the answer of \<open>os.Create\<close> for a new name, \<open>None\<close> for
  success; the name has the time with the monotonic clock, so it is new.
\<close>

datatype log_file = NilFile | OpenFile nat | ClosedFile

record FileWriter =
  fw_current :: log_file
  fw_logDir :: string
  fw_prefix :: string
  fw_logDataSize :: int
  fw_size :: int
  fw_files :: "string list"

text \<open>
  \<open>opened\<close> is the error of opening the directory, \<open>stat\<close> what \<open>Stat\<close> returns, and \<open>absolute\<close> the result of \<open>filepath.Abs\<close>. After an
  error of \<open>Stat\<close> the call of \<open>IsDir\<close> goes through a \<open>nil\<close> interface.
\<close>

definition NewFileWriter :: "string option \<Rightarrow> string + bool \<Rightarrow> string + string \<Rightarrow> string \<Rightarrow> string \<Rightarrow> int \<Rightarrow> (string + FileWriter) go" where
  "NewFileWriter opened stat absolute logDir filePrefix logFileSize =
     (case opened of
        Some err \<Rightarrow> Ret (Inl err)
      | None \<Rightarrow>
          (case stat of
             Inl err \<Rightarrow> Panic
           | Inr isDir \<Rightarrow>
               (if \<not> isDir then Ret (Inl (''path '' @ logDir @ '' is not a directory''))
                else (case absolute of
                     Inl err \<Rightarrow> Ret (Inl err)
                   | Inr absPath \<Rightarrow>
                       Ret (Inr \<lparr>fw_current = NilFile, fw_logDir = absPath, fw_prefix = filePrefix, fw_logDataSize = logFileSize,
                                 fw_size = 0, fw_files = []\<rparr>)))))"

definition fw_append :: "string \<Rightarrow> FileWriter \<Rightarrow> FileWriter \<times> int \<times> string option" where
  "fw_append data w =
     (case fw_current w of
        NilFile \<Rightarrow> (w, -1, Some ''invalid argument'')
      | ClosedFile \<Rightarrow> (w, -1, Some ''file already closed'')
      | OpenFile i \<Rightarrow> (w\<lparr>fw_files := (fw_files w)[i := fw_files w ! i @ data]\<rparr>, int (length data), None))"

definition handleFileSizeExceedsThreshold :: "string option \<Rightarrow> FileWriter \<Rightarrow> FileWriter \<times> string option" where
  "handleFileSizeExceedsThreshold create w =
     (case create of
        Some err \<Rightarrow> (w\<lparr>fw_current := if fw_current w = NilFile then NilFile else ClosedFile\<rparr>, Some err)
      | None \<Rightarrow> (w\<lparr>fw_current := OpenFile (length (fw_files w)), fw_size := 0, fw_files := fw_files w @ [[]]\<rparr>, None))"

definition add_size :: "string \<Rightarrow> FileWriter \<Rightarrow> FileWriter" where
  "add_size data w = w\<lparr>fw_size := fw_size w + int (length data)\<rparr>"

definition fw_write :: "string option \<Rightarrow> string \<Rightarrow> FileWriter \<Rightarrow> FileWriter \<times> (int \<times> string option) go" where
  "fw_write create data w =
     (if fw_size w + int (length data) > fw_logDataSize w
      then (case handleFileSizeExceedsThreshold create w of
           (w', Some err) \<Rightarrow> (add_size data w', Panic)
         | (w', None) \<Rightarrow> (case fw_append data w' of (w'', r) \<Rightarrow> (add_size data w'', Ret r)))
      else (case fw_append data w of (w', r) \<Rightarrow> (add_size data w', Ret r)))"

fun fw_writes :: "string list \<Rightarrow> FileWriter \<Rightarrow> FileWriter" where
  "fw_writes [] w = w"
| "fw_writes (d # ds) w = fw_writes ds (fst (fw_write None d w))"

text \<open>The tee writes to all its writers and returns 0 with the error of the last.\<close>

fun tee_Write :: "(nat \<Rightarrow> string \<Rightarrow> string option) \<Rightarrow> string \<Rightarrow> nat list \<Rightarrow> (nat \<times> string) list \<Rightarrow> string option \<Rightarrow> (nat \<times> string) list \<times> int \<times> string option" where
  "tee_Write write_err p [] out err = (out, 0, err)"
| "tee_Write write_err p (w # ws) out err = tee_Write write_err p ws (out @ [(w, p)]) (write_err w p)"

section \<open>The configuration of a line\<close>

text \<open>The settings that \<open>NewDLogger\<close> takes and the setters reach.\<close>

definition config_ok :: "int \<Rightarrow> bool" where
  "config_ok c \<longleftrightarrow> c \<in> set [0, 1, 16, 17, 256, 257, 272, 273]"

lemma config_ok_update: "config_ok (dateTimeConfig l) \<Longrightarrow> c \<in> {1, 16, 17, 256} \<Longrightarrow> config_ok (dateTimeConfig (updateDateTimeConfigWith c use l))"
  by (auto simp: config_ok_def updateDateTimeConfigWith_def)

lemma config_ok_call: "config_ok (dateTimeConfig l) \<Longrightarrow> config_ok (dateTimeConfig (builder_call x l))"
  by (cases x)
    (auto simp: SetUseDate_def SetUseTime_def SetUseTimestamp_def SetDateTimeConfig_def DateTimeConfigSet_def SetUseFileName_def SetPrefix_def
      SetWriter_def intro: config_ok_update)

lemma config_ok_calls: "config_ok (dateTimeConfig l) \<Longrightarrow> config_ok (dateTimeConfig (fold builder_call xs l))"
  by (induction xs arbitrary: l) (auto intro: config_ok_call)

lemma log_line_panics: "config_ok (dateTimeConfig l) \<Longrightarrow> log_line format unix level t s l = Panic \<longleftrightarrow> dateTimeConfig l = 0"
  by (auto simp: config_ok_def log_line_def prefixStrings_def DateTimePrefix_def dLoggerDateTimePrefixHandlerMap_def)

text \<open>
  Whatever settings are made on a logger with one of the known configurations, its configuration stays a combination of
  date, time and time stamp, and a line can be formatted unless all three are switched off: then every call panics.
  \<open>SetDateTimeConfig\<close> only adds to the configuration.
\<close>

theorem log_line_panics_iff_nothing_shown:
  assumes "config_ok (dateTimeConfig l)" and "l' = fold builder_call xs l"
  shows "config_ok (dateTimeConfig l') \<and>
    (log_line format unix level t s l' = Panic \<longleftrightarrow> dateTimeConfig l' = 0) \<and>
    dateTimeConfig (SetDateTimeConfig c l') \<ge> dateTimeConfig l'"
proof (intro conjI)
  show ok: "config_ok (dateTimeConfig l')" using assms by (simp add: config_ok_calls)
  then show "log_line format unix level t s l' = Panic \<longleftrightarrow> dateTimeConfig l' = 0" by (rule log_line_panics)
  show "dateTimeConfig (SetDateTimeConfig c l') \<ge> dateTimeConfig l'"
    using ok by (auto simp: SetDateTimeConfig_def DateTimeConfigSet_def updateDateTimeConfigWith_def config_ok_def)
qed

section \<open>The worker\<close>

fun sent_line :: "log_caller \<Rightarrow> string option" where
  "sent_line (Waiting b) = Some b"
| "sent_line (Returned b) = Some b"
| "sent_line _ = None"

definition fresh_call :: "log_caller \<Rightarrow> bool" where
  "fresh_call c \<longleftrightarrow> (case c of Formatting _ _ _ \<Rightarrow> True | _ \<Rightarrow> False)"

text \<open>The jobs in the order in which they were sent: the closed ones, the one the worker has, those in the channel.\<close>

definition worker_jobs :: "log_worker \<Rightarrow> nat list" where
  "worker_jobs w = (case w of Writing k b \<Rightarrow> [k] | Closing k \<Rightarrow> [k] | _ \<Rightarrow> [])"

definition send_order :: "DLogger \<Rightarrow> nat list" where
  "send_order d = dl_closed d @ worker_jobs (dl_worker d) @ map fst (dataChannel d)"

definition unwritten :: "DLogger \<Rightarrow> string list" where
  "unwritten d = (case dl_worker d of Writing k b \<Rightarrow> [b] | _ \<Rightarrow> []) @ map snd (dataChannel d)"

definition dl_ok :: "DLogger \<Rightarrow> bool" where
  "dl_ok d \<longleftrightarrow> distinct (send_order d) \<and> length (dataChannel d) \<le> 1024 \<and>
     (\<forall>k. k \<in> set (send_order d) \<longleftrightarrow> k < length (dl_callers d) \<and> sent_line (dl_callers d ! k) \<noteq> None) \<and>
     map (\<lambda>k. sent_line (dl_callers d ! k)) (send_order d) = map Some (map snd (dl_out d) @ unwritten d) \<and>
     (\<not> dl_async d \<longrightarrow> (\<forall>k b. k < length (dl_callers d) \<longrightarrow> dl_callers d ! k = Returned b \<longrightarrow> k \<in> set (dl_closed d)))"

lemma fresh_call_unsent: "fresh_call c \<Longrightarrow> sent_line c = None" "fresh_call c \<Longrightarrow> c \<noteq> Returned b"
  by (auto simp: fresh_call_def split: log_caller.splits)

lemma dl_ok_New: "list_all fresh_call calls \<Longrightarrow> dl_ok (NewDLogger w c p a calls)"
  by (auto simp: dl_ok_def NewDLogger_def send_order_def worker_jobs_def unwritten_def list_all_length fresh_call_unsent)

text \<open>A step of the worker moves a job along the order and changes neither order nor lines.\<close>

lemma worker_moves_order:
  assumes "worker_moves d = Some d'"
  shows "send_order d' = send_order d" "map snd (dl_out d') @ unwritten d' = map snd (dl_out d) @ unwritten d"
    "dl_callers d' = dl_callers d" "dl_async d' = dl_async d" "set (dl_closed d) \<subseteq> set (dl_closed d')"
    "length (dataChannel d') \<le> length (dataChannel d)" "dl_worker d = Done \<Longrightarrow> False"
  using assms by (auto simp: worker_moves_def send_order_def worker_jobs_def unwritten_def split: log_worker.splits list.splits if_splits)

lemma dl_ok_worker: "worker_moves d = Some d' \<Longrightarrow> dl_ok d \<Longrightarrow> dl_ok d'"
  using worker_moves_order [of d d'] unfolding dl_ok_def by (auto simp del: map_append)

text \<open>A caller that changes its state but not its line.\<close>

lemma dl_ok_caller:
  assumes "dl_ok d" and "k < length (dl_callers d)" and "sent_line c = sent_line (dl_callers d ! k)"
    and "\<And>b. c = Returned b \<Longrightarrow> dl_callers d ! k = Returned b \<or> k \<in> set (dl_closed d)"
  shows "dl_ok (d\<lparr>dl_callers := (dl_callers d)[k := c]\<rparr>)"
proof -
  have same: "sent_line ((dl_callers d)[k := c] ! j) = sent_line (dl_callers d ! j)" for j
    using assms(2,3) by (cases "j = k") auto
  have ret: "j \<in> set (dl_closed d)" if "\<not> dl_async d" "j < length (dl_callers d)" "(dl_callers d)[k := c] ! j = Returned b" for j b
    using assms(1,2) assms(4) [of b] that unfolding dl_ok_def by (cases "j = k") auto
  show ?thesis using assms(1) ret unfolding dl_ok_def by (simp add: send_order_def unwritten_def same)
qed

lemma dl_ok_send:
  assumes "dl_ok d" and "k < length (dl_callers d)" and "dl_callers d ! k = Sending b" and "length (dataChannel d) < 1024"
  shows "dl_ok (d\<lparr>dataChannel := dataChannel d @ [(k, b)],
                  dl_callers := (dl_callers d)[k := if dl_async d then Returned b else Waiting b]\<rparr>)"
proof -
  let ?cs = "(dl_callers d)[k := if dl_async d then Returned b else Waiting b]"
  have new: "k \<notin> set (send_order d)" using assms(1,3) unfolding dl_ok_def by auto
  have line: "sent_line (?cs ! j) = (if j = k then Some b else sent_line (dl_callers d ! j))" for j
    using assms(2) by auto
  have ord: "send_order (d\<lparr>dataChannel := dataChannel d @ [(k, b)], dl_callers := ?cs\<rparr>) = send_order d @ [k]"
    by (simp add: send_order_def)
  have unw: "unwritten (d\<lparr>dataChannel := dataChannel d @ [(k, b)], dl_callers := ?cs\<rparr>) = unwritten d @ [b]"
    by (simp add: unwritten_def)
  have lines: "map (\<lambda>j. sent_line (?cs ! j)) (send_order d) = map (\<lambda>j. sent_line (dl_callers d ! j)) (send_order d)"
    using new by (intro map_cong) (auto simp: line)
  have ret: "j \<in> set (dl_closed d)" if "\<not> dl_async d" "j < length (dl_callers d)" "?cs ! j = Returned c" for j c
    using assms(1,2) that unfolding dl_ok_def by (cases "j = k") auto
  show ?thesis
    using assms(1,2,4) new lines ret unfolding dl_ok_def ord unw by (auto simp: line)
qed

lemma dl_ok_caller_moves:
  assumes "caller_moves format unix k d = Some d'" and "dl_ok d"
  shows "dl_ok d'"
proof -
  have k: "k < length (dl_callers d)" using assms(1) by (simp add: caller_moves_def split: if_splits)
  show ?thesis
  proof (cases "dl_callers d ! k")
    case (Formatting level t s)
    then show ?thesis
      using assms k by (cases "log_line format unix level t s (dl_logger d)") (auto simp: caller_moves_def intro!: dl_ok_caller)
  next
    case (Sending b)
    then show ?thesis
      using assms k dl_ok_send [OF assms(2) k Sending] by (simp add: caller_moves_def split: if_split_asm)
  next
    case (Waiting b)
    then show ?thesis
      using assms k by (auto simp: caller_moves_def intro!: dl_ok_caller split: if_split_asm)
  qed (use assms k in \<open>auto simp: caller_moves_def\<close>)
qed

lemma dl_ok_status: "dl_ok (d\<lparr>dl_status := n\<rparr>) = dl_ok d"
  by (simp add: dl_ok_def send_order_def unwritten_def)

lemma dl_ok_do:
  assumes "dl_do format unix x d = Some d'" and "dl_ok d"
  shows "dl_ok d'"
proof (cases x)
  case (CallerMoves k)
  then show ?thesis using assms dl_ok_caller_moves [of format unix k d d'] by (simp add: dl_do_def)
next
  case WorkerMoves
  then show ?thesis using assms dl_ok_worker [of d d'] by (simp add: dl_do_def)
next
  case StopLogger
  then show ?thesis using assms dl_ok_status by (auto simp: dl_do_def)
qed

lemma dl_ok_run: "dl_run format unix xs d = Some d' \<Longrightarrow> dl_ok d \<Longrightarrow> dl_ok d'"
  by (induction xs arbitrary: d) (auto simp: bind_eq_Some_conv dest: dl_ok_do)

text \<open>
  In every interleaving of callers, worker and \<open>stop\<close>: there is an order of the lines that were sent in which the lines that
  were written come first, each exactly once and in this order; at most 1025 lines are sent and not written; and a call of a
  synchronous logger returns only when its line has been written.
\<close>

theorem log_lines_are_written_in_order:
  assumes "list_all fresh_call calls" and "dl_run format unix xs (NewDLogger w c p a calls) = Some d"
  shows "\<exists>ord. distinct ord \<and> (\<forall>k. k \<in> set ord \<longleftrightarrow> k < length (dl_callers d) \<and> sent_line (dl_callers d ! k) \<noteq> None) \<and>
    map (\<lambda>k. sent_line (dl_callers d ! k)) (take (length (dl_out d)) ord) = map (\<lambda>(_, b). Some b) (dl_out d) \<and>
    length ord \<le> length (dl_out d) + 1025 \<and>
    (\<not> dl_async d \<longrightarrow> (\<forall>k b. k < length (dl_callers d) \<longrightarrow> dl_callers d ! k = Returned b \<longrightarrow> k \<in> set (take (length (dl_out d)) ord)))"
proof -
  have ok: "dl_ok d" using dl_ok_run [OF assms(2) dl_ok_New [OF assms(1)]] .
  have lines: "map (\<lambda>k. sent_line (dl_callers d ! k)) (send_order d) = map Some (map snd (dl_out d) @ unwritten d)"
    using ok unfolding dl_ok_def by blast
  have len: "length (send_order d) = length (dl_out d) + length (unwritten d)"
    using arg_cong [OF lines, of length] by simp
  have few: "length (unwritten d) \<le> 1025" using ok unfolding dl_ok_def unwritten_def by (auto split: log_worker.split)
  have written: "map (\<lambda>k. sent_line (dl_callers d ! k)) (take (length (dl_out d)) (send_order d)) = map (\<lambda>(_, b). Some b) (dl_out d)"
    using arg_cong [OF lines, of "take (length (dl_out d))"] by (simp add: take_map case_prod_beta)
  have "length (unwritten d) \<le> length (worker_jobs (dl_worker d) @ map fst (dataChannel d))"
    by (simp add: unwritten_def worker_jobs_def split: log_worker.split)
  then have "length (dl_closed d) \<le> length (dl_out d)" using len by (simp add: send_order_def)
  then have "set (dl_closed d) \<subseteq> set (take (length (dl_out d)) (send_order d))" by (auto simp: send_order_def)
  moreover have "k \<in> set (dl_closed d)" if "\<not> dl_async d" "k < length (dl_callers d)" "dl_callers d ! k = Returned b" for k b
    using ok that unfolding dl_ok_def by blast
  ultimately have returned: "\<not> dl_async d \<longrightarrow> (\<forall>k b. k < length (dl_callers d) \<longrightarrow> dl_callers d ! k = Returned b \<longrightarrow>
      k \<in> set (take (length (dl_out d)) (send_order d)))" by blast
  have "distinct (send_order d)" "\<forall>k. k \<in> set (send_order d) \<longleftrightarrow> k < length (dl_callers d) \<and> sent_line (dl_callers d ! k) \<noteq> None"
    using ok unfolding dl_ok_def by blast+
  with written returned len few show ?thesis by (intro exI [of _ "send_order d"]) simp
qed

lemma stopped_logger_step:
  assumes "dl_do format unix x d = Some d'" and "dl_worker d = Done" and "\<not> dl_async d" and "k \<notin> set (dl_closed d)"
    and "k < length (dl_callers d)" and "\<forall>b. dl_callers d ! k \<noteq> Returned b"
  shows "dl_worker d' = Done \<and> \<not> dl_async d' \<and> k \<notin> set (dl_closed d') \<and> k < length (dl_callers d') \<and> (\<forall>b. dl_callers d' ! k \<noteq> Returned b)"
  using assms
  by (cases x) (auto simp: dl_do_def worker_moves_def caller_moves_def nth_list_update split: if_splits log_caller.splits go.splits)

lemma stopped_logger_run:
  assumes "dl_run format unix xs d = Some d'" and "dl_worker d = Done" and "\<not> dl_async d" and "k \<notin> set (dl_closed d)"
    and "k < length (dl_callers d)" and "\<forall>b. dl_callers d ! k \<noteq> Returned b"
  shows "\<forall>b. dl_callers d' ! k \<noteq> Returned b"
  using assms
proof (induction xs arbitrary: d)
  case (Cons x xs)
  then obtain d1 where "dl_do format unix x d = Some d1" "dl_run format unix xs d1 = Some d'" by (auto simp: bind_eq_Some_conv)
  with stopped_logger_step [OF this(1) Cons.prems(2-6)] show ?case by (intro Cons.IH) auto
qed simp

text \<open>
  After the worker of a synchronous logger has ended, a call whose line was not written before never returns, whatever
  happens: it waits for a channel that nobody closes, or for room in a channel that nobody reads. And \<open>stop\<close> does not end a
  worker that waits for a line: it writes one more first.
\<close>

theorem stopped_logger_blocks_callers:
  assumes "list_all fresh_call calls" and "dl_run format unix xs (NewDLogger w c p False calls) = Some d" and "dl_worker d = Done"
    and "k < length calls" and "k \<notin> set (dl_closed d)" and "dl_run format unix ys d = Some d'"
  shows "\<forall>b. dl_callers d' ! k \<noteq> Returned b"
proof -
  have async: "dl_async e' = dl_async e \<and> length (dl_callers e') = length (dl_callers e)" if "dl_run format unix zs e = Some e'" for zs and e e'
    using that
    by (induction zs arbitrary: e)
      (fastforce simp: bind_eq_Some_conv dl_do_def worker_moves_def caller_moves_def
        split: if_splits log_caller.splits log_worker.splits list.splits log_action.splits)+
  have "\<not> dl_async d" "k < length (dl_callers d)" using async [OF assms(2)] assms(4) by (auto simp: NewDLogger_def)
  moreover have "dl_ok d" using dl_ok_run [OF assms(2) dl_ok_New [OF assms(1)]] .
  then have "\<forall>b. dl_callers d ! k \<noteq> Returned b" using assms(5) calculation unfolding dl_ok_def by blast
  ultimately show ?thesis using stopped_logger_run [OF assms(6,3)] assms(5) by blast
qed

lemma worker_serves_one:
  assumes "dl_worker d = Testing" and "dl_status d < DLoggerStatusStopping" and "dataChannel d = (k, b) # q"
  shows "dl_run format unix (replicate 4 WorkerMoves) d =
    Some (d\<lparr>dataChannel := q, dl_out := dl_out d @ [(lg_writer (dl_logger d), b)], dl_closed := dl_closed d @ [k]\<rparr>)"
  using assms by (simp add: numeral_eq_Suc dl_do_def worker_moves_def)

lemma dl_run_append: "dl_run format unix (xs @ ys) d = Option.bind (dl_run format unix xs d) (dl_run format unix ys)"
  by (induction xs arbitrary: d) (auto simp: bind_assoc intro!: bind_option_cong)

text \<open>While the logger is running, four steps of the worker for each line write the whole channel and release its callers.\<close>

theorem running_logger_writes_everything:
  assumes "dl_worker d = Testing" and "dl_status d < DLoggerStatusStopping"
  shows "dl_run format unix (replicate (4 * length (dataChannel d)) WorkerMoves) d =
    Some (d\<lparr>dataChannel := [], dl_out := dl_out d @ map (\<lambda>(k, b). (lg_writer (dl_logger d), b)) (dataChannel d),
            dl_closed := dl_closed d @ map fst (dataChannel d)\<rparr>)"
  using assms
proof (induction "dataChannel d" arbitrary: d)
  case (Cons j q)
  obtain k b where j: "j = (k, b)" by (cases j)
  let ?d = "d\<lparr>dataChannel := q, dl_out := dl_out d @ [(lg_writer (dl_logger d), b)], dl_closed := dl_closed d @ [k]\<rparr>"
  have "dl_run format unix (replicate (4 * length q) WorkerMoves) ?d =
    Some (?d\<lparr>dataChannel := [], dl_out := dl_out ?d @ map (\<lambda>(k, b). (lg_writer (dl_logger d), b)) q, dl_closed := dl_closed ?d @ map fst q\<rparr>)"
    using Cons.hyps(1) [of ?d] Cons.prems by simp
  moreover have "replicate (4 * length (dataChannel d)) WorkerMoves = replicate 4 WorkerMoves @ replicate (4 * length q) WorkerMoves"
    using Cons.hyps(2) [symmetric] by (simp flip: replicate_add)
  ultimately show ?case
    using worker_serves_one [of d k b q format unix] Cons.hyps(2) [symmetric] Cons.prems by (simp add: j dl_run_append)
qed simp

section \<open>The log files\<close>

definition data_size :: "string list \<Rightarrow> int" where
  "data_size ds = int (length (concat ds))"

text \<open>Before the first file there is nothing but a count, afterwards the count is the size of the last file.\<close>

definition fw_without_file :: "string list \<Rightarrow> FileWriter \<Rightarrow> bool" where
  "fw_without_file ds w \<longleftrightarrow> fw_current w = NilFile \<and> fw_files w = [] \<and> fw_size w = data_size ds \<and> data_size ds \<le> fw_logDataSize w"

definition fw_with_file :: "string list \<Rightarrow> FileWriter \<Rightarrow> bool" where
  "fw_with_file ds w \<longleftrightarrow> fw_files w \<noteq> [] \<and> fw_current w = OpenFile (length (fw_files w) - 1) \<and>
     fw_size w = int (length (last (fw_files w))) \<and> concat (fw_files w) = concat ds \<and>
     (\<forall>f \<in> set (fw_files w). int (length f) \<le> fw_logDataSize w \<or> f \<in> set ds)"

lemma concat_append_last: "xs \<noteq> [] \<Longrightarrow> concat (xs[length xs - 1 := last xs @ d]) = concat xs @ d"
  by (induction xs rule: rev_induct) auto

lemma write_with_file:
  assumes "fw_with_file ds w"
  shows "fw_with_file (ds @ [d]) (fst (fw_write None d w)) \<and> fw_logDataSize (fst (fw_write None d w)) = fw_logDataSize w \<and>
    snd (fw_write None d w) = Ret (int (length d), None)"
proof -
  let ?i = "length (fw_files w) - 1"
  have ne: "fw_files w \<noteq> []" using assms by (simp add: fw_with_file_def)
  have at: "fw_files w ! ?i = last (fw_files w)" using ne by (simp add: last_conv_nth)
  show ?thesis
  proof (cases "fw_size w + int (length d) > fw_logDataSize w")
    case True
    then show ?thesis
      using assms by (auto simp: fw_write_def handleFileSizeExceedsThreshold_def fw_append_def add_size_def fw_with_file_def)
  next
    case False
    have upd: "last ((fw_files w)[?i := last (fw_files w) @ d]) = last (fw_files w) @ d" using ne by (simp add: last_conv_nth)
    have small: "int (length (last (fw_files w) @ d)) \<le> fw_logDataSize w" using False assms by (simp add: fw_with_file_def)
    have "int (length f) \<le> fw_logDataSize w \<or> f \<in> set (ds @ [d])" if "f \<in> set ((fw_files w)[?i := last (fw_files w) @ d])" for f
      using set_update_subset_insert [of "fw_files w" ?i "last (fw_files w) @ d"] that small assms by (auto simp: fw_with_file_def)
    then show ?thesis
      using assms False ne upd at concat_append_last [OF ne, of d] by (simp add: fw_write_def fw_append_def add_size_def fw_with_file_def)
  qed
qed

lemma write_without_file:
  assumes "fw_without_file ds w"
  shows "fw_logDataSize (fst (fw_write None d w)) = fw_logDataSize w \<and>
    (if data_size (ds @ [d]) \<le> fw_logDataSize w then fw_without_file (ds @ [d]) (fst (fw_write None d w))
     else fw_with_file [d] (fst (fw_write None d w)))"
  using assms
  by (auto simp: fw_write_def handleFileSizeExceedsThreshold_def fw_append_def add_size_def fw_with_file_def fw_without_file_def data_size_def)

lemma writes_with_file: "fw_with_file ds w \<Longrightarrow> fw_with_file (ds @ es) (fw_writes es w) \<and> fw_logDataSize (fw_writes es w) = fw_logDataSize w"
proof (induction es arbitrary: ds w)
  case (Cons e es)
  then show ?case using Cons.IH [of "ds @ [e]" "fst (fw_write None e w)"] write_with_file [of ds w e] by simp
qed simp

lemma writes_without_file:
  assumes "fw_without_file ds w"
  shows "(fw_without_file (ds @ es) (fw_writes es w) \<or>
      (\<exists>m < length es. data_size (ds @ take m es) \<le> fw_logDataSize w \<and> data_size (ds @ take (Suc m) es) > fw_logDataSize w \<and>
        fw_with_file (drop m es) (fw_writes es w))) \<and> fw_logDataSize (fw_writes es w) = fw_logDataSize w"
  using assms
proof (induction es arbitrary: ds w)
  case (Cons e es)
  let ?w = "fst (fw_write None e w)"
  have lim: "fw_logDataSize ?w = fw_logDataSize w" using write_without_file [OF Cons.prems, of e] by simp
  show ?case
  proof (cases "data_size (ds @ [e]) \<le> fw_logDataSize w")
    case True
    then have "fw_without_file (ds @ [e]) ?w" using write_without_file [OF Cons.prems, of e] by simp
    from Cons.IH [OF this] show ?thesis
    proof (elim conjE disjE exE)
      fix m assume "m < length es" "data_size ((ds @ [e]) @ take m es) \<le> fw_logDataSize ?w"
        "data_size ((ds @ [e]) @ take (Suc m) es) > fw_logDataSize ?w" "fw_with_file (drop m es) (fw_writes es ?w)"
        "fw_logDataSize (fw_writes es ?w) = fw_logDataSize ?w"
      then show ?thesis using lim by (auto intro!: exI [of _ "Suc m"])
    qed (simp add: lim)
  next
    case False
    then have "fw_with_file [e] ?w" using write_without_file [OF Cons.prems, of e] by simp
    from writes_with_file [OF this, of es] show ?thesis
      using False Cons.prems lim by (auto intro!: exI [of _ 0] simp: fw_without_file_def)
  qed
qed simp

text \<open>
  What is in the log files of a new writer after any writes: a first part of the data that fits into the size limit is lost,
  because a new writer has no file yet; everything after it is in the files, in order and without a gap, and no file is
  larger than the limit unless it holds a single piece of data.
\<close>

theorem log_files_hold_the_rest:
  assumes "NewFileWriter opened stat absolute logDir filePrefix n = Ret (Inr w)" and "0 \<le> n"
  shows "\<exists>m \<le> length ds. concat (fw_files (fw_writes ds w)) = concat (drop m ds) \<and> data_size (take m ds) \<le> n \<and>
    (m < length ds \<longrightarrow> data_size (take (Suc m) ds) > n) \<and>
    (\<forall>f \<in> set (fw_files (fw_writes ds w)). int (length f) \<le> n \<or> f \<in> set (drop m ds))"
proof -
  have new: "fw_without_file [] w" "fw_logDataSize w = n"
    using assms by (auto simp: NewFileWriter_def fw_without_file_def data_size_def split: option.splits sum.splits if_splits)
  from writes_without_file [OF new(1), of ds] show ?thesis
  proof (elim conjE disjE exE)
    assume "fw_without_file ([] @ ds) (fw_writes ds w)" "fw_logDataSize (fw_writes ds w) = fw_logDataSize w"
    then show ?thesis using new(2) by (intro exI [of _ "length ds"]) (simp add: fw_without_file_def)
  next
    fix m assume "m < length ds" "data_size ([] @ take m ds) \<le> fw_logDataSize w" "data_size ([] @ take (Suc m) ds) > fw_logDataSize w"
      "fw_with_file (drop m ds) (fw_writes ds w)" "fw_logDataSize (fw_writes ds w) = fw_logDataSize w"
    then show ?thesis using new(2) by (intro exI [of _ m]) (simp add: fw_with_file_def)
  qed
qed

section \<open>The simple logger and the tee\<close>

text \<open>
  \<open>Verbose\<close> does not record what it did: a verbose logger that was silenced cannot be switched on again, while a copy of it
  writes; and a quiet logger that was switched on cannot be silenced.
\<close>

theorem silenced_logger_stays_silent:
  "sl_output (Verbose True (Verbose False (logger_New w p True))) = None \<and>
   sl_output (WithPrefix q (Verbose False (logger_New w p True))) = Some w \<and>
   sl_output (Verbose False (Verbose True (logger_New w p False))) = Some w \<and>
   sl_prefix (WithPrefix q (logger_New w p v)) = p @ q"
  by (simp add: Verbose_def logger_New_def WithPrefix_def AppendPrefix_def logger_Copy_def)

lemma tee_Write_all:
  "fst (tee_Write write_err p ws out err) = out @ map (\<lambda>w. (w, p)) ws"
  "snd (tee_Write write_err p ws out err) = (0, if ws = [] then err else write_err (last ws) p)"
  by (induction ws arbitrary: out err) auto

text \<open>The tee hands the data to every writer and hides the errors of all but the last.\<close>

theorem tee_reports_last_writer:
  "tee_Write write_err p (ws @ [w]) out None = (out @ map (\<lambda>v. (v, p)) (ws @ [w]), 0, write_err w p)"
  by (rule prod_eqI) (simp_all add: tee_Write_all)

section \<open>Witnesses\<close>

definition sample_logger :: Logger where
  "sample_logger = \<lparr>lg_writer = 0, dateTimeConfig = 17, lg_logFile = False, lg_prefix = ''p''\<rparr>"

theorem log_line_panics_iff_nothing_shown_witness:
  "log_line (\<lambda>f t. t) (\<lambda>_. 0) 1 ''now'' [''x''] (fold builder_call [LogDate False, LogTime False] sample_logger) = Panic"
  using log_line_panics_iff_nothing_shown [of sample_logger "fold builder_call [LogDate False, LogTime False] sample_logger"
      "[LogDate False, LogTime False]" "\<lambda>f t. t" "\<lambda>_. 0" 1 "''now''" "[''x'']" 16]
  by (simp add: sample_logger_def config_ok_def SetUseDate_def SetUseTime_def updateDateTimeConfigWith_def)

definition sample_calls :: "log_caller list" where
  "sample_calls = [Formatting 1 ''now'' [''x''], Formatting 2 ''now'' [''y'']]"

definition sample_run :: "log_action list \<Rightarrow> DLogger" where
  "sample_run xs = the (dl_run (\<lambda>f t. t) (\<lambda>_. 0) xs (NewDLogger 0 17 [] False sample_calls))"

theorem log_lines_are_written_in_order_witness:
  "\<exists>ord :: nat list. distinct ord \<and> length ord \<le> length (dl_out (sample_run [CallerMoves 1, CallerMoves 1])) + 1025"
proof -
  have fresh: "list_all fresh_call sample_calls" by code_simp
  have run: "dl_run (\<lambda>f t. t) (\<lambda>_. 0) [CallerMoves 1, CallerMoves 1] (NewDLogger 0 17 [] False sample_calls) =
    Some (sample_run [CallerMoves 1, CallerMoves 1])"
    by code_simp
  from log_lines_are_written_in_order [OF fresh run] show ?thesis by blast
qed

theorem stopped_logger_blocks_callers_witness:
  "\<forall>b. dl_callers (sample_run [StopLogger, WorkerMoves, CallerMoves 0, CallerMoves 0]) ! 0 \<noteq> Returned b"
proof -
  have "list_all fresh_call sample_calls" by code_simp
  moreover have "dl_run (\<lambda>f t. t) (\<lambda>_. 0) [StopLogger, WorkerMoves] (NewDLogger 0 17 [] False sample_calls) =
    Some (sample_run [StopLogger, WorkerMoves])" by code_simp
  moreover have "dl_worker (sample_run [StopLogger, WorkerMoves]) = Done" "0 < length sample_calls" "0 \<notin> set (dl_closed (sample_run [StopLogger, WorkerMoves]))"
    by code_simp+
  moreover have "dl_run (\<lambda>f t. t) (\<lambda>_. 0) [CallerMoves 0, CallerMoves 0] (sample_run [StopLogger, WorkerMoves]) =
    Some (sample_run [StopLogger, WorkerMoves, CallerMoves 0, CallerMoves 0])" by code_simp
  ultimately show ?thesis
    by (rule stopped_logger_blocks_callers [of sample_calls "\<lambda>f t. t" "\<lambda>_. 0" "[StopLogger, WorkerMoves]" 0 17 "[]"])
qed

theorem running_logger_writes_everything_witness:
  "dl_out (the (dl_run (\<lambda>f t. t) (\<lambda>_. 0) (replicate 4 WorkerMoves) (sample_run [CallerMoves 0, CallerMoves 0]))) =
     [(0, ''now [INFO] x'' @ [CHR 0x0A])]"
proof -
  have s: "dl_worker (sample_run [CallerMoves 0, CallerMoves 0]) = Testing" "dl_status (sample_run [CallerMoves 0, CallerMoves 0]) < DLoggerStatusStopping"
    "dataChannel (sample_run [CallerMoves 0, CallerMoves 0]) = [(0, ''now [INFO] x'' @ [CHR 0x0A])]"
    "dl_out (sample_run [CallerMoves 0, CallerMoves 0]) = []" "lg_writer (dl_logger (sample_run [CallerMoves 0, CallerMoves 0])) = 0"
    by code_simp+
  show ?thesis using running_logger_writes_everything [OF s(1,2), of "\<lambda>f t. t" "\<lambda>_. 0"] by (simp add: s)
qed

theorem log_files_hold_the_rest_witness:
  "\<exists>w m. NewFileWriter None (Inr True) (Inr ''logs'') ''logs'' ''hub'' 4 = Ret (Inr w) \<and>
     concat (fw_files (fw_writes [''abc'', ''de'', ''fg''] w)) = concat (drop m [''abc'', ''de'', ''fg''])"
proof -
  obtain w where w: "NewFileWriter None (Inr True) (Inr ''logs'') ''logs'' ''hub'' 4 = Ret (Inr w)" by (simp add: NewFileWriter_def)
  have "(0::int) \<le> 4" by simp
  from log_files_hold_the_rest [OF w this, of "[''abc'', ''de'', ''fg'']"] w show ?thesis by blast
qed

end
