(* ===== verification/ClientServices.thy ===== *)
theory ClientServices
  imports HubClientFacts Files
begin

text \<open>
  The file service and the HTTP service of the client, \<open>FileService.go\<close> and \<open>HTTPClientService.go\<close> of
  \<open>src/hub_client/services\<close>, with the decoding side of \<open>src/hub_common/http/HTTPRequest.go\<close>.

  The handlers get what they call as a record: the identity of the client, the file controller with the file system, the
  JSON coders, \<open>http.NewRequest\<close> (which returns an error or the path of the parsed url), and the HTTP client with its
  responses of type \<open>'q\<close>. \<open>ce_range\<close> is the order in which a loop visits a map of query parameters.
\<close>

section \<open>Handlers\<close>

record 'q client_env =
  ce_identity :: RoleDescriptor
  ce_dirSize :: int
  ce_files :: FileController
  ce_fs :: file_system
  ce_marshalInfos :: "FileInfo list \<Rightarrow> string + string"
  ce_unmarshal :: "string \<Rightarrow> string + WHttpRequest"
  ce_newRequest :: "string \<Rightarrow> string \<Rightarrow> string + string"
  ce_range :: "(string \<rightharpoonup> string) \<Rightarrow> (string \<times> string) list"
  ce_request :: "http_request \<Rightarrow> 'q"
  ce_marshalResponse :: "'q \<Rightarrow> string + string"

definition resolve_text :: "ServiceRequest \<times> req_error option go \<Rightarrow> ServiceRequest \<times> string option go" where
  "resolve_text x = (fst x, bind_go (snd x) (\<lambda>e. Ret (map_option (\<lambda>_. ''can not Resolve a non-processing ServiceRequest'') e)))"

definition param :: "(string \<rightharpoonup> string) \<Rightarrow> string \<Rightarrow> string" where
  "param ps k = (case ps k of None \<Rightarrow> [] | Some v \<Rightarrow> v)"

definition FileServiceID :: string where "FileServiceID = ''file''"
definition FileServiceRouteGet :: string where "FileServiceRouteGet = ''/get/:fileName''"
definition FileServiceRouteListAll :: string where "FileServiceRouteListAll = ''/files''"
definition FileServicePath :: string where "FileServicePath = ''fs''"
definition FileServiceSectionSize :: int where "FileServiceSectionSize = 1024 * 10"

text \<open>The routes are visited in the order \<open>listFirst\<close> says; the controller is made before they are registered.\<close>

definition file_Init :: "'w net_env \<Rightarrow> string + string \<Rightarrow> string option \<Rightarrow> bool \<Rightarrow> RoleDescriptor \<Rightarrow> RelayServiceClient option \<Rightarrow> (nat \<Rightarrow> ServiceRequest) \<Rightarrow>
    int \<Rightarrow> RoleDescriptor \<Rightarrow> file_system \<Rightarrow> 'w \<Rightarrow> (client_fn ClientService \<times> file_system \<times> (string + FileController) \<times> 'w) go" where
  "file_Init E cwd mkdir listFirst identity smClient reqs now server fs w =
     (let s = NewClientService identity smClient reqs now FileServiceID ''file server'' ServiceAccessTypeBoth ServiceExecutionSync server in
      case NewFileController cwd mkdir (''./'' @ FileServicePath) FileServiceSectionSize fs of
        (fs', Inl err) \<Rightarrow> Ret (s, fs', Inl err, w)
      | (fs', Inr c) \<Rightarrow>
          (let get = (MessageTypeServiceGetRequest, FileServiceRouteGet, FnFileGet);
               ls = (MessageTypeServiceGetRequest, FileServiceRouteListAll, FnFileList) in
           bind_go (InitHandlers E (if listFirst then [ls, get] else [get, ls]) s w) (\<lambda>(s', err, w').
             Ret (s', fs', case err of None \<Rightarrow> Inr c | Some e \<Rightarrow> Inl e, w'))))"

definition file_Get :: "'q client_env \<Rightarrow> ServiceRequest \<Rightarrow> params \<Rightarrow> params \<Rightarrow> ServiceRequest \<times> string option go" where
  "file_Get C r pathParams queryParams =
     (let path = param pathParams ''fileName'' in
      if path = []
      then (case cs_ResolveByError (ce_identity C) r MessageTypeSvcBadRequestError ''invalid path'' of
          (r', res) \<Rightarrow> (r', bind_go res (\<lambda>x. Ret (case x of Inl err \<Rightarrow> Some err
                                                  | Inr e \<Rightarrow> map_option (\<lambda>_. ''can not Resolve a non-processing ServiceRequest'') e))))
      else (case fc_GetFile (ce_dirSize C) (ce_files C) (ce_fs C) path of
          Inl err \<Rightarrow> (r, Ret (Some err))
        | Inr data \<Rightarrow> resolve_text (cs_ResolveByResponse (ce_identity C) r data)))"

definition file_List :: "'q client_env \<Rightarrow> ServiceRequest \<Rightarrow> params \<Rightarrow> params \<Rightarrow> ServiceRequest \<times> string option go" where
  "file_List C r pathParams queryParams =
     (case fc_List (ce_dirSize C) (ce_files C) (ce_fs C) ''.'' of
        Inl err \<Rightarrow> (r, Ret (Some err))
      | Inr stats \<Rightarrow>
          (case ce_marshalInfos C stats of
             Inl err \<Rightarrow> (r, Ret (Some err))
           | Inr marshalled \<Rightarrow> resolve_text (cs_ResolveByResponse (ce_identity C) r marshalled)))"

section \<open>The HTTP service\<close>

definition HTTPClientServiceId :: string where "HTTPClientServiceId = ''http''"
definition HTTPClientServiceRouteEcho :: string where "HTTPClientServiceRouteEcho = ''/*path''"

definition http_Init :: "'w net_env \<Rightarrow> RoleDescriptor \<Rightarrow> RelayServiceClient option \<Rightarrow> (nat \<Rightarrow> ServiceRequest) \<Rightarrow> int \<Rightarrow> RoleDescriptor \<Rightarrow> 'w \<Rightarrow>
    (client_fn ClientService \<times> string option \<times> 'w) go" where
  "http_Init E identity smClient reqs now server w =
     InitHandlers E [(MessageTypeServiceGetRequest, HTTPClientServiceRouteEcho, FnHttpRequest)]
       (NewClientService identity smClient reqs now HTTPClientServiceId ''simply echo messages'' ServiceAccessTypeBoth ServiceExecutionSync server) w"

definition local_server :: string where "local_server = ''http://localhost:8888/''"

definition assembleRequestUrl :: "string \<Rightarrow> (string \<times> string) list \<Rightarrow> string" where
  "assembleRequestUrl path qParams =
     (let b = local_server @ path in
      if qParams = [] then b
      else butlast (b @ ''?'' @ concat (map (\<lambda>(k, v). k @ ''='' @ v @ ''&'') qParams)))"

text \<open>\<open>http.NewRequest\<close> reads the empty method as \<open>GET\<close>.\<close>

definition FromWHTTPRequest :: "(string \<Rightarrow> string \<Rightarrow> string + string) \<Rightarrow> string \<Rightarrow> WHttpRequest \<Rightarrow> string + http_request" where
  "FromWHTTPRequest newRequest target r =
     (case newRequest (wh_Method r) target of
        Inl err \<Rightarrow> Inl err
      | Inr path \<Rightarrow>
          Inr \<lparr>hr_method = (if wh_Method r = [] then ''GET'' else wh_Method r), hr_path = path, hr_url = target, hr_remote = wh_RemoteAddr r,
               hr_headers = wh_Header r, hr_body = Inr (wh_Body r)\<rparr>)"

definition http_Request :: "'q client_env \<Rightarrow> ServiceRequest \<Rightarrow> params \<Rightarrow> params \<Rightarrow> ServiceRequest \<times> string option go" where
  "http_Request C r pathParams queryParams =
     (case ce_unmarshal C (payload (sr_message r)) of
        Inl err \<Rightarrow> (r, Ret (Some err))
      | Inr whr \<Rightarrow>
          (let path = assembleRequestUrl (param pathParams ''path'') (ce_range C queryParams) in
           case FromWHTTPRequest (ce_newRequest C) path whr of
             Inl err \<Rightarrow> (r, Ret (Some err))
           | Inr httpRequest \<Rightarrow>
               (case ce_marshalResponse C (ce_request C httpRequest) of
                  Inl err \<Rightarrow> (r, Ret (Some err))
                | Inr marshalled \<Rightarrow>
                    (case cs_ResolveByResponse (ce_identity C) r marshalled of (r', res) \<Rightarrow> (r', bind_go res (\<lambda>_. Ret None))))))"

definition client_call :: "'q client_env \<Rightarrow> client_fn caller" where
  "client_call C f r ps qs =
     (case f of FnEcho \<Rightarrow> Echo (ce_identity C) r | FnFileGet \<Rightarrow> file_Get C r ps qs | FnFileList \<Rightarrow> file_List C r ps qs
      | FnHttpRequest \<Rightarrow> http_Request C r ps qs)"

section \<open>The file service\<close>

text \<open>The routes of the file service: \<open>RegisterRoute\<close> takes \<open>/file\<close> off the route \<open>/files\<close>, so the list is offered there.\<close>

lemma file_Init_done:
  assumes "file_Init E cwd mkdir listFirst identity smClient reqs now server fs w = Ret (s, fs', Inr c, w')"
  shows "set (cs_FullServiceUris s) = {''/file/get/:fileName'', ''/files''}"
    and "cs_routes s ''/file/get/:fileName'' MessageTypeServiceGetRequest = Some FnFileGet"
    and "cs_routes s ''/files'' MessageTypeServiceGetRequest = Some FnFileList"
    and "cs_identity s = identity" and "c = \<lparr>rootDir = ''./fs/'', sectionSize = 10240\<rparr>" and "client_idle s i"
  using assms
  by (auto simp: file_Init_def Let_def NewFileController_def getRootDirOrCurrentDir_def FileServicePath_def FileServiceSectionSize_def
      FileServiceRouteGet_def FileServiceRouteListAll_def FileServiceID_def NewClientService_def ServicePrefix_def cs_RegisterRoute_def
      HasPrefix_def TrimPrefix_def default_Register_def NotifyHostForUpdate_def NewDefaultServiceHandler_def cs_FullServiceUris_def
      cs_routes_def client_idle_def NewServiceTaskQueue_def queue_Has_def split: if_splits)

text \<open>What the client answers to a request for a file, by what the controller finds.\<close>

definition file_reply :: "'q client_env \<Rightarrow> string \<Rightarrow> Message \<Rightarrow> Message" where
  "file_reply C name m =
     (let me = rd_Id (ce_identity C) in
      case fc_GetFile (ce_dirSize C) (ce_files C) (ce_fs C) name of
        Inl err \<Rightarrow> NewInternalErrorMessage (m_id m) me (m_from m) (m_uri m) err
      | Inr data \<Rightarrow> NewMessage (m_id m) me (m_from m) (m_uri m) MessageTypeSvcResponseOK data)"

text \<open>On an asynchronous connection the only handler of a route is called for every type.\<close>

lemma client_Execute_handled:
  assumes "req_routed r pat ps qs conn" and "map_of h pat = Some m"
    and "map_of m (messageType (sr_message r)) = Some f \<or> (\<exists>n x. conn = Some n \<and> IsAsyncType n \<and> m = [(x, f)])"
    and "sr_status r = ServiceRequestStatusProcessing" and "sr_barrier r = Some NewStatefulBarrier"
  shows "default_Handle call h r = call f r ps qs"
proof -
  have ok: "req_ok r" using assms(4,5) by (simp add: req_ok_def NewStatefulBarrier_def NewWaitLock_def)
  have "select_handler h (case conn of None \<Rightarrow> False | Some n \<Rightarrow> IsAsyncType n) pat r = (r, Ret (Some f))"
    using assms(3) by (subst select_handler_branches [OF ok assms(4)]) (auto simp: assms(2,5) simp del: map_of_eq_Some_iff)
  then show ?thesis by (simp add: default_Handle_select [OF assms(1)])
qed

lemma open_request_resolves:
  assumes "sr_status r = ServiceRequestStatusProcessing" and "sr_barrier r = Some NewStatefulBarrier"
  shows "\<exists>r'. Resolve r (Some m) = (r', Ret None) \<and> Response r' = Some (Ret m)"
proof -
  have "req_ok r" using assms by (simp add: req_ok_def NewStatefulBarrier_def NewWaitLock_def)
  from Resolve_responds [OF this assms(1)] assms(2) show ?thesis by (metis option.discI prod.collapse)
qed

lemma file_Get_executed:
  assumes "default_Handle (client_call C) h r = file_Get C r ps qs" and "param ps ''fileName'' = name" and "name \<noteq> []"
    and "sr_status r = ServiceRequestStatusProcessing" and "sr_barrier r = Some NewStatefulBarrier"
  shows "\<exists>r'. client_Execute (rd_Id (ce_identity C)) (client_call C) h r = (r', Ret ()) \<and> Response r' = Some (Ret (file_reply C name (sr_message r)))"
proof -
  obtain r' where "Resolve r (Some (file_reply C name (sr_message r))) = (r', Ret None)" "Response r' = Some (Ret (file_reply C name (sr_message r)))"
    using open_request_resolves [OF assms(4,5)] by blast
  then show ?thesis
    by (cases "fc_GetFile (ce_dirSize C) (ce_files C) (ce_fs C) name")
      (use assms(1-3) in \<open>simp_all add: client_Execute_def file_Get_def Let_def resolve_with_def resolve_text_def cs_ResolveByResponse_def
        file_reply_def\<close>)
qed

text \<open>
  C37. A request for a file at the client. When the file service was initialised and the uri of the message is matched to its
  route, the client answers on the same connection with exactly one message: the bytes of the file up to 51200 bytes, and
  otherwise an internal error that says why.
\<close>

theorem file_request_is_answered:
  assumes "file_Init E cwd mkdir listFirst (ce_identity C) smClient reqs now server fs w = Ret (s, fs', Inr (ce_files C), w')"
    and "cm_heap cm b = s\<lparr>cs_status := st\<rparr>" and "cm_MatchServiceByUri cm (m_uri m) = Inr ctx" and "Value ctx = Some b"
    and "UriPattern ctx = ''/file/get/:fileName''" and "PathParams ctx ''fileName'' = Some name" and "name \<noteq> []"
    and "messageType m = MessageTypeServiceGetRequest" and "ce_fs C (''./fs/'' @ name) = Some (Regular bytes)"
    and "\<And>x. wr x = None" and "\<not> oc_open c"
  shows "\<exists>cm' c'. client_handle_request text wr (client_call C) identity a m c cm = Finished (cm', c', Ret None) \<and>
    oc_out c' = oc_out c @ [if length bytes \<le> 51200
      then NewMessage (m_id m) (rd_Id (ce_identity C)) (m_from m) (m_uri m) MessageTypeSvcResponseOK bytes
      else NewInternalErrorMessage (m_id m) (rd_Id (ce_identity C)) (m_from m) (m_uri m) ''file is too large to request in one time'']"
proof -
  note init = file_Init_done [OF assms(1)]
  have reply: "file_reply C name m = (if length bytes \<le> 51200
      then NewMessage (m_id m) (rd_Id (ce_identity C)) (m_from m) (m_uri m) MessageTypeSvcResponseOK bytes
      else NewInternalErrorMessage (m_id m) (rd_Id (ce_identity C)) (m_from m) (m_uri m) ''file is too large to request in one time'')"
    using assms(9) init(5)
    by (simp add: file_reply_def Let_def fc_GetFile_def fc_open_def stat_Size_def fc_read_def ReadAt_def to_int64_id)
  show ?thesis unfolding reply [symmetric]
  proof (rule client_handle_executed [OF assms(3,4)])
    show "client_idle (cm_heap cm b) (m_id m)" using init(6) by (simp add: assms(2) client_idle_def)
    fix r assume r: "req_routed r (UriPattern ctx) (PathParams ctx) (QueryParams ctx) (Some (ci_type (oc_info c)))" "sr_message r = m"
      "sr_status r = ServiceRequestStatusProcessing" "sr_barrier r = Some NewStatefulBarrier"
    obtain hs where hs: "map_of (cs_handler (cm_heap cm b)) (UriPattern ctx) = Some hs" "map_of hs (messageType (sr_message r)) = Some FnFileGet"
      using init(2) r(2) by (auto simp: assms(2,5,8) cs_routes_def split: option.splits)
    have "default_Handle (client_call C) (cs_handler (cm_heap cm b)) r = file_Get C r (PathParams ctx) (QueryParams ctx)"
      using client_Execute_handled [OF r(1) hs(1) disjI1 [OF hs(2)] r(3,4), of "client_call C"] by (simp add: client_call_def)
    from file_Get_executed [OF this _ assms(7) r(3,4)] r(2)
    show "\<exists>r'. client_Execute (rd_Id (cs_identity (cm_heap cm b))) (client_call C) (cs_handler (cm_heap cm b)) r = (r', Ret ()) \<and>
      Response r' = Some (Ret (file_reply C name m))"
      using init(4) by (simp add: assms(2,6) param_def)
  qed (use assms(10,11) in auto)
qed

section \<open>The HTTP service\<close>

lemma map_of_rev_distinct: "distinct (map fst xs) \<Longrightarrow> map_of (rev xs) = map_of xs"
  by (subst map_of_inject_set) (simp_all flip: rev_map)

lemma concat_params: "kvs \<noteq> [] \<Longrightarrow> concat (map (\<lambda>(k, v). k @ CHR ''='' # v @ ''&'') kvs) = render_query kvs @ ''&''"
  by (induction kvs rule: render_query.induct) auto

text \<open>The loop of \<open>assembleRequestUrl\<close> writes the rendered query; the last byte it cuts off is the separator.\<close>

lemma assembleRequestUrl_query:
  "assembleRequestUrl path kvs = local_server @ path @ (if kvs = [] then [] else CHR ''?'' # render_query kvs)"
  by (cases "kvs = []") (simp_all add: assembleRequestUrl_def Let_def concat_params butlast_append)

lemma local_server_no_query: "CHR ''?'' \<notin> set local_server"
  by (simp add: local_server_def)

text \<open>
  The url of the request carries the path and the query parameters of the message: reading it as the router reads a uri
  gives back the path and the same parameters, in whatever order the loop visits them.
\<close>

theorem request_url_roundtrip:
  assumes "CHR ''?'' \<notin> set path" and "\<forall>(k, v) \<in> set (rng qs). query_word k \<and> query_word v"
    and "distinct (map fst (rng qs))" and "map_of (rng qs) = qs"
  shows "\<exists>q. splitQueryParams (assembleRequestUrl path (rng qs)) = (q, local_server @ path) \<and> parseQueryParams q = Inr qs"
proof (cases "rng qs = []")
  case True
  then have "qs = Map.empty" using assms(4) by simp
  moreover have "CHR ''?'' \<notin> set (local_server @ path)" using assms(1) local_server_no_query by simp
  then have "splitQueryParams (local_server @ path) = ([], local_server @ path)"
    by (simp only: last_index_None [symmetric]) (simp add: splitQueryParams_def del: last_index_None)
  ultimately show ?thesis using True by (simp add: assembleRequestUrl_query parseQueryParams_def)
next
  case False
  have mark: "CHR ''?'' \<notin> set (render_query (rng qs))" using render_query_set [OF assms(2)] by auto
  have "splitQueryParams (assembleRequestUrl path (rng qs)) = (render_query (rng qs), local_server @ path)"
    using last_index_append [OF mark, of "local_server @ path"] False by (simp add: splitQueryParams_def assembleRequestUrl_query)
  moreover have "parseQueryParams (render_query (rng qs)) = Inr qs"
    using parseQueryParams_render [OF False assms(2)] assms(3,4) by (simp add: map_of_rev_distinct)
  ultimately show ?thesis by blast
qed

text \<open>
  A wrapped HTTP request survives the way from the hub to the client: what the client's HTTP service sends is the request
  that the hub received, with the new url, when the JSON decoder reads back what the encoder wrote.
\<close>

theorem wrapped_request_roundtrip:
  assumes "EncodeToWHTTPRequestJson marshal r = Inr encoded" and "\<And>x e. marshal x = Inr e \<Longrightarrow> unmarshal e = Inr x"
    and "newRequest (hr_method r) target = Inr path" and "hr_method r \<noteq> []"
  shows "\<exists>whr. unmarshal encoded = Inr whr \<and> FromWHTTPRequest newRequest target whr = Inr (r\<lparr>hr_url := target, hr_path := path\<rparr>)"
proof -
  obtain body where body: "hr_body r = Inr body"
      "marshal \<lparr>wh_Method = hr_method r, wh_Header = hr_headers r, wh_Body = body, wh_RemoteAddr = hr_remote r\<rparr> = Inr encoded"
    using assms(1) by (auto simp: EncodeToWHTTPRequestJson_def ToWHTTPRequest_def split: sum.splits)
  from assms(2) [OF this(2)] body(1) assms(3,4) show ?thesis
    by (intro exI [of _ "\<lparr>wh_Method = hr_method r, wh_Header = hr_headers r, wh_Body = body, wh_RemoteAddr = hr_remote r\<rparr>"])
      (simp add: FromWHTTPRequest_def)
qed

lemma http_Request_answers:
  assumes "ce_unmarshal C (payload m) = Inr whr"
    and "FromWHTTPRequest (ce_newRequest C) (assembleRequestUrl (param ps ''path'') (ce_range C qs)) whr = Inr req"
    and "ce_marshalResponse C (ce_request C req) = Inr marshalled" and "sr_message r = m"
    and "sr_status r = ServiceRequestStatusProcessing" and "sr_barrier r = Some NewStatefulBarrier"
  shows "\<exists>r'. http_Request C r ps qs = (r', Ret None) \<and>
    Response r' = Some (Ret (NewMessage (m_id m) (rd_Id (ce_identity C)) (m_from m) (m_uri m) MessageTypeSvcResponseOK marshalled))"
  using open_request_resolves [OF assms(5,6), of "NewMessage (m_id m) (rd_Id (ce_identity C)) (m_from m) (m_uri m) MessageTypeSvcResponseOK marshalled"]
    assms(1-4)
  by (auto simp: http_Request_def Let_def cs_ResolveByResponse_def)

lemma http_Init_done:
  assumes "http_Init E identity smClient reqs now server w = Ret (s, None, w')"
  shows "cs_FullServiceUris s = [''/http/*path'']" and "cs_handler s = [(''/http/*path'', [(MessageTypeServiceGetRequest, FnHttpRequest)])]"
    and "cs_identity s = identity" and "client_idle s i"
  using assms
  by (auto simp: http_Init_def HTTPClientServiceRouteEcho_def HTTPClientServiceId_def NewClientService_def ServicePrefix_def cs_RegisterRoute_def
      HasPrefix_def TrimPrefix_def default_Register_def NotifyHostForUpdate_def NewDefaultServiceHandler_def cs_FullServiceUris_def
      cs_routes_def client_idle_def NewServiceTaskQueue_def queue_Has_def Let_def split: if_splits)

text \<open>
  A wrapped request that reaches the HTTP service of a client, as a GET or over a socket in any type, is sent to the server
  on the client's machine, and the hub gets exactly one answer, the encoded response.
\<close>

theorem wrapped_request_is_forwarded:
  assumes "http_Init E (ce_identity C) smClient reqs now server w = Ret (s, None, w')" and "cm_heap cm b = s\<lparr>cs_status := st\<rparr>"
    and "cm_MatchServiceByUri cm (m_uri m) = Inr ctx" and "Value ctx = Some b" and "UriPattern ctx = ''/http/*path''"
    and "PathParams ctx ''path'' = Some path" and "messageType m = MessageTypeServiceGetRequest \<or> IsAsyncType (ci_type (oc_info c))"
    and "ce_unmarshal C (payload m) = Inr whr"
    and "FromWHTTPRequest (ce_newRequest C) (assembleRequestUrl path (ce_range C (QueryParams ctx))) whr = Inr req"
    and "ce_marshalResponse C (ce_request C req) = Inr marshalled" and "\<And>x. wr x = None" and "\<not> oc_open c"
  shows "\<exists>cm' c'. client_handle_request text wr (client_call C) identity a m c cm = Finished (cm', c', Ret None) \<and>
    oc_out c' = oc_out c @ [NewMessage (m_id m) (rd_Id (ce_identity C)) (m_from m) (m_uri m) MessageTypeSvcResponseOK marshalled]"
proof (rule client_handle_executed [OF assms(3,4)])
  note init = http_Init_done [OF assms(1)]
  show "client_idle (cm_heap cm b) (m_id m)" using init(4) by (simp add: assms(2) client_idle_def)
  fix r assume r: "req_routed r (UriPattern ctx) (PathParams ctx) (QueryParams ctx) (Some (ci_type (oc_info c)))" "sr_message r = m"
    "sr_status r = ServiceRequestStatusProcessing" "sr_barrier r = Some NewStatefulBarrier"
  let ?hs = "[(MessageTypeServiceGetRequest, FnHttpRequest)]"
  have hs: "map_of (cs_handler (cm_heap cm b)) (UriPattern ctx) = Some ?hs"
    "map_of ?hs (messageType (sr_message r)) = Some FnHttpRequest \<or>
      (\<exists>n x. Some (ci_type (oc_info c)) = Some n \<and> IsAsyncType n \<and> ?hs = [(x, FnHttpRequest)])"
    using init(2) r(2) assms(7) by (auto simp: assms(2,5))
  have "default_Handle (client_call C) (cs_handler (cm_heap cm b)) r = http_Request C r (PathParams ctx) (QueryParams ctx)"
    using client_Execute_handled [OF r(1) hs r(3,4), of "client_call C"] by (simp add: client_call_def)
  moreover have "param (PathParams ctx) ''path'' = path" by (simp add: param_def assms(6))
  note http_Request_answers [OF assms(8) _ assms(10) r(2,3,4), of "PathParams ctx" "QueryParams ctx", unfolded this, OF assms(9)]
  ultimately show "\<exists>r'. client_Execute (rd_Id (cs_identity (cm_heap cm b))) (client_call C) (cs_handler (cm_heap cm b)) r = (r', Ret ()) \<and>
      Response r' = Some (Ret (NewMessage (m_id m) (rd_Id (ce_identity C)) (m_from m) (m_uri m) MessageTypeSvcResponseOK marshalled))"
    by (auto simp: client_Execute_def)
qed (use assms(11,12) in auto)

section \<open>The service connections\<close>

lemma put_conn_first:
  assumes "i < length cs" and "cs ! i = Some d" and "\<not> live d" and "\<forall>j < i. \<exists>e. cs ! j = Some e \<and> live e"
  shows "put_conn live c cs = cs[i := Some c]"
  using assms
proof (induction cs arbitrary: i)
  case (Cons x xs)
  show ?case
  proof (cases i)
    case (Suc j)
    have "\<exists>e. xs ! k = Some e \<and> live e" if "k < j" for k using Cons.prems(4) [rule_format, of "Suc k"] that by (simp add: Suc)
    moreover obtain e where "x = Some e" "live e" using Cons.prems(4) by (auto simp: Suc)
    ultimately show ?thesis using Cons.IH [of j] Cons.prems(1-3) by (simp add: Suc)
  qed (use Cons.prems in simp)
qed simp

lemma put_conn_length: "length (put_conn live c cs) = length cs"
  by (induction cs) auto

text \<open>
  When one of the service connections of the client is lost, the maintenance worker puts a new one in its place, after it has
  offered all services over it: then all places are live again. When the pool has no connection the worker
  ends, and no later loss is repaired.
\<close>

theorem lost_connection_is_replaced:
  assumes "ne_get E (put d w) = (Inr conn, w1)" and "w2 = update_providers_of E conn m w1" and "ne_live E conn w2"
    and "i < length (cm_conns m)" and "cm_conns m ! i = Some d" and "\<not> ne_live E d w2"
    and "\<forall>j < length (cm_conns m). j \<noteq> i \<longrightarrow> (\<exists>e. cm_conns m ! j = Some e \<and> ne_live E e w2)"
  shows "maintainConnectionWorker E put [Unfit d] m w = Ret (m\<lparr>cm_conns := (cm_conns m)[i := Some conn]\<rparr>, w2, False) \<and>
    list_all (\<lambda>c. \<exists>e. c = Some e \<and> ne_live E e w2) ((cm_conns m)[i := Some conn]) \<and>
    (ne_get E (put d w2) = (Inl err, w3) \<longrightarrow> maintainConnectionWorker E put (Unfit d # es) m w2 = Ret (m, w3, True))"
proof (intro conjI impI)
  have "put_conn (\<lambda>c. ne_live E c w2) conn (cm_conns m) = (cm_conns m)[i := Some conn]"
    by (rule put_conn_first [where d = d and i = i]) (use assms(4-7) in auto)
  then show "maintainConnectionWorker E put [Unfit d] m w = Ret (m\<lparr>cm_conns := (cm_conns m)[i := Some conn]\<rparr>, w2, False)"
    by (simp add: produceConnection_def assms(1) Let_def flip: assms(2))
  show "list_all (\<lambda>c. \<exists>e. c = Some e \<and> ne_live E e w2) ((cm_conns m)[i := Some conn])"
    using assms(3,4,7) by (auto simp: list_all_length nth_list_update)
qed (simp add: produceConnection_def)

section \<open>Witnesses\<close>

text \<open>A network in which connection 1 is lost and the pool hands out connection 7.\<close>

definition lossy_net :: "nat net_env" where
  "lossy_net = \<lparr>ne_request = (\<lambda>conn m w. ((None, None), w)), ne_newId = (\<lambda>w. ''m''), ne_formatTime = (\<lambda>_. ''now''),
     ne_live = (\<lambda>c _. c \<noteq> 1), ne_get = (\<lambda>w. (Inr 7, w))\<rparr>"

theorem lost_connection_is_replaced_witness:
  "maintainConnectionWorker lossy_net (\<lambda>_ w. w + 1) [Unfit 1] (sample_client_manager\<lparr>cm_conns := [Some 4, Some 1]\<rparr>) 0 =
     Ret (sample_client_manager\<lparr>cm_conns := [Some 4, Some 7]\<rparr>, 1, False)"
  using lost_connection_is_replaced [of lossy_net "\<lambda>_ w. w + 1" 1 0 7 1 1 "sample_client_manager\<lparr>cm_conns := [Some 4, Some 1]\<rparr>" 1]
  by (simp add: lossy_net_def update_providers_of_def sample_client_manager_def less_Suc_eq)

definition client_sample_env :: "string client_env" where
  "client_sample_env = \<lparr>ce_identity = sample_identity, ce_dirSize = 0, ce_files = \<lparr>rootDir = ''./fs/'', sectionSize = 10240\<rparr>,
     ce_fs = [''./fs'' \<mapsto> Directory [], ''./fs/a'' \<mapsto> Regular ''abc''], ce_marshalInfos = (\<lambda>_. Inr ''[]''),
     ce_unmarshal = (\<lambda>p. Inr \<lparr>wh_Method = ''GET'', wh_Header = [], wh_Body = p, wh_RemoteAddr = []\<rparr>), ce_newRequest = (\<lambda>m u. Inr u),
     ce_range = (\<lambda>_. []), ce_request = hr_url, ce_marshalResponse = Inr\<rparr>"

definition client_sample_conn :: out_conn where
  "client_sample_conn = \<lparr>oc_info = \<lparr>ci_type = 1, ci_addr = []\<rparr>, oc_open = False, oc_out = []\<rparr>"

definition sample_cm :: "string \<Rightarrow> client_fn ClientService \<Rightarrow> client_fn ClientServiceManager" where
  "sample_cm uri s = \<lparr>cm_trie = fst (Add NewTrieTree uri (Some 0) True), cm_services = [], cm_heap = (\<lambda>_. s\<lparr>cs_status := ServiceStatusRegistered\<rparr>),
     cm_conns = [], cm_client = sample_relay_client\<rparr>"

lemma client_sample_match:
  assumes "\<not> isl (Match (fst (Add NewTrieTree pat (Some (0 :: nat)) True)) u)"
  shows "cm_MatchServiceByUri (sample_cm pat s) u = Inr (projr (Match (fst (Add NewTrieTree pat (Some (0 :: nat)) True)) u))"
  using assms by (simp add: cm_MatchServiceByUri_def sample_cm_def)

lemma sample_file_Init:
  "\<exists>s. file_Init sample_net (Inl []) None False sample_identity None (\<lambda>_. NewServiceRequest sample_message) 0 sample_identity (ce_fs client_sample_env) [] =
     Ret (s, ce_fs client_sample_env, Inr (ce_files client_sample_env), [])"
  by (simp add: file_Init_def Let_def NewFileController_def getRootDirOrCurrentDir_def FileServicePath_def FileServiceSectionSize_def
      FileServiceRouteGet_def FileServiceRouteListAll_def FileServiceID_def NewClientService_def ServicePrefix_def cs_RegisterRoute_def
      HasPrefix_def TrimPrefix_def default_Register_def NotifyHostForUpdate_def client_sample_env_def)

theorem file_request_is_answered_witness:
  "\<exists>s cm' c'. client_handle_request (\<lambda>_. []) (\<lambda>_. None) (client_call client_sample_env) ''bob'' 5
       (NewMessage ''1'' ''amy'' ''bob'' ''/file/get/a'' MessageTypeServiceGetRequest []) client_sample_conn (sample_cm ''/file/get/:fileName'' s) =
       Finished (cm', c', Ret None) \<and>
     oc_out c' = [NewMessage ''1'' ''bob'' ''amy'' ''/file/get/a'' MessageTypeSvcResponseOK ''abc'']"
proof -
  let ?m = "NewMessage ''1'' ''amy'' ''bob'' ''/file/get/a'' MessageTypeServiceGetRequest []"
  let ?ctx = "projr (Match (fst (Add NewTrieTree ''/file/get/:fileName'' (Some (0 :: nat)) True)) ''/file/get/a'')"
  have ctx: "\<not> isl (Match (fst (Add NewTrieTree ''/file/get/:fileName'' (Some (0 :: nat)) True)) ''/file/get/a'')"
    "Value ?ctx = Some 0" "UriPattern ?ctx = ''/file/get/:fileName''" "PathParams ?ctx ''fileName'' = Some ''a''"
    by code_simp+
  obtain s where s: "file_Init sample_net (Inl []) None False (ce_identity client_sample_env) None (\<lambda>_. NewServiceRequest sample_message) 0 sample_identity
      (ce_fs client_sample_env) [] = Ret (s, ce_fs client_sample_env, Inr (ce_files client_sample_env), [])"
    using sample_file_Init by (auto simp: client_sample_env_def)
  have heap: "cm_heap (sample_cm ''/file/get/:fileName'' s) 0 = s\<lparr>cs_status := ServiceStatusRegistered\<rparr>" by (simp add: sample_cm_def)
  have mt: "cm_MatchServiceByUri (sample_cm ''/file/get/:fileName'' s) (m_uri ?m) = Inr ?ctx"
    using client_sample_match [OF ctx(1), of s] by (simp add: NewMessage_def)
  have "\<exists>cm' c'. client_handle_request (\<lambda>_. []) (\<lambda>_. None) (client_call client_sample_env) ''bob'' 5 ?m client_sample_conn (sample_cm ''/file/get/:fileName'' s) =
       Finished (cm', c', Ret None) \<and>
     oc_out c' = oc_out client_sample_conn @ [if length ''abc'' \<le> 51200
       then NewMessage (m_id ?m) (rd_Id (ce_identity client_sample_env)) (m_from ?m) (m_uri ?m) MessageTypeSvcResponseOK ''abc''
       else NewInternalErrorMessage (m_id ?m) (rd_Id (ce_identity client_sample_env)) (m_from ?m) (m_uri ?m) ''file is too large to request in one time'']"
    by (rule file_request_is_answered [OF s heap mt ctx(2,3,4)]) (simp_all add: NewMessage_def client_sample_env_def client_sample_conn_def)
  then show ?thesis by (auto simp: NewMessage_def client_sample_env_def sample_identity_def client_sample_conn_def)
qed

theorem request_url_roundtrip_witness:
  "\<exists>q. splitQueryParams (assembleRequestUrl ''a'' [(''x'', ''1''), (''y'', ''2'')]) = (q, local_server @ ''a'') \<and>
     parseQueryParams q = Inr (map_of [(''x'', ''1''), (''y'', ''2'')])"
  by (rule request_url_roundtrip [of "''a''" "\<lambda>_. [(''x'', ''1''), (''y'', ''2'')]"]) (simp_all add: query_word_def)

definition whr_text :: "WHttpRequest \<Rightarrow> string + string" where
  "whr_text r = (if r = \<lparr>wh_Method = ''GET'', wh_Header = [], wh_Body = ''b'', wh_RemoteAddr = []\<rparr> then Inr ''whr'' else Inl ''unsupported'')"

theorem wrapped_request_roundtrip_witness:
  "\<exists>whr. Inr \<lparr>wh_Method = ''GET'', wh_Header = [], wh_Body = ''b'', wh_RemoteAddr = []\<rparr> = (Inr whr :: string + WHttpRequest) \<and>
     FromWHTTPRequest (\<lambda>_ u. Inr u) ''u'' whr =
       Inr \<lparr>hr_method = ''GET'', hr_path = ''u'', hr_url = ''u'', hr_remote = [], hr_headers = [], hr_body = Inr ''b''\<rparr>"
proof -
  let ?r = "\<lparr>hr_method = ''GET'', hr_path = ''p'', hr_url = ''p'', hr_remote = [], hr_headers = [], hr_body = Inr ''b''\<rparr>"
  have enc: "EncodeToWHTTPRequestJson whr_text ?r = Inr ''whr''" by (simp add: EncodeToWHTTPRequestJson_def ToWHTTPRequest_def whr_text_def)
  have law: "Inr \<lparr>wh_Method = ''GET'', wh_Header = [], wh_Body = ''b'', wh_RemoteAddr = []\<rparr> = (Inr x :: string + WHttpRequest)" if "whr_text x = Inr e" for x e
    using that by (auto simp: whr_text_def split: if_splits)
  show ?thesis
    using wrapped_request_roundtrip [OF enc, where unmarshal = "\<lambda>_. Inr \<lparr>wh_Method = ''GET'', wh_Header = [], wh_Body = ''b'', wh_RemoteAddr = []\<rparr>"
        and newRequest = "\<lambda>_ u. Inr u" and target = "''u''" and path = "''u''", OF law] by simp
qed

theorem wrapped_request_is_forwarded_witness:
  "\<exists>s cm' c'. client_handle_request (\<lambda>_. []) (\<lambda>_. None) (client_call client_sample_env) ''bob'' 5
       (NewMessage ''1'' ''amy'' ''bob'' ''/http/a'' MessageTypeServiceGetRequest ''b'') client_sample_conn (sample_cm ''/http/*path'' s) =
       Finished (cm', c', Ret None) \<and>
     oc_out c' = [NewMessage ''1'' ''bob'' ''amy'' ''/http/a'' MessageTypeSvcResponseOK ''http://localhost:8888/a'']"
proof -
  let ?m = "NewMessage ''1'' ''amy'' ''bob'' ''/http/a'' MessageTypeServiceGetRequest ''b''"
  let ?ctx = "projr (Match (fst (Add NewTrieTree ''/http/*path'' (Some (0 :: nat)) True)) ''/http/a'')"
  let ?whr = "\<lparr>wh_Method = ''GET'', wh_Header = [], wh_Body = ''b'', wh_RemoteAddr = []\<rparr>"
  let ?req = "\<lparr>hr_method = ''GET'', hr_path = ''http://localhost:8888/a'', hr_url = ''http://localhost:8888/a'', hr_remote = [], hr_headers = [],
    hr_body = Inr ''b''\<rparr>"
  have ctx: "\<not> isl (Match (fst (Add NewTrieTree ''/http/*path'' (Some (0 :: nat)) True)) ''/http/a'')"
    "Value ?ctx = Some 0" "UriPattern ?ctx = ''/http/*path''" "PathParams ?ctx ''path'' = Some ''a''"
    by code_simp+
  obtain s where s: "http_Init sample_net (ce_identity client_sample_env) None (\<lambda>_. NewServiceRequest sample_message) 0 sample_identity [] = Ret (s, None, [])"
    by (simp add: http_Init_def HTTPClientServiceRouteEcho_def HTTPClientServiceId_def NewClientService_def ServicePrefix_def cs_RegisterRoute_def
      HasPrefix_def TrimPrefix_def default_Register_def NotifyHostForUpdate_def Let_def)
  have heap: "cm_heap (sample_cm ''/http/*path'' s) 0 = s\<lparr>cs_status := ServiceStatusRegistered\<rparr>" by (simp add: sample_cm_def)
  have mt: "cm_MatchServiceByUri (sample_cm ''/http/*path'' s) (m_uri ?m) = Inr ?ctx"
    using client_sample_match [OF ctx(1), of s] by (simp add: NewMessage_def)
  have "\<exists>cm' c'. client_handle_request (\<lambda>_. []) (\<lambda>_. None) (client_call client_sample_env) ''bob'' 5 ?m client_sample_conn (sample_cm ''/http/*path'' s) =
       Finished (cm', c', Ret None) \<and>
     oc_out c' = oc_out client_sample_conn @ [NewMessage (m_id ?m) (rd_Id (ce_identity client_sample_env)) (m_from ?m) (m_uri ?m) MessageTypeSvcResponseOK
       ''http://localhost:8888/a'']"
    by (rule wrapped_request_is_forwarded [OF s heap mt ctx(2,3,4), where whr = ?whr and req = ?req])
      (simp_all add: NewMessage_def client_sample_env_def client_sample_conn_def FromWHTTPRequest_def assembleRequestUrl_def local_server_def)
  then show ?thesis by (auto simp: NewMessage_def client_sample_env_def sample_identity_def client_sample_conn_def)
qed

end
