(* ===== verification/Spec2Isabelle.thy ===== *)
theory Spec2Isabelle
  imports Dispatcher RelayManagement JobPool LinkedList AsyncPool Timers HubClientFacts Notifications Modules Metering RequestReply ClientConnect NativeServices HttpPool ConnectionGroups Files Sessions
    CachedClients ServerStatus Injection HttpExchange Logging ClientServices
begin

text \<open>
  A verification development of the message hub \<open>whub\<close> (Go sources under \<open>src/\<close>).

  \<^bold>\<open>The program.\<close> A server (\<open>hub_server\<close>) takes messages from HTTP requests and WebSocket connections, runs them through
  middlewares (connection, authentication, block list), routes them by uri to a service and writes the
  service's answer back. A service is native (it runs handlers in the server) or relayed (it forwards the message to a
  connection of the client that provides it). A client (\<open>hub_client\<close>) connects to the server, registers the services it
  provides and answers the messages relayed to it. Both share the message format, roles, service requests, task queues
  and handlers of \<open>hub_common\<close> and the containers, pools and timers of \<open>common\<close>.

  \<^bold>\<open>Conventions\<close> (theory \<open>Prelude\<close>). Strings and byte slices are \<open>string\<close>. A call that may panic has a result of type \<open>go\<close>;
  an error return is a value of an option or sum type, and the texts of errors are kept where callers see them. Objects
  that are shared through pointers live in a heap of addresses. Go maps are association lists where the program ranges
  over them; a list argument then gives the order of the \<open>range\<close>. Numbers that the code keeps in a machine word are \<open>int\<close>
  with the wrap-around written out where it matters (\<open>to_int32\<close>, \<open>to_int64\<close>). Goroutines that interleave are steps of a
  relation whose atomic steps are the sections under a lock, the channel operations and the ends of waits; elsewhere a
  function models a call that is not interrupted. Log output is left out everywhere but in \<open>Logging\<close>, and calls of the metering module everywhere
  but in its own theory.

  \<^bold>\<open>Theories and sources.\<close>
  \<^item> \<open>UriTrie\<close>, \<open>UriTrieFacts\<close>, \<open>Routing\<close>: \<open>common/uri_trie/TrieTree.go\<close>. The trie, its well-formedness (\<open>trie_ok\<close>), the
    table of literal routes it stands for (\<open>routes\<close>), the laws of \<open>Add\<close>, \<open>Match\<close> and \<open>Remove\<close> on that table, path and
    query parameters. The locale \<open>uri_router\<close> states what a service manager needs of a router; the trie interprets it.
  \<^item> \<open>Messages\<close>: \<open>hub_common/messages\<close>; round trip through the wire format over an abstract FlatBuffers codec.
  \<^item> \<open>Roles\<close>: \<open>hub_common/roles/Identity.go\<close>. \<open>Barrier\<close>: \<open>common/async/barrier.go\<close>. \<open>AsyncPool\<close>: \<open>common/async/async.go\<close>, with
    callers, workers and \<open>Stop\<close> interleaved. \<open>JobPool\<close>: \<open>common/timed/timed.go\<close>. \<open>Timers\<close>: \<open>common/ctimer/CTimer.go\<close> and
    \<open>hub_common/health_check\<close>. \<open>RedBlackTree\<close>, \<open>RedBlackTreeFacts\<close> and \<open>LinkedList\<close>: \<open>common/data_structures\<close>.
  \<^item> \<open>Requests\<close>: \<open>ServiceRequest.go\<close> and \<open>ServicePool.go\<close>; \<open>Handlers\<close>: the handler maps and the executors; \<open>Services\<close>: native and
    relayed services; \<open>ServiceManager\<close>: \<open>ServiceManagerModule.go\<close> with its reachable states and invariant.
  \<^item> \<open>Throttle\<close>, \<open>BlockList\<close>, \<open>Connections\<close>, \<open>ConnectionFacts\<close>, \<open>Auth\<close>, \<open>Clients\<close>: the modules of \<open>hub_server/modules\<close> with
    their stores. \<open>Clients\<close> states the registry of clients as the locale \<open>client_registry\<close>.
    \<open>CachedClients\<close>: the store of clients in a database behind a Redis cache (\<open>common/redis\<close>, \<open>client_store\<close>).
    \<open>ServerStatus\<close>: observable values (\<open>common/observable\<close>) and the status module that publishes through one.
  \<^item> \<open>Middlewares\<close>: the middlewares, run in the order of a red-black tree of priorities. \<open>Dispatcher\<close>: from an incoming HTTP
    or socket message through the middlewares and the router to the service and back.
  \<^item> \<open>AccountServices\<close>, \<open>RelayManagement\<close>: the services the server itself offers (\<open>hub_server/services\<close>).
  \<^item> \<open>HubClient\<close>, \<open>HubClientFacts\<close>: \<open>hub_client\<close>: the service a client provides, its registration at the hub, the client's
    service manager and request handler. \<open>ClientConnect\<close>: the client's login and the retries of its connection, and its pool
    of connections as a step relation. \<open>Files\<close>: \<open>FileController.go\<close> over a given file system.
    \<open>Injection\<close>: the injection container of the client (\<open>common/ioc/Container.go\<close>).
    \<open>ClientServices\<close>: the file service, the HTTP service and the maintenance of the service connections.
  \<^item> \<open>HttpExchange\<close>: from a message of the client over the HTTP request to the message the hub dispatches, and from the answer
    of the hub over the HTTP response to the message of the client; the exchange of the server's descriptor.
  \<^item> \<open>Sessions\<close>: the goroutine of one socket connection at the server, from the upgrade check over the authentication and the
    read loop to the deferred close (\<open>websocket/wserver\<close>, \<open>hub_server/socket\<close>, \<open>hub_server/http\<close>), and the HTTP handler.
  \<^item> \<open>Notifications\<close>: the emitter of \<open>hub_common/notification\<close>, with the locale \<open>event_bus\<close>. \<open>RequestReply\<close>: \<open>Request\<close> of
    \<open>hub_common/connection/Connection.go\<close>, with its timer, its listener and the reading loop interleaved.
    \<open>ConnectionGroups\<close>: the ring of connections of \<open>hub_common/connection\<close>.
  \<^item> \<open>Modules\<close>: the module manager, its autofill and the loader of the core modules (\<open>hub_server/module_base\<close>,
    \<open>hub_server/modules\<close>). \<open>NativeServices\<close>: the start of the native services. \<open>Metering\<close>: the stop watches of
    \<open>hub_server/modules/metering\<close>. \<open>HttpPool\<close>: the workers of \<open>common/http/client.go\<close>.
    \<open>Logging\<close>: \<open>common/logger\<close>, with the callers and the worker of the logger interleaved, and the rotated log files.

  \<^bold>\<open>What is shown.\<close> Functional behaviour from the message to the answer on both sides (an HTTP request that the dispatcher
  finishes is answered, a request to a native or to a client service gets exactly its handler's answer, an unknown uri
  gets 404); agreement of the hub's and the client's routes; soundness of token authentication and of the middlewares;
  invariants of the stores, of the service and connection managers, of the pools and of the client's services over all
  reachable states; refinement of the containers to maps, lists and queues; round trips of the wire format; bounds of the
  throttle and of the timers; termination of the mutually recursive calls of the job pool. Where the code does not do
  what it means to, the theorem says what it does.

  \<^bold>\<open>Bounds and fuel.\<close> \<open>JobPool\<close> runs the mutual recursion of \<open>transitJobStatus\<close> and \<open>Cancel\<close> with a depth, and
  \<open>job_pool_calls_end\<close> shows that 3 and 2 are enough between two calls. In \<open>CachedClients\<close>, \<open>ServerStatus\<close>
  and \<open>Injection\<close> the recursion may not end: there a \<open>partial_function (option)\<close> gives \<open>None\<close> for a call that does not return,
  and the theorems say which calls return and which do not. All other loops are structural or have a measure.
  The invariants quantify over runs of any length.

  \<^bold>\<open>Parameters.\<close> Code outside the repository is an argument of the definitions: the JWT library, FlatBuffers, JSON and
  time formats, Redis and the object mapper of the database (with the laws \<open>redis_laws\<close> and \<open>gorm_laws\<close>), the network and the
  clock. What the program finds by reflection (types, fields, tags) is data of the models.

  \<^bold>\<open>Not modelled.\<close> Input and output below the parameters (sockets, listeners, log writers, database drivers), deep
  copies by reflection, generated code, configuration and the wiring of components, benchmarks and test
  helpers, code that nothing calls (the old HTTP client, the TCP transport), and the stubs of \<open>pubsub_v2\<close>; PROJECT.json
  lists them by component.
\<close>

end
